(* ===== verification/Prelude.thy ===== *)
theory Prelude
  imports Main "HOL-Library.Char_ord" "HOL-Library.List_Lexorder"
begin

text \<open>
  What every component shares: the results and effects of the JavaScript code, and the rules
  that carry the component proofs.

  A function of the source that throws \<open>new Error(m)\<close> is a function into
  \<open>string + 'a\<close>, with \<open>Inl m\<close> for the thrown message.  A method with side effects is an
  \<open>action\<close>: it takes the state of everything it may write to and returns its result
  \<^emph>\<open>and\<close> the state it leaves, because an exception in JavaScript does not undo the writes
  made before it.  Strings are HOL strings (lists of 8-bit characters); the linear orders of
  \<open>Char_ord\<close> and \<open>List_Lexorder\<close> make \<open><\<close> on them the code-unit order of JavaScript's
  string comparison and of \<open>Array.prototype.sort\<close>.
\<close>

named_theorems wp_simps \<open>weakest preconditions of the effect combinators and operations\<close>
named_theorems keeps_intros \<open>frame rules: what an action leaves alone\<close>
named_theorems moves_intros \<open>relations between the states before and after an action\<close>

section \<open>Results\<close>

type_synonym 'a result = "string + 'a"

definition bindR :: "'a result \<Rightarrow> ('a \<Rightarrow> 'b result) \<Rightarrow> 'b result" where
  "bindR r f = (case r of Inl e \<Rightarrow> Inl e | Inr x \<Rightarrow> f x)"

text \<open>\<open>if (!b) throw new Error(e)\<close>\<close>

definition requireR :: "bool \<Rightarrow> string \<Rightarrow> unit result" where
  "requireR b e = (if b then Inr () else Inl e)"

lemma bindR_simps [simp]:
  "bindR (Inl e) f = Inl e"
  "bindR (Inr x) f = f x"
  by (simp_all add: bindR_def)

lemma bindR_eq_Inr: "bindR r f = Inr y \<longleftrightarrow> (\<exists>x. r = Inr x \<and> f x = Inr y)"
  by (cases r) simp_all

lemma bindR_eq_Inl: "bindR r f = Inl e \<longleftrightarrow> r = Inl e \<or> (\<exists>x. r = Inr x \<and> f x = Inl e)"
  by (cases r) simp_all

lemma requireR_eq_Inr [simp]: "requireR b e = Inr u \<longleftrightarrow> b"
  by (simp add: requireR_def)

lemma requireR_eq_Inl [simp]: "requireR b e = Inl e' \<longleftrightarrow> \<not> b \<and> e' = e"
  by (auto simp: requireR_def)

lemma requireR_simps [simp]:
  "requireR True e = Inr ()"
  "requireR False e = Inl e"
  by (simp_all add: requireR_def)

definition is_ok :: "'a result \<Rightarrow> bool" where
  "is_ok r = (case r of Inl _ \<Rightarrow> False | Inr _ \<Rightarrow> True)"

lemma is_ok_simps [simp]:
  "is_ok (Inr x)"
  "\<not> is_ok (Inl e)"
  by (simp_all add: is_ok_def)

lemma is_ok_iff: "is_ok r \<longleftrightarrow> (\<exists>x. r = Inr x)"
  by (cases r) simp_all

section \<open>Actions\<close>

type_synonym ('s, 'a) action = "'s \<Rightarrow> 'a result \<times> 's"

definition returnA :: "'a \<Rightarrow> ('s, 'a) action" where
  "returnA x = (\<lambda>s. (Inr x, s))"

definition raiseA :: "string \<Rightarrow> ('s, 'a) action" where
  "raiseA e = (\<lambda>s. (Inl e, s))"

definition bindA :: "('s, 'a) action \<Rightarrow> ('a \<Rightarrow> ('s, 'b) action) \<Rightarrow> ('s, 'b) action" where
  "bindA m f = (\<lambda>s. case m s of (Inl e, s') \<Rightarrow> (Inl e, s') | (Inr x, s') \<Rightarrow> f x s')"

definition thenA :: "('s, 'a) action \<Rightarrow> ('s, 'b) action \<Rightarrow> ('s, 'b) action" where
  "thenA m n = bindA m (\<lambda>_. n)"

text \<open>\<open>if (b) m\<close> as a statement\<close>

definition whenA :: "bool \<Rightarrow> ('s, unit) action \<Rightarrow> ('s, unit) action" where
  "whenA b m = (if b then m else returnA ())"

definition readA :: "('s \<Rightarrow> 'a) \<Rightarrow> ('s, 'a) action" where
  "readA f = (\<lambda>s. (Inr (f s), s))"

definition modifyA :: "('s \<Rightarrow> 's) \<Rightarrow> ('s, unit) action" where
  "modifyA f = (\<lambda>s. (Inr (), f s))"

text \<open>A call of a pure function that may throw\<close>

definition liftA :: "'a result \<Rightarrow> ('s, 'a) action" where
  "liftA r = (\<lambda>s. (r, s))"

text \<open>\<open>try { m } catch (error) { h error }\<close>\<close>

definition catchA :: "('s, 'a) action \<Rightarrow> (string \<Rightarrow> ('s, 'a) action) \<Rightarrow> ('s, 'a) action" where
  "catchA m h = (\<lambda>s. case m s of (Inl e, s') \<Rightarrow> h e s' | (Inr x, s') \<Rightarrow> (Inr x, s'))"

text \<open>\<open>try { m } finally { n }\<close>: an exception of \<open>n\<close> replaces the outcome of \<open>m\<close>\<close>

definition finallyA :: "('s, 'a) action \<Rightarrow> ('s, unit) action \<Rightarrow> ('s, 'a) action" where
  "finallyA m n = (\<lambda>s. case m s of (r, s') \<Rightarrow>
     (case n s' of (Inl e, s'') \<Rightarrow> (Inl e, s'') | (Inr _, s'') \<Rightarrow> (r, s'')))"

text \<open>\<open>for (const x of xs) body(x)\<close>\<close>

fun forA :: "'a list \<Rightarrow> ('a \<Rightarrow> ('s, unit) action) \<Rightarrow> ('s, unit) action" where
  "forA [] body = returnA ()"
| "forA (x # xs) body = thenA (body x) (forA xs body)"

text \<open>
  A database transaction (\<open>BEGIN\<close> ... \<open>COMMIT\<close>, with \<open>ROLLBACK\<close> and rethrow in the catch):
  an exception leaves the database as it was.
\<close>

definition transactionA :: "('s, 'a) action \<Rightarrow> ('s, 'a) action" where
  "transactionA m = (\<lambda>s. case m s of (Inl e, _) \<Rightarrow> (Inl e, s) | (Inr x, s') \<Rightarrow> (Inr x, s'))"

section \<open>Weakest preconditions\<close>

definition wp :: "('s, 'a) action \<Rightarrow> ('a result \<Rightarrow> 's \<Rightarrow> bool) \<Rightarrow> 's \<Rightarrow> bool" where
  "wp m Q s = (case m s of (r, s') \<Rightarrow> Q r s')"

lemma wpI: "(\<And>r s'. m s = (r, s') \<Longrightarrow> Q r s') \<Longrightarrow> wp m Q s"
  by (auto simp: wp_def split: prod.splits)

lemma wpD: "wp m Q s \<Longrightarrow> m s = (r, s') \<Longrightarrow> Q r s'"
  by (simp add: wp_def)

lemma wp_mono: "wp m P s \<Longrightarrow> (\<And>r s'. P r s' \<Longrightarrow> Q r s') \<Longrightarrow> wp m Q s"
  by (auto simp: wp_def split: prod.splits)

lemma wp_returnA [wp_simps]: "wp (returnA x) Q s = Q (Inr x) s"
  by (simp add: wp_def returnA_def)

lemma wp_raiseA [wp_simps]: "wp (raiseA e) Q s = Q (Inl e) s"
  by (simp add: wp_def raiseA_def)

lemma wp_bindA [wp_simps]:
  "wp (bindA m f) Q s =
     wp m (\<lambda>r s'. case r of Inl e \<Rightarrow> Q (Inl e) s' | Inr x \<Rightarrow> wp (f x) Q s') s"
  by (simp add: wp_def bindA_def split: prod.splits sum.splits)

lemma wp_thenA [wp_simps]:
  "wp (thenA m n) Q s =
     wp m (\<lambda>r s'. case r of Inl e \<Rightarrow> Q (Inl e) s' | Inr _ \<Rightarrow> wp n Q s') s"
  by (simp add: thenA_def wp_bindA)

lemma wp_whenA [wp_simps]: "wp (whenA b m) Q s = (if b then wp m Q s else Q (Inr ()) s)"
  by (simp add: whenA_def wp_returnA)

lemma wp_readA [wp_simps]: "wp (readA f) Q s = Q (Inr (f s)) s"
  by (simp add: wp_def readA_def)

lemma wp_modifyA [wp_simps]: "wp (modifyA f) Q s = Q (Inr ()) (f s)"
  by (simp add: wp_def modifyA_def)

lemma wp_liftA [wp_simps]: "wp (liftA r) Q s = Q r s"
  by (simp add: wp_def liftA_def)

lemma wp_catchA [wp_simps]:
  "wp (catchA m h) Q s =
     wp m (\<lambda>r s'. case r of Inl e \<Rightarrow> wp (h e) Q s' | Inr x \<Rightarrow> Q (Inr x) s') s"
  by (simp add: wp_def catchA_def split: prod.splits sum.splits)

lemma wp_finallyA [wp_simps]:
  "wp (finallyA m n) Q s =
     wp m (\<lambda>r s'. wp n (\<lambda>r' s''. case r' of Inl e \<Rightarrow> Q (Inl e) s'' | Inr _ \<Rightarrow> Q r s'') s') s"
  by (auto simp: wp_def finallyA_def split: prod.splits sum.splits)

lemma wp_transactionA [wp_simps]:
  "wp (transactionA m) Q s =
     wp m (\<lambda>r s'. case r of Inl e \<Rightarrow> Q (Inl e) s | Inr x \<Rightarrow> Q (Inr x) s') s"
  by (simp add: wp_def transactionA_def split: prod.splits sum.splits)

lemma wp_if [wp_simps]: "wp (if b then m else n) Q s = (if b then wp m Q s else wp n Q s)"
  by simp

lemma wp_snd: "wp m (\<lambda>_. P) s \<longleftrightarrow> P (snd (m s))"
  by (simp add: wp_def split: prod.splits)

lemma transactionA_error: "transactionA m s = (Inl e, s') \<Longrightarrow> s' = s"
  by (auto simp: transactionA_def split: prod.splits sum.splits)

lemma transactionA_ok:
  "transactionA m s = (Inr x, s') \<longleftrightarrow> m s = (Inr x, s')"
  by (auto simp: transactionA_def split: prod.splits sum.splits)

section \<open>Relations between the states before and after, and frames\<close>

definition moves :: "('s \<Rightarrow> 's \<Rightarrow> bool) \<Rightarrow> ('s, 'a) action \<Rightarrow> bool" where
  "moves R m \<longleftrightarrow> (\<forall>s. R s (snd (m s)))"

definition keeps :: "('s \<Rightarrow> 'b) \<Rightarrow> ('s, 'a) action \<Rightarrow> bool" where
  "keeps f m \<longleftrightarrow> (\<forall>s. f (snd (m s)) = f s)"

lemma movesI: "(\<And>s r s'. m s = (r, s') \<Longrightarrow> R s s') \<Longrightarrow> moves R m"
  by (metis moves_def prod.collapse)

lemma movesD: "moves R m \<Longrightarrow> m s = (r, s') \<Longrightarrow> R s s'"
  by (metis moves_def snd_conv)

lemma keepsI: "(\<And>s r s'. m s = (r, s') \<Longrightarrow> f s' = f s) \<Longrightarrow> keeps f m"
  by (metis keeps_def prod.collapse)

lemma keepsD: "keeps f m \<Longrightarrow> m s = (r, s') \<Longrightarrow> f s' = f s"
  by (metis keeps_def snd_conv)

lemma keeps_wp: "keeps f m \<Longrightarrow> (\<And>r s'. f s' = f s \<Longrightarrow> Q r s') \<Longrightarrow> wp m Q s"
  by (rule wpI) (metis keepsD)

lemma moves_returnA [moves_intros]: "reflp R \<Longrightarrow> moves R (returnA x)"
  by (simp add: moves_def returnA_def reflpD)

lemma moves_raiseA [moves_intros]: "reflp R \<Longrightarrow> moves R (raiseA x)"
  by (simp add: moves_def raiseA_def reflpD)

lemma moves_liftA [moves_intros]: "reflp R \<Longrightarrow> moves R (liftA x)"
  by (simp add: moves_def liftA_def reflpD)

lemma moves_readA [moves_intros]: "reflp R \<Longrightarrow> moves R (readA f)"
  by (simp add: moves_def readA_def reflpD)

lemma moves_bindA [moves_intros]:
  assumes "transp R" "moves R m" "\<And>x. moves R (f x)"
  shows "moves R (bindA m f)"
proof (rule movesI)
  fix s r s' assume *: "bindA m f s = (r, s')"
  obtain r1 s1 where m: "m s = (r1, s1)" by fastforce
  have 1: "R s s1" using assms(2) m by (rule movesD)
  show "R s s'"
  proof (cases r1)
    case (Inl e) with * m 1 show ?thesis by (simp add: bindA_def)
  next
    case (Inr x)
    with * m have "f x s1 = (r, s')" by (simp add: bindA_def)
    with assms(3) have "R s1 s'" by (rule movesD)
    with 1 assms(1) show ?thesis by (blast dest: transpD)
  qed
qed

lemma moves_thenA [moves_intros]:
  "transp R \<Longrightarrow> moves R m \<Longrightarrow> moves R n \<Longrightarrow> moves R (thenA m n)"
  by (simp add: thenA_def moves_bindA)

lemma moves_whenA [moves_intros]: "reflp R \<Longrightarrow> (b \<Longrightarrow> moves R m) \<Longrightarrow> moves R (whenA b m)"
  by (simp add: whenA_def moves_returnA)

lemma moves_if [moves_intros]:
  "(b \<Longrightarrow> moves R m) \<Longrightarrow> (\<not> b \<Longrightarrow> moves R n) \<Longrightarrow> moves R (if b then m else n)"
  by simp

lemma moves_catchA [moves_intros]:
  assumes "transp R" "moves R m" "\<And>e. moves R (h e)"
  shows "moves R (catchA m h)"
proof (rule movesI)
  fix s r s' assume *: "catchA m h s = (r, s')"
  obtain r1 s1 where m: "m s = (r1, s1)" by fastforce
  have 1: "R s s1" using assms(2) m by (rule movesD)
  show "R s s'"
  proof (cases r1)
    case (Inr x) with * m 1 show ?thesis by (simp add: catchA_def)
  next
    case (Inl e)
    with * m have "h e s1 = (r, s')" by (simp add: catchA_def)
    with assms(3) have "R s1 s'" by (rule movesD)
    with 1 assms(1) show ?thesis by (blast dest: transpD)
  qed
qed

lemma moves_finallyA [moves_intros]:
  assumes "transp R" "moves R m" "moves R n"
  shows "moves R (finallyA m n)"
proof (rule movesI)
  fix s r s' assume *: "finallyA m n s = (r, s')"
  obtain r1 s1 where m: "m s = (r1, s1)" by fastforce
  obtain r2 s2 where n: "n s1 = (r2, s2)" by fastforce
  have "s' = s2" using * m n by (auto simp: finallyA_def split: sum.splits)
  with movesD [OF assms(2) m] movesD [OF assms(3) n] assms(1) show "R s s'"
    by (blast dest: transpD)
qed

lemma moves_forA [moves_intros]:
  "reflp R \<Longrightarrow> transp R \<Longrightarrow> (\<And>x. x \<in> set xs \<Longrightarrow> moves R (body x)) \<Longrightarrow> moves R (forA xs body)"
  by (induction xs) (auto intro: moves_returnA moves_thenA)

lemma moves_transactionA [moves_intros]:
  "reflp R \<Longrightarrow> moves R m \<Longrightarrow> moves R (transactionA m)"
  by (rule movesI) (auto simp: transactionA_def dest: movesD reflpD split: prod.splits sum.splits)

lemma moves_case_option [moves_intros]:
  "(c = None \<Longrightarrow> moves R m) \<Longrightarrow> (\<And>x. c = Some x \<Longrightarrow> moves R (n x)) \<Longrightarrow>
   moves R (case c of None \<Rightarrow> m | Some x \<Rightarrow> n x)"
  by (cases c) auto

lemma moves_split [moves_intros]:
  "(\<And>a b. p = (a, b) \<Longrightarrow> moves R (f a b)) \<Longrightarrow> moves R (case p of (a, b) \<Rightarrow> f a b)"
  by (cases p) simp

lemma keeps_moves: "keeps f m \<longleftrightarrow> moves (\<lambda>s s'. f s' = f s) m"
  by (simp add: keeps_def moves_def)

lemma frame_rel [simp, intro]:
  "reflp (\<lambda>s s'. f s' = f s)"
  "transp (\<lambda>s s'. f s' = f s)"
  by (auto simp: reflp_def transp_def)

lemma keeps_returnA [keeps_intros]: "keeps f (returnA x)"
  by (simp add: keeps_moves moves_returnA)

lemma keeps_raiseA [keeps_intros]: "keeps f (raiseA x)"
  by (simp add: keeps_moves moves_raiseA)

lemma keeps_liftA [keeps_intros]: "keeps f (liftA r)"
  by (simp add: keeps_moves moves_liftA)

lemma keeps_readA [keeps_intros]: "keeps f (readA g)"
  by (simp add: keeps_moves moves_readA)

lemma keeps_bindA [keeps_intros]: "keeps f m \<Longrightarrow> (\<And>x. keeps f (g x)) \<Longrightarrow> keeps f (bindA m g)"
  by (simp add: keeps_moves moves_bindA)

lemma keeps_thenA [keeps_intros]: "keeps f m \<Longrightarrow> keeps f n \<Longrightarrow> keeps f (thenA m n)"
  by (simp add: keeps_moves moves_thenA)

lemma keeps_whenA [keeps_intros]: "keeps f m \<Longrightarrow> keeps f (whenA b m)"
  by (simp add: keeps_moves moves_whenA)

lemma keeps_if [keeps_intros]:
  "keeps f m \<Longrightarrow> keeps f n \<Longrightarrow> keeps f (if b then m else n)"
  by simp

lemma keeps_catchA [keeps_intros]: "keeps f m \<Longrightarrow> (\<And>e. keeps f (h e)) \<Longrightarrow> keeps f (catchA m h)"
  by (simp add: keeps_moves moves_catchA)

lemma keeps_finallyA [keeps_intros]: "keeps f m \<Longrightarrow> keeps f n \<Longrightarrow> keeps f (finallyA m n)"
  by (simp add: keeps_moves moves_finallyA)

lemma keeps_forA [keeps_intros]: "(\<And>x. keeps f (body x)) \<Longrightarrow> keeps f (forA xs body)"
  by (simp add: keeps_moves moves_forA)

lemma keeps_case_option [keeps_intros]:
  "keeps f m \<Longrightarrow> (\<And>x. keeps f (n x)) \<Longrightarrow> keeps f (case c of None \<Rightarrow> m | Some x \<Rightarrow> n x)"
  by (cases c) auto

section \<open>Actions on one part of the state\<close>

definition on_fst :: "('a, 'r) action \<Rightarrow> ('a \<times> 'b, 'r) action" where
  "on_fst m = (\<lambda>(a, b). case m a of (r, a') \<Rightarrow> (r, (a', b)))"

definition on_snd :: "('b, 'r) action \<Rightarrow> ('a \<times> 'b, 'r) action" where
  "on_snd m = (\<lambda>(a, b). case m b of (r, b') \<Rightarrow> (r, (a, b')))"

lemma wp_on_fst [wp_simps]: "wp (on_fst m) Q s = wp m (\<lambda>r a. Q r (a, snd s)) (fst s)"
  by (simp add: wp_def on_fst_def split: prod.splits)

lemma wp_on_snd [wp_simps]: "wp (on_snd m) Q s = wp m (\<lambda>r b. Q r (fst s, b)) (snd s)"
  by (simp add: wp_def on_snd_def split: prod.splits)

lemma keeps_fst_on_snd [keeps_intros]: "keeps fst (on_snd m)"
  by (simp add: keeps_def on_snd_def split: prod.splits)

lemma keeps_snd_on_fst [keeps_intros]: "keeps snd (on_fst m)"
  by (simp add: keeps_def on_fst_def split: prod.splits)

lemma on_fst_eq: "on_fst m s = (r, s') \<longleftrightarrow> m (fst s) = (r, fst s') \<and> snd s' = snd s"
  by (auto simp: on_fst_def split: prod.splits)

lemma on_snd_eq: "on_snd m s = (r, s') \<longleftrightarrow> m (snd s) = (r, snd s') \<and> fst s' = fst s"
  by (auto simp: on_snd_def split: prod.splits)

lemma bindA_Inr:
  "bindA m f s = (Inr y, s') \<longleftrightarrow> (\<exists>x s1. m s = (Inr x, s1) \<and> f x s1 = (Inr y, s'))"
  by (auto simp: bindA_def split: prod.splits sum.splits)

lemma thenA_Inr:
  "thenA m n s = (Inr y, s') \<longleftrightarrow> (\<exists>x s1. m s = (Inr x, s1) \<and> n s1 = (Inr y, s'))"
  by (simp add: thenA_def bindA_Inr)

lemma finallyA_Inr:
  "finallyA m n s = (Inr x, s') \<longleftrightarrow> (\<exists>s1 u. m s = (Inr x, s1) \<and> n s1 = (Inr u, s'))"
  by (auto simp: finallyA_def split: prod.splits sum.splits)

lemma action_eq_simps [simp]:
  "returnA x s = (r, s') \<longleftrightarrow> r = Inr x \<and> s' = s"
  "raiseA e s = (r, s') \<longleftrightarrow> r = Inl e \<and> s' = s"
  "liftA q s = (r, s') \<longleftrightarrow> q = r \<and> s' = s"
  "modifyA f s = (u, s') \<longleftrightarrow> u = Inr () \<and> s' = f s"
  "readA g s = (p, s') \<longleftrightarrow> p = Inr (g s) \<and> s' = s"
  by (auto simp: returnA_def raiseA_def liftA_def modifyA_def readA_def)

text \<open>An action that either changes nothing or succeeds: guards in front of a transaction\<close>

definition atomic :: "('s, 'a) action \<Rightarrow> bool" where
  "atomic m \<longleftrightarrow> (\<forall>s e s'. m s = (Inl e, s') \<longrightarrow> s' = s)"

named_theorems atomic_intros \<open>actions that change nothing when they fail\<close>

lemma atomicD: "atomic m \<Longrightarrow> m s = (Inl e, s') \<Longrightarrow> s' = s"
  by (simp add: atomic_def)

lemma atomic_transactionA [atomic_intros]: "atomic (transactionA m)"
  by (auto simp: atomic_def dest: transactionA_error)

lemma atomic_liftA [atomic_intros]: "atomic (liftA r)"
  by (simp add: atomic_def)

lemma atomic_raiseA [atomic_intros]: "atomic (raiseA e)"
  by (simp add: atomic_def)

lemma atomic_returnA [atomic_intros]: "atomic (returnA x)"
  by (simp add: atomic_def)

lemma atomic_guard [atomic_intros]: "atomic m \<Longrightarrow> atomic (thenA (liftA r) m)"
  by (auto simp: atomic_def thenA_def bindA_def liftA_def split: sum.splits)

lemma atomic_bind_liftA [atomic_intros]: "(\<And>x. atomic (m x)) \<Longrightarrow> atomic (bindA (liftA r) m)"
  by (auto simp: atomic_def bindA_def liftA_def split: sum.splits)

lemma atomic_bind_readA [atomic_intros]: "(\<And>x. atomic (m x)) \<Longrightarrow> atomic (bindA (readA f) m)"
  by (auto simp: atomic_def bindA_def readA_def)

lemma atomic_if [atomic_intros]: "atomic m \<Longrightarrow> atomic n \<Longrightarrow> atomic (if b then m else n)"
  by simp

section \<open>Text\<close>

text \<open>Decimal printing of a JavaScript integer in a template string\<close>

definition digit_char :: "nat \<Rightarrow> char" where
  "digit_char d = char_of (48 + d)"

fun show_nat :: "nat \<Rightarrow> string" where
  "show_nat n = (if n < 10 then [digit_char n] else show_nat (n div 10) @ [digit_char (n mod 10)])"

declare show_nat.simps [simp del]

definition show_int :: "int \<Rightarrow> string" where
  "show_int i = (if i < 0 then ''-'' @ show_nat (nat (- i)) else show_nat (nat i))"

definition starts_with :: "string \<Rightarrow> string \<Rightarrow> bool" where
  "starts_with p s \<longleftrightarrow> take (length p) s = p"

definition ends_with :: "string \<Rightarrow> string \<Rightarrow> bool" where
  "ends_with p s \<longleftrightarrow> starts_with (rev p) (rev s)"

lemma starts_with_iff: "starts_with p s \<longleftrightarrow> (\<exists>t. s = p @ t)"
  by (metis append_eq_conv_conj append_take_drop_id starts_with_def)

lemma ends_with_iff: "ends_with p s \<longleftrightarrow> (\<exists>t. s = t @ p)"
  by (metis ends_with_def rev_append rev_rev_ident starts_with_iff)

fun contains :: "string \<Rightarrow> string \<Rightarrow> bool" where
  "contains p [] = (p = [])"
| "contains p (c # s) = (starts_with p (c # s) \<or> contains p s)"

text \<open>\<open>[...new Set(xs)]\<close>: duplicates dropped, the first of each kept\<close>

fun uniq_from :: "'a list \<Rightarrow> 'a list \<Rightarrow> 'a list" where
  "uniq_from seen [] = []"
| "uniq_from seen (x # xs) =
     (if List.member seen x then uniq_from seen xs else x # uniq_from (x # seen) xs)"

definition uniq :: "'a list \<Rightarrow> 'a list" where
  "uniq xs = uniq_from [] xs"

lemma set_uniq_from: "set (uniq_from seen xs) = set xs - set seen"
  by (induction seen xs rule: uniq_from.induct) auto

lemma set_uniq [simp]: "set (uniq xs) = set xs"
  by (simp add: uniq_def set_uniq_from)

lemma distinct_uniq_from: "distinct (uniq_from seen xs)"
  by (induction seen xs rule: uniq_from.induct) (auto simp: set_uniq_from)

lemma distinct_uniq [simp]: "distinct (uniq xs)"
  by (simp add: uniq_def distinct_uniq_from)

lemma uniq_from_distinct: "distinct xs \<Longrightarrow> set xs \<inter> set seen = {} \<Longrightarrow> uniq_from seen xs = xs"
  by (induction seen xs rule: uniq_from.induct) auto

lemma uniq_distinct [simp]: "distinct xs \<Longrightarrow> uniq xs = xs"
  by (simp add: uniq_def uniq_from_distinct)

lemma uniq_empty_iff [simp]: "uniq xs = [] \<longleftrightarrow> xs = []"
  by (metis set_empty set_uniq)

text \<open>\<open>xs.join(sep)\<close> and \<open>s.split(sep)\<close> for a one-character separator\<close>

fun join :: "string \<Rightarrow> string list \<Rightarrow> string" where
  "join sep [] = []"
| "join sep [x] = x"
| "join sep (x # y # xs) = x @ sep @ join sep (y # xs)"

fun split_on :: "char \<Rightarrow> string \<Rightarrow> string list" where
  "split_on c [] = [[]]"
| "split_on c (x # xs) =
     (if x = c then [] # split_on c xs
      else (case split_on c xs of [] \<Rightarrow> [[x]] | y # ys \<Rightarrow> (x # y) # ys))"

abbreviation LF :: char where "LF \<equiv> CHR 0x0A"

lemma split_on_nonempty: "split_on c s \<noteq> []"
  by (induction s) (auto split: list.splits)

lemma split_on_no_sep: "c \<notin> set s \<Longrightarrow> split_on c s = [s]"
  by (induction s) auto

lemma split_on_append: "c \<notin> set a \<Longrightarrow> split_on c (a @ c # s) = a # split_on c s"
  by (induction a) auto

lemma split_on_members: "l \<in> set (split_on c s) \<Longrightarrow> c \<notin> set l"
proof (induction s arbitrary: l)
  case (Cons x xs)
  then show ?case using split_on_nonempty [of c xs]
    by (auto split: list.splits if_splits)
qed simp

lemma split_on_join:
  "ls \<noteq> [] \<Longrightarrow> (\<And>l. l \<in> set ls \<Longrightarrow> c \<notin> set l) \<Longrightarrow> split_on c (join [c] ls) = ls"
proof (induction "[c]" ls rule: join.induct)
  case (3 x y xs)
  then show ?case by (simp add: split_on_append)
qed (auto simp: split_on_no_sep)

text \<open>White space of \<open>trim\<close>, \<open>trimEnd\<close> and \<open>\s\<close> among the 8-bit code units\<close>

definition is_space :: "char \<Rightarrow> bool" where
  "is_space c \<longleftrightarrow> List.member
     [CHR 0x09, CHR 0x0A, CHR 0x0B, CHR 0x0C, CHR 0x0D, CHR 0x20, CHR 0xA0] c"

definition trim_start :: "string \<Rightarrow> string" where
  "trim_start s = dropWhile is_space s"

definition trim_end :: "string \<Rightarrow> string" where
  "trim_end s = rev (dropWhile is_space (rev s))"

definition trim :: "string \<Rightarrow> string" where
  "trim s = trim_end (trim_start s)"

lemma dropWhile_idem [simp]: "dropWhile P (dropWhile P xs) = dropWhile P xs"
  by (induction xs) auto

lemma trim_end_idem [simp]: "trim_end (trim_end s) = trim_end s"
  by (simp add: trim_end_def)

lemma hd_dropWhile_not: "dropWhile P xs \<noteq> [] \<Longrightarrow> \<not> P (hd (dropWhile P xs))"
  by (rule hd_dropWhile)

lemma trim_start_stable: "s = [] \<or> \<not> is_space (hd s) \<Longrightarrow> trim_start s = s"
  by (cases s) (auto simp: trim_start_def)

lemma trim_end_prefix: "\<exists>t. s = trim_end s @ t"
proof -
  have "rev s = takeWhile is_space (rev s) @ dropWhile is_space (rev s)" by simp
  then have "s = rev (dropWhile is_space (rev s)) @ rev (takeWhile is_space (rev s))"
    by (metis rev_append rev_rev_ident)
  then show ?thesis unfolding trim_end_def by blast
qed

lemma trim_idem [simp]: "trim (trim s) = trim s"
proof -
  obtain t where t: "trim_start s = trim s @ t"
    using trim_end_prefix [of "trim_start s"] by (auto simp: trim_def)
  have "trim s = [] \<or> \<not> is_space (hd (trim s))"
  proof (cases "trim s = []")
    case False
    then have "hd (trim s) = hd (trim_start s)" "trim_start s \<noteq> []"
      using t by (metis hd_append2, metis append_is_Nil_conv)
    then show ?thesis by (metis hd_dropWhile_not trim_start_def)
  qed simp
  then have "trim_start (trim s) = trim s" by (rule trim_start_stable)
  then show ?thesis by (simp add: trim_def [of "trim s"]) (simp add: trim_def)
qed

lemma set_trim: "set (trim s) \<subseteq> set s"
proof -
  have "set (dropWhile is_space (rev (dropWhile is_space s))) \<subseteq> set s"
    by (auto dest!: set_dropWhileD)
  then show ?thesis by (simp add: trim_def trim_end_def trim_start_def)
qed

end
