(* ===== verification/JsValue.thy ===== *)
theory JsValue
  imports Prelude
begin

text \<open>
  Dynamically typed values, for the functions that validate what they are given (a parsed JSON
  body, a cursor, a manifest, an environment).  \<open>JInt\<close> is a number that is an integer,
  \<open>JFloat\<close> any other number, by its printed form; objects are association lists of their own
  properties.  Integers are unbounded: the code's revision and change numbers stay below
  \<open>2^53\<close>, where JavaScript's arithmetic on them is exact.
\<close>

datatype jsval =
    JUndefined
  | JNull
  | JBool bool
  | JInt int
  | JFloat string
  | JStr string
  | JArr "jsval list"
  | JObj "(string \<times> jsval) list"

text \<open>\<open>v.k\<close> of an object; the properties of the built-in prototypes are not among the names read.\<close>

fun js_prop :: "jsval \<Rightarrow> string \<Rightarrow> jsval" where
  "js_prop (JObj ps) k = (case map_of ps k of None \<Rightarrow> JUndefined | Some v \<Rightarrow> v)"
| "js_prop _ k = JUndefined"

fun is_nullish :: "jsval \<Rightarrow> bool" where
  "is_nullish JUndefined = True"
| "is_nullish JNull = True"
| "is_nullish _ = False"

text \<open>\<open>v.k\<close>, which throws on \<open>undefined\<close> and \<open>null\<close>; \<open>v?.k\<close> is \<open>js_prop\<close> itself.\<close>

definition js_get :: "jsval \<Rightarrow> string \<Rightarrow> jsval result" where
  "js_get v k = (if is_nullish v then Inl ''TypeError'' else Inr (js_prop v k))"

text \<open>\<open>String(v)\<close>, also the coercion of \<open>RegExp.prototype.test\<close>\<close>

fun js_string :: "jsval \<Rightarrow> string"
  and js_elements :: "jsval list \<Rightarrow> string list" where
  "js_string JUndefined = ''undefined''"
| "js_string JNull = ''null''"
| "js_string (JBool b) = (if b then ''true'' else ''false'')"
| "js_string (JInt i) = show_int i"
| "js_string (JFloat s) = s"
| "js_string (JStr s) = s"
| "js_string (JArr vs) = join '','' (js_elements vs)"
| "js_string (JObj ps) = ''[object Object]''"
| "js_elements [] = []"
| "js_elements (v # vs) =
     (case v of JUndefined \<Rightarrow> [] | JNull \<Rightarrow> [] | _ \<Rightarrow> js_string v) # js_elements vs"

text \<open>\<open>Number.isInteger\<close>\<close>

fun js_integer :: "jsval \<Rightarrow> int option" where
  "js_integer (JInt i) = Some i"
| "js_integer _ = None"

text \<open>\<open>a === b\<close> between two values of different origin: two objects are never the same one.\<close>

fun js_same :: "jsval \<Rightarrow> jsval \<Rightarrow> bool" where
  "js_same (JArr _) _ = False"
| "js_same (JObj _) _ = False"
| "js_same (JFloat a) (JFloat b) = (a = b \<and> a \<noteq> ''NaN'')"
| "js_same a b = (a = b)"

fun js_truthy :: "jsval \<Rightarrow> bool" where
  "js_truthy JUndefined = False"
| "js_truthy JNull = False"
| "js_truthy (JBool b) = b"
| "js_truthy (JInt i) = (i \<noteq> 0)"
| "js_truthy (JFloat s) = (s \<noteq> ''NaN'')"
| "js_truthy (JStr s) = (s \<noteq> [])"
| "js_truthy _ = True"

lemma js_same_string [simp]: "js_same (JStr s) v \<longleftrightarrow> v = JStr s"
  by (cases v) auto

lemma js_integer_eq [simp]: "js_integer v = Some i \<longleftrightarrow> v = JInt i"
  by (cases v) auto

end
