(* ===== verification/JsRegex.thy ===== *)
theory JsRegex
  imports Prelude
begin

text \<open>
  The regular expressions of the source.  A regular expression literal of the code is written
  as a term of type \<open>rx\<close>; \<open>runs\<close> is the backtracking matcher of the language: the list of
  all ways to match a prefix of the text, in the order in which the matcher tries them (greedy
  repetition first, left alternative first), each with the text left over and the groups
  captured.  \<open>rx_test\<close> and \<open>rx_exec\<close> are \<open>/^r$/.test\<close> and \<open>/^r$/.exec\<close>, \<open>rx_find\<close> and
  \<open>rx_find_all\<close> the unanchored search and \<open>matchAll\<close>.  The matcher is proved to accept exactly
  the language of the expression.

  As in the language, an iteration of \<open>*\<close> that matches the empty text is dropped.  No
  expression of the source has a group inside a repetition, so captures are never reset.
\<close>

datatype rx =
    Eps
  | Cls "char \<Rightarrow> bool"
  | Cat rx rx
  | Alt rx rx
  | Star rx
  | Grp nat rx

type_synonym captures = "(nat \<times> string) list"

function runs :: "rx \<Rightarrow> string \<Rightarrow> captures \<Rightarrow> (string \<times> captures) list"
  and runs_each :: "rx \<Rightarrow> (string \<times> captures) list \<Rightarrow> (string \<times> captures) list"
  and runs_again :: "rx \<Rightarrow> nat \<Rightarrow> (string \<times> captures) list \<Rightarrow> (string \<times> captures) list" where
  "runs Eps s c = [(s, c)]"
| "runs (Cls p) s c = (case s of [] \<Rightarrow> [] | x # xs \<Rightarrow> if p x then [(xs, c)] else [])"
| "runs (Cat a b) s c = runs_each b (runs a s c)"
| "runs (Alt a b) s c = runs a s c @ runs b s c"
| "runs (Star r) s c = runs_again r (length s) (runs r s c) @ [(s, c)]"
| "runs (Grp n r) s c =
     map (\<lambda>(s', c'). (s', (n, take (length s - length s') s) # c')) (runs r s c)"
| "runs_each b [] = []"
| "runs_each b ((s, c) # xs) = runs b s c @ runs_each b xs"
| "runs_again r n [] = []"
| "runs_again r n ((s, c) # xs) =
     (if length s < n then runs (Star r) s c else []) @ runs_again r n xs"
  by pat_completeness auto
termination
  by (relation "measures
    [\<lambda>x. case x of Inl (r, s, c) \<Rightarrow> 2 * size r
       | Inr (Inl (r, xs)) \<Rightarrow> 2 * size r + 1 | Inr (Inr (r, n, xs)) \<Rightarrow> 2 * size (Star r),
     \<lambda>x. case x of Inl (r, s, c) \<Rightarrow> 2 * length s + 1
       | Inr (Inl (r, xs)) \<Rightarrow> 0 | Inr (Inr (r, n, xs)) \<Rightarrow> 2 * n,
     \<lambda>x. case x of Inl (r, s, c) \<Rightarrow> 0
       | Inr (Inl (r, xs)) \<Rightarrow> length xs | Inr (Inr (r, n, xs)) \<Rightarrow> length xs]") auto

lemma in_runs_each:
  "p \<in> set (runs_each b xs) \<longleftrightarrow> (\<exists>(s, c) \<in> set xs. p \<in> set (runs b s c))"
  by (induction xs) auto

lemma in_runs_again:
  "p \<in> set (runs_again r n xs) \<longleftrightarrow>
     (\<exists>(s, c) \<in> set xs. length s < n \<and> p \<in> set (runs (Star r) s c))"
  by (induction xs) (auto simp del: runs.simps)

lemma in_runs_Star:
  "p \<in> set (runs (Star r) s c) \<longleftrightarrow> p = (s, c) \<or>
     (\<exists>(s', c') \<in> set (runs r s c). length s' < length s \<and> p \<in> set (runs (Star r) s' c'))"
proof -
  have "p \<in> set (runs (Star r) s c) \<longleftrightarrow>
      p \<in> set (runs_again r (length s) (runs r s c) @ [(s, c)])"
    by (simp only: runs.simps)
  then show ?thesis by (simp only: in_runs_again set_append Un_iff list.set(1,2)) blast
qed

section \<open>Derived forms\<close>

definition Chr :: "char \<Rightarrow> rx" where
  "Chr x = Cls (\<lambda>y. y = x)"

fun Lit :: "string \<Rightarrow> rx" where
  "Lit [] = Eps"
| "Lit (x # xs) = Cat (Chr x) (Lit xs)"

definition OneOf :: "string \<Rightarrow> rx" where
  "OneOf xs = Cls (\<lambda>y. List.member xs y)"

definition NoneOf :: "string \<Rightarrow> rx" where
  "NoneOf xs = Cls (\<lambda>y. \<not> List.member xs y)"

definition Plus1 :: "rx \<Rightarrow> rx" where
  "Plus1 r = Cat r (Star r)"

definition Opt :: "rx \<Rightarrow> rx" where
  "Opt r = Alt r Eps"

text \<open>\<open>r{n}\<close>, \<open>r{0,n}\<close>, \<open>r{m,m+n}\<close> and \<open>r1|r2|...\<close>\<close>

fun Times :: "nat \<Rightarrow> rx \<Rightarrow> rx" where
  "Times 0 r = Eps"
| "Times (Suc n) r = Cat r (Times n r)"

fun AtMost :: "nat \<Rightarrow> rx \<Rightarrow> rx" where
  "AtMost 0 r = Eps"
| "AtMost (Suc n) r = Alt (Cat r (AtMost n r)) Eps"

fun Cats :: "rx list \<Rightarrow> rx" where
  "Cats [] = Eps"
| "Cats [r] = r"
| "Cats (r # q # rs) = Cat r (Cats (q # rs))"

fun Alts :: "rx list \<Rightarrow> rx" where
  "Alts [] = Cls (\<lambda>_. False)"
| "Alts [r] = r"
| "Alts (r # q # rs) = Alt r (Alts (q # rs))"

definition between :: "char \<Rightarrow> char \<Rightarrow> char \<Rightarrow> bool" where
  "between lo hi x \<longleftrightarrow> lo \<le> x \<and> x \<le> hi"

definition is_digit :: "char \<Rightarrow> bool" where
  "is_digit x = between (CHR ''0'') (CHR ''9'') x"

definition is_digit19 :: "char \<Rightarrow> bool" where
  "is_digit19 x = between (CHR ''1'') (CHR ''9'') x"

definition is_lower :: "char \<Rightarrow> bool" where
  "is_lower x = between (CHR ''a'') (CHR ''z'') x"

definition is_upper :: "char \<Rightarrow> bool" where
  "is_upper x = between (CHR ''A'') (CHR ''Z'') x"

definition is_lower_digit :: "char \<Rightarrow> bool" where
  "is_lower_digit x \<longleftrightarrow> is_lower x \<or> is_digit x"

definition is_alnum :: "char \<Rightarrow> bool" where
  "is_alnum x \<longleftrightarrow> is_lower x \<or> is_upper x \<or> is_digit x"

definition is_hex_lower :: "char \<Rightarrow> bool" where
  "is_hex_lower x \<longleftrightarrow> is_digit x \<or> between (CHR ''a'') (CHR ''f'') x"

section \<open>Matching\<close>

definition rx_exec :: "rx \<Rightarrow> string \<Rightarrow> captures option" where
  "rx_exec r s = (case List.find (\<lambda>(s', c). s' = []) (runs r s []) of
     None \<Rightarrow> None | Some (_, c) \<Rightarrow> Some c)"

definition rx_test :: "rx \<Rightarrow> string \<Rightarrow> bool" where
  "rx_test r s \<longleftrightarrow> list_ex (\<lambda>(s', c). s' = []) (runs r s [])"

text \<open>A captured group; a group that took no part in the match is \<open>None\<close> (\<open>undefined\<close>).\<close>

definition group :: "captures \<Rightarrow> nat \<Rightarrow> string option" where
  "group c n = map_of c n"

text \<open>The first match of an unanchored expression: its text and what follows it\<close>

fun rx_find :: "rx \<Rightarrow> string \<Rightarrow> (string \<times> string) option" where
  "rx_find r [] = (case runs r [] [] of [] \<Rightarrow> None | (s', c) # _ \<Rightarrow> Some ([], s'))"
| "rx_find r (x # xs) = (case runs r (x # xs) [] of
     [] \<Rightarrow> rx_find r xs
   | (s', c) # _ \<Rightarrow> Some (take (length (x # xs) - length s') (x # xs), s'))"

text \<open>
  All matches from left to right, not overlapping (\<open>matchAll\<close>), for expressions that match no
  empty text, as all of the source's do.
\<close>

fun rx_find_all_fuel :: "nat \<Rightarrow> rx \<Rightarrow> string \<Rightarrow> string list" where
  "rx_find_all_fuel 0 r s = []"
| "rx_find_all_fuel (Suc n) r s = (case rx_find r s of
     None \<Rightarrow> []
   | Some (w, rest) \<Rightarrow> w # rx_find_all_fuel n r rest)"

definition rx_find_all :: "rx \<Rightarrow> string \<Rightarrow> string list" where
  "rx_find_all r s = rx_find_all_fuel (Suc (length s)) r s"

section \<open>The language of an expression\<close>

inductive_set star_lang :: "string set \<Rightarrow> string set" for L where
  star_nil: "[] \<in> star_lang L"
| star_step: "u \<in> L \<Longrightarrow> v \<in> star_lang L \<Longrightarrow> u @ v \<in> star_lang L"

fun rx_lang :: "rx \<Rightarrow> string set" where
  "rx_lang Eps = {[]}"
| "rx_lang (Cls p) = {[x] | x. p x}"
| "rx_lang (Cat a b) = {u @ v | u v. u \<in> rx_lang a \<and> v \<in> rx_lang b}"
| "rx_lang (Alt a b) = rx_lang a \<union> rx_lang b"
| "rx_lang (Star r) = star_lang (rx_lang r)"
| "rx_lang (Grp n r) = rx_lang r"

lemma runs_sound: "(t, d) \<in> set (runs r s c) \<Longrightarrow> \<exists>w. s = w @ t \<and> w \<in> rx_lang r"
proof (induction r arbitrary: s c t d)
  case (Cat a b)
  then obtain s' c' where s': "(s', c') \<in> set (runs a s c)" "(t, d) \<in> set (runs b s' c')"
    by (auto simp: in_runs_each)
  from Cat.IH(1) [OF s'(1)] obtain u where "s = u @ s'" "u \<in> rx_lang a" by blast
  moreover from Cat.IH(2) [OF s'(2)] obtain v where "s' = v @ t" "v \<in> rx_lang b" by blast
  ultimately have "s = (u @ v) @ t" "u @ v \<in> rx_lang (Cat a b)" by auto
  then show ?case by blast
next
  case (Star r)
  from Star.prems show ?case
  proof (induction "length s" arbitrary: s c rule: less_induct)
    case less
    from less.prems consider "t = s" | s' c' where "(s', c') \<in> set (runs r s c)"
      "length s' < length s" "(t, d) \<in> set (runs (Star r) s' c')"
      by (subst (asm) in_runs_Star) blast
    then show ?case
    proof cases
      case 1
      then show ?thesis by (auto intro: star_nil)
    next
      case 2
      from Star.IH [OF 2(1)] obtain u where u: "s = u @ s'" "u \<in> rx_lang r" by blast
      from less.hyps [OF 2(2,3)] obtain v where v: "s' = v @ t" "v \<in> star_lang (rx_lang r)" by auto
      from star_step [OF u(2) v(2)] u v show ?thesis by auto
    qed
  qed
qed (fastforce split: list.splits if_splits)+

lemma star_lang_nonempty_step:
  assumes "w \<in> star_lang L" "w \<noteq> []"
  obtains u v where "w = u @ v" "u \<in> L" "u \<noteq> []" "v \<in> star_lang L"
proof -
  have "w \<noteq> [] \<longrightarrow> (\<exists>u v. w = u @ v \<and> u \<in> L \<and> u \<noteq> [] \<and> v \<in> star_lang L)"
    using assms(1)
  proof (induction rule: star_lang.induct)
    case (star_step u v)
    then show ?case by (cases "u = []") auto
  qed simp
  with assms(2) that show thesis by blast
qed

lemma runs_complete: "w \<in> rx_lang r \<Longrightarrow> \<exists>d. (t, d) \<in> set (runs r (w @ t) c)"
proof (induction r arbitrary: w t c)
  case (Cat a b)
  then obtain u v where w: "w = u @ v" "u \<in> rx_lang a" "v \<in> rx_lang b" by auto
  from Cat.IH(1) [OF w(2), of "v @ t" c] obtain d where d: "(v @ t, d) \<in> set (runs a (u @ v @ t) c)"
    by blast
  from Cat.IH(2) [OF w(3), of t d] obtain e where "(t, e) \<in> set (runs b (v @ t) d)" by blast
  with d w(1) show ?case by (auto simp: in_runs_each)
next
  case (Alt a b)
  then consider "w \<in> rx_lang a" | "w \<in> rx_lang b" by auto
  then show ?case
  proof cases
    case 1 then show ?thesis using Alt.IH(1) [of w t c] by auto
  next
    case 2 then show ?thesis using Alt.IH(2) [of w t c] by auto
  qed
next
  case (Star r)
  then have "w \<in> star_lang (rx_lang r)" by simp
  then show ?case
  proof (induction "length w" arbitrary: w c rule: less_induct)
    case less
    show ?case
    proof (cases "w = []")
      case True
      then have "(t, c) \<in> set (runs (Star r) (w @ t) c)"
        by (subst in_runs_Star) (simp del: runs.simps)
      then show ?thesis by blast
    next
      case False
      with less.prems obtain u v where w: "w = u @ v" "u \<in> rx_lang r" "u \<noteq> []"
        "v \<in> star_lang (rx_lang r)"
        by (rule star_lang_nonempty_step)
      from Star.IH [OF w(2), of "v @ t" c] obtain d where
        d: "(v @ t, d) \<in> set (runs r (u @ v @ t) c)" by blast
      have "length v < length w" using w by simp
      from less.hyps [OF this w(4), of d] obtain e where
        "(t, e) \<in> set (runs (Star r) (v @ t) d)" by blast
      with d w(1,3) have "(t, e) \<in> set (runs (Star r) (w @ t) c)"
        by (subst in_runs_Star) (auto simp del: runs.simps intro!: bexI [of _ "(v @ t, d)"])
      then show ?thesis by blast
    qed
  qed
next
  case (Grp n r)
  from Grp.IH [of w t c] Grp.prems obtain d where "(t, d) \<in> set (runs r (w @ t) c)" by auto
  then have "(t, (n, take (length (w @ t) - length t) (w @ t)) # d) \<in> set (runs (Grp n r) (w @ t) c)"
    by (auto intro!: image_eqI [of _ _ "(t, d)"])
  then show ?case by blast
qed auto

theorem rx_test_lang: "rx_test r s \<longleftrightarrow> s \<in> rx_lang r"
proof
  assume "rx_test r s"
  then obtain d where "([], d) \<in> set (runs r s [])" by (auto simp: rx_test_def list_ex_iff)
  then show "s \<in> rx_lang r" using runs_sound by fastforce
next
  assume "s \<in> rx_lang r"
  from runs_complete [OF this, of "[]" "[]"] show "rx_test r s"
    by (auto simp: rx_test_def list_ex_iff)
qed

lemma find_None_ex: "List.find P xs = None \<longleftrightarrow> \<not> list_ex P xs"
  by (induction xs) auto

lemma rx_exec_test: "rx_exec r s = None \<longleftrightarrow> \<not> rx_test r s"
  by (auto simp: rx_exec_def rx_test_def find_None_ex [symmetric] split: option.splits)

text \<open>The languages of the derived forms, in the words a specification would use\<close>

lemma rx_lang_Lit [simp]: "rx_lang (Lit s) = {s}"
  by (induction s) (auto simp: Chr_def)

declare Lit.simps [simp del]

lemma rx_lang_Cats:
  "rx_lang (Cats []) = {[]}"
  "rx_lang (Cats (r # rs)) = {u @ v | u v. u \<in> rx_lang r \<and> v \<in> rx_lang (Cats rs)}"
  by (simp, cases rs) auto

lemma rx_lang_Alts: "rx_lang (Alts rs) = (\<Union>r \<in> set rs. rx_lang r)"
  by (induction rs rule: Alts.induct) auto

lemma rx_lang_Opt [simp]: "rx_lang (Opt r) = insert [] (rx_lang r)"
  by (auto simp: Opt_def)

lemma star_lang_Cls: "star_lang {[x] | x. p x} = {s. \<forall>x \<in> set s. p x}"
proof (intro equalityI subsetI)
  fix s assume "s \<in> star_lang {[x] | x. p x}"
  then show "s \<in> {s. \<forall>x \<in> set s. p x}" by induction auto
next
  fix s :: string assume "s \<in> {s. \<forall>x \<in> set s. p x}"
  then show "s \<in> star_lang {[x] | x. p x}"
  proof (induction s)
    case (Cons x xs)
    then have "[x] @ xs \<in> star_lang {[x] | x. p x}" by (intro star_step) auto
    then show ?case by simp
  qed (simp add: star_nil)
qed

lemma rx_lang_Star_Cls [simp]: "rx_lang (Star (Cls p)) = {s. \<forall>x \<in> set s. p x}"
  by (simp add: star_lang_Cls)

lemma rx_lang_Cls_Cat:
  "s \<in> rx_lang (Cat (Cls p) r) \<longleftrightarrow> (\<exists>x xs. s = x # xs \<and> p x \<and> xs \<in> rx_lang r)"
proof
  assume "\<exists>x xs. s = x # xs \<and> p x \<and> xs \<in> rx_lang r"
  then obtain x xs where "s = [x] @ xs" "[x] \<in> rx_lang (Cls p)" "xs \<in> rx_lang r" by auto
  then show "s \<in> rx_lang (Cat (Cls p) r)" by (auto simp del: append.simps)
qed auto

lemma rx_lang_Times_Cls [simp]:
  "rx_lang (Times n (Cls p)) = {s. length s = n \<and> (\<forall>x \<in> set s. p x)}"
proof (induction n)
  case (Suc n)
  have "s \<in> rx_lang (Times (Suc n) (Cls p)) \<longleftrightarrow> length s = Suc n \<and> (\<forall>x \<in> set s. p x)" for s
    by (cases s) (auto simp: Suc rx_lang_Cls_Cat simp del: rx_lang.simps)
  then show ?case by blast
qed auto

lemma rx_lang_AtMost_Cls [simp]:
  "rx_lang (AtMost n (Cls p)) = {s. length s \<le> n \<and> (\<forall>x \<in> set s. p x)}"
proof (induction n)
  case (Suc n)
  have "s \<in> rx_lang (AtMost (Suc n) (Cls p)) \<longleftrightarrow> length s \<le> Suc n \<and> (\<forall>x \<in> set s. p x)" for s
    by (cases s) (auto simp: Suc rx_lang_Cls_Cat simp del: rx_lang.simps simp: rx_lang.simps(1,4))
  then show ?case by blast
qed auto

lemma rx_lang_Plus1_Cls [simp]:
  "rx_lang (Plus1 (Cls p)) = {s. s \<noteq> [] \<and> (\<forall>x \<in> set s. p x)}"
proof -
  have "s \<in> rx_lang (Plus1 (Cls p)) \<longleftrightarrow> s \<noteq> [] \<and> (\<forall>x \<in> set s. p x)" for s
    by (cases s) (auto simp: Plus1_def rx_lang_Cls_Cat simp del: rx_lang.simps)
  then show ?thesis by blast
qed

section \<open>Captures\<close>

fun has_group :: "rx \<Rightarrow> bool" where
  "has_group Eps = False"
| "has_group (Cls p) = False"
| "has_group (Cat a b) = (has_group a \<or> has_group b)"
| "has_group (Alt a b) = (has_group a \<or> has_group b)"
| "has_group (Star r) = has_group r"
| "has_group (Grp n r) = True"

lemma runs_no_group: "(t, d) \<in> set (runs r s c) \<Longrightarrow> \<not> has_group r \<Longrightarrow> d = c"
proof (induction r arbitrary: s c t d)
  case (Cls p)
  then show ?case by (auto split: list.splits if_splits)
next
  case (Cat a b)
  then show ?case by (fastforce simp: in_runs_each)
next
  case (Star r)
  show ?case using Star.prems(1)
  proof (induction "length s" arbitrary: s c rule: less_induct)
    case less
    consider "(t, d) = (s, c)" | s' c' where "(s', c') \<in> set (runs r s c)"
      "length s' < length s" "(t, d) \<in> set (runs (Star r) s' c')"
      using less.prems by (subst (asm) in_runs_Star) blast
    then show ?case
    proof cases
      case 2
      with Star.IH [OF 2(1)] Star.prems(2) less.hyps [OF 2(2,3)] show ?thesis by simp
    qed simp
  qed
qed auto

lemma runs_Cat:
  "(t, d) \<in> set (runs (Cat a b) s c) \<Longrightarrow>
     \<exists>s' c'. (s', c') \<in> set (runs a s c) \<and> (t, d) \<in> set (runs b s' c')"
  by (auto simp: in_runs_each)

lemma runs_plain:
  assumes "(t, d) \<in> set (runs r s c)" "\<not> has_group r"
  shows "d = c \<and> (\<exists>w. s = w @ t \<and> w \<in> rx_lang r)"
  using runs_no_group [OF assms] runs_sound [OF assms(1)] by simp

lemma runs_Grp:
  assumes "(t, d) \<in> set (runs (Grp n r) s c)" "\<not> has_group r"
  shows "\<exists>w. s = w @ t \<and> w \<in> rx_lang r \<and> d = (n, w) # c"
proof -
  from assms(1) obtain d' where d: "(t, d') \<in> set (runs r s c)"
    "d = (n, take (length s - length t) s) # d'" by auto
  with runs_plain [OF d(1) assms(2)] show ?thesis by auto
qed

lemma rx_exec_runs: "rx_exec r s = Some c \<Longrightarrow> ([], c) \<in> set (runs r s [])"
  by (auto simp: rx_exec_def find_Some_iff split: option.splits) (metis nth_mem)

lemma rx_exec_lang: "(\<exists>c. rx_exec r s = Some c) \<longleftrightarrow> s \<in> rx_lang r"
  using rx_exec_test [of r s] rx_test_lang [of r s] by auto

lemma rx_lang_Times_Cat:
  "s \<in> rx_lang (Cat (Times n (Cls p)) r) \<longleftrightarrow>
     n \<le> length s \<and> (\<forall>x \<in> set (take n s). p x) \<and> drop n s \<in> rx_lang r"
proof
  assume "n \<le> length s \<and> (\<forall>x \<in> set (take n s). p x) \<and> drop n s \<in> rx_lang r"
  then have "take n s \<in> rx_lang (Times n (Cls p))" "drop n s \<in> rx_lang r" by auto
  then show "s \<in> rx_lang (Cat (Times n (Cls p)) r)"
    unfolding rx_lang.simps(3) using append_take_drop_id [of n s, symmetric] by blast
qed auto

lemma rx_lang_Chr_Cat:
  "s \<in> rx_lang (Cat (Chr x) r) \<longleftrightarrow> 0 < length s \<and> s ! 0 = x \<and> drop 1 s \<in> rx_lang r"
  unfolding Chr_def rx_lang_Cls_Cat by (cases s) auto

lemma rx_lang_Chr: "s \<in> rx_lang (Chr x) \<longleftrightarrow> s = [x]"
  by (auto simp: Chr_def)

lemma rx_lang_Lit_Cat: "s \<in> rx_lang (Cat (Lit w) r) \<longleftrightarrow> (\<exists>t. s = w @ t \<and> t \<in> rx_lang r)"
  unfolding rx_lang.simps(3) rx_lang_Lit by blast

lemma rx_lang_CatI: "u \<in> rx_lang a \<Longrightarrow> v \<in> rx_lang b \<Longrightarrow> u @ v \<in> rx_lang (Cat a b)"
  by auto

lemmas rx_forms = Chr_def OneOf_def NoneOf_def

end
