(* ===== verification/JsDate.thy ===== *)
theory JsDate
  imports JsRegex
begin

text \<open>
  \<open>Date.parse\<close> on the ISO forms the system exchanges, \<open>YYYY-MM-DDTHH:MM:SSZ\<close> (MediaWiki, the
  cursors) and \<open>YYYY-MM-DDTHH:MM:SS.mmmZ\<close> (\<open>toISOString\<close>): milliseconds since 1970-01-01 by
  the calendar of the language definition, \<open>None\<close> for \<open>NaN\<close>.  Other spellings and days the
  calendar does not have (30 February), whose reading the language leaves to the implementation,
  are outside the model and read as \<open>None\<close>.

  The cursors are compared as strings in some components and as instants in others; the last
  section proves that the two orders agree on the first form (\<open>24:00:00\<close> excepted).
\<close>

definition digit_val :: "char \<Rightarrow> nat" where
  "digit_val c = (of_char c :: nat) - 48"

fun digits_val :: "string \<Rightarrow> nat" where
  "digits_val [] = 0"
| "digits_val (c # cs) = digit_val c * 10 ^ length cs + digits_val cs"

definition all_digits :: "string \<Rightarrow> bool" where
  "all_digits s \<longleftrightarrow> list_all is_digit s"

definition leap_year :: "int \<Rightarrow> bool" where
  "leap_year y \<longleftrightarrow> y mod 4 = 0 \<and> (y mod 100 \<noteq> 0 \<or> y mod 400 = 0)"

definition month_days :: "int \<Rightarrow> nat \<Rightarrow> int" where
  "month_days y m =
     (if m = 2 then (if leap_year y then 29 else 28)
      else if m = 4 \<or> m = 6 \<or> m = 9 \<or> m = 11 then 30 else 31)"

text \<open>Days before the month, in the year\<close>

fun days_before :: "int \<Rightarrow> nat \<Rightarrow> int" where
  "days_before y 0 = 0"
| "days_before y (Suc 0) = 0"
| "days_before y (Suc (Suc m)) = days_before y (Suc m) + month_days y (Suc m)"

definition day_from_year :: "int \<Rightarrow> int" where
  "day_from_year y =
     365 * (y - 1970) + (y - 1969) div 4 - (y - 1901) div 100 + (y - 1601) div 400"

definition epoch_ms :: "nat \<Rightarrow> nat \<Rightarrow> nat \<Rightarrow> nat \<Rightarrow> nat \<Rightarrow> nat \<Rightarrow> nat \<Rightarrow> int" where
  "epoch_ms y mo d h mi s ms =
     (((day_from_year (int y) + days_before (int y) mo + int d - 1) * 24 + int h) * 60 + int mi)
       * 60000 + int s * 1000 + int ms"

definition valid_fields :: "nat \<Rightarrow> nat \<Rightarrow> nat \<Rightarrow> nat \<Rightarrow> nat \<Rightarrow> nat \<Rightarrow> bool" where
  "valid_fields y mo d h mi s \<longleftrightarrow>
     1 \<le> mo \<and> mo \<le> 12 \<and> 1 \<le> d \<and> int d \<le> month_days (int y) mo \<and> h < 24 \<and> mi < 60 \<and> s < 60"

text \<open>The language also reads \<open>24:00:00\<close>, the midnight that ends the day\<close>

definition end_of_day :: "nat \<Rightarrow> nat \<Rightarrow> nat \<Rightarrow> nat \<Rightarrow> nat \<Rightarrow> nat \<Rightarrow> nat \<Rightarrow> bool" where
  "end_of_day y mo d h mi s ms \<longleftrightarrow>
     valid_fields y mo d 0 0 0 \<and> h = 24 \<and> mi = 0 \<and> s = 0 \<and> ms = 0"

definition field :: "nat \<Rightarrow> nat \<Rightarrow> string \<Rightarrow> string" where
  "field i n s = take n (drop i s)"

text \<open>The shape \<open>YYYY-MM-DDTHH:MM:SS\<close> of the first 19 characters\<close>

definition stamp_shape :: "string \<Rightarrow> bool" where
  "stamp_shape s \<longleftrightarrow> 19 \<le> length s \<and>
     all_digits (field 0 4 s) \<and> s ! 4 = CHR ''-'' \<and> all_digits (field 5 2 s) \<and>
     s ! 7 = CHR ''-'' \<and> all_digits (field 8 2 s) \<and> s ! 10 = CHR ''T'' \<and>
     all_digits (field 11 2 s) \<and> s ! 13 = CHR '':'' \<and> all_digits (field 14 2 s) \<and>
     s ! 16 = CHR '':'' \<and> all_digits (field 17 2 s)"

definition stamp_ms :: "string \<Rightarrow> nat \<Rightarrow> int option" where
  "stamp_ms s ms =
     (let y = digits_val (field 0 4 s); mo = digits_val (field 5 2 s);
          d = digits_val (field 8 2 s); h = digits_val (field 11 2 s);
          mi = digits_val (field 14 2 s); sec = digits_val (field 17 2 s)
      in if valid_fields y mo d h mi sec \<or> end_of_day y mo d h mi sec ms then Some (epoch_ms y mo d h mi sec ms) else None)"

definition date_parse :: "string \<Rightarrow> int option" where
  "date_parse s =
     (if \<not> stamp_shape s then None
      else if drop 19 s = ''Z'' then stamp_ms s 0
      else if length s = 24 \<and> s ! 19 = CHR ''.'' \<and> all_digits (field 20 3 s) \<and> s ! 23 = CHR ''Z''
      then stamp_ms s (digits_val (field 20 3 s))
      else None)"

section \<open>The order of the instants is the order of the strings\<close>

lemma is_digit_val: "is_digit c \<Longrightarrow> digit_val c < 10"
  unfolding is_digit_def between_def less_eq_char_def digit_val_def by simp linarith

lemma digit_val_less: "is_digit a \<Longrightarrow> is_digit b \<Longrightarrow> a < b \<longleftrightarrow> digit_val a < digit_val b"
  by (auto simp: is_digit_def between_def less_eq_char_def less_char_def digit_val_def)

lemma digit_val_eq: "is_digit a \<Longrightarrow> is_digit b \<Longrightarrow> a = b \<longleftrightarrow> digit_val a = digit_val b"
  by (metis digit_val_less less_irrefl linorder_neqE)

lemma digits_val_bound: "all_digits s \<Longrightarrow> digits_val s < 10 ^ length s"
proof (induction s)
  case (Cons c cs)
  then have "digit_val c < 10" "digits_val cs < 10 ^ length cs"
    by (auto simp: all_digits_def is_digit_val)
  then have "digit_val c * 10 ^ length cs + digits_val cs < Suc (digit_val c) * 10 ^ length cs"
    by simp
  also have "\<dots> \<le> 10 * 10 ^ length cs"
    using \<open>digit_val c < 10\<close> by (intro mult_right_mono) simp_all
  finally show ?case by simp
qed simp

lemma place_value:
  fixes a b x y n :: nat
  assumes "x < n" "y < n"
  shows "a * n + x < b * n + y \<longleftrightarrow> a < b \<or> a = b \<and> x < y"
proof -
  have "a * n + x < b * n + y" if "a < b"
  proof -
    have "a * n + x < Suc a * n" using assms by simp
    also have "\<dots> \<le> b * n" using that by (intro mult_right_mono) simp_all
    finally show ?thesis by simp
  qed
  moreover have "b * n + y < a * n + x" if "b < a"
  proof -
    have "b * n + y < Suc b * n" using assms by simp
    also have "\<dots> \<le> a * n" using that by (intro mult_right_mono) simp_all
    finally show ?thesis by simp
  qed
  ultimately show ?thesis by (cases a b rule: linorder_cases) auto
qed

lemma digits_val_less:
  "all_digits s \<Longrightarrow> all_digits t \<Longrightarrow> length s = length t \<Longrightarrow>
   s < t \<longleftrightarrow> digits_val s < digits_val t"
proof (induction s t rule: list_induct2')
  case (4 x xs y ys)
  then have "is_digit x" "is_digit y" "all_digits xs" "all_digits ys" "length xs = length ys"
    by (auto simp: all_digits_def)
  moreover from this have "digits_val xs < 10 ^ length ys" "digits_val ys < 10 ^ length ys"
    using digits_val_bound by force+
  ultimately show ?case
    using 4 by (simp add: place_value digit_val_less digit_val_eq)
qed auto

lemma digits_val_eq:
  "all_digits s \<Longrightarrow> all_digits t \<Longrightarrow> length s = length t \<Longrightarrow>
   s = t \<longleftrightarrow> digits_val s = digits_val t"
  by (metis digits_val_less less_irrefl linorder_neqE)

lemma append_less:
  fixes a b x y :: string
  shows "length a = length b \<Longrightarrow> a @ x < b @ y \<longleftrightarrow> a < b \<or> a = b \<and> x < y"
  by (induction a b rule: list_induct2') auto

lemma month_days_bound: "28 \<le> month_days y m" "month_days y m \<le> 31"
  by (auto simp: month_days_def)

lemma days_before_mono: "m \<le> n \<Longrightarrow> days_before y m \<le> days_before y n"
proof (induction n rule: dec_induct)
  case (step n)
  then show ?case using month_days_bound(1) [of y n] by (cases n) auto
qed simp

lemma days_before_step: "1 \<le> m \<Longrightarrow> m < n \<Longrightarrow> days_before y m + month_days y m \<le> days_before y n"
proof -
  assume *: "1 \<le> m" "m < n"
  then have "days_before y (Suc m) = days_before y m + month_days y m" by (cases m) auto
  with days_before_mono [of "Suc m" n y] * show ?thesis by simp
qed

lemma div_succ:
  fixes a n :: int
  assumes "0 < n"
  shows "(a + 1) div n = a div n + (if (a + 1) mod n = 0 then 1 else 0)"
proof -
  have a: "a + 1 = n * (a div n) + (a mod n + 1)" by simp
  have r: "0 \<le> a mod n" "a mod n < n" using assms by simp_all
  show ?thesis
  proof (cases "a mod n + 1 < n")
    case True
    have "(a + 1) div n = a div n"
      by (rule int_div_pos_eq [OF a]) (use True r in simp_all)
    moreover have "(a + 1) mod n = a mod n + 1"
      by (rule int_mod_pos_eq [OF a]) (use True r in simp_all)
    ultimately show ?thesis using r by simp
  next
    case False
    with r have "a mod n + 1 = n" by simp
    with a have "a + 1 = n * (a div n) + n" by simp
    then have "a + 1 = n * (a div n + 1)" by (simp only: distrib_left mult_1_right)
    with assms show ?thesis by simp
  qed
qed

lemma mod_cascade:
  fixes y :: int
  shows "y mod 400 = 0 \<Longrightarrow> y mod 100 = 0" "y mod 100 = 0 \<Longrightarrow> y mod 4 = 0"
  using dvd_trans [of 100 400 y] dvd_trans [of 4 100 y] by (simp_all add: dvd_eq_mod_eq_0)

lemma year_shift:
  fixes y :: int
  shows "(y - 1969 + 1) mod 4 = y mod 4" "(y - 1901 + 1) mod 100 = y mod 100"
    "(y - 1601 + 1) mod 400 = y mod 400"
  using mod_diff_right_eq [of y 1968 4] mod_diff_right_eq [of y 1900 100]
    mod_diff_right_eq [of y 1600 400] by simp_all

lemma div_step:
  fixes y :: int
  shows "(y + 1 - 1969) div 4 = (y - 1969) div 4 + (if y mod 4 = 0 then 1 else 0)"
    and "(y + 1 - 1901) div 100 = (y - 1901) div 100 + (if y mod 100 = 0 then 1 else 0)"
    and "(y + 1 - 1601) div 400 = (y - 1601) div 400 + (if y mod 400 = 0 then 1 else 0)"
proof -
  have "y + 1 - k = y - k + 1" for k :: int by simp
  then show "(y + 1 - 1969) div 4 = (y - 1969) div 4 + (if y mod 4 = 0 then 1 else 0)"
    "(y + 1 - 1901) div 100 = (y - 1901) div 100 + (if y mod 100 = 0 then 1 else 0)"
    "(y + 1 - 1601) div 400 = (y - 1601) div 400 + (if y mod 400 = 0 then 1 else 0)"
    by (simp_all only: div_succ zero_less_numeral year_shift)
qed

lemma year_length:
  "day_from_year (y + 1) = day_from_year y + (if leap_year y then 366 else 365)"
proof -
  have sum: "365 * (y + 1 - 1970) + (a + p) - (b + q) + (c + r)
      = 365 * (y - 1970) + a - b + c + (365 + p - q + r)" for a b c p q r :: int
    by simp
  have step: "day_from_year (y + 1) = day_from_year y + (365 + (if y mod 4 = 0 then 1 else 0)
      - (if y mod 100 = 0 then 1 else 0) + (if y mod 400 = 0 then 1 else 0))"
    unfolding day_from_year_def div_step by (rule sum)
  show ?thesis
  proof (cases "y mod 400 = 0")
    case True
    with step mod_cascade [of y] show ?thesis by (simp only: leap_year_def) simp
  next
    case False
    with step mod_cascade(2) [of y] show ?thesis
      by (cases "y mod 100 = 0") (simp_all only: leap_year_def, simp_all)
  qed
qed

lemma days_before_succ: "1 \<le> m \<Longrightarrow> days_before y (m + 1) = days_before y m + month_days y m"
  by (cases m) auto

lemma month_lengths:
  "month_days y 1 = 31" "month_days y 2 = (if leap_year y then 29 else 28)"
  "month_days y 3 = 31" "month_days y 4 = 30" "month_days y 5 = 31" "month_days y 6 = 30"
  "month_days y 7 = 31" "month_days y 8 = 31" "month_days y 9 = 30" "month_days y 10 = 31"
  "month_days y 11 = 30" "month_days y 12 = 31"
  by (simp_all add: month_days_def)

lemma days_before_2: "days_before y 2 = 31"
proof -
  have "days_before y (Suc 1) = days_before y 1 + month_days y 1"
    using days_before_succ [of 1 y] by (simp only: Suc_eq_plus1 order_refl simp_thms)
  then show ?thesis by (simp add: month_days_def numeral_2_eq_2)
qed

lemma days_before_13: "days_before y 13 = (if leap_year y then 366 else 365)"
proof -
  have "days_before y (2 + 1) = days_before y 2 + month_days y 2"
    "days_before y (3 + 1) = days_before y 3 + month_days y 3"
    "days_before y (4 + 1) = days_before y 4 + month_days y 4"
    "days_before y (5 + 1) = days_before y 5 + month_days y 5"
    "days_before y (6 + 1) = days_before y 6 + month_days y 6"
    "days_before y (7 + 1) = days_before y 7 + month_days y 7"
    "days_before y (8 + 1) = days_before y 8 + month_days y 8"
    "days_before y (9 + 1) = days_before y 9 + month_days y 9"
    "days_before y (10 + 1) = days_before y 10 + month_days y 10"
    "days_before y (11 + 1) = days_before y 11 + month_days y 11"
    "days_before y (12 + 1) = days_before y 12 + month_days y 12"
    by (rule days_before_succ; simp)+
  then show ?thesis
    by (simp add: month_lengths days_before_2)
qed

lemma day_from_year_mono: "y \<le> z \<Longrightarrow> day_from_year y \<le> day_from_year z"
  by (induction z rule: int_ge_induct) (auto simp: year_length)

definition day_number :: "nat \<Rightarrow> nat \<Rightarrow> nat \<Rightarrow> int" where
  "day_number y mo d = day_from_year (int y) + days_before (int y) mo + int d - 1"

lemma day_number_less:
  assumes "1 \<le> mo" "mo \<le> 12" "1 \<le> d" "int d \<le> month_days (int y) mo"
    and "1 \<le> mo'" "mo' \<le> 12" "1 \<le> d'"
    and "y < y' \<or> y = y' \<and> (mo < mo' \<or> mo = mo' \<and> d < d')"
  shows "day_number y mo d < day_number y' mo' d'"
proof -
  have up: "days_before (int y) mo + int d \<le> days_before (int y) n" if "mo < n" for n
    using days_before_step [OF assms(1) that, of "int y"] assms(4) by simp
  have pos: "0 \<le> days_before (int y') mo'" using days_before_mono [of 0 mo' "int y'"] by simp
  consider "y < y'" | "y = y'" "mo < mo'" | "y = y'" "mo = mo'" "d < d'" using assms(8) by blast
  then show ?thesis
  proof cases
    case 1
    have "day_from_year (int y) + days_before (int y) 13 \<le> day_from_year (int y')"
      using year_length [of "int y"] days_before_13 [of "int y"]
        day_from_year_mono [of "int y + 1" "int y'"] 1 by (simp split: if_splits)
    with up [of 13] assms(2,7) pos show ?thesis by (simp add: day_number_def)
  next
    case 2
    with up [of mo'] assms(7) show ?thesis by (simp add: day_number_def)
  next
    case 3
    then show ?thesis by (simp add: day_number_def)
  qed
qed

lemma epoch_ms_day_number:
  "epoch_ms y mo d h mi s ms =
     ((day_number y mo d * 24 + int h) * 60 + int mi) * 60000 + int s * 1000 + int ms"
  by (simp only: epoch_ms_def day_number_def)

lemma clock_less:
  fixes n n' :: int
  assumes "h < 24" "mi < 60" "s < 60"
    and "n < n' \<or> n = n' \<and> (h < h' \<or> h = h' \<and> (mi < mi' \<or> mi = mi' \<and> s < s'))"
  shows "((n * 24 + int h) * 60 + int mi) * 60000 + int s * 1000 <
    ((n' * 24 + int h') * 60 + int mi') * 60000 + int s' * 1000"
  using assms by auto

lemma epoch_ms_less:
  assumes "valid_fields y mo d h mi s" "valid_fields y' mo' d' h' mi' s'"
    and "y < y' \<or> y = y' \<and> (mo < mo' \<or> mo = mo' \<and> (d < d' \<or> d = d' \<and>
      (h < h' \<or> h = h' \<and> (mi < mi' \<or> mi = mi' \<and> s < s'))))"
  shows "epoch_ms y mo d h mi s 0 < epoch_ms y' mo' d' h' mi' s' 0"
proof -
  have day: "day_number y mo d < day_number y' mo' d'"
    if "y < y' \<or> y = y' \<and> (mo < mo' \<or> mo = mo' \<and> d < d')"
    by (rule day_number_less [OF _ _ _ _ _ _ _ that])
      (use assms(1,2) in \<open>simp_all add: valid_fields_def\<close>)
  have "day_number y mo d < day_number y' mo' d' \<or> day_number y mo d = day_number y' mo' d' \<and>
      (h < h' \<or> h = h' \<and> (mi < mi' \<or> mi = mi' \<and> s < s'))"
    using assms(3) day by blast
  moreover have "h < 24" "mi < 60" "s < 60" using assms(1) by (simp_all add: valid_fields_def)
  ultimately show ?thesis
    unfolding epoch_ms_day_number of_nat_0 add_0_right by (intro clock_less)
qed

definition iso_stamp :: "string \<Rightarrow> bool" where
  "iso_stamp s \<longleftrightarrow>
     stamp_shape s \<and> drop 19 s = ''Z'' \<and> digits_val (field 11 2 s) < 24"

lemma iso_stamp_split:
  assumes "iso_stamp s"
  shows "s = field 0 4 s @ ''-'' @ field 5 2 s @ ''-'' @ field 8 2 s @ ''T'' @ field 11 2 s @
    '':'' @ field 14 2 s @ '':'' @ field 17 2 s @ ''Z''"
proof -
  have len: "length s = 20"
    using assms by (auto simp: iso_stamp_def stamp_shape_def dest: arg_cong [where f = length])
  then obtain a b c d e f g h i j k l m n p q r t u v where
    s: "s = [a, b, c, d, e, f, g, h, i, j, k, l, m, n, p, q, r, t, u, v]"
    by (auto simp: numeral_eq_Suc length_Suc_conv)
  with assms show ?thesis by (simp add: iso_stamp_def stamp_shape_def field_def numeral_eq_Suc)
qed

lemma iso_stamp_fields:
  assumes "iso_stamp s"
  shows "all_digits (field 0 4 s)" "length (field 0 4 s) = 4"
    "all_digits (field 5 2 s)" "length (field 5 2 s) = 2"
    "all_digits (field 8 2 s)" "length (field 8 2 s) = 2"
    "all_digits (field 11 2 s)" "length (field 11 2 s) = 2"
    "all_digits (field 14 2 s)" "length (field 14 2 s) = 2"
    "all_digits (field 17 2 s)" "length (field 17 2 s) = 2"
  using assms by (auto simp: iso_stamp_def stamp_shape_def field_def)

lemma iso_stamp_less:
  assumes s: "iso_stamp s" and t: "iso_stamp t"
  shows "s < t \<longleftrightarrow>
    (let v = \<lambda>i n x. digits_val (field i n x) in
     v 0 4 s < v 0 4 t \<or> v 0 4 s = v 0 4 t \<and> (v 5 2 s < v 5 2 t \<or> v 5 2 s = v 5 2 t \<and>
     (v 8 2 s < v 8 2 t \<or> v 8 2 s = v 8 2 t \<and> (v 11 2 s < v 11 2 t \<or> v 11 2 s = v 11 2 t \<and>
     (v 14 2 s < v 14 2 t \<or> v 14 2 s = v 14 2 t \<and> v 17 2 s < v 17 2 t)))))"
proof -
  note f = iso_stamp_fields [OF s] iso_stamp_fields [OF t]
  have "s < t \<longleftrightarrow>
    field 0 4 s @ ''-'' @ field 5 2 s @ ''-'' @ field 8 2 s @ ''T'' @ field 11 2 s @
      '':'' @ field 14 2 s @ '':'' @ field 17 2 s @ ''Z'' <
    field 0 4 t @ ''-'' @ field 5 2 t @ ''-'' @ field 8 2 t @ ''T'' @ field 11 2 t @
      '':'' @ field 14 2 t @ '':'' @ field 17 2 t @ ''Z''"
    using iso_stamp_split [OF s] iso_stamp_split [OF t] by simp
  then show ?thesis by (simp add: append_less f digits_val_less digits_val_eq Let_def)
qed

lemma date_parse_iso:
  "iso_stamp s \<Longrightarrow> date_parse s = stamp_ms s 0"
  by (simp add: date_parse_def iso_stamp_def)

lemma iso_stamp_order_strict:
  assumes "iso_stamp s" "iso_stamp t" "date_parse s = Some a" "date_parse t = Some b" "s < t"
  shows "a < b"
proof -
  have "\<not> end_of_day y mo d (digits_val (field 11 2 x)) mi sec ms" if "iso_stamp x"
    for x y mo d mi sec ms using that by (simp add: iso_stamp_def end_of_day_def)
  with assms epoch_ms_less show ?thesis
    by (auto simp: date_parse_iso stamp_ms_def Let_def iso_stamp_less split: if_splits)
qed

theorem iso_stamp_order:
  assumes "iso_stamp s" "iso_stamp t" "date_parse s = Some a" "date_parse t = Some b"
  shows "s < t \<longleftrightarrow> a < b"
  using iso_stamp_order_strict [OF assms] iso_stamp_order_strict [OF assms(2,1,4,3)] assms(3,4)
  by (cases s t rule: linorder_cases) auto

lemma iso_stamp_order_eq:
  assumes "iso_stamp s" "iso_stamp t" "date_parse s = Some a" "date_parse t = Some b"
  shows "s = t \<longleftrightarrow> a = b"
  using iso_stamp_order [OF assms] iso_stamp_order [OF assms(2,1,4,3)] assms(3,4)
  by (cases s t rule: linorder_cases) auto

end
