(* ===== verification/Identifiers.thy ===== *)
theory Identifiers
  imports JsRegex
begin

text \<open>
  The identifier syntax of the system: the regular expressions that the components test their
  inputs against, transcribed literally, each with the plain description of what it accepts.
  The source repeats these literals in many files; each is stated here once.
\<close>

text \<open>\<open>/^[QP][1-9][0-9]*$/u\<close>\<close>

definition ENTITY_ID :: rx where
  "ENTITY_ID = Cats [OneOf ''QP'', Cls is_digit19, Star (Cls is_digit)]"

text \<open>\<open>/^P[1-9][0-9]*$/u\<close>\<close>

definition PROPERTY_ID :: rx where
  "PROPERTY_ID = Cats [Chr (CHR ''P''), Cls is_digit19, Star (Cls is_digit)]"

text \<open>\<open>/^gen-[a-z0-9][a-z0-9-]{0,58}$/u\<close>\<close>

definition is_id_char :: "char \<Rightarrow> bool" where
  "is_id_char x \<longleftrightarrow> is_lower_digit x \<or> x = CHR ''-''"

definition GENERATION_ID :: rx where
  "GENERATION_ID = Cats [Lit ''gen-'', Cls is_lower_digit, AtMost 58 (Cls is_id_char)]"

text \<open>\<open>/^[a-z0-9][a-z0-9.-]{0,127}$/u\<close>\<close>

definition is_source_char :: "char \<Rightarrow> bool" where
  "is_source_char x \<longleftrightarrow> is_lower_digit x \<or> x = CHR ''.'' \<or> x = CHR ''-''"

definition SOURCE_IDENTITY :: rx where
  "SOURCE_IDENTITY = Cats [Cls is_lower_digit, AtMost 127 (Cls is_source_char)]"

text \<open>\<open>/^[a-z0-9][a-z0-9-]{0,63}$/u\<close>\<close>

definition QUERY_SERVICE_ID :: rx where
  "QUERY_SERVICE_ID = Cats [Cls is_lower_digit, AtMost 63 (Cls is_id_char)]"

text \<open>\<open>/^[a-f0-9]{64}$/u\<close>\<close>

definition SHA256_HEX :: rx where
  "SHA256_HEX = Times 64 (Cls is_hex_lower)"

text \<open>
  \<open>/[A-Z][A-Z0-9_]{2,63}/u\<close>, the part of an error message that is kept as its code, searched
  for without anchors
\<close>

definition is_code_char :: "char \<Rightarrow> bool" where
  "is_code_char x \<longleftrightarrow> is_upper x \<or> is_digit x \<or> x = CHR ''_''"

definition ERROR_CODE :: rx where
  "ERROR_CODE = Cats [Cls is_upper, Times 2 (Cls is_code_char), AtMost 61 (Cls is_code_char)]"

text \<open>\<open>/^[0-9a-f]{8}-[0-9a-f]{4}-[1-8][0-9a-f]{3}-[89ab][0-9a-f]{3}-[0-9a-f]{12}$/u\<close>\<close>

definition UUID :: rx where
  "UUID = Cats [Times 8 (Cls is_hex_lower), Chr (CHR ''-''), Times 4 (Cls is_hex_lower),
     Chr (CHR ''-''), Cls (between (CHR ''1'') (CHR ''8'')), Times 3 (Cls is_hex_lower),
     Chr (CHR ''-''), OneOf ''89ab'', Times 3 (Cls is_hex_lower),
     Chr (CHR ''-''), Times 12 (Cls is_hex_lower)]"

text \<open>The same with the flag \<open>i\<close>: letters of either case\<close>

definition is_hex :: "char \<Rightarrow> bool" where
  "is_hex x \<longleftrightarrow> is_hex_lower x \<or> between (CHR ''A'') (CHR ''F'') x"

definition UUID_I :: rx where
  "UUID_I = Cats [Times 8 (Cls is_hex), Chr (CHR ''-''), Times 4 (Cls is_hex),
     Chr (CHR ''-''), Cls (between (CHR ''1'') (CHR ''8'')), Times 3 (Cls is_hex),
     Chr (CHR ''-''), OneOf ''89abAB'', Times 3 (Cls is_hex),
     Chr (CHR ''-''), Times 12 (Cls is_hex)]"

definition entity_id :: "string \<Rightarrow> bool" where
  "entity_id s = rx_test ENTITY_ID s"

definition property_id :: "string \<Rightarrow> bool" where
  "property_id s = rx_test PROPERTY_ID s"

definition generation_id :: "string \<Rightarrow> bool" where
  "generation_id s = rx_test GENERATION_ID s"

definition source_identity :: "string \<Rightarrow> bool" where
  "source_identity s = rx_test SOURCE_IDENTITY s"

definition query_service_id :: "string \<Rightarrow> bool" where
  "query_service_id s = rx_test QUERY_SERVICE_ID s"

section \<open>What they accept\<close>

lemma entity_id_iff:
  "entity_id s \<longleftrightarrow> (\<exists>k d ds. s = k # d # ds \<and> k \<in> {CHR ''Q'', CHR ''P''} \<and> is_digit19 d \<and>
     (\<forall>x \<in> set ds. is_digit x))"
proof
  assume "entity_id s"
  then show "\<exists>k d ds. s = k # d # ds \<and> k \<in> {CHR ''Q'', CHR ''P''} \<and> is_digit19 d \<and>
     (\<forall>x \<in> set ds. is_digit x)"
    by (auto simp: entity_id_def ENTITY_ID_def rx_test_lang OneOf_def star_lang_Cls)
next
  assume "\<exists>k d ds. s = k # d # ds \<and> k \<in> {CHR ''Q'', CHR ''P''} \<and> is_digit19 d \<and>
     (\<forall>x \<in> set ds. is_digit x)"
  then obtain k d ds where s: "s = [k] @ [d] @ ds" "k \<in> {CHR ''Q'', CHR ''P''}" "is_digit19 d"
    "\<forall>x \<in> set ds. is_digit x" by auto
  then have "[k] \<in> rx_lang (OneOf ''QP'')" "[d] \<in> rx_lang (Cls is_digit19)"
    "ds \<in> rx_lang (Star (Cls is_digit))" by (auto simp: OneOf_def star_lang_Cls)
  then show "entity_id s"
    unfolding entity_id_def ENTITY_ID_def rx_test_lang Cats.simps rx_lang.simps(3) s(1)
    by blast
qed

lemma property_id_iff: "property_id s \<longleftrightarrow> entity_id s \<and> hd s = CHR ''P''"
  unfolding entity_id_def property_id_def ENTITY_ID_def PROPERTY_ID_def rx_test_lang Cats.simps
    OneOf_def Chr_def rx_lang_Cls_Cat
  by auto

lemma generation_id_iff:
  "generation_id s \<longleftrightarrow> (\<exists>c t. s = ''gen-'' @ c # t \<and> is_lower_digit c \<and> length t \<le> 58 \<and>
     (\<forall>x \<in> set t. is_id_char x))"
proof -
  have "generation_id s \<longleftrightarrow> (\<exists>u. s = ''gen-'' @ u \<and>
      u \<in> rx_lang (Cat (Cls is_lower_digit) (AtMost 58 (Cls is_id_char))))"
    unfolding generation_id_def GENERATION_ID_def rx_test_lang Cats.simps rx_lang.simps(3)
      rx_lang_Lit by blast
  then show ?thesis unfolding rx_lang_Cls_Cat rx_lang_AtMost_Cls by blast
qed

lemma source_identity_iff:
  "source_identity s \<longleftrightarrow> (\<exists>c t. s = c # t \<and> is_lower_digit c \<and> length t \<le> 127 \<and>
     (\<forall>x \<in> set t. is_source_char x))"
  unfolding source_identity_def SOURCE_IDENTITY_def rx_test_lang Cats.simps rx_lang_Cls_Cat
    rx_lang_AtMost_Cls by simp

lemma query_service_id_iff:
  "query_service_id s \<longleftrightarrow> (\<exists>c t. s = c # t \<and> is_lower_digit c \<and> length t \<le> 63 \<and>
     (\<forall>x \<in> set t. is_id_char x))"
  unfolding query_service_id_def QUERY_SERVICE_ID_def rx_test_lang Cats.simps rx_lang_Cls_Cat
    rx_lang_AtMost_Cls by simp

lemma colon_not_id_char [simp]:
  "\<not> is_id_char (CHR '':'')"
  "\<not> is_lower_digit (CHR '':'')"
  "\<not> is_digit (CHR '':'')"
  "\<not> is_digit19 (CHR '':'')"
  by (auto simp: is_id_char_def is_lower_digit_def is_lower_def is_digit_def is_digit19_def
      between_def less_eq_char_def)

lemma generation_id_no_colon: "generation_id s \<Longrightarrow> CHR '':'' \<notin> set s"
  by (auto simp: generation_id_iff) (metis colon_not_id_char(1,2))+

lemma entity_id_no_colon: "entity_id s \<Longrightarrow> CHR '':'' \<notin> set s"
  by (auto simp: entity_id_iff) (metis colon_not_id_char(3,4))+

end
