(* ===== verification/Protocol.thy ===== *)
theory Protocol
  imports JsValue JsDate Identifiers
begin

text \<open>
  \<open>packages/rdf-sync/src/protocol.js\<close>: cursors and their order, the classification of a
  change-log row, the revision fence of an entity, and the update protocol that moves the fence
  only after the graph has been written and verified.

  The collaborators of \<open>applyEntityProtocol\<close> (\<open>fetchEntity\<close>, \<open>stage\<close>, \<open>commitGraph\<close>,
  \<open>verify\<close>, \<open>onPhase\<close>) are arbitrary actions on a world of their own; the fence is the other
  half of the state.
\<close>

section \<open>Cursors\<close>

text \<open>\<open>/^\d{4}-\d{2}-\d{2}T\d{2}:\d{2}:\d{2}Z$/u\<close>\<close>

definition CURSOR_STAMP :: rx where
  "CURSOR_STAMP = Cats [Times 4 (Cls is_digit), Chr (CHR ''-''), Times 2 (Cls is_digit),
     Chr (CHR ''-''), Times 2 (Cls is_digit), Chr (CHR ''T''), Times 2 (Cls is_digit),
     Chr (CHR '':''), Times 2 (Cls is_digit), Chr (CHR '':''), Times 2 (Cls is_digit),
     Chr (CHR ''Z'')]"

definition validateCursor :: "jsval \<Rightarrow> jsval result" where
  "validateCursor value =
     bindR (requireR (source_identity (js_string (js_prop value ''sourceIdentity'')))
       ''invalid source identity'') (\<lambda>_.
     bindR (js_get value ''rcid'') (\<lambda>rcid.
     bindR (requireR (case js_integer rcid of None \<Rightarrow> False | Some i \<Rightarrow> 0 \<le> i)
       ''invalid rcid'') (\<lambda>_.
     bindR (requireR (rx_test CURSOR_STAMP (js_string (js_prop value ''timestamp'')) \<and>
         date_parse (js_string (js_prop value ''timestamp'')) \<noteq> None)
       ''invalid cursor timestamp'') (\<lambda>_.
     Inr (JObj [(''sourceIdentity'', js_prop value ''sourceIdentity''),
       (''timestamp'', js_prop value ''timestamp''), (''rcid'', rcid)])))))"

text \<open>
  \<open>localeCompare\<close> on timestamps of one shape: the collation keeps the order of the digits, and
  the other characters agree position by position.
\<close>

definition locale_compare :: "string \<Rightarrow> string \<Rightarrow> int" where
  "locale_compare a b = (if a < b then -1 else if b < a then 1 else 0)"

definition js_minus :: "jsval \<Rightarrow> jsval \<Rightarrow> int" where
  "js_minus a b = (case (js_integer a, js_integer b) of (Some i, Some j) \<Rightarrow> i - j | _ \<Rightarrow> 0)"

definition compareCursor :: "jsval \<Rightarrow> jsval \<Rightarrow> int result" where
  "compareCursor left right =
     bindR (validateCursor left) (\<lambda>a.
     bindR (validateCursor right) (\<lambda>b.
     bindR (requireR (js_same (js_prop a ''sourceIdentity'') (js_prop b ''sourceIdentity''))
       ''cursor source mismatch'') (\<lambda>_.
     if js_same (js_prop a ''timestamp'') (js_prop b ''timestamp'')
     then Inr (sgn (js_minus (js_prop a ''rcid'') (js_prop b ''rcid'')))
     else (case js_prop a ''timestamp'' of
         JStr s \<Rightarrow> Inr (sgn (locale_compare s (js_string (js_prop b ''timestamp''))))
       | _ \<Rightarrow> Inl ''TypeError''))))"

text \<open>A cursor as the other components keep it\<close>

record cursor =
  cur_source :: string
  cur_timestamp :: string
  cur_rcid :: int

definition cursor_value :: "cursor \<Rightarrow> jsval" where
  "cursor_value c = JObj [(''sourceIdentity'', JStr (cur_source c)),
     (''timestamp'', JStr (cur_timestamp c)), (''rcid'', JInt (cur_rcid c))]"

section \<open>Classification of changes\<close>

datatype change_action =
    ENTITY_EDIT
  | ENTITY_DELETE
  | ENTITY_UNDELETE
  | ENTITY_REDIRECT
  | ENTITY_REDIRECT_REMOVED
  | ENTITY_MERGE
  | NON_ENTITY_CHANGE
  | UNKNOWN

text \<open>
  A row of the change log after \<open>normalizeEvent\<close>: \<open>None\<close> is a property that is absent or
  \<open>null\<close>, which the code does not tell apart.
\<close>

record change_event =
  ev_rcid :: int
  ev_timestamp :: string
  ev_type :: "string option"
  ev_title :: "string option"
  ev_revid :: "int option"
  ev_oldRevid :: "int option"
  ev_logtype :: "string option"
  ev_logaction :: "string option"
  ev_comment :: "string option"
  ev_tags :: "string list option"
  ev_redirect :: bool

record classified =
  cl_action :: change_action
  cl_entity :: "string option"
  cl_authoritative :: bool

definition text_of :: "string option \<Rightarrow> string" where
  "text_of v = (case v of None \<Rightarrow> [] | Some s \<Rightarrow> s)"

text \<open>\<open>/^(?:Item|Property):([QP][1-9][0-9]*)$/u\<close>\<close>

definition ENTITY_TITLE :: rx where
  "ENTITY_TITLE = Cats [Alts [Lit ''Item'', Lit ''Property''], Chr (CHR '':''), Grp 1 ENTITY_ID]"

definition title_entity :: "string \<Rightarrow> string option" where
  "title_entity t = (case rx_exec ENTITY_TITLE t of None \<Rightarrow> None | Some c \<Rightarrow> group c 1)"

definition log_action :: "string \<Rightarrow> change_action option" where
  "log_action key = map_of [(''delete/delete'', ENTITY_DELETE),
     (''delete/restore'', ENTITY_UNDELETE), (''merge/merge'', ENTITY_MERGE)] key"

definition classified_as :: "change_action \<Rightarrow> string option \<Rightarrow> bool \<Rightarrow> classified" where
  "classified_as a e b = \<lparr>cl_action = a, cl_entity = e, cl_authoritative = b\<rparr>"

definition classifyChange :: "change_event \<Rightarrow> classified" where
  "classifyChange event =
     (let entity = title_entity (text_of (ev_title event)) in
      if ev_type event = Some ''log'' then
        (case log_action (text_of (ev_logtype event) @ ''/'' @ text_of (ev_logaction event)) of
           Some a \<Rightarrow> classified_as a entity True
         | None \<Rightarrow> classified_as (if entity \<noteq> None then UNKNOWN else NON_ENTITY_CHANGE) entity False)
      else if entity = None then classified_as NON_ENTITY_CHANGE None False
      else if ev_type event \<noteq> Some ''edit'' \<and> ev_type event \<noteq> Some ''new''
      then classified_as UNKNOWN entity False
      else
        let tags = (case ev_tags event of None \<Rightarrow> [] | Some ts \<Rightarrow> ts);
            comment = text_of (ev_comment event)
        in if List.member tags ''mw-removed-redirect''
           then classified_as ENTITY_REDIRECT_REMOVED entity True
           else if List.member tags ''mw-new-redirect'' \<or>
             starts_with ''/* wbcreateredirect:'' comment
           then classified_as ENTITY_REDIRECT entity True
           else if starts_with ''/* wbmergeitems-'' comment
           then classified_as ENTITY_MERGE entity True
           else if ev_redirect event then classified_as UNKNOWN entity False
           else classified_as ENTITY_EDIT entity True)"

section \<open>The revision fence\<close>

record fence =
  f_entity :: string
  f_indexed :: int
  f_latestSeen :: int
  f_status :: string

datatype decision = DUPLICATE | OLDER | GAP_DETECTED | APPLY

definition new_fence :: "string \<Rightarrow> int \<Rightarrow> fence result" where
  "new_fence entityId indexedRevision =
     bindR (requireR (entity_id entityId \<and> 0 \<le> indexedRevision) ''invalid fence'') (\<lambda>_.
     Inr \<lparr>f_entity = entityId, f_indexed = indexedRevision, f_latestSeen = indexedRevision,
       f_status = ''HEALTHY''\<rparr>)"

text \<open>The decision carries \<open>write: true\<close> exactly when it is \<open>APPLY\<close>.\<close>

definition observe :: "int option \<Rightarrow> int option \<Rightarrow> (fence, decision) action" where
  "observe incoming oldRevision =
     (case incoming of
        None \<Rightarrow> raiseA ''invalid incoming revision''
      | Some revision \<Rightarrow>
          if revision < 1 then raiseA ''invalid incoming revision''
          else thenA (modifyA (\<lambda>f. f\<lparr>f_latestSeen := max (f_latestSeen f) revision\<rparr>))
            (bindA (readA f_indexed) (\<lambda>indexed.
             if revision \<le> indexed
             then returnA (if revision = indexed then DUPLICATE else OLDER)
             else if indexed \<noteq> 0 \<and> oldRevision \<noteq> Some indexed
             then thenA (modifyA (f_status_update (\<lambda>_. ''GAP_DETECTED''))) (returnA GAP_DETECTED)
             else returnA APPLY)))"

definition fence_commit :: "int \<Rightarrow> (fence, unit) action" where
  "fence_commit revision =
     bindA (readA id) (\<lambda>f.
     if revision \<le> f_indexed f \<or> revision > f_latestSeen f then raiseA ''invalid fence commit''
     else modifyA (\<lambda>f. f\<lparr>f_indexed := revision, f_status := ''HEALTHY''\<rparr>))"

definition fence_fail :: "string \<Rightarrow> (fence, string) action" where
  "fence_fail code =
     thenA (modifyA (f_status_update (\<lambda>_. ''ERROR''))) (returnA code)"

section \<open>The in-memory store\<close>

text \<open>\<open>entities\<close> is a \<open>Map\<close> from entity identifiers to fences, in insertion order.\<close>

record sync_store =
  st_source :: string
  st_cursor :: "jsval option"
  st_entities :: "(string \<times> fence) list"

definition new_store :: "string \<Rightarrow> sync_store" where
  "new_store sourceIdentity =
     \<lparr>st_source = sourceIdentity, st_cursor = None, st_entities = []\<rparr>"

definition store_fence :: "string \<Rightarrow> (sync_store, fence) action" where
  "store_fence entityId =
     bindA (readA st_entities) (\<lambda>es.
     case map_of es entityId of
       Some f \<Rightarrow> returnA f
     | None \<Rightarrow> bindA (liftA (new_fence entityId 0)) (\<lambda>f.
         thenA (modifyA (\<lambda>s. s\<lparr>st_entities := st_entities s @ [(entityId, f)]\<rparr>)) (returnA f)))"

definition store_advanceCursor :: "jsval \<Rightarrow> (sync_store, bool) action" where
  "store_advanceCursor cursor =
     bindA (liftA (validateCursor cursor)) (\<lambda>next.
     bindA (readA id) (\<lambda>s.
     if js_prop next ''sourceIdentity'' \<noteq> JStr (st_source s) then raiseA ''cursor source mismatch''
     else
       bindA (case st_cursor s of None \<Rightarrow> returnA False
              | Some c \<Rightarrow> bindA (liftA (compareCursor next c)) (\<lambda>o'. returnA (o' \<le> 0))) (\<lambda>behind.
       if behind then returnA False
       else thenA (modifyA (st_cursor_update (\<lambda>_. Some next))) (returnA True))))"

section \<open>The update protocol\<close>

record protocol_event =
  pe_entity :: string
  pe_revid :: "int option"
  pe_oldRevid :: "int option"

record ('w, 'f, 'g) protocol_hooks =
  h_fetchEntity :: "string \<Rightarrow> int option \<Rightarrow> ('w, 'f) action"
  h_revision :: "'f \<Rightarrow> int option"
  h_stage :: "'f \<Rightarrow> ('w, 'g) action"
  h_commitGraph :: "'g \<Rightarrow> ('w, unit) action"
  h_verify :: "'f \<Rightarrow> ('w, bool) action"
  h_onPhase :: "string \<Rightarrow> ('w, unit) action"

datatype protocol_outcome =
    NOT_WRITTEN decision
  | REVISION_MISMATCH
  | VERIFY_FAILED
  | APPLIED

definition applyEntityProtocol ::
  "('w, 'f, 'g) protocol_hooks \<Rightarrow> protocol_event \<Rightarrow> (fence \<times> 'w, protocol_outcome) action" where
  "applyEntityProtocol h event =
     thenA (on_snd (h_onPhase h ''BEFORE_FETCH''))
     (bindA (on_fst (observe (pe_revid event) (pe_oldRevid event))) (\<lambda>decision.
      if decision \<noteq> APPLY then returnA (NOT_WRITTEN decision)
      else
        bindA (on_snd (h_fetchEntity h (pe_entity event) (pe_revid event))) (\<lambda>fetched.
        thenA (on_snd (h_onPhase h ''AFTER_FETCH''))
        (if h_revision h fetched \<noteq> pe_revid event then returnA REVISION_MISMATCH
         else
           thenA (on_snd (h_onPhase h ''BEFORE_BACKEND_UPDATE''))
           (bindA (on_snd (h_stage h fetched)) (\<lambda>staged.
            thenA (on_snd (h_onPhase h ''DURING_BACKEND_UPDATE''))
            (thenA (on_snd (h_commitGraph h staged))
            (thenA (on_snd (h_onPhase h ''AFTER_BACKEND_UPDATE''))
            (bindA (on_snd (h_verify h fetched)) (\<lambda>verified.
             if \<not> verified
             then thenA (on_fst (fence_fail ''VERIFY_FAILED'')) (returnA VERIFY_FAILED)
             else
               thenA (on_fst (case pe_revid event of
                   None \<Rightarrow> raiseA ''invalid fence commit'' | Some r \<Rightarrow> fence_commit r))
               (thenA (on_snd (h_onPhase h ''AFTER_FENCE_UPDATE''))
               (returnA APPLIED))))))))))))"

text \<open>The base classes of the collaborators only throw.\<close>

definition ChangeSource_read :: "'c \<Rightarrow> 'n \<Rightarrow> ('w, 'a) action" where
  "ChangeSource_read cursor limit = raiseA ''ChangeSource.read is not implemented''"

definition EntityRdfFetcher_fetch :: "'e \<Rightarrow> 'n \<Rightarrow> ('w, 'a) action" where
  "EntityRdfFetcher_fetch entityId revision = raiseA ''EntityRdfFetcher.fetch is not implemented''"

definition RdfPartitioner_partition :: "'r \<Rightarrow> 'a result" where
  "RdfPartitioner_partition rdf = Inl ''RdfPartitioner.partition is not implemented''"

section \<open>Cursor order\<close>

lemma CURSOR_STAMP_iff:
  "rx_test CURSOR_STAMP s \<longleftrightarrow> stamp_shape s \<and> drop 19 s = ''Z''"
  unfolding rx_test_lang CURSOR_STAMP_def Cats.simps rx_lang_Times_Cat rx_lang_Chr_Cat rx_lang_Chr
    stamp_shape_def all_digits_def field_def list_all_iff drop_drop length_drop
  by (cases "19 \<le> length s") (simp_all add: le_diff_conv2)

definition wf_cursor :: "cursor \<Rightarrow> bool" where
  "wf_cursor c \<longleftrightarrow> source_identity (cur_source c) \<and> 0 \<le> cur_rcid c \<and>
     iso_stamp (cur_timestamp c) \<and> date_parse (cur_timestamp c) \<noteq> None"

text \<open>The order of the log: by instant, then by the change number\<close>

definition cursor_less :: "cursor \<Rightarrow> cursor \<Rightarrow> bool" where
  "cursor_less a b \<longleftrightarrow> cur_timestamp a < cur_timestamp b \<or>
     cur_timestamp a = cur_timestamp b \<and> cur_rcid a < cur_rcid b"

lemma cursor_less_trans: "cursor_less a b \<Longrightarrow> cursor_less b c \<Longrightarrow> cursor_less a c"
  by (auto simp: cursor_less_def)

lemma cursor_less_irrefl [simp]: "\<not> cursor_less a a"
  by (simp add: cursor_less_def)

lemma js_prop_cursor [simp]:
  "js_prop (cursor_value c) ''sourceIdentity'' = JStr (cur_source c)"
  "js_prop (cursor_value c) ''timestamp'' = JStr (cur_timestamp c)"
  "js_prop (cursor_value c) ''rcid'' = JInt (cur_rcid c)"
  by (simp_all add: cursor_value_def)

lemma js_get_cursor [simp]: "js_get (cursor_value c) k = Inr (js_prop (cursor_value c) k)"
  by (simp add: js_get_def cursor_value_def)

lemma validateCursor_wf: "wf_cursor c \<Longrightarrow> validateCursor (cursor_value c) = Inr (cursor_value c)"
  by (simp add: validateCursor_def wf_cursor_def CURSOR_STAMP_iff iso_stamp_def requireR_def)
    (simp add: cursor_value_def)

text \<open>Two valid cursors of one source compare by the instants of their timestamps and, at the
  same instant, by their change numbers; the comparison of the strings is the comparison the
  PostgreSQL repository makes on parsed dates.\<close>

theorem compareCursor_order:
  assumes "wf_cursor a" "wf_cursor b" "cur_source a = cur_source b"
    and "date_parse (cur_timestamp a) = Some s" "date_parse (cur_timestamp b) = Some t"
  shows "compareCursor (cursor_value a) (cursor_value b) =
    Inr (if s < t \<or> s = t \<and> cur_rcid a < cur_rcid b then -1
         else if s = t \<and> cur_rcid a = cur_rcid b then 0 else 1)"
proof -
  have iso: "iso_stamp (cur_timestamp a)" "iso_stamp (cur_timestamp b)"
    using assms(1,2) by (simp_all add: wf_cursor_def)
  note lt = iso_stamp_order [OF iso assms(4,5)] iso_stamp_order [OF iso(2,1) assms(5,4)]
  note eq = iso_stamp_order_eq [OF iso assms(4,5)]
  show ?thesis
    using assms(3) lt eq
    by (auto simp: compareCursor_def validateCursor_wf assms(1,2) locale_compare_def
        js_minus_def requireR_def)
qed

theorem compareCursor_order_witness:
  "compareCursor
     (cursor_value \<lparr>cur_source = ''local'', cur_timestamp = ''2026-08-19T00:00:01Z'', cur_rcid = 9\<rparr>)
     (cursor_value \<lparr>cur_source = ''local'', cur_timestamp = ''2026-08-20T00:00:00Z'', cur_rcid = 3\<rparr>)
   = Inr (-1)"
proof -
  have p: "date_parse ''2026-08-19T00:00:01Z'' = Some 1787097601000"
    "date_parse ''2026-08-20T00:00:00Z'' = Some 1787184000000"
    "iso_stamp ''2026-08-19T00:00:01Z''" "iso_stamp ''2026-08-20T00:00:00Z''"
    "source_identity ''local''" by code_simp+
  show ?thesis 
    by (subst compareCursor_order [where s = 1787097601000 and t = 1787184000000]) (simp_all add: wf_cursor_def p)
qed

text \<open>A cursor without a source identity passes validation, because \<open>RegExp.test\<close> reads
  \<open>undefined\<close> as the text \<open>undefined\<close>; the value returned has no source identity either.\<close>

theorem validateCursor_missing_source:
  "validateCursor (JObj [(''timestamp'', JStr ''2026-08-19T00:00:01Z''), (''rcid'', JInt 4)]) =
     Inr (JObj [(''sourceIdentity'', JUndefined), (''timestamp'', JStr ''2026-08-19T00:00:01Z''),
       (''rcid'', JInt 4)])"
  by code_simp

section \<open>Classification\<close>

lemma title_entity_iff:
  "title_entity t = Some e \<longleftrightarrow> entity_id e \<and> (t = ''Item:'' @ e \<or> t = ''Property:'' @ e)"
proof -
  let ?k = "Alts [Lit ''Item'', Lit ''Property'']"
  have k: "\<not> has_group ?k" "\<not> has_group ENTITY_ID" "\<not> has_group (Chr c)" for c
    by (simp_all add: Chr_def ENTITY_ID_def OneOf_def Lit.simps)
  have lk: "w \<in> rx_lang ?k \<longleftrightarrow> w = ''Item'' \<or> w = ''Property''" for w
    by (auto simp: rx_lang_Alts)
  have run: "\<exists>w. c = [(1, w)] \<and> entity_id w \<and> (t = ''Item:'' @ w \<or> t = ''Property:'' @ w)"
    if "rx_exec ENTITY_TITLE t = Some c" for c
  proof -
    from rx_exec_runs [OF that] obtain s1 c1 s2 c2 where
      r: "(s1, c1) \<in> set (runs ?k t [])" "(s2, c2) \<in> set (runs (Chr (CHR '':'')) s1 c1)"
        "([], c) \<in> set (runs (Grp 1 ENTITY_ID) s2 c2)"
      unfolding ENTITY_TITLE_def Cats.simps by (metis runs_Cat)
    from runs_plain [OF r(1) k(1)] obtain u where "c1 = []" "t = u @ s1" "u = ''Item'' \<or> u = ''Property''"
      unfolding lk by blast
    moreover from runs_plain [OF r(2) k(3)] have "c2 = c1" "s1 = CHR '':'' # s2"
      by (auto simp: rx_lang_Chr)
    moreover from runs_Grp [OF r(3) k(2)] have "entity_id s2" "c = (1, s2) # c2"
      by (auto simp: entity_id_def rx_test_lang)
    ultimately show ?thesis by auto
  qed
  show ?thesis
  proof
    assume "title_entity t = Some e"
    then obtain c where "rx_exec ENTITY_TITLE t = Some c" "group c 1 = Some e"
      by (auto simp: title_entity_def split: option.splits)
    with run [OF this(1)] show "entity_id e \<and> (t = ''Item:'' @ e \<or> t = ''Property:'' @ e)"
      by (auto simp: group_def)
  next
    assume *: "entity_id e \<and> (t = ''Item:'' @ e \<or> t = ''Property:'' @ e)"
    then obtain k where t: "t = k @ [CHR '':''] @ e" "k \<in> rx_lang ?k" by (auto simp: lk simp del: Alts.simps)
    have "t \<in> rx_lang ENTITY_TITLE"
      unfolding ENTITY_TITLE_def Cats.simps t(1)
      using t(2) * by (intro rx_lang_CatI) (auto simp: rx_lang_Chr entity_id_def rx_test_lang simp del: Alts.simps)
    then obtain c where c: "rx_exec ENTITY_TITLE t = Some c" using rx_exec_lang by blast
    from run [OF c] * have "c = [(1, e)]" by auto
    with c show "title_entity t = Some e" by (simp add: title_entity_def group_def)
  qed
qed

lemma classifyChange_entity:
  "cl_entity (classifyChange ev) = title_entity (text_of (ev_title ev))"
  by (auto simp: classifyChange_def classified_as_def Let_def split: option.splits)

lemma classified_entity_id: "cl_entity (classifyChange ev) = Some i \<Longrightarrow> entity_id i"
  by (simp add: classifyChange_entity title_entity_iff)

lemma log_action_range: "log_action k = Some a \<Longrightarrow> a \<notin> {UNKNOWN, NON_ENTITY_CHANGE, ENTITY_EDIT}"
  by (auto simp: log_action_def split: if_splits)

lemma title_entity_ex:
  "(\<exists>e. entity_id e \<and> (t = ''Item:'' @ e \<or> t = ''Property:'' @ e)) \<longleftrightarrow> title_entity t \<noteq> None"
  using title_entity_iff [of t] by auto

text \<open>Classification fails closed.  Exactly the authoritative verdicts carry an action that
  the engine may execute, every entity named is a well-formed identifier taken from the title, and
  an event counts as an ordinary edit only when nothing in the row points to a redirect or a
  merge.\<close>

theorem classifyChange_fails_closed:
  "(cl_authoritative (classifyChange ev) \<longleftrightarrow>
     cl_action (classifyChange ev) \<notin> {UNKNOWN, NON_ENTITY_CHANGE}) \<and>
   cl_entity (classifyChange ev) = title_entity (text_of (ev_title ev)) \<and>
   (cl_action (classifyChange ev) = ENTITY_EDIT \<longleftrightarrow>
     ev_type ev \<in> {Some ''edit'', Some ''new''} \<and>
     (\<exists>e. entity_id e \<and> (text_of (ev_title ev) = ''Item:'' @ e \<or>
       text_of (ev_title ev) = ''Property:'' @ e)) \<and>
     (case ev_tags ev of None \<Rightarrow> True
      | Some ts \<Rightarrow> ''mw-removed-redirect'' \<notin> set ts \<and> ''mw-new-redirect'' \<notin> set ts) \<and>
     \<not> starts_with ''/* wbcreateredirect:'' (text_of (ev_comment ev)) \<and>
     \<not> starts_with ''/* wbmergeitems-'' (text_of (ev_comment ev)) \<and> \<not> ev_redirect ev)"
proof (intro conjI)
  show "cl_authoritative (classifyChange ev) \<longleftrightarrow>
     cl_action (classifyChange ev) \<notin> {UNKNOWN, NON_ENTITY_CHANGE}"
    using log_action_range by (auto simp: classifyChange_def classified_as_def Let_def split: option.splits)
  show "cl_entity (classifyChange ev) = title_entity (text_of (ev_title ev))"
    by (rule classifyChange_entity)
  show "cl_action (classifyChange ev) = ENTITY_EDIT \<longleftrightarrow>
     ev_type ev \<in> {Some ''edit'', Some ''new''} \<and>
     (\<exists>e. entity_id e \<and> (text_of (ev_title ev) = ''Item:'' @ e \<or>
       text_of (ev_title ev) = ''Property:'' @ e)) \<and>
     (case ev_tags ev of None \<Rightarrow> True
      | Some ts \<Rightarrow> ''mw-removed-redirect'' \<notin> set ts \<and> ''mw-new-redirect'' \<notin> set ts) \<and>
     \<not> starts_with ''/* wbcreateredirect:'' (text_of (ev_comment ev)) \<and>
     \<not> starts_with ''/* wbmergeitems-'' (text_of (ev_comment ev)) \<and> \<not> ev_redirect ev"
    unfolding title_entity_ex using log_action_range
    by (auto simp: classifyChange_def classified_as_def Let_def split: option.splits)
qed

section \<open>The fence\<close>

definition fence_ok :: "fence \<Rightarrow> bool" where
  "fence_ok f \<longleftrightarrow> entity_id (f_entity f) \<and> 0 \<le> f_indexed f \<and> f_indexed f \<le> f_latestSeen f"

lemma wp_observe [wp_simps]:
  "wp (observe incoming old) Q f \<longleftrightarrow>
     (case incoming of
        None \<Rightarrow> Q (Inl ''invalid incoming revision'') f
      | Some r \<Rightarrow>
          if r < 1 then Q (Inl ''invalid incoming revision'') f
          else
            let f' = f\<lparr>f_latestSeen := max (f_latestSeen f) r\<rparr> in
            if r = f_indexed f then Q (Inr DUPLICATE) f'
            else if r < f_indexed f then Q (Inr OLDER) f'
            else if f_indexed f \<noteq> 0 \<and> old \<noteq> Some (f_indexed f)
            then Q (Inr GAP_DETECTED) (f'\<lparr>f_status := ''GAP_DETECTED''\<rparr>)
            else Q (Inr APPLY) f')"
  by (auto simp: observe_def wp_simps Let_def split: option.splits)

lemma wp_fence_commit [wp_simps]:
  "wp (fence_commit r) Q f \<longleftrightarrow>
     (if r \<le> f_indexed f \<or> r > f_latestSeen f then Q (Inl ''invalid fence commit'') f
      else Q (Inr ()) (f\<lparr>f_indexed := r, f_status := ''HEALTHY''\<rparr>))"
  by (simp add: fence_commit_def wp_simps)

lemma wp_fence_fail [wp_simps]:
  "wp (fence_fail code) Q f \<longleftrightarrow> Q (Inr code) (f\<lparr>f_status := ''ERROR''\<rparr>)"
  by (simp add: fence_fail_def wp_simps)

datatype fence_op = Observe "int option" "int option" | Commit int | Fail string

fun run_fence_op :: "fence_op \<Rightarrow> fence \<Rightarrow> fence" where
  "run_fence_op (Observe r old) f = snd (observe r old f)"
| "run_fence_op (Commit r) f = snd (fence_commit r f)"
| "run_fence_op (Fail c) f = snd (fence_fail c f)"

definition fence_le :: "fence \<Rightarrow> fence \<Rightarrow> bool" where
  "fence_le f g \<longleftrightarrow> (fence_ok f \<longrightarrow> fence_ok g) \<and> f_entity g = f_entity f \<and>
     f_indexed f \<le> f_indexed g \<and> f_latestSeen f \<le> f_latestSeen g"

lemma run_fence_op_le: "fence_le f (run_fence_op op f)"
proof -
  have "wp (observe r old) (\<lambda>_ g. fence_le f g) f" for r old
    by (auto simp: wp_simps fence_le_def fence_ok_def Let_def split: option.splits)
  moreover have "wp (fence_commit r) (\<lambda>_ g. fence_le f g) f" for r
    by (auto simp: wp_simps fence_le_def fence_ok_def)
  moreover have "wp (fence_fail c) (\<lambda>_ g. fence_le f g) f" for c
    by (auto simp: wp_simps fence_le_def fence_ok_def)
  ultimately show ?thesis by (cases op) (simp_all add: wp_snd)
qed

text \<open>The fence of an entity never moves backwards and never runs ahead of what was seen, in any
  sequence of its operations, and stays the fence of that entity.\<close>

theorem fence_progress:
  assumes "new_fence e n = Inr f"
  shows "fence_le f (fold run_fence_op ops f) \<and> fence_ok (fold run_fence_op ops f)"
proof -
  have "fence_le f g \<Longrightarrow> fence_le f (fold run_fence_op ops g)" for g
  proof (induction ops arbitrary: g)
    case (Cons op ops)
    have "fence_le f (run_fence_op op g)"
      using Cons.prems run_fence_op_le [of g op] by (auto simp: fence_le_def)
    with Cons.IH show ?case by simp
  qed simp
  then have "fence_le f (fold run_fence_op ops f)" by (simp add: fence_le_def)
  moreover have "fence_ok f"
    using assms by (auto simp: new_fence_def bindR_eq_Inr fence_ok_def)
  ultimately show ?thesis by (simp add: fence_le_def)
qed

text \<open>A revision is let through only when it is new and directly follows the indexed one, and then
  the commit that ends its processing succeeds.\<close>

lemma observe_apply_commits:
  assumes "observe incoming old f = (Inr APPLY, f')"
  shows "\<exists>r. incoming = Some r \<and> f_indexed f < r \<and> (f_indexed f = 0 \<or> old = Some (f_indexed f)) \<and>
    fence_commit r f' = (Inr (), f\<lparr>f_indexed := r, f_latestSeen := max (f_latestSeen f) r,
      f_status := ''HEALTHY''\<rparr>)"
proof -
  have "wp (observe incoming old) (\<lambda>r g. r = Inr APPLY \<longrightarrow>
      incoming \<noteq> None \<and> f_indexed f < the incoming \<and>
      (f_indexed f = 0 \<or> old = Some (f_indexed f)) \<and>
      wp (fence_commit (the incoming)) (\<lambda>q g. q = Inr () \<and> g = f\<lparr>f_indexed := the incoming,
         f_latestSeen := max (f_latestSeen f) (the incoming), f_status := ''HEALTHY''\<rparr>) g) f"
    by (cases f) (auto simp: wp_simps Let_def split: option.splits)
  from wpD [OF this assms] show ?thesis by (auto simp: wp_def split: prod.splits)
qed

section \<open>The fence moves last\<close>

text \<open>C31: the fence of the entity moves only to the revision of the event, only if that revision
  directly follows the indexed one, and only after the graph of exactly that revision has been
  committed and then verified; whatever the collaborators do, and whichever of them throws.\<close>

theorem applyEntityProtocol_fence_last:
  assumes "applyEntityProtocol h ev (f, w) = (r, (f', w'))" "f_indexed f' \<noteq> f_indexed f"
  shows "\<exists>rev fetched staged w1 w2 w3 w4.
    pe_revid ev = Some rev \<and> f_indexed f < rev \<and> f_indexed f' = rev \<and>
    (f_indexed f = 0 \<or> pe_oldRevid ev = Some (f_indexed f)) \<and>
    h_revision h fetched = Some rev \<and>
    h_commitGraph h staged w1 = (Inr (), w2) \<and>
    h_onPhase h ''AFTER_BACKEND_UPDATE'' w2 = (Inr (), w3) \<and>
    h_verify h fetched w3 = (Inr True, w4) \<and>
    (r = Inr APPLIED \<or> h_onPhase h ''AFTER_FENCE_UPDATE'' w4 = (map_sum id (\<lambda>_. ()) r, w'))"
proof -
  let ?Q = "\<lambda>r (g, v). f_indexed g \<noteq> f_indexed f \<longrightarrow> (\<exists>rev fetched staged w1 w2 w3 w4.
    pe_revid ev = Some rev \<and> f_indexed f < rev \<and> f_indexed g = rev \<and>
    (f_indexed f = 0 \<or> pe_oldRevid ev = Some (f_indexed f)) \<and>
    h_revision h fetched = Some rev \<and>
    h_commitGraph h staged w1 = (Inr (), w2) \<and>
    h_onPhase h ''AFTER_BACKEND_UPDATE'' w2 = (Inr (), w3) \<and>
    h_verify h fetched w3 = (Inr True, w4) \<and>
    (r = Inr APPLIED \<or> h_onPhase h ''AFTER_FENCE_UPDATE'' w4 = (map_sum id (\<lambda>_. ()) r, v)))"
  have "wp (applyEntityProtocol h ev) ?Q (f, w)"
    unfolding applyEntityProtocol_def
    apply (simp add: wp_simps Let_def split: option.splits sum.splits)
    by (auto intro!: wpI split: option.splits sum.splits) blast+
  with assms show ?thesis by (auto simp: wp_def)
qed

text \<open>A run in which nothing fails, on a world that lists what happened\<close>

definition tracing_hooks :: "(string list, int option, int option) protocol_hooks" where
  "tracing_hooks =
     \<lparr>h_fetchEntity = (\<lambda>e r. thenA (modifyA (\<lambda>w. w @ [''fetch''])) (returnA r)),
      h_revision = id,
      h_stage = (\<lambda>f. thenA (modifyA (\<lambda>w. w @ [''stage''])) (returnA f)),
      h_commitGraph = (\<lambda>g. modifyA (\<lambda>w. w @ [''commit''])),
      h_verify = (\<lambda>f. thenA (modifyA (\<lambda>w. w @ [''verify''])) (returnA True)),
      h_onPhase = (\<lambda>p. modifyA (\<lambda>w. w @ [p]))\<rparr>"

theorem applyEntityProtocol_fence_last_witness:
  "\<exists>rev fetched staged w1 w2 w3 w4.
    Some 21 = Some rev \<and> (20 :: int) < rev \<and> 21 = rev \<and>
    ((20 :: int) = 0 \<or> Some 20 = Some (20 :: int)) \<and>
    h_revision tracing_hooks fetched = Some rev \<and>
    h_commitGraph tracing_hooks staged w1 = (Inr (), w2) \<and>
    h_onPhase tracing_hooks ''AFTER_BACKEND_UPDATE'' w2 = (Inr (), w3) \<and>
    h_verify tracing_hooks fetched w3 = (Inr True, w4) \<and>
    (Inr APPLIED = (Inr APPLIED :: protocol_outcome result) \<or>
     h_onPhase tracing_hooks ''AFTER_FENCE_UPDATE'' w4 =
       (map_sum id (\<lambda>_. ()) (Inr APPLIED :: protocol_outcome result),
        [''BEFORE_FETCH'', ''fetch'', ''AFTER_FETCH'', ''BEFORE_BACKEND_UPDATE'', ''stage'',
         ''DURING_BACKEND_UPDATE'', ''commit'', ''AFTER_BACKEND_UPDATE'', ''verify'',
         ''AFTER_FENCE_UPDATE'']))"
  using applyEntityProtocol_fence_last [of tracing_hooks
    "\<lparr>pe_entity = ''Q1'', pe_revid = Some 21, pe_oldRevid = Some 20\<rparr>"
    "\<lparr>f_entity = ''Q1'', f_indexed = 20, f_latestSeen = 20, f_status = ''HEALTHY''\<rparr>" "[]"
    "Inr APPLIED"
    "\<lparr>f_entity = ''Q1'', f_indexed = 21, f_latestSeen = 21, f_status = ''HEALTHY''\<rparr>"
    "[''BEFORE_FETCH'', ''fetch'', ''AFTER_FETCH'', ''BEFORE_BACKEND_UPDATE'', ''stage'',
      ''DURING_BACKEND_UPDATE'', ''commit'', ''AFTER_BACKEND_UPDATE'', ''verify'',
      ''AFTER_FENCE_UPDATE'']"]
  by (simp add: applyEntityProtocol_def tracing_hooks_def observe_def fence_commit_def thenA_def
      bindA_def on_fst_def on_snd_def modifyA_def readA_def returnA_def)

theorem fence_progress_witness:
  "fence_le \<lparr>f_entity = ''Q1'', f_indexed = 20, f_latestSeen = 20, f_status = ''HEALTHY''\<rparr>
     (fold run_fence_op [Observe (Some 22) (Some 20), Commit 22, Observe (Some 21) (Some 20)]
       \<lparr>f_entity = ''Q1'', f_indexed = 20, f_latestSeen = 20, f_status = ''HEALTHY''\<rparr>) \<and>
   fence_ok
     (fold run_fence_op [Observe (Some 22) (Some 20), Commit 22, Observe (Some 21) (Some 20)]
       \<lparr>f_entity = ''Q1'', f_indexed = 20, f_latestSeen = 20, f_status = ''HEALTHY''\<rparr>)"
proof -
  have "entity_id ''Q1''" by code_simp
  then show ?thesis by (intro fence_progress [where e = "''Q1''" and n = 20]) (simp add: new_fence_def)
qed

section \<open>The in-memory store\<close>

lemma compareCursor_typed:
  assumes "wf_cursor a" "wf_cursor b" "cur_source a = cur_source b"
  shows "compareCursor (cursor_value a) (cursor_value b) =
    Inr (if cursor_less a b then -1 else if cursor_less b a then 1 else 0)"
  using assms by (auto simp: compareCursor_def validateCursor_wf locale_compare_def
      js_minus_def requireR_def cursor_less_def)

text \<open>The stored cursor only moves forward.\<close>

lemma store_advanceCursor_forward:
  assumes "wf_cursor c" "cur_source c = st_source s"
    and "st_cursor s = Some (cursor_value d)" "wf_cursor d" "cur_source d = st_source s"
  shows "store_advanceCursor (cursor_value c) s =
    (if cursor_less d c then (Inr True, s\<lparr>st_cursor := Some (cursor_value c)\<rparr>) else (Inr False, s))"
  using assms
  by (auto simp: store_advanceCursor_def validateCursor_wf compareCursor_typed bindA_def thenA_def
      liftA_def readA_def modifyA_def returnA_def cursor_less_def)

end
