(* ===== verification/SyncInterface.thy ===== *)
theory SyncInterface
  imports Protocol
begin

text \<open>
  What the synchronization engine asks of the repository that keeps the cursor, the entity rows
  and the source status, and the laws it relies on.  \<open>repository_ops\<close> is the record of the
  methods; a method the engine tests for before calling (\<open>if (this.repository.registerGraph)\<close>)
  is an option.  The locale \<open>sync_repository\<close> states the contract over a view of the
  repository's state; \<open>SyncState\<close> and \<open>GenerationSync\<close> discharge it for the in-memory and the
  PostgreSQL repository.
\<close>

record sync_source =
  src_identity :: string
  src_cursor :: "cursor option"
  src_status :: string
  src_schemaState :: "string option"
  src_lastPollAt :: "string option"
  src_lastSuccessAt :: "string option"
  src_errorCode :: "string option"

record entity_row =
  row_entity :: string
  row_indexed :: int
  row_latestSeen :: int
  row_status :: string
  row_checksum :: "string option"
  row_lastSuccessAt :: "string option"
  row_errorCode :: "string option"

text \<open>The row of an entity that has none\<close>

definition pending_row :: "string \<Rightarrow> entity_row" where
  "pending_row entityId =
     \<lparr>row_entity = entityId, row_indexed = 0, row_latestSeen = 0, row_status = ''PENDING'',
      row_checksum = None, row_lastSuccessAt = None, row_errorCode = None\<rparr>"

text \<open>A rebuild as it is started, and the properties that its end assigns\<close>

record rebuild_start =
  rs_id :: string
  rs_state :: string
  rs_startCursor :: cursor
  rs_startedAt :: string
  rs_backendType :: string

record rebuild_end =
  re_state :: string
  re_status :: string
  re_endCursor :: "cursor option"
  re_completedAt :: string
  re_errorCode :: "string option"

record 'w repository_ops =
  r_loadSource :: "('w, sync_source) action"
  r_recordPoll :: "string \<Rightarrow> ('w, unit) action"
  r_setSourceStatus :: "string \<Rightarrow> string option \<Rightarrow> ('w, unit) action"
  r_loadEntity :: "string \<Rightarrow> ('w, entity_row) action"
  r_saveEntity :: "entity_row \<Rightarrow> ('w, unit) action"
  r_commitEvent :: "cursor \<Rightarrow> entity_row option \<Rightarrow> ('w, unit) action"
  r_advanceCursor :: "cursor \<Rightarrow> ('w, unit) action"
  r_startRebuild :: "rebuild_start \<Rightarrow> ('w, unit) action"
  r_finishRebuild :: "string \<Rightarrow> rebuild_end \<Rightarrow> ('w, unit) action"
  r_registerGraph :: "(string \<Rightarrow> string \<Rightarrow> string \<Rightarrow> ('w, unit) action) option"
  r_unregisterGraph :: "(string \<Rightarrow> ('w, unit) action) option"
  r_setSchemaState :: "(string \<Rightarrow> ('w, unit) action) option"

text \<open>The part of a repository's state that the engine's promises are about\<close>

record repo_view =
  v_cursor :: "cursor option"
  v_rows :: "string \<Rightarrow> entity_row"
  v_status :: string

definition put_row :: "entity_row \<Rightarrow> repo_view \<Rightarrow> repo_view" where
  "put_row r v = v\<lparr>v_rows := (v_rows v)(row_entity r := r)\<rparr>"

definition put_row_option :: "entity_row option \<Rightarrow> repo_view \<Rightarrow> repo_view" where
  "put_row_option r v = (case r of None \<Rightarrow> v | Some r \<Rightarrow> put_row r v)"

definition put_cursor :: "cursor \<Rightarrow> repo_view \<Rightarrow> repo_view" where
  "put_cursor c v = v\<lparr>v_cursor := Some c\<rparr>"

definition put_status :: "string \<Rightarrow> repo_view \<Rightarrow> repo_view" where
  "put_status s v = v\<lparr>v_status := s\<rparr>"

lemma put_simps [simp]:
  "v_cursor (put_row r v) = v_cursor v"
  "v_status (put_row r v) = v_status v"
  "v_rows (put_row r v) = (v_rows v)(row_entity r := r)"
  "v_cursor (put_row_option ro v) = v_cursor v"
  "v_status (put_row_option ro v) = v_status v"
  "put_row_option None v = v"
  "put_row_option (Some r) v = put_row r v"
  "v_cursor (put_cursor c v) = Some c"
  "v_rows (put_cursor c v) = v_rows v"
  "v_status (put_cursor c v) = v_status v"
  "v_cursor (put_status s v) = v_cursor v"
  "v_rows (put_status s v) = v_rows v"
  "v_status (put_status s v) = s"
  by (simp_all add: put_row_def put_row_option_def put_cursor_def put_status_def split: option.splits)

text \<open>Rows are filed under their own identifier; every update keeps it so.\<close>

definition filed :: "repo_view \<Rightarrow> bool" where
  "filed v \<longleftrightarrow> (\<forall>i. row_entity (v_rows v i) = i)"

lemma filed_put [simp]:
  "filed v \<Longrightarrow> filed (put_row r v)"
  "filed v \<Longrightarrow> filed (put_row_option ro v)"
  "filed (put_cursor c v) = filed v"
  "filed (put_status st v) = filed v"
  by (simp_all add: filed_def put_row_option_def split: option.splits)

lemma filed_row [simp]: "filed v \<Longrightarrow> row_entity (v_rows v i) = i"
  by (simp add: filed_def)

text \<open>The cursor \<open>c\<close> may follow what is stored\<close>

definition follows :: "(cursor \<Rightarrow> cursor \<Rightarrow> bool) \<Rightarrow> cursor option \<Rightarrow> cursor \<Rightarrow> bool" where
  "follows before old c \<longleftrightarrow> (case old of None \<Rightarrow> True | Some d \<Rightarrow> before d c)"

text \<open>
  The effect of a call on the view: \<open>f\<close> when it returns, nothing when it throws.  Every law of
  the contract is of this form.
\<close>

definition effect :: "('w \<Rightarrow> 'v) \<Rightarrow> ('v \<Rightarrow> 'v) \<Rightarrow> ('w, 'a) action \<Rightarrow> bool" where
  "effect view f m \<longleftrightarrow> (\<forall>w. view (snd (m w)) = (if is_ok (fst (m w)) then f (view w) else view w))"

lemma effectI:
  "(\<And>w r w'. m w = (r, w') \<Longrightarrow> view w' = (if is_ok r then f (view w) else view w)) \<Longrightarrow>
   effect view f m"
  unfolding effect_def by (metis prod.collapse)

lemma effect_wp:
  assumes "effect view f m"
    and "\<And>x w'. view w' = f (view w) \<Longrightarrow> Q (Inr x) w'"
    and "\<And>e w'. view w' = view w \<Longrightarrow> Q (Inl e) w'"
  shows "wp m Q w"
proof (rule wpI)
  fix r w' assume "m w = (r, w')"
  with assms(1) have "view w' = (if is_ok r then f (view w) else view w)"
    unfolding effect_def by (metis fst_conv snd_conv)
  with assms(2,3) show "Q r w'" by (cases r) auto
qed

lemma effect_id: "effect view id m \<longleftrightarrow> keeps view m"
  by (simp add: effect_def keeps_def)

lemma effectD:
  assumes "effect view f m" "m w = (r, w')"
  shows "view w' = (if is_ok r then f (view w) else view w)"
  using assms unfolding effect_def by (metis fst_conv snd_conv)

lemma effect_on_fst: "effect view f m \<Longrightarrow> effect (view \<circ> fst) f (on_fst m)"
  by (rule effectI) (auto simp: on_fst_eq dest: effectD)

section \<open>The contract\<close>

locale sync_repository =
  fixes R :: "'w repository_ops"
    and view :: "'w \<Rightarrow> repo_view"
    and before :: "cursor \<Rightarrow> cursor \<Rightarrow> bool"
    and good_cursor :: "cursor \<Rightarrow> bool"
    and shown_status :: "string \<Rightarrow> string"
  assumes before_trans: "before a b \<Longrightarrow> before b c \<Longrightarrow> before a c"
    and before_irrefl: "\<not> before a a"
    and loadSource_view: "keeps view (r_loadSource R)"
    and loadSource_cursor: "r_loadSource R w = (Inr s, w') \<Longrightarrow> src_cursor s = v_cursor (view w)"
    and recordPoll_view: "keeps view (r_recordPoll R at)"
    and setSourceStatus_view:
      "effect view (put_status (shown_status st)) (r_setSourceStatus R st code)"
    and loadEntity_view: "keeps view (r_loadEntity R i)"
    and loadEntity_row: "r_loadEntity R i w = (Inr row, w') \<Longrightarrow> row = v_rows (view w) i"
    and saveEntity_view: "effect view (put_row r) (r_saveEntity R r)"
    and commitEvent_view:
      "good_cursor c \<Longrightarrow> effect view (put_cursor c \<circ> put_row_option ro) (r_commitEvent R c ro)"
    and commitEvent_forward:
      "good_cursor c \<Longrightarrow> r_commitEvent R c ro w = (Inr u, w') \<Longrightarrow> follows before (v_cursor (view w)) c"
    and advanceCursor_commit: "r_advanceCursor R c = r_commitEvent R c None"
    and registerGraph_view: "r_registerGraph R = Some reg \<Longrightarrow> keeps view (reg g k e)"
    and unregisterGraph_view: "r_unregisterGraph R = Some unreg \<Longrightarrow> keeps view (unreg g)"
    and setSchemaState_view: "r_setSchemaState R = Some sch \<Longrightarrow> keeps view (sch st)"

text \<open>The repository as one half of a larger world\<close>

definition lift_repository :: "'a repository_ops \<Rightarrow> ('a \<times> 'b) repository_ops" where
  "lift_repository R =
     \<lparr>r_loadSource = on_fst (r_loadSource R),
      r_recordPoll = (\<lambda>t. on_fst (r_recordPoll R t)),
      r_setSourceStatus = (\<lambda>s c. on_fst (r_setSourceStatus R s c)),
      r_loadEntity = (\<lambda>i. on_fst (r_loadEntity R i)),
      r_saveEntity = (\<lambda>r. on_fst (r_saveEntity R r)),
      r_commitEvent = (\<lambda>c r. on_fst (r_commitEvent R c r)),
      r_advanceCursor = (\<lambda>c. on_fst (r_advanceCursor R c)),
      r_startRebuild = (\<lambda>v. on_fst (r_startRebuild R v)),
      r_finishRebuild = (\<lambda>i v. on_fst (r_finishRebuild R i v)),
      r_registerGraph = map_option (\<lambda>f g k e. on_fst (f g k e)) (r_registerGraph R),
      r_unregisterGraph = map_option (\<lambda>f g. on_fst (f g)) (r_unregisterGraph R),
      r_setSchemaState = map_option (\<lambda>f s. on_fst (f s)) (r_setSchemaState R)\<rparr>"

lemma keeps_on_fst: "keeps f m \<Longrightarrow> keeps (f \<circ> fst) (on_fst m)"
  by (rule keepsI) (auto simp: on_fst_eq dest: keepsD)

lemma lift_repository_contract:
  assumes "sync_repository R view before good shown"
  shows "sync_repository (lift_repository R :: ('a \<times> 'b) repository_ops) (view \<circ> fst) before good shown"
proof (rule sync_repository.intro)
  show "r_advanceCursor (lift_repository R) c =
      (r_commitEvent (lift_repository R) c None :: ('a \<times> 'b, unit) action)" for c
    by (simp add: lift_repository_def sync_repository.advanceCursor_commit [OF assms])
qed (use assms in \<open>auto simp: lift_repository_def on_fst_eq
    intro: keeps_on_fst effect_on_fst dest: sync_repository.before_trans
      sync_repository.before_irrefl
      sync_repository.loadSource_view
      sync_repository.loadSource_cursor
      sync_repository.recordPoll_view
      sync_repository.setSourceStatus_view
      sync_repository.loadEntity_view
      sync_repository.loadEntity_row
      sync_repository.saveEntity_view
      sync_repository.commitEvent_view
      sync_repository.commitEvent_forward
      sync_repository.registerGraph_view
      sync_repository.unregisterGraph_view
      sync_repository.setSchemaState_view\<close>)

end
