(* ===== verification/SyncState.thy ===== *)
theory SyncState
  imports SyncInterface "HOL-Library.AList"
begin

text \<open>
  \<open>packages/rdf-sync/src/state.js\<close>: the graph identifier of an entity and
  \<open>MemorySyncRepository\<close>, the reference implementation of the repository contract.  A \<open>Map\<close> is
  an association list in insertion order (\<open>AList.update\<close> replaces in place or appends), a \<open>Set\<close>
  a list without duplicates.  \<open>structuredClone\<close> is the identity: HOL values do not alias.

  \<open>commitEvent\<close> reads the system clock.  The reading is a parameter \<open>now\<close>, a function of the
  repository's state at the call; a successful commit moves the cursor strictly forward, so
  two readings never belong to the same state and every sequence of readings is covered.
\<close>

definition ENTITY_SYNC_STATES :: "string list" where
  "ENTITY_SYNC_STATES =
     [''CURRENT'', ''PENDING'', ''FAILED'', ''GAP'', ''DELETED'', ''RESTORING'', ''REDIRECT'']"

definition entityGraphIri :: "string \<Rightarrow> string result" where
  "entityGraphIri entityId =
     bindR (requireR (entity_id entityId) ''invalid entity ID'') (\<lambda>_.
     Inr (''urn:jwb:entity:'' @ entityId))"

record rebuild_row =
  rb_start :: rebuild_start
  rb_state :: string
  rb_status :: "string option"
  rb_endCursor :: "cursor option"
  rb_completedAt :: "string option"
  rb_errorCode :: "string option"

record memory_repo =
  mr_source :: sync_source
  mr_entities :: "(string \<times> entity_row) list"
  mr_rebuilds :: "rebuild_row list"
  mr_graphs :: "string list"
  mr_schemaState :: string

definition new_memory_repo :: "string \<Rightarrow> memory_repo" where
  "new_memory_repo sourceIdentity =
     \<lparr>mr_source =
        \<lparr>src_identity = sourceIdentity, src_cursor = None, src_status = ''BOOTSTRAPPING'',
         src_schemaState = None, src_lastPollAt = None, src_lastSuccessAt = None,
         src_errorCode = None\<rparr>,
      mr_entities = [], mr_rebuilds = [], mr_graphs = [], mr_schemaState = ''PENDING''\<rparr>"

definition mr_loadSource :: "(memory_repo, sync_source) action" where
  "mr_loadSource = readA mr_source"

definition mr_recordPoll :: "string \<Rightarrow> (memory_repo, unit) action" where
  "mr_recordPoll at = modifyA (mr_source_update (src_lastPollAt_update (\<lambda>_. Some at)))"

definition mr_setSourceStatus :: "string \<Rightarrow> string option \<Rightarrow> (memory_repo, unit) action" where
  "mr_setSourceStatus status errorCode =
     modifyA (mr_source_update (\<lambda>s. s\<lparr>src_status := status, src_errorCode := errorCode\<rparr>))"

definition mr_row :: "memory_repo \<Rightarrow> string \<Rightarrow> entity_row" where
  "mr_row m i = (case map_of (mr_entities m) i of None \<Rightarrow> pending_row i | Some r \<Rightarrow> r)"

definition mr_loadEntity :: "string \<Rightarrow> (memory_repo, entity_row) action" where
  "mr_loadEntity i = readA (\<lambda>m. mr_row m i)"

definition mr_saveEntity :: "entity_row \<Rightarrow> (memory_repo, unit) action" where
  "mr_saveEntity value = modifyA (mr_entities_update (AList.update (row_entity value) value))"

definition mr_commitEvent ::
  "(memory_repo \<Rightarrow> string) \<Rightarrow> cursor \<Rightarrow> entity_row option \<Rightarrow> (memory_repo, unit) action" where
  "mr_commitEvent now cursor entity =
     bindA (readA (src_cursor \<circ> mr_source)) (\<lambda>old.
     thenA
       (whenA (case old of None \<Rightarrow> False
               | Some c \<Rightarrow> cur_timestamp cursor < cur_timestamp c \<or>
                   cur_timestamp cursor = cur_timestamp c \<and> cur_rcid cursor \<le> cur_rcid c)
         (raiseA ''CURSOR_REGRESSION''))
     (thenA (case entity of None \<Rightarrow> returnA () | Some row \<Rightarrow> mr_saveEntity row)
     (thenA (modifyA (mr_source_update (src_cursor_update (\<lambda>_. Some cursor))))
       (modifyA (\<lambda>m. mr_source_update (src_lastSuccessAt_update (\<lambda>_. Some (now m))) m)))))"

definition mr_advanceCursor :: "(memory_repo \<Rightarrow> string) \<Rightarrow> cursor \<Rightarrow> (memory_repo, unit) action" where
  "mr_advanceCursor now cursor = mr_commitEvent now cursor None"

definition mr_startRebuild :: "rebuild_start \<Rightarrow> (memory_repo, unit) action" where
  "mr_startRebuild value =
     thenA (modifyA (mr_rebuilds_update (\<lambda>rs. rs @
         [\<lparr>rb_start = value, rb_state = rs_state value, rb_status = None, rb_endCursor = None,
           rb_completedAt = None, rb_errorCode = None\<rparr>])))
       (modifyA (mr_source_update (src_status_update (\<lambda>_. ''REBUILDING''))))"

text \<open>\<open>Object.assign(row, value)\<close>: absent properties of \<open>value\<close> leave those of the row.\<close>

definition assign_end :: "rebuild_end \<Rightarrow> rebuild_row \<Rightarrow> rebuild_row" where
  "assign_end v row = row\<lparr>rb_state := re_state v, rb_status := Some (re_status v),
     rb_endCursor := (if re_endCursor v = None then rb_endCursor row else re_endCursor v),
     rb_completedAt := Some (re_completedAt v),
     rb_errorCode := (if re_errorCode v = None then rb_errorCode row else re_errorCode v)\<rparr>"

fun update_first :: "('a \<Rightarrow> bool) \<Rightarrow> ('a \<Rightarrow> 'a) \<Rightarrow> 'a list \<Rightarrow> 'a list" where
  "update_first p f [] = []"
| "update_first p f (x # xs) = (if p x then f x # xs else x # update_first p f xs)"

definition mr_finishRebuild :: "string \<Rightarrow> rebuild_end \<Rightarrow> (memory_repo, unit) action" where
  "mr_finishRebuild i value =
     bindA (readA mr_rebuilds) (\<lambda>rs.
     if list_ex (\<lambda>r. rs_id (rb_start r) = i) rs
     then thenA (modifyA (mr_rebuilds_update
            (update_first (\<lambda>r. rs_id (rb_start r) = i) (assign_end value))))
          (modifyA (mr_source_update (src_status_update (\<lambda>_. re_status value))))
     else raiseA ''Cannot convert undefined or null to object'')"

definition mr_registerGraph :: "string \<Rightarrow> string \<Rightarrow> string \<Rightarrow> (memory_repo, unit) action" where
  "mr_registerGraph graphIri partitionKind entityId =
     modifyA (mr_graphs_update (\<lambda>gs. if List.member gs graphIri then gs else gs @ [graphIri]))"

definition mr_unregisterGraph :: "string \<Rightarrow> (memory_repo, unit) action" where
  "mr_unregisterGraph graphIri = modifyA (mr_graphs_update (removeAll graphIri))"

definition mr_setSchemaState :: "string \<Rightarrow> (memory_repo, unit) action" where
  "mr_setSchemaState state = modifyA (mr_schemaState_update (\<lambda>_. state))"

text \<open>\<open>counts\<close>: the rows that are current, and those that failed\<close>

definition mr_counts :: "(memory_repo, nat \<times> nat) action" where
  "mr_counts = readA (\<lambda>m.
     let values = map snd (mr_entities m) in
     (length (filter (\<lambda>v. row_status v = ''CURRENT'') values),
      length (filter (\<lambda>v. List.member [''FAILED'', ''GAP''] (row_status v)) values)))"

definition memory_ops :: "(memory_repo \<Rightarrow> string) \<Rightarrow> memory_repo repository_ops" where
  "memory_ops now =
     \<lparr>r_loadSource = mr_loadSource, r_recordPoll = mr_recordPoll,
      r_setSourceStatus = mr_setSourceStatus, r_loadEntity = mr_loadEntity,
      r_saveEntity = mr_saveEntity, r_commitEvent = mr_commitEvent now,
      r_advanceCursor = mr_advanceCursor now, r_startRebuild = mr_startRebuild,
      r_finishRebuild = mr_finishRebuild, r_registerGraph = Some mr_registerGraph,
      r_unregisterGraph = Some mr_unregisterGraph, r_setSchemaState = Some mr_setSchemaState\<rparr>"

section \<open>The in-memory repository keeps the contract\<close>

definition memory_view :: "memory_repo \<Rightarrow> repo_view" where
  "memory_view m = \<lparr>v_cursor = src_cursor (mr_source m), v_rows = mr_row m,
     v_status = src_status (mr_source m)\<rparr>"

lemma mr_row_update [simp]:
  "mr_row (mr_entities_update (AList.update k r) m) = (mr_row m)(k := r)"
  by (auto simp: mr_row_def update_conv' fun_eq_iff)

lemma mr_row_frame [simp]:
  "mr_row (mr_source_update f m) = mr_row m"
  "mr_row (mr_rebuilds_update g m) = mr_row m"
  "mr_row (mr_graphs_update h m) = mr_row m"
  "mr_row (mr_schemaState_update k m) = mr_row m"
  by (simp_all add: mr_row_def fun_eq_iff)

lemma memory_view_new: "filed (memory_view (new_memory_repo s))"
  by (simp add: filed_def memory_view_def mr_row_def new_memory_repo_def pending_row_def)

lemma mr_commitEvent_eq:
  "mr_commitEvent now c ro m =
     (if follows cursor_less (src_cursor (mr_source m)) c
      then
        (let m1 = (case ro of None \<Rightarrow> m
               | Some r \<Rightarrow> mr_entities_update (AList.update (row_entity r) r) m);
             m2 = mr_source_update (src_cursor_update (\<lambda>_. Some c)) m1
         in (Inr (), mr_source_update (src_lastSuccessAt_update (\<lambda>_. Some (now m2))) m2))
      else (Inl ''CURSOR_REGRESSION'', m))"
  by (auto simp: mr_commitEvent_def follows_def cursor_less_def bindA_def thenA_def readA_def
      whenA_def raiseA_def returnA_def modifyA_def mr_saveEntity_def Let_def split: option.splits)

interpretation memory: sync_repository "memory_ops now" memory_view cursor_less "\<lambda>_. True" id
  for now
proof
  show "cursor_less a b \<Longrightarrow> cursor_less b c \<Longrightarrow> cursor_less a c" for a b c
    by (rule cursor_less_trans)
  show "effect memory_view (put_cursor c \<circ> put_row_option ro) (r_commitEvent (memory_ops now) c ro)"
    for c ro
    by (rule effectI) (auto simp: memory_ops_def mr_commitEvent_eq memory_view_def put_cursor_def
        put_row_option_def put_row_def Let_def split: if_splits option.splits)
  show "follows cursor_less (v_cursor (memory_view w)) c"
    if "r_commitEvent (memory_ops now) c ro w = (Inr u, w')" for c ro w u w'
    using that by (auto simp: memory_ops_def mr_commitEvent_eq memory_view_def split: if_splits)
qed (auto simp: memory_ops_def memory_view_def mr_loadSource_def mr_recordPoll_def
    mr_setSourceStatus_def mr_loadEntity_def mr_saveEntity_def mr_advanceCursor_def
    mr_registerGraph_def mr_unregisterGraph_def mr_setSchemaState_def put_status_def put_row_def
    intro!: keepsI effectI)

end
