(* ===== verification/SyncEngine.thy ===== *)
theory SyncEngine
  imports SyncState
begin

text \<open>
  \<open>services/rdf-sync/src/sync-engine.js\<close>: the engine that follows the change log and keeps the
  named graph of every entity at its latest revision.

  Everything the constructor injects is a field of \<open>sync_engine\<close>: arbitrary actions on a world
  \<open>'w\<close>, which may fail at any call and may change the world as they like.  The file system
  (\<open>node:fs/promises\<close>), \<open>randomUUID\<close> and the SHA-256 of \<open>node:crypto\<close> are fields as well.
  \<open>#edit\<close> is divided at its natural seam: \<open>engine_write\<close> is the part up to the
  verification of the backend, \<open>engine_settle\<close> the part that moves the row and the cursor.
\<close>

record fetched =
  ft_entity :: string
  ft_revision :: int
  ft_rdf :: string
  ft_mediaType :: string

record partitioned =
  pt_entityRdf :: string
  pt_entityGraphIri :: "string option"
  pt_schemaGraphIri :: "string option"
  pt_schemaRdf :: "string option"

record resolved_entity =
  rz_id :: string
  rz_revision :: int
  rz_deleted :: bool

text \<open>\<open>resolved.entities\<close> that is no array counts as empty, as in the code's test.\<close>

record resolution =
  rz_unambiguous :: bool
  rz_entities :: "resolved_entity list"

text \<open>A \<open>Date\<close>: its \<open>toISOString\<close> form and its time value\<close>

record js_date =
  date_iso :: string
  date_ms :: int

record sync_context =
  cx_entityId :: "string option"
  cx_revision :: "int option"
  cx_rcid :: int
  cx_eventType :: change_action
  cx_backendType :: string

record ('w, 's) sync_engine =
  en_sourceIdentity :: string
  en_read :: "cursor option \<Rightarrow> nat \<Rightarrow> ('w, change_event list) action"
  en_repository :: "'w repository_ops"
  en_fetch :: "string \<Rightarrow> int \<Rightarrow> ('w, fetched) action"
  en_partition :: "fetched \<Rightarrow> partitioned result"
  en_replaceNamedGraph :: "string \<Rightarrow> string \<Rightarrow> string \<Rightarrow> ('w, unit) action"
  en_deleteNamedGraph :: "string \<Rightarrow> ('w, unit) action"
  en_query :: "string \<Rightarrow> ('w, bool option) action"
  en_resolve :: "classified \<Rightarrow> change_event \<Rightarrow> ('w, resolution) action"
  en_stage :: "string \<Rightarrow> 's \<Rightarrow> ('w, unit) action"
  en_catchUp :: "string \<Rightarrow> cursor \<Rightarrow> cursor \<Rightarrow> ('w, unit) action"
  en_cutover :: "string \<Rightarrow> ('w, unit) action"
  en_increment :: "string \<Rightarrow> ('w, unit) action"
  en_observe :: "string \<Rightarrow> int \<Rightarrow> ('w, unit) action"
  en_log :: "string \<Rightarrow> sync_context \<Rightarrow> string \<Rightarrow> string \<Rightarrow> ('w, unit) action"
  en_backendType :: string
  en_clock :: "('w, js_date) action"
  en_randomUUID :: "('w, string) action"
  en_sha256 :: "string \<Rightarrow> string"
  en_writeFile :: "string \<Rightarrow> string \<Rightarrow> ('w, unit) action"
  en_unlink :: "string \<Rightarrow> ('w, unit) action"

datatype sync_result =
    R_STOP
  | R_SKIP
  | R_UNWRITTEN decision
  | R_APPLIED
  | R_RESTORED
  | R_DELETED
  | R_LIFECYCLE_APPLIED

text \<open>The options \<open>crashAt\<close> and \<open>hardCrash\<close>\<close>

record crash_options =
  co_crashAt :: "string option"
  co_hardCrash :: bool

definition sanitizeCode :: "string \<Rightarrow> string" where
  "sanitizeCode message =
     (case rx_find ERROR_CODE message of None \<Rightarrow> ''SYNC_FAILED'' | Some (m, _) \<Rightarrow> m)"

definition engine_crash :: "string option \<Rightarrow> string \<Rightarrow> ('w, unit) action" where
  "engine_crash selected point =
     whenA (selected = Some point) (raiseA (''INJECTED_'' @ point))"

definition engine_rebuildRequired ::
  "('w, 's) sync_engine \<Rightarrow> string \<Rightarrow> sync_context \<Rightarrow> ('w, unit) action" where
  "engine_rebuildRequired E code context =
     thenA (r_setSourceStatus (en_repository E) ''REBUILD_REQUIRED'' (Some code))
       (en_log E ''rdf_sync_rebuild_required'' context ''rebuild_required'' code)"

definition materialize :: "('w, 's) sync_engine \<Rightarrow> string \<Rightarrow> string \<Rightarrow> int \<Rightarrow> ('w, string) action" where
  "materialize E rdf entityId revision =
     (let path = ''/tmp/wfp-rdf-sync-'' @ entityId @ ''-'' @ show_int revision @ ''.nt''
      in thenA (en_writeFile E path rdf) (returnA path))"

definition removeMaterialized :: "('w, 's) sync_engine \<Rightarrow> string \<Rightarrow> ('w, unit) action" where
  "removeMaterialized E path = catchA (en_unlink E path) (\<lambda>_. returnA ())"

definition engine_replaceGraph ::
  "('w, 's) sync_engine \<Rightarrow> string \<Rightarrow> string \<Rightarrow> string \<Rightarrow> int \<Rightarrow> ('w, unit) action" where
  "engine_replaceGraph E graphIri rdf entityId revision =
     bindA (materialize E rdf entityId revision) (\<lambda>source.
     finallyA (en_replaceNamedGraph E graphIri source ''application/n-triples'')
       (removeMaterialized E source))"

definition verify_query :: "string \<Rightarrow> string \<Rightarrow> int \<Rightarrow> string" where
  "verify_query graphIri entityId revision =
     ''ASK { GRAPH <'' @ graphIri @
     ''> { ?entity <http://schema.org/version> ?version FILTER(STRENDS(STR(?entity), '' @
     [CHR 0x22] @ ''/'' @ entityId @ [CHR 0x22] @ '') && STR(?version) = '' @
     [CHR 0x22] @ show_int revision @ [CHR 0x22] @ '') } }''"

definition engine_verify :: "('w, 's) sync_engine \<Rightarrow> string \<Rightarrow> int \<Rightarrow> ('w, bool) action" where
  "engine_verify E entityId revision =
     bindA (liftA (entityGraphIri entityId)) (\<lambda>graphIri.
     bindA (en_query E (verify_query graphIri entityId revision)) (\<lambda>value.
     returnA (value = Some True)))"

definition register_if_any ::
  "('w, 's) sync_engine \<Rightarrow> string \<Rightarrow> string \<Rightarrow> string \<Rightarrow> ('w, unit) action" where
  "register_if_any E graphIri kind entityId =
     (case r_registerGraph (en_repository E) of
        None \<Rightarrow> returnA ()
      | Some register \<Rightarrow> register graphIri kind entityId)"

definition entity_graph_of :: "partitioned \<Rightarrow> string \<Rightarrow> string result" where
  "entity_graph_of parts entityId =
     (case pt_entityGraphIri parts of Some g \<Rightarrow> Inr g | None \<Rightarrow> entityGraphIri entityId)"

text \<open>The schema partition of a property\<close>

definition engine_schema ::
  "('w, 's) sync_engine \<Rightarrow> partitioned \<Rightarrow> string \<Rightarrow> int \<Rightarrow> ('w, unit) action" where
  "engine_schema E parts entityId revision =
     (case (pt_schemaGraphIri parts, pt_schemaRdf parts) of
        (Some (g # gs), Some (r # rs)) \<Rightarrow>
          thenA (engine_replaceGraph E (g # gs) (r # rs) entityId revision)
          (thenA (register_if_any E (g # gs) ''PROPERTY_SCHEMA'' entityId)
          (case r_setSchemaState (en_repository E) of
             None \<Rightarrow> returnA () | Some setState \<Rightarrow> setState ''CURRENT''))
      | _ \<Rightarrow> raiseA ''PROPERTY_SCHEMA_PARTITION_MISSING'')"

text \<open>\<open>#edit\<close>, from the fetch to the verification: the checksum of what is now in the backend\<close>

definition engine_write ::
  "('w, 's) sync_engine \<Rightarrow> string \<Rightarrow> int \<Rightarrow> string option \<Rightarrow> ('w, string) action" where
  "engine_write E entityId revision crashAt =
     bindA (en_fetch E entityId revision) (\<lambda>fetched.
     thenA (engine_crash crashAt ''AFTER_RDF_FETCH'')
     (bindA (liftA (en_partition E fetched)) (\<lambda>parts.
     let checksum = en_sha256 E (pt_entityRdf parts) in
     thenA (engine_crash crashAt ''BEFORE_BACKEND_UPDATE'')
     (bindA (liftA (entity_graph_of parts entityId)) (\<lambda>graphIri.
     thenA (engine_replaceGraph E graphIri (pt_entityRdf parts) entityId revision)
     (thenA (register_if_any E graphIri ''ENTITY'' entityId)
     (thenA (whenA (starts_with ''P'' entityId) (engine_schema E parts entityId revision))
     (thenA (engine_crash crashAt ''AFTER_BACKEND_UPDATE'')
     (bindA (engine_verify E entityId revision) (\<lambda>verified.
     if \<not> verified then raiseA ''BACKEND_VERIFY_FAILED'' else returnA checksum))))))))))"

definition current_row :: "entity_row \<Rightarrow> int \<Rightarrow> string \<Rightarrow> js_date \<Rightarrow> entity_row" where
  "current_row row revision checksum now =
     row\<lparr>row_indexed := revision, row_latestSeen := max (row_latestSeen row) revision,
       row_status := ''CURRENT'', row_checksum := Some checksum,
       row_lastSuccessAt := Some (date_iso now), row_errorCode := None\<rparr>"

text \<open>\<open>#edit\<close>, after the verification: the row first, then the cursor\<close>

definition engine_settle ::
  "('w, 's) sync_engine \<Rightarrow> entity_row \<Rightarrow> int \<Rightarrow> string \<Rightarrow> cursor \<Rightarrow> string option \<Rightarrow> bool \<Rightarrow> bool \<Rightarrow>
   ('w, sync_result) action" where
  "engine_settle E row revision checksum cursor crashAt commitCursor forceRestore =
     bindA (en_clock E) (\<lambda>now.
     let entity = current_row row revision checksum now in
     thenA (engine_crash crashAt ''BEFORE_FENCE_COMMIT'')
     (thenA (r_saveEntity (en_repository E) entity)
     (thenA (engine_crash crashAt ''AFTER_FENCE_BEFORE_CURSOR'')
     (thenA (whenA commitCursor (r_commitEvent (en_repository E) cursor (Some entity)))
     (thenA (en_increment E ''events_applied_total'')
     (returnA (if forceRestore then R_RESTORED else R_APPLIED)))))))"

definition revid_of :: "change_event \<Rightarrow> int" where
  "revid_of event = (case ev_revid event of None \<Rightarrow> 0 | Some r \<Rightarrow> r)"

definition gap_row :: "entity_row \<Rightarrow> int \<Rightarrow> entity_row" where
  "gap_row row revision = row\<lparr>row_latestSeen := revision, row_status := ''GAP'',
     row_errorCode := Some ''REVISION_GAP''\<rparr>"

text \<open>\<open>observe\<close> has refused an event without a revision by the time \<open>revid_of\<close> is used.\<close>

definition engine_edit ::
  "('w, 's) sync_engine \<Rightarrow> string \<Rightarrow> change_event \<Rightarrow> cursor \<Rightarrow> sync_context \<Rightarrow> string option \<Rightarrow>
   bool \<Rightarrow> bool \<Rightarrow> ('w, sync_result) action" where
  "engine_edit E entityId event cursor context crashAt commitCursor forceRestore =
     bindA (r_loadEntity (en_repository E) entityId) (\<lambda>row.
     if forceRestore \<and> \<not> List.member [''DELETED'', ''RESTORING'', ''CURRENT''] (row_status row)
     then raiseA ''UNDELETE_WITHOUT_TOMBSTONE''
     else
     bindA (liftA (new_fence entityId (row_indexed row))) (\<lambda>fence.
     bindA (liftA (fst (observe (ev_revid event) (ev_oldRevid event) fence))) (\<lambda>decision.
     if \<not> forceRestore \<and> decision = GAP_DETECTED then
       thenA (en_increment E ''gap_events_total'')
       (thenA (r_saveEntity (en_repository E) (gap_row row (revid_of event)))
       (thenA (engine_rebuildRequired E ''REVISION_GAP'' context)
       (returnA R_STOP)))
     else if \<not> forceRestore \<and> decision \<noteq> APPLY then
       thenA (en_increment E (if decision = DUPLICATE then ''duplicate_events_total''
         else ''out_of_order_events_total''))
       (thenA (whenA commitCursor (r_advanceCursor (en_repository E) cursor))
       (returnA (R_UNWRITTEN decision)))
     else
       thenA (whenA forceRestore (r_saveEntity (en_repository E)
         (row\<lparr>row_status := ''RESTORING'', row_errorCode := None\<rparr>)))
       (bindA (engine_write E entityId (revid_of event) crashAt) (\<lambda>checksum.
       engine_settle E row (revid_of event) checksum cursor crashAt commitCursor forceRestore)))))"

definition unregister_if_any :: "('w, 's) sync_engine \<Rightarrow> string \<Rightarrow> ('w, unit) action" where
  "unregister_if_any E graphIri =
     (case r_unregisterGraph (en_repository E) of
        None \<Rightarrow> returnA () | Some unregister \<Rightarrow> unregister graphIri)"

definition deleted_row :: "entity_row \<Rightarrow> js_date \<Rightarrow> entity_row" where
  "deleted_row row now = row\<lparr>row_status := ''DELETED'', row_checksum := None,
     row_lastSuccessAt := Some (date_iso now), row_errorCode := None\<rparr>"

definition engine_delete ::
  "('w, 's) sync_engine \<Rightarrow> string \<Rightarrow> cursor \<Rightarrow> string option \<Rightarrow> ('w, sync_result) action" where
  "engine_delete E entityId cursor crashAt =
     bindA (r_loadEntity (en_repository E) entityId) (\<lambda>row.
     bindA (liftA (entityGraphIri entityId)) (\<lambda>graphIri.
     let graphs = graphIri #
       (if starts_with ''P'' entityId then [''urn:jwb:schema:'' @ entityId] else []) in
     thenA (forA graphs (\<lambda>g. thenA (en_deleteNamedGraph E g) (unregister_if_any E g)))
     (thenA (engine_crash crashAt ''AFTER_BACKEND_UPDATE'')
     (bindA (en_clock E) (\<lambda>now.
     thenA (r_commitEvent (en_repository E) cursor (Some (deleted_row row now)))
     (thenA (en_increment E ''events_applied_total'')
     (returnA R_DELETED)))))))"

text \<open>The loop of \<open>#lifecycle\<close> over the resolved entities: \<open>False\<close> when it returns \<open>STOP\<close>\<close>

fun lifecycle_loop ::
  "('w, 's) sync_engine \<Rightarrow> classified \<Rightarrow> change_event \<Rightarrow> cursor \<Rightarrow> sync_context \<Rightarrow> string option \<Rightarrow>
   resolved_entity list \<Rightarrow> ('w, bool) action" where
  "lifecycle_loop E classified event cursor context crashAt [] = returnA True"
| "lifecycle_loop E classified event cursor context crashAt (entity # rest) =
     (if rz_deleted entity then
        bindA (liftA (entityGraphIri (rz_id entity))) (\<lambda>graphIri.
        thenA (en_deleteNamedGraph E graphIri)
        (bindA (r_loadEntity (en_repository E) (rz_id entity)) (\<lambda>row.
        thenA (r_saveEntity (en_repository E) (row\<lparr>row_status := ''DELETED''\<rparr>))
        (lifecycle_loop E classified event cursor context crashAt rest))))
      else
        bindA (r_loadEntity (en_repository E) (rz_id entity)) (\<lambda>old.
        bindA (engine_edit E (rz_id entity)
          (event\<lparr>ev_revid := Some (rz_revision entity), ev_oldRevid := Some (row_indexed old)\<rparr>)
          cursor context crashAt False (cl_action classified = ENTITY_UNDELETE)) (\<lambda>outcome.
        if outcome = R_STOP then returnA False
        else lifecycle_loop E classified event cursor context crashAt rest)))"

definition engine_lifecycle ::
  "('w, 's) sync_engine \<Rightarrow> classified \<Rightarrow> change_event \<Rightarrow> cursor \<Rightarrow> sync_context \<Rightarrow> string option \<Rightarrow>
   ('w, sync_result) action" where
  "engine_lifecycle E classified event cursor context crashAt =
     bindA (en_resolve E classified event) (\<lambda>resolved.
     if \<not> rz_unambiguous resolved \<or> rz_entities resolved = [] then raiseA ''AMBIGUOUS_LIFECYCLE''
     else
     bindA (lifecycle_loop E classified event cursor context crashAt (rz_entities resolved)) (\<lambda>finished.
     if \<not> finished then returnA R_STOP
     else thenA (r_advanceCursor (en_repository E) cursor) (returnA R_LIFECYCLE_APPLIED)))"

definition event_cursor :: "('w, 's) sync_engine \<Rightarrow> change_event \<Rightarrow> cursor" where
  "event_cursor E event = \<lparr>cur_source = en_sourceIdentity E, cur_timestamp = ev_timestamp event,
     cur_rcid = ev_rcid event\<rparr>"

definition event_context :: "('w, 's) sync_engine \<Rightarrow> change_event \<Rightarrow> sync_context" where
  "event_context E event =
     \<lparr>cx_entityId = cl_entity (classifyChange event), cx_revision = ev_revid event,
      cx_rcid = ev_rcid event, cx_eventType = cl_action (classifyChange event),
      cx_backendType = en_backendType E\<rparr>"

text \<open>The \<open>try\<close> block of \<open>processEvent\<close>\<close>

definition engine_dispatch ::
  "('w, 's) sync_engine \<Rightarrow> string \<Rightarrow> change_event \<Rightarrow> string option \<Rightarrow> ('w, sync_result) action" where
  "engine_dispatch E entityId event crashAt =
     (let classified = classifyChange event; cursor = event_cursor E event;
          context = event_context E event
      in if cl_action classified = ENTITY_DELETE then engine_delete E entityId cursor crashAt
         else if List.member [ENTITY_UNDELETE, ENTITY_REDIRECT, ENTITY_REDIRECT_REMOVED,
           ENTITY_MERGE] (cl_action classified)
         then engine_lifecycle E classified event cursor context crashAt
         else engine_edit E entityId event cursor context crashAt True False)"

definition engine_failed ::
  "('w, 's) sync_engine \<Rightarrow> change_event \<Rightarrow> bool \<Rightarrow> string \<Rightarrow> ('w, sync_result) action" where
  "engine_failed E event hardCrash message =
     (if hardCrash \<and> starts_with ''INJECTED_'' message then raiseA message
      else
        let code = sanitizeCode message in
        thenA (en_increment E ''entity_sync_failures_total'')
        (thenA (en_log E ''rdf_sync_event_failed'' (event_context E event) ''failed'' code)
        (thenA (engine_rebuildRequired E code (event_context E event))
        (returnA R_STOP))))"

definition processEvent ::
  "('w, 's) sync_engine \<Rightarrow> crash_options \<Rightarrow> change_event \<Rightarrow> ('w, sync_result) action" where
  "processEvent E opts event =
     (let classified = classifyChange event in
      if cl_action classified = NON_ENTITY_CHANGE then
        thenA (r_advanceCursor (en_repository E) (event_cursor E event)) (returnA R_SKIP)
      else
        (case cl_entity classified of
           None \<Rightarrow> thenA (engine_rebuildRequired E ''AMBIGUOUS_EVENT'' (event_context E event))
             (returnA R_STOP)
         | Some entityId \<Rightarrow>
             if cl_action classified = UNKNOWN then
               thenA (engine_rebuildRequired E ''AMBIGUOUS_EVENT'' (event_context E event))
                 (returnA R_STOP)
             else catchA (engine_dispatch E entityId event (co_crashAt opts))
               (engine_failed E event (co_hardCrash opts))))"

fun poll_loop ::
  "('w, 's) sync_engine \<Rightarrow> crash_options \<Rightarrow> change_event list \<Rightarrow> ('w, unit) action" where
  "poll_loop E opts [] = returnA ()"
| "poll_loop E opts (event # events) =
     thenA (en_increment E ''events_seen_total'')
     (bindA (processEvent E opts event) (\<lambda>result.
     if result = R_STOP then returnA () else poll_loop E opts events))"

definition pollOnce ::
  "('w, 's) sync_engine \<Rightarrow> nat \<Rightarrow> nat \<Rightarrow> crash_options \<Rightarrow> ('w, nat \<times> cursor option) action" where
  "pollOnce E pageSize batchSize opts =
     bindA (r_loadSource (en_repository E)) (\<lambda>state.
     bindA (en_read E (src_cursor state) pageSize) (\<lambda>events.
     bindA (en_clock E) (\<lambda>now.
     thenA (r_recordPoll (en_repository E) (date_iso now))
     (thenA (engine_crash (co_crashAt opts) ''AFTER_RC_FETCH'')
     (thenA (poll_loop E opts (take batchSize events))
     (bindA (r_loadSource (en_repository E)) (\<lambda>after.
     returnA (length events, src_cursor after))))))))"

text \<open>\<open>rebuild\<close>: the end of the \<open>try\<close> block, the block, and its \<open>catch\<close>\<close>

definition rebuild_finish ::
  "('w, 's) sync_engine \<Rightarrow> string \<Rightarrow> js_date \<Rightarrow> cursor \<Rightarrow> ('w, string) action" where
  "rebuild_finish E i started endCursor =
     bindA (en_clock E) (\<lambda>completed.
     thenA (r_finishRebuild (en_repository E) i
       \<lparr>re_state = ''HEALTHY'', re_status = ''HEALTHY'', re_endCursor = Some endCursor,
        re_completedAt = date_iso completed, re_errorCode = None\<rparr>)
     (bindA (en_clock E) (\<lambda>finished.
     thenA (en_observe E ''rebuild_duration'' (date_ms finished - date_ms started))
     (returnA i))))"

definition rebuild_steps ::
  "('w, 's) sync_engine \<Rightarrow> string \<Rightarrow> js_date \<Rightarrow> 's \<Rightarrow> cursor \<Rightarrow> cursor \<Rightarrow> string option \<Rightarrow>
   ('w, string) action" where
  "rebuild_steps E i started snapshot startCursor endCursor crashAt =
     thenA (en_stage E i snapshot)
     (thenA (engine_crash crashAt ''DURING_REBUILD'')
     (thenA (en_catchUp E i startCursor endCursor)
     (thenA (engine_crash crashAt ''BEFORE_CUTOVER'')
     (thenA (en_cutover E i)
     (thenA (engine_crash crashAt ''AFTER_CUTOVER'')
     (rebuild_finish E i started endCursor))))))"

definition rebuild_failed ::
  "('w, 's) sync_engine \<Rightarrow> string \<Rightarrow> string \<Rightarrow> ('w, string) action" where
  "rebuild_failed E i message =
     thenA (en_increment E ''rebuild_failure_total'')
     (bindA (en_clock E) (\<lambda>completed.
     thenA (r_finishRebuild (en_repository E) i
       \<lparr>re_state = ''REBUILD_REQUIRED'', re_status = ''REBUILD_REQUIRED'', re_endCursor = None,
        re_completedAt = date_iso completed, re_errorCode = Some (sanitizeCode message)\<rparr>)
     (raiseA message)))"

definition rebuild ::
  "('w, 's) sync_engine \<Rightarrow> 's \<Rightarrow> cursor \<Rightarrow> cursor \<Rightarrow> string option \<Rightarrow> ('w, string) action" where
  "rebuild E snapshot startCursor endCursor crashAt =
     bindA (en_randomUUID E) (\<lambda>i.
     bindA (en_clock E) (\<lambda>started.
     thenA (r_startRebuild (en_repository E)
       \<lparr>rs_id = i, rs_state = ''REBUILDING'', rs_startCursor = startCursor,
        rs_startedAt = date_iso started, rs_backendType = en_backendType E\<rparr>)
     (thenA (en_increment E ''rebuild_total'')
     (catchA (rebuild_steps E i started snapshot startCursor endCursor crashAt)
       (rebuild_failed E i)))))"

end
