(* ===== verification/SyncSafety.thy ===== *)
theory SyncSafety
  imports SyncEngine
begin

text \<open>
  What the synchronization engine promises, over any repository that keeps the contract and any
  collaborators that leave the repository alone.
\<close>

definition engine_metrics :: "string list" where
  "engine_metrics = [''events_seen_total'', ''events_applied_total'', ''duplicate_events_total'',
     ''out_of_order_events_total'', ''gap_events_total'', ''entity_sync_failures_total'',
     ''rebuild_total'', ''rebuild_failure_total'']"

locale sync_environment =
  sync_repository "en_repository E" view before good_cursor shown_status
  for E :: "('w, 's) sync_engine"
    and view :: "'w \<Rightarrow> repo_view"
    and before :: "cursor \<Rightarrow> cursor \<Rightarrow> bool"
    and good_cursor :: "cursor \<Rightarrow> bool"
    and shown_status :: "string \<Rightarrow> string" +
  assumes read_view: "keeps view (en_read E c n)"
    and fetch_view: "keeps view (en_fetch E i k)"
    and replace_view: "keeps view (en_replaceNamedGraph E g src mt)"
    and delete_view: "keeps view (en_deleteNamedGraph E g)"
    and query_view: "keeps view (en_query E q)"
    and resolve_view: "keeps view (en_resolve E cl ev)"
    and increment_view: "keeps view (en_increment E m)"
    and increment_total: "m \<in> set engine_metrics \<Longrightarrow> fst (en_increment E m w) = Inr ()"
    and observe_view: "keeps view (en_observe E m x)"
    and log_view: "keeps view (en_log E nm cx res code)"
    and clock_view: "keeps view (en_clock E)"
    and uuid_view: "keeps view (en_randomUUID E)"
    and writeFile_view: "keeps view (en_writeFile E p rdf)"
    and unlink_view: "keeps view (en_unlink E p)"
begin

lemmas env_keeps = read_view fetch_view replace_view delete_view query_view resolve_view
  increment_view observe_view log_view clock_view uuid_view writeFile_view unlink_view
  loadSource_view recordPoll_view loadEntity_view

lemma register_view: "keeps view (register_if_any E g k i)"
  by (auto simp: register_if_any_def intro: keeps_returnA registerGraph_view split: option.splits)

lemma unregister_view: "keeps view (unregister_if_any E g)"
  by (auto simp: unregister_if_any_def intro: keeps_returnA unregisterGraph_view split: option.splits)

lemma crash_view: "keeps view (engine_crash a p)"
  by (auto simp: engine_crash_def intro!: keeps_intros)

lemma replaceGraph_view: "keeps view (engine_replaceGraph E g rdf i n)"
  unfolding engine_replaceGraph_def materialize_def removeMaterialized_def Let_def
  by (intro keeps_intros env_keeps)

lemma schemaState_view:
  "r_setSchemaState (en_repository E) = Some f \<Longrightarrow> keeps view (f ''CURRENT'')"
  by (rule setSchemaState_view)

lemma schema_view: "keeps view (engine_schema E p i n)"
proof (cases "pt_schemaGraphIri p = None \<or> pt_schemaGraphIri p = Some [] \<or>
    pt_schemaRdf p = None \<or> pt_schemaRdf p = Some []")
  case True
  then show ?thesis
    by (auto simp: engine_schema_def keeps_raiseA split: option.splits list.splits)
next
  case False
  then obtain g gs r rs where "pt_schemaGraphIri p = Some (g # gs)" "pt_schemaRdf p = Some (r # rs)"
    by (metis list.exhaust option.exhaust)
  then show ?thesis
    by (cases "r_setSchemaState (en_repository E)")
      (simp_all add: engine_schema_def keeps_thenA keeps_returnA replaceGraph_view register_view
        schemaState_view)
qed

lemma verify_view: "keeps view (engine_verify E i n)"
  unfolding engine_verify_def by (intro keeps_intros env_keeps)

lemma write_view: "keeps view (engine_write E i n ca)"
  unfolding engine_write_def Let_def
  by (intro keeps_intros env_keeps crash_view replaceGraph_view register_view schema_view verify_view)

text \<open>Reasoning about a call by its effect on the view\<close>

lemma wp_view:
  assumes "keeps view m"
    and "\<And>x w'. view w' = view w \<Longrightarrow> Q (Inr x) w'"
    and "\<And>e w'. view w' = view w \<Longrightarrow> Q (Inl e) w'"
  shows "wp m Q w"
  by (rule keeps_wp [OF assms(1)]) (metis assms(2,3) sum.exhaust)

lemma wp_increment:
  assumes "m \<in> set engine_metrics" "\<And>w'. view w' = view w \<Longrightarrow> Q (Inr ()) w'"
  shows "wp (en_increment E m) Q w"
proof (rule wpI)
  fix r w' assume m: "en_increment E m w = (r, w')"
  then have "r = Inr ()" using increment_total [OF assms(1), of w] by simp
  with assms(2) keepsD [OF increment_view m] show "Q r w'" by simp
qed

lemma wp_loadEntity:
  assumes "\<And>w'. view w' = view w \<Longrightarrow> Q (Inr (v_rows (view w) i)) w'"
    and "\<And>e w'. view w' = view w \<Longrightarrow> Q (Inl e) w'"
  shows "wp (r_loadEntity (en_repository E) i) Q w"
proof (rule wpI)
  fix r w' assume m: "r_loadEntity (en_repository E) i w = (r, w')"
  then have "view w' = view w" by (rule keepsD [OF loadEntity_view])
  with assms loadEntity_row m show "Q r w'" by (cases r) auto
qed

lemma wp_commitEvent:
  assumes "good_cursor c"
    and "\<And>w'. follows before (v_cursor (view w)) c \<Longrightarrow>
      view w' = put_cursor c (put_row_option ro (view w)) \<Longrightarrow> Q (Inr ()) w'"
    and "\<And>e w'. view w' = view w \<Longrightarrow> Q (Inl e) w'"
  shows "wp (r_commitEvent (en_repository E) c ro) Q w"
proof (rule wpI)
  fix r w' assume m: "r_commitEvent (en_repository E) c ro w = (r, w')"
  from effectD [OF commitEvent_view [OF assms(1)] m] commitEvent_forward [OF assms(1)] m
  show "Q r w'" using assms(2,3) by (cases r) auto
qed

lemmas wp_saveEntity = effect_wp [OF saveEntity_view]
lemmas wp_setSourceStatus = effect_wp [OF setSourceStatus_view]

lemmas wp_steps = wp_increment wp_loadEntity wp_commitEvent wp_saveEntity wp_setSourceStatus
lemmas wp_frames = env_keeps [THEN wp_view] crash_view [THEN wp_view] write_view [THEN wp_view]
  register_view [THEN wp_view] unregister_view [THEN wp_view]

end

section \<open>What an edit may do to the view\<close>

definition row_step :: "int \<Rightarrow> bool \<Rightarrow> entity_row \<Rightarrow> entity_row \<Rightarrow> bool" where
  "row_step n restore row row' \<longleftrightarrow>
     row' = row \<or>
     row' = gap_row row n \<and> row_indexed row < n \<and> \<not> restore \<or>
     row' = row\<lparr>row_status := ''RESTORING'', row_errorCode := None\<rparr> \<and> restore \<or>
     (\<exists>cs now. row' = current_row row n cs now) \<and> 1 \<le> n \<and> (restore \<or> row_indexed row < n)"

definition edit_post ::
  "(cursor \<Rightarrow> cursor \<Rightarrow> bool) \<Rightarrow> (string \<Rightarrow> string) \<Rightarrow> string \<Rightarrow> int \<Rightarrow> cursor \<Rightarrow> bool \<Rightarrow> bool \<Rightarrow>
   repo_view \<Rightarrow> sync_result result \<Rightarrow> repo_view \<Rightarrow> bool" where
  "edit_post before shown i n c commitCursor restore v r v' \<longleftrightarrow>
     (\<exists>row'. v_rows v' = (v_rows v)(i := row') \<and> row_step n restore (v_rows v i) row' \<and>
       (case r of
          Inl e \<Rightarrow> v_cursor v' = v_cursor v
        | Inr R_STOP \<Rightarrow> v_cursor v' = v_cursor v \<and> v_status v' = shown ''REBUILD_REQUIRED'' \<and>
            row' = gap_row (v_rows v i) n
        | Inr (R_UNWRITTEN d) \<Rightarrow> row' = v_rows v i \<and> n \<le> row_indexed (v_rows v i) \<and>
            d = (if n = row_indexed (v_rows v i) then DUPLICATE else OLDER)
        | Inr R_APPLIED \<Rightarrow> \<not> restore \<and> (\<exists>cs now. row' = current_row (v_rows v i) n cs now)
        | Inr R_RESTORED \<Rightarrow> restore \<and> (\<exists>cs now. row' = current_row (v_rows v i) n cs now)
        | Inr _ \<Rightarrow> False) \<and>
       (is_ok r \<longrightarrow> r \<noteq> Inr R_STOP \<longrightarrow>
          (if commitCursor then v_cursor v' = Some c \<and> follows before (v_cursor v) c
           else v_cursor v' = v_cursor v)))"

lemma fst_observe:
  "fst (observe incoming old f) =
     (case incoming of
        None \<Rightarrow> Inl ''invalid incoming revision''
      | Some r \<Rightarrow> if r < 1 then Inl ''invalid incoming revision''
          else if r = f_indexed f then Inr DUPLICATE
          else if r < f_indexed f then Inr OLDER
          else if f_indexed f \<noteq> 0 \<and> old \<noteq> Some (f_indexed f) then Inr GAP_DETECTED
          else Inr APPLY)"
  by (auto simp: observe_def thenA_def bindA_def modifyA_def readA_def returnA_def raiseA_def
      split: option.splits)

lemma new_fence_indexed: "new_fence i n = Inr f \<Longrightarrow> f_indexed f = n \<and> 0 \<le> n \<and> entity_id i"
  by (auto simp: new_fence_def bindR_eq_Inr)

lemma put_row_twice [simp]:
  "row_entity r = row_entity r' \<Longrightarrow> put_row r (put_row r' v) = put_row r v"
  by (simp add: put_row_def)

lemma current_row_entity [simp]: "row_entity (current_row row n cs now) = row_entity row"
  by (simp add: current_row_def)

context sync_environment
begin

lemma rebuildRequired_wp:
  assumes "\<And>w'. view w' = put_status (shown_status ''REBUILD_REQUIRED'') (view w) \<Longrightarrow> Q (Inr ()) w'"
    and "\<And>e w'. view w' = view w \<or> view w' = put_status (shown_status ''REBUILD_REQUIRED'') (view w)
      \<Longrightarrow> Q (Inl e) w'"
  shows "wp (engine_rebuildRequired E code cx) Q w"
  unfolding engine_rebuildRequired_def wp_thenA
  by (rule wp_setSourceStatus; simp add: assms; rule log_view [THEN wp_view]; simp add: assms)

lemma settle_wp:
  assumes "good_cursor c"
    and "\<And>e w'. view w' = view w \<Longrightarrow> Q (Inl e) w'"
    and "\<And>e now w'. view w' = put_row (current_row row n cs now) (view w) \<Longrightarrow> Q (Inl e) w'"
    and "\<And>now w'. \<not> commitCursor \<Longrightarrow> view w' = put_row (current_row row n cs now) (view w) \<Longrightarrow>
      Q (Inr (if restore then R_RESTORED else R_APPLIED)) w'"
    and "\<And>now w'. commitCursor \<Longrightarrow> follows before (v_cursor (view w)) c \<Longrightarrow>
      view w' = put_cursor c (put_row (current_row row n cs now) (view w)) \<Longrightarrow>
      Q (Inr (if restore then R_RESTORED else R_APPLIED)) w'"
  shows "wp (engine_settle E row n cs c ca commitCursor restore) Q w"
  unfolding engine_settle_def Let_def
  apply (simp only: wp_simps)
  apply (rule clock_view [THEN wp_view]; simp add: assms split del: if_split)
  apply (rule crash_view [THEN wp_view]; simp add: assms split del: if_split)
  apply (rule wp_saveEntity; simp add: assms split del: if_split)
  apply (rule crash_view [THEN wp_view]; simp add: assms(3) split del: if_split)
  apply (cases commitCursor; simp split del: if_split)
   apply (rule wp_commitEvent [OF assms(1)]; simp add: assms(3) split del: if_split)
   apply (rule wp_increment; simp add: engine_metrics_def assms(5) split del: if_split)
  apply (rule wp_increment; simp add: engine_metrics_def assms(4) split del: if_split)
  done

lemma edit_post_same: "v' = v \<Longrightarrow> edit_post before shown_status i n c cc restore v (Inl e) v'"
  by (auto simp: edit_post_def row_step_def intro!: exI [of _ "v_rows v i"])

lemma edit_post_put:
  assumes "v' = put_row row' v \<or> v' = put_status st (put_row row' v)" "row_entity row' = i"
    "row_step n restore (v_rows v i) row'"
  shows "edit_post before shown_status i n c cc restore v (Inl e) v'"
  using assms by (auto simp: edit_post_def)

lemma edit_post_restoring:
  assumes "row_entity row = i" "row = v_rows v i"
    and "v' = v \<or> restore \<and> v' = put_row (row\<lparr>row_status := ''RESTORING'', row_errorCode := None\<rparr>) v"
  shows "edit_post before shown_status i n c cc restore v (Inl e) v'"
  using assms(3)
proof
  assume "restore \<and> v' = put_row (row\<lparr>row_status := ''RESTORING'', row_errorCode := None\<rparr>) v"
  with assms(1,2) show ?thesis
    by (intro edit_post_put [where row' = "row\<lparr>row_status := ''RESTORING'', row_errorCode := None\<rparr>"])
      (auto simp: row_step_def)
qed (rule edit_post_same)

lemma edit_post_current:
  assumes "v' = (if cc then put_cursor c else id) (put_row (current_row row n cs now) v)"
    and "cc \<longrightarrow> follows before (v_cursor v) c" "row_entity row = i" "row = v_rows v i"
    and "row_step n restore row (current_row row n cs now)"
  shows "edit_post before shown_status i n c cc restore v
    (Inr (if restore then R_RESTORED else R_APPLIED)) v'"
  unfolding edit_post_def
  by (rule exI [of _ "current_row row n cs now"]) (use assms in auto)

lemma gap_wp:
  assumes "filed (view w)" "row = v_rows (view w) i" "row_indexed row < n"
  shows "wp (thenA (en_increment E ''gap_events_total'')
      (thenA (r_saveEntity (en_repository E) (gap_row row n))
      (thenA (engine_rebuildRequired E ''REVISION_GAP'' cx) (returnA R_STOP))))
    (\<lambda>r w'. edit_post before shown_status i n c commitCursor False (view w) r (view w')) w"
proof -
  have i: "row_entity (gap_row row n) = i" using assms(1,2) by (simp add: gap_row_def)
  have step: "row_step n False (v_rows (view w) i) (gap_row row n)"
    using assms(2,3) by (simp add: row_step_def)
  show ?thesis
    unfolding wp_thenA
    apply (rule wp_increment; simp add: engine_metrics_def)
    apply (rule wp_saveEntity; simp add: edit_post_same)
    apply (rule rebuildRequired_wp; simp add: wp_returnA)
     apply (use i step assms(2) in \<open>auto simp: edit_post_def\<close>)[1]
    apply (rule edit_post_put [OF _ i step]; auto)
    done
qed

lemma unwritten_wp:
  assumes "filed (view w)" "good_cursor c" "n \<le> row_indexed (v_rows (view w) i)"
    and "d = (if n = row_indexed (v_rows (view w) i) then DUPLICATE else OLDER)"
  shows "wp (thenA (en_increment E (if d = DUPLICATE then ''duplicate_events_total''
         else ''out_of_order_events_total''))
       (thenA (whenA commitCursor (r_advanceCursor (en_repository E) c))
       (returnA (R_UNWRITTEN d))))
    (\<lambda>r w'. edit_post before shown_status i n c commitCursor restore (view w) r (view w')) w"
  unfolding wp_thenA advanceCursor_commit
  apply (rule wp_increment; simp add: engine_metrics_def)
  apply (simp only: wp_simps)
  apply (cases commitCursor; simp add: wp_returnA)
   apply (rule wp_commitEvent [OF assms(2)]; simp add: edit_post_same)
  using assms(3,4) by (auto simp: edit_post_def row_step_def intro!: exI [of _ "v_rows (view w) i"])

lemma apply_wp:
  assumes "filed (view w)" "good_cursor c" "row = v_rows (view w) i" "1 \<le> n"
    and "restore \<or> row_indexed row < n"
  shows "wp (thenA (whenA restore (r_saveEntity (en_repository E)
         (row\<lparr>row_status := ''RESTORING'', row_errorCode := None\<rparr>)))
       (bindA (engine_write E i n ca) (\<lambda>checksum.
       engine_settle E row n checksum c ca commitCursor restore)))
    (\<lambda>r w'. edit_post before shown_status i n c commitCursor restore (view w) r (view w')) w"
proof -
  have i: "row_entity row = i" using assms(1,3) by simp
  have settle: "wp (engine_settle E row n cs c ca commitCursor restore)
      (\<lambda>r w'. edit_post before shown_status i n c commitCursor restore (view w) r (view w')) w2"
    if "view w2 = view w \<or>
        restore \<and> view w2 = put_row (row\<lparr>row_status := ''RESTORING'', row_errorCode := None\<rparr>) (view w)"
    for cs w2
  proof -
    have put: "put_row (current_row row n cs now) (view w2) = put_row (current_row row n cs now) (view w)"
      for now using that i by auto
    have step: "row_step n restore (v_rows (view w) i) (current_row row n cs now)" for now
      using assms(3-5) by (auto simp: row_step_def)
    have ei: "row_entity (current_row row n cs now) = i" for now using i by simp
    have cur: "v_cursor (view w2) = v_cursor (view w)" using that by auto
    show ?thesis
    proof (rule settle_wp [OF assms(2)], goal_cases)
      case (1 e w')
      then show ?case using that by (intro edit_post_restoring [OF i assms(3)]) simp
    next
      case (2 e now w')
      then show ?case using step ei
        by (intro edit_post_put [where row' = "current_row row n cs now"]) (simp_all add: put)
    next
      case (3 now w')
      then have "view w' = put_row (current_row row n cs now) (view w)" by (simp only: put)
      with 3 show ?case using step i assms(3)
        by (intro edit_post_current [where row = row and cs = cs and now = now]) simp_all
    next
      case (4 now w')
      then have "view w' = put_cursor c (put_row (current_row row n cs now) (view w))"
        by (simp only: put)
      with 4 show ?case using step i assms(3) cur
        by (intro edit_post_current [where row = row and cs = cs and now = now]) simp_all
    qed
  qed
  have tail: "wp (bindA (engine_write E i n ca) (\<lambda>checksum.
       engine_settle E row n checksum c ca commitCursor restore))
      (\<lambda>r w'. edit_post before shown_status i n c commitCursor restore (view w) r (view w')) w2"
    if "view w2 = view w \<or>
        restore \<and> view w2 = put_row (row\<lparr>row_status := ''RESTORING'', row_errorCode := None\<rparr>) (view w)"
    for w2
    unfolding wp_bindA
  proof (rule write_view [THEN wp_view], goal_cases)
    case (1 cs w3)
    with that settle [of w3 cs] show ?case by simp
  next
    case (2 e w3)
    with that edit_post_restoring [OF i assms(3)] show ?case by simp
  qed
  show ?thesis
  proof (cases restore)
    case True
    show ?thesis
      unfolding wp_thenA whenA_def if_P [OF True]
      by (rule wp_saveEntity) (use True tail in \<open>auto intro: edit_post_same\<close>)
  next
    case False
    then show ?thesis using tail [of w] by (simp add: whenA_def wp_thenA wp_returnA)
  qed
qed

lemma edit_wp:
  assumes "filed (view w)" "good_cursor c"
  shows "wp (engine_edit E i ev c cx ca commitCursor restore)
    (\<lambda>r w'. edit_post before shown_status i (revid_of ev) c commitCursor restore (view w) r (view w')) w"
  unfolding engine_edit_def wp_bindA
proof (rule wp_loadEntity, goal_cases)
  case (1 w1)
  let ?Q = "\<lambda>r w'. edit_post before shown_status i (revid_of ev) c commitCursor restore
    (view w) r (view w')"
  define row where "row = v_rows (view w) i"
  have w1: "filed (view w1)" "row = v_rows (view w1) i" using 1 assms(1) by (simp_all add: row_def)
  show ?case
  proof (cases "restore \<and> \<not> List.member [''DELETED'', ''RESTORING'', ''CURRENT''] (row_status row)")
    case True
    then show ?thesis by (simp add: row_def wp_raiseA edit_post_same 1)
  next
    case ok: False
    show ?thesis
    proof (cases "new_fence i (row_indexed row)")
      case (Inl e)
      then show ?thesis using ok by (simp add: row_def wp_simps edit_post_same 1)
    next
      case fence: (Inr f)
      note fi = new_fence_indexed [OF fence]
      show ?thesis
      proof (cases "fst (observe (ev_revid ev) (ev_oldRevid ev) f)")
        case (Inl e)
        then show ?thesis using ok fence by (simp add: row_def wp_simps edit_post_same 1)
      next
        case obs: (Inr d)
        from obs fi have n: "1 \<le> revid_of ev"
          and d: "d = APPLY \<or> d = GAP_DETECTED \<longleftrightarrow> row_indexed row < revid_of ev"
            "d \<noteq> APPLY \<and> d \<noteq> GAP_DETECTED \<longleftrightarrow> revid_of ev \<le> row_indexed row"
            "d = (if revid_of ev = row_indexed row then DUPLICATE else OLDER) \<or>
              row_indexed row < revid_of ev"
          by (auto simp: fst_observe revid_of_def split: option.splits if_splits)
        have Q: "edit_post before shown_status i (revid_of ev) c cc rs (view w1) =
            edit_post before shown_status i (revid_of ev) c cc rs (view w)" for cc rs
          using 1 by simp
        note gap = gap_wp [OF w1, of "revid_of ev" cx c, unfolded Q]
        note unw = unwritten_wp [OF w1(1) assms(2), of "revid_of ev" i d commitCursor restore,
          folded w1(2), unfolded Q]
        note app = apply_wp [OF w1(1) assms(2) w1(2) n, of restore ca commitCursor, unfolded Q]
        consider "\<not> restore" "d = GAP_DETECTED" | "\<not> restore" "d \<noteq> GAP_DETECTED" "d \<noteq> APPLY"
          | "restore \<or> d = APPLY" by blast
        then show ?thesis
        proof cases
          case 1
          with ok fence obs gap d(1) show ?thesis by (simp add: row_def [symmetric] wp_liftA wp_bindA)
        next
          case 2
          with ok fence obs unw d(2,3) show ?thesis
            by (auto simp add: row_def [symmetric] wp_liftA wp_bindA split: if_splits)
        next
          case 3
          with ok fence obs app d(1) show ?thesis
            by (auto simp add: row_def [symmetric] wp_liftA wp_bindA)
        qed
      qed
    qed
  qed
next
  case (2 e w1)
  then show ?case by (simp add: edit_post_same)
qed

end

section \<open>What an event may do to the view\<close>

definition row_wf :: "entity_row \<Rightarrow> bool" where
  "row_wf r \<longleftrightarrow> 0 \<le> row_indexed r \<and> row_indexed r \<le> row_latestSeen r"

definition row_evolves :: "bool \<Rightarrow> entity_row \<Rightarrow> entity_row \<Rightarrow> bool" where
  "row_evolves restore r r' \<longleftrightarrow> row_entity r' = row_entity r \<and> (row_wf r \<longrightarrow> row_wf r') \<and>
     (restore \<or> row_indexed r \<le> row_indexed r')"

definition rows_evolve :: "bool \<Rightarrow> repo_view \<Rightarrow> repo_view \<Rightarrow> bool" where
  "rows_evolve restore v v' \<longleftrightarrow> (\<forall>i. row_evolves restore (v_rows v i) (v_rows v' i))"

lemma row_evolves_refl [simp]: "row_evolves b r r"
  by (simp add: row_evolves_def)

lemma rows_evolve_refl [simp]: "v_rows v' = v_rows v \<Longrightarrow> rows_evolve b v v'"
  by (simp add: rows_evolve_def)

lemma rows_evolve_trans: "rows_evolve b u v \<Longrightarrow> rows_evolve b v w \<Longrightarrow> rows_evolve b u w"
  unfolding rows_evolve_def row_evolves_def by (metis order_trans)

lemma rows_evolve_filed: "rows_evolve b v v' \<Longrightarrow> filed v \<Longrightarrow> filed v'"
  by (simp add: rows_evolve_def row_evolves_def filed_def)

lemma rows_evolve_upd:
  "v_rows v' = (v_rows v)(i := r) \<Longrightarrow> row_evolves b (v_rows v i) r \<Longrightarrow> rows_evolve b v v'"
  by (simp add: rows_evolve_def)

lemma row_step_evolves: "row_step n restore r r' \<Longrightarrow> row_evolves restore r r'"
  unfolding row_step_def
  by (auto simp: row_evolves_def row_wf_def gap_row_def current_row_def)

lemma row_step_evolves_any: "row_step n restore r r' \<Longrightarrow> restore \<longrightarrow> b \<Longrightarrow> row_evolves b r r'"
  by (drule row_step_evolves) (auto simp: row_evolves_def)

definition event_post ::
  "(cursor \<Rightarrow> cursor \<Rightarrow> bool) \<Rightarrow> cursor \<Rightarrow> bool \<Rightarrow> repo_view \<Rightarrow> sync_result result \<Rightarrow> repo_view \<Rightarrow> bool" where
  "event_post before c restore v r v' \<longleftrightarrow> rows_evolve restore v v' \<and>
     (if is_ok r \<and> r \<noteq> Inr R_STOP then v_cursor v' = Some c \<and> follows before (v_cursor v) c
      else v_cursor v' = v_cursor v)"

lemma edit_post_evolves:
  "edit_post before shown i n c cc restore v r v' \<Longrightarrow> restore \<longrightarrow> b \<Longrightarrow> rows_evolve b v v'"
  unfolding edit_post_def by (blast intro: rows_evolve_upd row_step_evolves_any)

lemma edit_post_cursor:
  assumes "edit_post before shown i n c cc restore v r v'"
  shows "if is_ok r \<and> r \<noteq> Inr R_STOP \<and> cc
    then v_cursor v' = Some c \<and> follows before (v_cursor v) c else v_cursor v' = v_cursor v"
proof (cases r)
  case (Inl e)
  with assms show ?thesis by (auto simp: edit_post_def)
next
  case (Inr x)
  with assms show ?thesis by (cases x) (auto simp: edit_post_def)
qed

lemma edit_post_event:
  "edit_post before shown i n c True False v r v' \<Longrightarrow> event_post before c b v r v'"
  using edit_post_cursor [of before shown i n c True False v r v']
    edit_post_evolves [of before shown i n c True False v r v' b]
  by (simp add: event_post_def)

lemma edit_post_rows:
  "edit_post before shown i n c False restore v r v' \<Longrightarrow>
   rows_evolve restore v v' \<and> v_cursor v' = v_cursor v"
  using edit_post_cursor [of before shown i n c False restore v r v']
    edit_post_evolves [of before shown i n c False restore v r v' restore]
  by simp

context sync_environment
begin

lemma delete_wp:
  assumes "filed (view w)" "good_cursor c"
  shows "wp (engine_delete E i c ca) (\<lambda>r w'. event_post before c b (view w) r (view w')) w"
proof -
  have same: "event_post before c b (view w) (Inl e) v" if "v = view w" for e v
    using that by (simp add: event_post_def)
  have evolves: "row_evolves b (v_rows (view w) i) (deleted_row (v_rows (view w) i) now)" for now
    by (simp add: row_evolves_def row_wf_def deleted_row_def)
  have ent: "row_entity (deleted_row (v_rows (view w) i) now) = i" for now
    using assms(1) by (simp add: deleted_row_def)
  have graphs: "keeps view (forA gs (\<lambda>g. thenA (en_deleteNamedGraph E g) (unregister_if_any E g)))" for gs
    by (intro keeps_forA keeps_thenA delete_view unregister_view)
  show ?thesis
    unfolding engine_delete_def Let_def
    apply (simp only: wp_simps)
    apply (rule wp_loadEntity; simp add: same del: forA.simps split del: if_split)
    apply (cases "entityGraphIri i"; simp add: same del: forA.simps split del: if_split)
    apply (rule graphs [THEN wp_view]; simp add: same)
    apply (rule crash_view [THEN wp_view]; simp add: same)
    apply (rule clock_view [THEN wp_view]; simp add: same)
    apply (rule wp_commitEvent [OF assms(2)]; simp add: same)
    apply (rule wp_increment; simp add: engine_metrics_def)
    apply (use ent evolves in \<open>auto simp: event_post_def intro!: rows_evolve_upd\<close>)
    done
qed

lemma lifecycle_loop_wp:
  assumes "good_cursor c"
  shows "filed (view w) \<Longrightarrow> wp (lifecycle_loop E cl ev c cx ca es)
    (\<lambda>r w'. rows_evolve (cl_action cl = ENTITY_UNDELETE) (view w) (view w') \<and>
      v_cursor (view w') = v_cursor (view w)) w"
proof (induction es arbitrary: w)
  case Nil
  then show ?case by (simp add: wp_returnA)
next
  case (Cons e es)
  let ?b = "cl_action cl = ENTITY_UNDELETE"
  let ?Q = "\<lambda>r w'. rows_evolve ?b (view w) (view w') \<and> v_cursor (view w') = v_cursor (view w)"
  have rest: "wp (lifecycle_loop E cl ev c cx ca es) ?Q w1"
    if "rows_evolve ?b (view w) (view w1)" "v_cursor (view w1) = v_cursor (view w)" for w1
    using Cons.IH [OF rows_evolve_filed [OF that(1) Cons.prems]]
    by (rule wp_mono) (use that in \<open>auto intro: rows_evolve_trans\<close>)
  show ?case
  proof (cases "rz_deleted e")
    case True
    let ?r = "v_rows (view w) (rz_id e)\<lparr>row_status := ''DELETED''\<rparr>"
    have ev: "rows_evolve ?b (view w) (put_row ?r (view w))"
      by (rule rows_evolve_upd [where i = "rz_id e" and r = ?r])
        (use Cons.prems in \<open>simp_all add: row_evolves_def row_wf_def\<close>)
    show ?thesis
      unfolding lifecycle_loop.simps if_P [OF True]
      apply (simp only: wp_simps)
      apply (cases "entityGraphIri (rz_id e)"; simp)
      apply (rule delete_view [THEN wp_view]; simp)
      apply (rule wp_loadEntity; simp)
      apply (rule wp_saveEntity; simp)
      apply (rule rest; simp add: ev)
      done
  next
    case False
    show ?thesis
      unfolding lifecycle_loop.simps if_not_P [OF False]
      apply (simp only: wp_simps)
      apply (rule wp_loadEntity; simp)
      apply (rule wp_mono [OF edit_wp [OF _ assms]])
      using Cons.prems apply simp
      apply (drule edit_post_rows)
      apply (auto simp: wp_returnA intro!: rest split: sum.splits)
      done
  qed
qed

lemma lifecycle_wp:
  assumes "filed (view w)" "good_cursor c"
  shows "wp (engine_lifecycle E cl ev c cx ca)
    (\<lambda>r w'. event_post before c (cl_action cl = ENTITY_UNDELETE) (view w) r (view w')) w"
proof -
  let ?b = "cl_action cl = ENTITY_UNDELETE"
  show ?thesis
    unfolding engine_lifecycle_def
    apply (simp only: wp_simps)
    apply (rule resolve_view [THEN wp_view]; simp add: event_post_def)
    apply (intro impI)
    apply (rule wp_mono [OF lifecycle_loop_wp [OF assms(2)]])
     apply (simp add: assms)
    apply (auto simp: wp_returnA wp_if wp_thenA advanceCursor_commit event_post_def split: sum.splits)
    apply (rule wp_commitEvent [OF assms(2)]; simp add: rows_evolve_def)
    done
qed

lemma failed_wp:
  assumes "rows_evolve b v (view w)" "v_cursor (view w) = v_cursor v"
  shows "wp (engine_failed E ev hard msg) (\<lambda>r w'. event_post before c b v r (view w')) w"
proof -
  have post: "event_post before c b v r v'" if "v_rows v' = v_rows (view w)"
    "v_cursor v' = v_cursor (view w)" "r = Inr R_STOP \<or> (\<exists>e. r = Inl e)" for r v'
    using that assms by (auto simp: event_post_def rows_evolve_def)
  show ?thesis
    unfolding engine_failed_def Let_def
    apply (simp only: wp_simps)
    apply (cases "hard \<and> starts_with ''INJECTED_'' msg"; simp only: if_True if_False simp_thms)
     apply (simp add: post)
    apply (rule wp_increment; simp add: engine_metrics_def)
    apply (rule log_view [THEN wp_view]; simp add: post)
    apply (rule rebuildRequired_wp; auto simp: post)
    done
qed

lemma failed_rows:
  "wp (engine_failed E ev hard msg) (\<lambda>r w'. v_rows (view w') = v_rows (view w)) w"
  unfolding engine_failed_def Let_def
  apply (simp only: wp_simps)
  apply (cases "hard \<and> starts_with ''INJECTED_'' msg"; simp only: if_True if_False simp_thms)
  apply (rule wp_increment; simp add: engine_metrics_def)
  apply (rule log_view [THEN wp_view]; simp)
  apply (rule rebuildRequired_wp; auto)
  done

lemma dispatch_wp:
  assumes "filed (view w)" "good_cursor (event_cursor E ev)"
  shows "wp (engine_dispatch E i ev ca) (\<lambda>r w'. event_post before (event_cursor E ev)
    (cl_action (classifyChange ev) = ENTITY_UNDELETE) (view w) r (view w')) w"
  unfolding engine_dispatch_def Let_def
  using delete_wp [OF assms] lifecycle_wp [OF assms] edit_wp [OF assms, THEN wp_mono, OF edit_post_event]
  by simp

theorem processEvent_wp:
  assumes "filed (view w)" "good_cursor (event_cursor E ev)"
  shows "wp (processEvent E opts ev) (\<lambda>r w'. event_post before (event_cursor E ev)
    (cl_action (classifyChange ev) = ENTITY_UNDELETE) (view w) r (view w')) w"
proof -
  let ?b = "cl_action (classifyChange ev) = ENTITY_UNDELETE"
  let ?Q = "\<lambda>r w'. event_post before (event_cursor E ev) ?b (view w) r (view w')"
  have skip: "wp (thenA (r_advanceCursor (en_repository E) (event_cursor E ev)) (returnA R_SKIP)) ?Q w"
    unfolding wp_thenA advanceCursor_commit
    by (rule wp_commitEvent [OF assms(2)]) (auto simp: event_post_def wp_returnA)
  have ambiguous: "wp (thenA (engine_rebuildRequired E ''AMBIGUOUS_EVENT'' cx) (returnA R_STOP)) ?Q w" for cx
    unfolding wp_thenA
    by (rule rebuildRequired_wp) (auto simp: event_post_def wp_returnA)
  have tried: "wp (catchA (engine_dispatch E i ev ca) (engine_failed E ev hard)) ?Q w" for i ca hard
    unfolding wp_catchA
  proof (rule wp_mono [OF dispatch_wp [OF assms]])
    fix r w' assume post: "?Q r w'"
    show "case r of Inl e \<Rightarrow> wp (engine_failed E ev hard e) ?Q w' | Inr x \<Rightarrow> ?Q (Inr x) w'"
    proof (cases r)
      case (Inl e)
      with post have "rows_evolve ?b (view w) (view w')" "v_cursor (view w') = v_cursor (view w)"
        by (auto simp: event_post_def)
      from failed_wp [OF this] Inl show ?thesis by simp
    qed (use post in simp)
  qed
  show ?thesis
    unfolding processEvent_def Let_def
    using skip ambiguous tried by (auto split: option.splits)
qed

text \<open>Along a poll\<close>

definition cursor_le :: "cursor option \<Rightarrow> cursor option \<Rightarrow> bool" where
  "cursor_le a b \<longleftrightarrow> a = b \<or> (case b of None \<Rightarrow> False | Some c \<Rightarrow> follows before a c)"

lemma cursor_le_trans: "cursor_le a b \<Longrightarrow> cursor_le b c \<Longrightarrow> cursor_le a c"
  by (auto simp: cursor_le_def follows_def intro: before_trans split: option.splits)

lemma poll_loop_wp:
  assumes "\<And>ev. ev \<in> set evs \<Longrightarrow> good_cursor (event_cursor E ev)"
  shows "filed (view w) \<Longrightarrow> wp (poll_loop E opts evs)
    (\<lambda>r w'. rows_evolve True (view w) (view w') \<and>
      cursor_le (v_cursor (view w)) (v_cursor (view w'))) w"
  using assms
proof (induction evs arbitrary: w)
  case Nil
  then show ?case by (simp add: wp_returnA cursor_le_def)
next
  case (Cons ev evs)
  let ?Q = "\<lambda>u r w'. rows_evolve True (view u) (view w') \<and> cursor_le (v_cursor (view u)) (v_cursor (view w'))"
  have one: "wp (processEvent E opts ev) (?Q w) w1" if "view w1 = view w" for w1
  proof (rule wp_mono [OF processEvent_wp])
    show "filed (view w1)" "good_cursor (event_cursor E ev)" using Cons.prems that by simp_all
    fix r w' assume "event_post before (event_cursor E ev)
      (cl_action (classifyChange ev) = ENTITY_UNDELETE) (view w1) r (view w')"
    then show "?Q w r w'" using that
      by (auto simp: event_post_def cursor_le_def rows_evolve_def row_evolves_def split: if_splits)
  qed
  have rest: "wp (poll_loop E opts evs) (?Q w) w1" if "?Q w r w1" for r w1
  proof (rule wp_mono [OF Cons.IH [of w1]])
    show "filed (view w1)" using that Cons.prems(1) rows_evolve_filed by blast
    show "?Q w r' w'" if "?Q w1 r' w'" for r' w'
      using that \<open>?Q w r w1\<close> rows_evolve_trans cursor_le_trans by blast
  qed (use Cons.prems in auto)
  have step: "wp (bindA (processEvent E opts ev) (\<lambda>result.
      if result = R_STOP then returnA () else poll_loop E opts evs)) (?Q w) w1" if "view w1 = view w" for w1
    unfolding wp_bindA
    by (rule wp_mono [OF one [OF that]]) (auto simp: wp_if wp_returnA intro: rest split: sum.splits)
  show ?case
    unfolding poll_loop.simps wp_thenA
    by (rule wp_increment) (simp_all add: engine_metrics_def step)
qed

theorem pollOnce_wp:
  assumes "filed (view w)" "\<And>ev. good_cursor (event_cursor E ev)"
  shows "wp (pollOnce E pageSize batchSize opts)
    (\<lambda>r w'. rows_evolve True (view w) (view w') \<and>
      cursor_le (v_cursor (view w)) (v_cursor (view w'))) w"
proof -
  have same: "cursor_le a a" for a by (simp add: cursor_le_def)
  have loop: "wp (poll_loop E opts evs) (\<lambda>r w'. rows_evolve True (view w) (view w') \<and>
      cursor_le (v_cursor (view w)) (v_cursor (view w'))) w1" if "view w1 = view w" for evs w1
    using poll_loop_wp [of evs w1 opts] assms that by simp
  show ?thesis
    unfolding pollOnce_def
    apply (simp only: wp_simps)
    apply (rule loadSource_view [THEN wp_view]; simp add: same)
    apply (rule read_view [THEN wp_view]; simp add: same)
    apply (rule clock_view [THEN wp_view]; simp add: same)
    apply (rule recordPoll_view [THEN wp_view]; simp add: same)
    apply (rule crash_view [THEN wp_view]; simp add: same)
    apply (rule wp_mono [OF loop]; simp split: sum.splits)
    apply (intro impI)
    apply (rule loadSource_view [THEN wp_view]; simp)
    done
qed

end

end
