(* ===== verification/Metrics.thy ===== *)
theory Metrics
  imports Prelude "HOL-Library.AList"
begin

text \<open>
  The counters of the processes: \<open>apps/rdf-sync-worker/src/metrics.js\<close>,
  \<open>apps/query-router/src/metrics.js\<close> and \<open>apps/rdf-generation-coordinator/src/metrics.js\<close>.
  Values are integers; the one fractional gauge of the worker (\<open>sync_lag_seconds\<close>) is outside
  the model.  A \<open>Map\<close> is an association list in insertion order.
\<close>

section \<open>The synchronization worker\<close>

definition SYNC_NAMES :: "string list" where
  "SYNC_NAMES = [''events_seen_total'', ''events_applied_total'', ''duplicate_events_total'',
     ''out_of_order_events_total'', ''gap_events_total'', ''entity_sync_failures_total'',
     ''rebuild_total'', ''rebuild_failure_total'', ''backend_write_duration'', ''rebuild_duration'',
     ''sync_lag_seconds'', ''entities_current'', ''entities_failed'']"

record sync_metrics =
  sm_values :: "(string \<times> int) list"

definition new_sync_metrics :: sync_metrics where
  "new_sync_metrics = \<lparr>sm_values = map (\<lambda>n. (n, 0)) SYNC_NAMES\<rparr>"

definition sync_metric_name :: "string \<Rightarrow> (sync_metrics, unit) action" where
  "sync_metric_name name =
     whenA (\<not> List.member SYNC_NAMES name) (raiseA ''unknown metric'')"

definition metric_value :: "(string \<times> int) list \<Rightarrow> string \<Rightarrow> int" where
  "metric_value vs name = (case map_of vs name of None \<Rightarrow> 0 | Some v \<Rightarrow> v)"

definition sm_increment :: "string \<Rightarrow> int \<Rightarrow> (sync_metrics, unit) action" where
  "sm_increment name n =
     thenA (sync_metric_name name)
       (modifyA (sm_values_update (\<lambda>vs. AList.update name (metric_value vs name + n) vs)))"

definition sm_set :: "string \<Rightarrow> int \<Rightarrow> (sync_metrics, unit) action" where
  "sm_set name x =
     thenA (sync_metric_name name) (modifyA (sm_values_update (AList.update name (max 0 x))))"

definition sm_observe :: "string \<Rightarrow> int \<Rightarrow> (sync_metrics, unit) action" where
  "sm_observe name x = sm_set name x"

definition sm_render :: "sync_metrics \<Rightarrow> string" where
  "sm_render m = join [LF] (map (\<lambda>(name, x).
     ''# TYPE jwb_rdf_sync_'' @ name @ '' '' @
     (if ends_with ''_seconds'' name \<or> starts_with ''entities_'' name then ''gauge'' else ''counter'') @
     [LF] @ ''jwb_rdf_sync_'' @ name @ '' '' @ show_int x) (sm_values m)) @ [LF]"

definition metrics_ok :: "sync_metrics \<Rightarrow> bool" where
  "metrics_ok m \<longleftrightarrow> map fst (sm_values m) = SYNC_NAMES"

lemma metrics_ok_new: "metrics_ok new_sync_metrics"
  by (simp add: metrics_ok_def new_sync_metrics_def comp_def)

lemma update_keys: "k \<in> set (map fst xs) \<Longrightarrow> map fst (AList.update k v xs) = map fst xs"
  by (induction xs) auto

lemma sm_total:
  "List.member SYNC_NAMES name \<Longrightarrow> fst (sm_increment name n m) = Inr ()"
  "List.member SYNC_NAMES name \<Longrightarrow> fst (sm_set name x m) = Inr ()"
  by (simp_all add: sm_increment_def sm_set_def sync_metric_name_def thenA_def bindA_def whenA_def
      returnA_def modifyA_def)

lemma sm_wp [wp_simps]:
  "wp (sm_increment name n) Q m = (if List.member SYNC_NAMES name
     then Q (Inr ()) (sm_values_update (\<lambda>vs. AList.update name (metric_value vs name + n) vs) m)
     else Q (Inl ''unknown metric'') m)"
  "wp (sm_set name x) Q m = (if List.member SYNC_NAMES name
     then Q (Inr ()) (sm_values_update (AList.update name (max 0 x)) m)
     else Q (Inl ''unknown metric'') m)"
  by (auto simp: sm_increment_def sm_set_def sync_metric_name_def wp_simps)

lemma metrics_ok_kept:
  "moves (\<lambda>m m'. metrics_ok m \<longrightarrow> metrics_ok m') (sm_increment name n)"
  "moves (\<lambda>m m'. metrics_ok m \<longrightarrow> metrics_ok m') (sm_set name x)"
proof -
  have "wp (sm_increment name n) (\<lambda>_ m'. metrics_ok m \<longrightarrow> metrics_ok m') m"
    "wp (sm_set name x) (\<lambda>_ m'. metrics_ok m \<longrightarrow> metrics_ok m') m" for m
    by (auto simp: wp_simps metrics_ok_def update_keys)
  then show "moves (\<lambda>m m'. metrics_ok m \<longrightarrow> metrics_ok m') (sm_increment name n)"
    "moves (\<lambda>m m'. metrics_ok m \<longrightarrow> metrics_ok m') (sm_set name x)"
    by (auto intro!: movesI dest: wpD)
qed

section \<open>The query router\<close>

definition ROUTER_NAMES :: "string list" where
  "ROUTER_NAMES = [''queries_total'', ''query_failures_total'', ''promotions_total'',
     ''rollbacks_total'', ''serving_pointer_reload_total'', ''upstream_latency_ms'',
     ''router_latency_ms'', ''pointer_version'']"

record router_metrics =
  rm_values :: "(string \<times> int) list"
  rm_activeGeneration :: string

definition new_router_metrics :: router_metrics where
  "new_router_metrics =
     \<lparr>rm_values = map (\<lambda>n. (n, 0)) ROUTER_NAMES, rm_activeGeneration = ''none''\<rparr>"

definition router_metric_key :: "string \<Rightarrow> (router_metrics, unit) action" where
  "router_metric_key k =
     bindA (readA rm_values) (\<lambda>vs.
     whenA (map_of vs k = None) (raiseA ''unknown router metric''))"

definition rm_increment :: "string \<Rightarrow> (router_metrics, unit) action" where
  "rm_increment k =
     thenA (router_metric_key k)
       (modifyA (rm_values_update (\<lambda>vs. AList.update k (metric_value vs k + 1) vs)))"

definition rm_set :: "string \<Rightarrow> int \<Rightarrow> (router_metrics, unit) action" where
  "rm_set k x = thenA (router_metric_key k) (modifyA (rm_values_update (AList.update k x)))"

definition rm_render :: "router_metrics \<Rightarrow> string" where
  "rm_render m = join [LF] (map (\<lambda>(k, x). ''jwb_query_router_'' @ k @ '' '' @ show_int x) (rm_values m) @
     [''jwb_query_router_active_generation_info{generation='' @ [CHR 0x22] @ rm_activeGeneration m @
       [CHR 0x22] @ ''} 1'']) @ [LF]"

lemma rm_wp [wp_simps]:
  "wp (rm_increment k) Q m = (if map_of (rm_values m) k = None
     then Q (Inl ''unknown router metric'') m
     else Q (Inr ()) (rm_values_update (\<lambda>vs. AList.update k (metric_value vs k + 1) vs) m))"
  "wp (rm_set k x) Q m = (if map_of (rm_values m) k = None
     then Q (Inl ''unknown router metric'') m
     else Q (Inr ()) (rm_values_update (AList.update k x) m))"
  by (auto simp: rm_increment_def rm_set_def router_metric_key_def wp_simps)

section \<open>The generation coordinator\<close>

definition COUNTERS :: "string list" where
  "COUNTERS = [''cleanup_total'', ''ambiguous_states_total'', ''active_rebuilds'',
     ''active_retirements'', ''promotion_failures_total'', ''promotions_total'',
     ''rebuild_failure_total'', ''rebuild_requests_total'', ''rebuild_success_total'',
     ''reconciliation_total'', ''retirements_total'', ''rollbacks_total'']"

type_synonym coordinator_metrics = "(string \<times> int) list"

definition new_coordinator_metrics :: coordinator_metrics where
  "new_coordinator_metrics = map (\<lambda>n. (n, 0)) COUNTERS"

definition cm_increment :: "string \<Rightarrow> coordinator_metrics \<Rightarrow> coordinator_metrics" where
  "cm_increment name m = AList.update name (metric_value m name + 1) m"

definition cm_set :: "string \<Rightarrow> int \<Rightarrow> coordinator_metrics \<Rightarrow> coordinator_metrics" where
  "cm_set name x m = AList.update name x m"

text \<open>\<open>sort()\<close> without a comparison orders the entries by their text \<open>name,value\<close>.\<close>

definition cm_render :: "coordinator_metrics \<Rightarrow> string" where
  "cm_render m = join [LF] (map (\<lambda>(k, x). ''jwb_coordinator_'' @ k @ '' '' @ show_int x)
     (sort_key (\<lambda>(k, x). k @ '','' @ show_int x) m)) @ [LF]"

text \<open>Every counter is rendered, whatever was counted.\<close>

lemma cm_counters_kept:
  "set COUNTERS \<subseteq> fst ` set m \<Longrightarrow> set COUNTERS \<subseteq> fst ` set (cm_increment name m)"
  "set COUNTERS \<subseteq> fst ` set m \<Longrightarrow> set COUNTERS \<subseteq> fst ` set (cm_set name x m)"
  by (auto simp: cm_increment_def cm_set_def dom_map_of_conv_image_fst [symmetric] update_conv')

end
