(* ===== verification/SyncWorld.thy ===== *)
theory SyncWorld
  imports SyncSafety Metrics
begin

text \<open>
  The engine put together: a repository, the worker's metrics and an arbitrary environment (the
  change source, the fetcher, the partitioner, the RDF backend, the resolver, the rebuild
  coordinator, the log, the clock, the file system), which keeps a state of its own and may fail
  at any call.  \<open>assemble\<close> lifts the operations of each to the common world; the properties
  below hold for every environment.
\<close>

type_synonym ('r, 'e) world = "'r \<times> sync_metrics \<times> 'e"

abbreviation on_env :: "('e, 'a) action \<Rightarrow> ('r, 'e) world \<Rightarrow> 'a result \<times> ('r, 'e) world" where
  "on_env m \<equiv> on_snd (on_snd m)"

text \<open>
  \<open>X\<close> holds the environment's operations; its own repository and metrics are not used.
  \<open>catchUp\<close> is a separate argument, because the coordinator receives the engine and may use it.
\<close>

definition assemble ::
  "'r repository_ops \<Rightarrow> ('e, 's) sync_engine \<Rightarrow>
   (string \<Rightarrow> cursor \<Rightarrow> cursor \<Rightarrow> (('r, 'e) world, unit) action) \<Rightarrow>
   (('r, 'e) world, 's) sync_engine" where
  "assemble R X catchUp =
     \<lparr>en_sourceIdentity = en_sourceIdentity X,
      en_read = (\<lambda>c n. on_env (en_read X c n)),
      en_repository = lift_repository R,
      en_fetch = (\<lambda>i n. on_env (en_fetch X i n)),
      en_partition = en_partition X,
      en_replaceNamedGraph = (\<lambda>g s t. on_env (en_replaceNamedGraph X g s t)),
      en_deleteNamedGraph = (\<lambda>g. on_env (en_deleteNamedGraph X g)),
      en_query = (\<lambda>q. on_env (en_query X q)),
      en_resolve = (\<lambda>c ev. on_env (en_resolve X c ev)),
      en_stage = (\<lambda>i s. on_env (en_stage X i s)),
      en_catchUp = catchUp,
      en_cutover = (\<lambda>i. on_env (en_cutover X i)),
      en_increment = (\<lambda>m. on_snd (on_fst (sm_increment m 1))),
      en_observe = (\<lambda>m x. on_snd (on_fst (sm_observe m x))),
      en_log = (\<lambda>n cx r c. on_env (en_log X n cx r c)),
      en_backendType = en_backendType X,
      en_clock = on_env (en_clock X),
      en_randomUUID = on_env (en_randomUUID X),
      en_sha256 = en_sha256 X,
      en_writeFile = (\<lambda>p d. on_env (en_writeFile X p d)),
      en_unlink = (\<lambda>p. on_env (en_unlink X p))\<rparr>"

lemma assemble_sel [simp]:
  "en_sourceIdentity (assemble R X cu) = en_sourceIdentity X"
  "en_repository (assemble R X cu) = lift_repository R"
  "en_partition (assemble R X cu) = en_partition X"
  "en_sha256 (assemble R X cu) = en_sha256 X"
  "en_increment (assemble R X cu) m = on_snd (on_fst (sm_increment m 1))"
  "en_log (assemble R X cu) n cx r c = on_env (en_log X n cx r c)"
  by (simp_all add: assemble_def)

lemma event_cursor_assemble [simp]: "event_cursor (assemble R X cu) ev = event_cursor X ev"
  by (simp add: event_cursor_def)

lemma keeps_on_snd: "keeps (view \<circ> fst) (on_snd m)"
  by (auto simp: keeps_def on_snd_def split: prod.splits)

lemma engine_metrics_known: "m \<in> set engine_metrics \<Longrightarrow> List.member SYNC_NAMES m"
  by (auto simp: engine_metrics_def SYNC_NAMES_def)

lemma increment_on_world:
  "m \<in> set engine_metrics \<Longrightarrow> fst (on_snd (on_fst (sm_increment m 1)) w) = Inr ()"
  using sm_total(1) [OF engine_metrics_known, of m 1 "fst (snd w)"]
  by (simp add: on_snd_def on_fst_def prod.case_eq_if)

lemma assemble_environment:
  assumes "sync_repository R view before good shown"
  shows "sync_environment (assemble R X cu) (view \<circ> fst) before good shown"
  by (intro sync_environment.intro sync_environment_axioms.intro)
    (simp_all add: lift_repository_contract [OF assms] increment_on_world keeps_on_snd assemble_def)

interpretation on_memory:
  sync_environment "assemble (memory_ops now) X cu" "memory_view \<circ> fst" cursor_less "\<lambda>_. True" id
  for now X cu
  by (rule assemble_environment [OF memory.sync_repository_axioms])

section \<open>The cursor and the rows\<close>

text \<open>C1: processing an event moves the cursor exactly when it is settled: to the event's own
  position, and only forward.  A \<open>STOP\<close>, an exception and an injected crash leave the cursor where
  it was, whatever the environment does, so the event is read again.\<close>

theorem processEvent_cursor:
  assumes "processEvent (assemble (memory_ops now) X cu) opts ev (m, x, e) = (r, (m', x', e'))"
    and "filed (memory_view m)"
  shows "if is_ok r \<and> r \<noteq> Inr R_STOP
    then src_cursor (mr_source m') = Some (event_cursor X ev) \<and>
      follows cursor_less (src_cursor (mr_source m)) (event_cursor X ev)
    else src_cursor (mr_source m') = src_cursor (mr_source m)"
  using on_memory.processEvent_wp [THEN wpD, OF _ _ assms(1)] assms(2)
  by (auto simp: event_post_def memory_view_def split: if_splits)

text \<open>C5: a whole poll keeps the rows sound: every row stays filed under its entity, the indexed
  revision stays between 0 and the latest revision seen, and the cursor never moves backwards.\<close>

theorem pollOnce_invariant:
  assumes "pollOnce (assemble (memory_ops now) X cu) pageSize batchSize opts (m, x, e) = (r, (m', x', e'))"
    and "\<forall>i. row_entity (mr_row m i) = i \<and> 0 \<le> row_indexed (mr_row m i) \<and>
      row_indexed (mr_row m i) \<le> row_latestSeen (mr_row m i)"
  shows "(\<forall>i. row_entity (mr_row m' i) = i \<and> 0 \<le> row_indexed (mr_row m' i) \<and>
      row_indexed (mr_row m' i) \<le> row_latestSeen (mr_row m' i)) \<and>
    (src_cursor (mr_source m') = src_cursor (mr_source m) \<or>
     (\<exists>c. src_cursor (mr_source m') = Some c \<and> follows cursor_less (src_cursor (mr_source m)) c))"
proof -
  have "filed (memory_view m)" using assms(2) by (simp add: filed_def memory_view_def)
  from on_memory.pollOnce_wp [THEN wpD, OF _ _ assms(1)] this
  have "rows_evolve True (memory_view m) (memory_view m')"
    "on_memory.cursor_le (src_cursor (mr_source m)) (src_cursor (mr_source m'))"
    by (auto simp: memory_view_def)
  with assms(2) show ?thesis
    by (auto simp: rows_evolve_def row_evolves_def row_wf_def memory_view_def on_memory.cursor_le_def
        split: option.splits)
qed

text \<open>C9: apart from a restoration, the indexed revision of no entity ever decreases.\<close>

theorem processEvent_monotone:
  assumes "processEvent (assemble (memory_ops now) X cu) opts ev (m, x, e) = (r, (m', x', e'))"
    and "filed (memory_view m)" "cl_action (classifyChange ev) \<noteq> ENTITY_UNDELETE"
  shows "row_indexed (mr_row m i) \<le> row_indexed (mr_row m' i)"
  using on_memory.processEvent_wp [THEN wpD, OF _ _ assms(1)] assms(2,3)
  by (auto simp: event_post_def memory_view_def rows_evolve_def row_evolves_def)

section \<open>What an applied edit means\<close>

lemma engine_crash_Inr: "engine_crash a p s = (Inr u, s') \<longleftrightarrow> a \<noteq> Some p \<and> s' = s"
  by (simp add: engine_crash_def whenA_def)

lemma write_Inr:
  assumes "engine_write E i n ca w = (Inr cs, w')"
  shows "\<exists>f p g w1 w2 w3 w4. en_fetch E i n w = (Inr f, w1) \<and> en_partition E f = Inr p \<and>
    cs = en_sha256 E (pt_entityRdf p) \<and> entity_graph_of p i = Inr g \<and>
    engine_replaceGraph E g (pt_entityRdf p) i n w1 = (Inr (), w2) \<and>
    register_if_any E g ''ENTITY'' i w2 = (Inr (), w3) \<and>
    whenA (starts_with ''P'' i) (engine_schema E p i n) w3 = (Inr (), w4) \<and>
    engine_verify E i n w4 = (Inr True, w')"
  using assms
  unfolding engine_write_def Let_def bindA_Inr thenA_Inr engine_crash_Inr
  by (auto split: if_splits)

lemma edit_R_APPLIED:
  assumes "engine_edit E i ev c cx ca True False w = (Inr R_APPLIED, w')"
  shows "ev_revid ev = Some (revid_of ev) \<and> (\<exists>row w1 cs w2. r_loadEntity (en_repository E) i w = (Inr row, w1) \<and>
    engine_write E i (revid_of ev) ca w1 = (Inr cs, w2) \<and>
    engine_settle E row (revid_of ev) cs c ca True False w2 = (Inr R_APPLIED, w'))"
  using assms
  by (auto simp: engine_edit_def bindA_Inr thenA_Inr whenA_def fst_observe revid_of_def
      split: if_splits option.splits)

lemma replaceGraph_Inr:
  assumes "engine_replaceGraph E g rdf i n w = (Inr u, w')"
  shows "\<exists>path w1 w2. en_writeFile E path rdf w = (Inr (), w1) \<and>
    en_replaceNamedGraph E g path ''application/n-triples'' w1 = (Inr (), w2)"
  using assms
  unfolding engine_replaceGraph_def materialize_def Let_def bindA_Inr thenA_Inr finallyA_Inr by auto

lemma settle_Inr:
  assumes "engine_settle E row n cs c ca True False w = (Inr R_APPLIED, w')"
  shows "\<exists>now w2 w3. r_commitEvent (en_repository E) c (Some (current_row row n cs now)) w2 = (Inr (), w3) \<and>
    en_increment E ''events_applied_total'' w3 = (Inr (), w')"
  using assms
  by (auto simp: engine_settle_def Let_def bindA_Inr thenA_Inr whenA_def split: if_splits)

lemma dispatch_R_APPLIED:
  assumes "processEvent E opts ev w = (Inr R_APPLIED, w')"
  shows "\<exists>i. cl_entity (classifyChange ev) = Some i \<and> cl_action (classifyChange ev) = ENTITY_EDIT \<and>
    engine_edit E i ev (event_cursor E ev) (event_context E ev) (co_crashAt opts) True False w =
      (Inr R_APPLIED, w')"
proof -
  have del: "engine_delete E i c ca u \<noteq> (Inr R_APPLIED, u')" for i c ca u u'
    by (auto simp: engine_delete_def Let_def bindA_Inr thenA_Inr)
  have life: "engine_lifecycle E cl ev c cx ca u \<noteq> (Inr R_APPLIED, u')" for cl c cx ca u u'
    by (auto simp: engine_lifecycle_def bindA_Inr thenA_Inr split: if_splits)
  have fail: "engine_failed E ev h msg u \<noteq> (Inr R_APPLIED, u')" for h msg u u'
    by (auto simp: engine_failed_def Let_def thenA_Inr)
  have catch: "catchA m h u = (Inr y, u') \<Longrightarrow> (\<And>e v. h e v \<noteq> (Inr y, u')) \<Longrightarrow> m u = (Inr y, u')"
    for m h u and y :: sync_result and u'
    by (auto simp: catchA_def split: prod.splits sum.splits)
  from assms obtain i where i: "cl_entity (classifyChange ev) = Some i"
    "cl_action (classifyChange ev) \<notin> {NON_ENTITY_CHANGE, UNKNOWN}"
    "catchA (engine_dispatch E i ev (co_crashAt opts)) (engine_failed E ev (co_hardCrash opts)) w =
      (Inr R_APPLIED, w')"
    by (auto simp: processEvent_def Let_def thenA_Inr split: if_splits option.splits)
  from catch [OF i(3) fail] del life i(1,2) show ?thesis
    by (cases "cl_action (classifyChange ev)") (auto simp: engine_dispatch_def Let_def)
qed

text \<open>C2: an event reported as applied is an ordinary edit whose RDF was fetched for exactly its
  revision, written to the graph of its entity and then confirmed by the backend at that revision;
  the row of the entity records that revision and the checksum of what was written.\<close>

theorem applied_is_verified:
  assumes "processEvent (assemble (memory_ops now) X cu) opts ev (m, x, e) = (Inr R_APPLIED, (m', x', e'))"
    and "filed (memory_view m)"
  shows "\<exists>i n f p g e1 e2 path e3 e4 e5.
    cl_entity (classifyChange ev) = Some i \<and> cl_action (classifyChange ev) = ENTITY_EDIT \<and>
    ev_revid ev = Some n \<and>
    en_fetch X i n e = (Inr f, e1) \<and> en_partition X f = Inr p \<and> entity_graph_of p i = Inr g \<and>
    en_writeFile X path (pt_entityRdf p) e1 = (Inr (), e2) \<and>
    en_replaceNamedGraph X g path ''application/n-triples'' e2 = (Inr (), e3) \<and>
    en_query X (verify_query (''urn:jwb:entity:'' @ i) i n) e4 = (Inr (Some True), e5) \<and>
    row_indexed (mr_row m' i) = n \<and> row_status (mr_row m' i) = ''CURRENT'' \<and>
    row_checksum (mr_row m' i) = Some (en_sha256 X (pt_entityRdf p))"
proof -
  let ?E = "assemble (memory_ops now) X cu" and ?n = "revid_of ev"
  obtain i where i: "cl_entity (classifyChange ev) = Some i" "cl_action (classifyChange ev) = ENTITY_EDIT"
    and edit: "engine_edit ?E i ev (event_cursor ?E ev) (event_context ?E ev) (co_crashAt opts)
      True False (m, x, e) = (Inr R_APPLIED, (m', x', e'))"
    using dispatch_R_APPLIED [OF assms(1)] by blast
  obtain row w1 cs w2 where n: "ev_revid ev = Some ?n"
    and load: "r_loadEntity (en_repository ?E) i (m, x, e) = (Inr row, w1)"
    and wrote: "engine_write ?E i ?n (co_crashAt opts) w1 = (Inr cs, w2)"
    and settle: "engine_settle ?E row ?n cs (event_cursor ?E ev) (co_crashAt opts) True False w2 =
      (Inr R_APPLIED, (m', x', e'))"
    using edit_R_APPLIED [OF edit] by blast
  have row: "row = mr_row m i" "w1 = (m, x, e)"
    using load by (auto simp: lift_repository_def memory_ops_def mr_loadEntity_def on_fst_def readA_def)
  moreover have "row_entity (mr_row m i) = i"
    using assms(2) by (simp add: filed_def memory_view_def)
  ultimately have ent: "row_entity row = i" by simp
  obtain f p g v1 v2 v3 v4 where w: "en_fetch ?E i ?n w1 = (Inr f, v1)" "en_partition ?E f = Inr p"
    "cs = en_sha256 ?E (pt_entityRdf p)" "entity_graph_of p i = Inr g"
    "engine_replaceGraph ?E g (pt_entityRdf p) i ?n v1 = (Inr (), v2)"
    "engine_verify ?E i ?n v4 = (Inr True, w2)"
    using write_Inr [OF wrote] by blast
  obtain path v5 v6 where r: "en_writeFile ?E path (pt_entityRdf p) v1 = (Inr (), v5)"
    "en_replaceNamedGraph ?E g path ''application/n-triples'' v5 = (Inr (), v6)"
    using replaceGraph_Inr [OF w(5)] by blast
  obtain v7 where q: "en_query ?E (verify_query (''urn:jwb:entity:'' @ i) i ?n) v4 = (Inr (Some True), v7)"
    using w(6) by (auto simp: engine_verify_def bindA_Inr entityGraphIri_def bindR_eq_Inr)
  obtain t u2 u3 where s: "r_commitEvent (en_repository ?E) (event_cursor ?E ev)
      (Some (current_row row ?n cs t)) u2 = (Inr (), u3)"
    "en_increment ?E ''events_applied_total'' u3 = (Inr (), (m', x', e'))"
    using settle_Inr [OF settle] by blast
  have "mr_row m' i = current_row row ?n cs t"
  proof -
    have "fst u3 = m'" using s(2) by (simp add: on_snd_eq)
    moreover have "v_rows (memory_view (fst u3)) (row_entity row) = current_row row ?n cs t"
      using effectD [OF on_memory.commitEvent_view [OF TrueI] s(1)] by simp
    then have "mr_row (fst u3) (row_entity row) = current_row row ?n cs t"
      by (simp add: memory_view_def)
    ultimately show ?thesis using ent by simp
  qed
  then have "row_indexed (mr_row m' i) = ?n \<and> row_status (mr_row m' i) = ''CURRENT'' \<and>
      row_checksum (mr_row m' i) = Some (en_sha256 X (pt_entityRdf p))"
    using w(3) by (simp add: current_row_def)
  then show ?thesis
    using i n w(1,2,4) r q row(2)
    by (auto simp: assemble_def on_snd_eq)
qed


lemma memory_ops_sel [simp]:
  "r_loadEntity (lift_repository (memory_ops now)) i = on_fst (readA (\<lambda>m. mr_row m i))"
  "r_saveEntity (lift_repository (memory_ops now)) r = on_fst (mr_saveEntity r)"
  "r_setSourceStatus (lift_repository (memory_ops now)) st code = on_fst (mr_setSourceStatus st code)"
  "r_commitEvent (lift_repository (memory_ops now)) c ro = on_fst (mr_commitEvent now c ro)"
  "r_advanceCursor (lift_repository (memory_ops now)) c = on_fst (mr_commitEvent now c None)"
  by (simp_all add: lift_repository_def memory_ops_def mr_loadEntity_def mr_advanceCursor_def)

lemma mr_wp [wp_simps]:
  "wp (mr_saveEntity r) Q m = Q (Inr ()) (mr_entities_update (AList.update (row_entity r) r) m)"
  "wp (mr_setSourceStatus st c) Q m =
     Q (Inr ()) (mr_source_update (\<lambda>s. s\<lparr>src_status := st, src_errorCode := c\<rparr>) m)"
  by (simp_all add: mr_saveEntity_def mr_setSourceStatus_def wp_modifyA)

lemma wp_mr_commitEvent [wp_simps]:
  "wp (mr_commitEvent now c ro) Q m =
     (if follows cursor_less (src_cursor (mr_source m)) c
      then
        (let m1 = (case ro of None \<Rightarrow> m
               | Some r \<Rightarrow> mr_entities_update (AList.update (row_entity r) r) m);
             m2 = mr_source_update (src_cursor_update (\<lambda>_. Some c)) m1
         in Q (Inr ()) (mr_source_update (src_lastSuccessAt_update (\<lambda>_. Some (now m2))) m2))
      else Q (Inl ''CURSOR_REGRESSION'') m)"
  by (simp add: wp_def mr_commitEvent_eq Let_def)

lemma wp_log:
  assumes "\<forall>nm cx res code. keeps b (en_log X nm cx res code)"
    and "\<And>r e'. b e' = b e \<Longrightarrow> Q r e'"
  shows "wp (en_log X nm cx res code) Q e"
  using assms by (blast intro: keeps_wp)

text \<open>C4: a revision that does not directly follow the indexed one fails closed: whatever the log
  does, the backend and everything else in the environment is left untouched, the cursor stays,
  the row is marked \<open>GAP\<close> at its old revision and the source asks for a rebuild.\<close>

theorem gap_fails_closed:
  assumes "processEvent (assemble (memory_ops now) X cu) opts ev (m, x, e) = (r, (m', x', e'))"
    and "filed (memory_view m)"
    and "cl_action (classifyChange ev) = ENTITY_EDIT" "cl_entity (classifyChange ev) = Some i"
    and "ev_revid ev = Some n" "0 < row_indexed (mr_row m i)" "row_indexed (mr_row m i) < n"
    and "ev_oldRevid ev \<noteq> Some (row_indexed (mr_row m i))"
    and "\<forall>nm cx res code. keeps b (en_log X nm cx res code)"
  shows "b e' = b e \<and> src_cursor (mr_source m') = src_cursor (mr_source m) \<and>
    src_status (mr_source m') = ''REBUILD_REQUIRED'' \<and> row_status (mr_row m' i) = ''GAP'' \<and>
    row_indexed (mr_row m' i) = row_indexed (mr_row m i) \<and> (is_ok r \<longrightarrow> r = Inr R_STOP)"
proof -
  have i: "entity_id i" using assms(4) by (rule classified_entity_id)
  have f: "row_entity (mr_row m i) = i" using assms(2) by (simp add: filed_def memory_view_def)
  have fence: "new_fence i (row_indexed (mr_row m i)) = Inr \<lparr>f_entity = i,
      f_indexed = row_indexed (mr_row m i), f_latestSeen = row_indexed (mr_row m i),
      f_status = ''HEALTHY''\<rparr>"
    using i assms(6) by (simp add: new_fence_def)
  let ?E = "assemble (memory_ops now) X cu"
  let ?Q = "\<lambda>r (m', x', e'). b e' = b e \<and> src_cursor (mr_source m') = src_cursor (mr_source m) \<and>
    src_status (mr_source m') = ''REBUILD_REQUIRED'' \<and> row_status (mr_row m' i) = ''GAP'' \<and>
    row_indexed (mr_row m' i) = row_indexed (mr_row m i) \<and> (is_ok r \<longrightarrow> r = Inr R_STOP)"
  have failed: "wp (engine_failed ?E ev h msg) ?Q w" if "?Q (Inl msg) w" for h msg w
    using that
    apply (cases w)
    apply (simp add: engine_failed_def wp_simps Let_def engine_rebuildRequired_def SYNC_NAMES_def)
    apply (intro impI)
    apply (rule wp_log [OF assms(9)])
    apply (simp split: sum.splits add: wp_simps)
    apply (intro impI)
    apply (rule wp_log [OF assms(9)])
    apply (simp split: sum.splits add: wp_returnA)
    done
  have edit: "wp (engine_edit ?E i ev c cx ca True False) ?Q (m, x, e)" for c cx ca
    using assms(3-8) f
    apply (simp add: engine_edit_def wp_simps
        fence fst_observe gap_row_def engine_rebuildRequired_def revid_of_def SYNC_NAMES_def)
    apply (rule wp_log [OF assms(9)])
    apply (simp split: sum.splits add: wp_returnA)
    done
  have "wp (processEvent ?E opts ev) ?Q (m, x, e)"
    using assms(3,4)
    apply (simp add: processEvent_def Let_def engine_dispatch_def wp_catchA)
    apply (rule wp_mono [OF edit])
    using failed by (auto split: sum.splits)
  from wpD [OF this assms(1)] show ?thesis by simp
qed

section \<open>Recovery after a crash\<close>

text \<open>C3: when the process dies between the update of the row and the update of the cursor, the
  event is read again after the restart and is then recognised as a duplicate: the cursor moves to
  it, the rows stay as they are, and the environment (the backend, the source of the RDF) is not
  touched at all.\<close>

theorem crash_recovery:
  assumes "processEvent (assemble (memory_ops now) X cu)
      \<lparr>co_crashAt = Some ''AFTER_FENCE_BEFORE_CURSOR'', co_hardCrash = True\<rparr> ev (m, x, e) =
      (Inl message, (m1, x1, e1))"
    and "filed (memory_view m)"
    and "cl_action (classifyChange ev) = ENTITY_EDIT" "cl_entity (classifyChange ev) = Some i"
    and "row_indexed (mr_row m1 i) \<noteq> row_indexed (mr_row m i)"
    and "follows cursor_less (src_cursor (mr_source m)) (event_cursor X ev)"
  shows "\<exists>m2 x3. processEvent (assemble (memory_ops now) X cu)
      \<lparr>co_crashAt = None, co_hardCrash = False\<rparr> ev (m1, x2, e2) =
      (Inr (R_UNWRITTEN DUPLICATE), (m2, x3, e2)) \<and>
    mr_entities m2 = mr_entities m1 \<and> src_cursor (mr_source m2) = Some (event_cursor X ev)"
proof -
  let ?E = "assemble (memory_ops now) X cu"
  let ?c = "event_cursor ?E ev"
  have ent: "entity_id i" using assms(4) by (rule classified_entity_id)
  have post: "edit_post cursor_less id i (revid_of ev) ?c True False (memory_view m) r (memory_view (fst w'))"
    if "engine_edit ?E i ev ?c cx ca True False (m, x, e) = (r, w')" for cx ca r w'
    using on_memory.edit_wp [THEN wpD, OF _ _ that] assms(2) by simp
  have n: "ev_revid ev = Some (row_indexed (mr_row m1 i)) \<and> 1 \<le> row_indexed (mr_row m1 i) \<and>
    src_cursor (mr_source m1) = src_cursor (mr_source m)"
  proof -
    obtain ex m0 x0 e0 where edit: "engine_edit ?E i ev ?c (event_context ?E ev)
        (Some ''AFTER_FENCE_BEFORE_CURSOR'') True False (m, x, e) = (Inl ex, (m0, x0, e0))"
      and failed: "engine_failed ?E ev True ex (m0, x0, e0) = (Inl message, (m1, x1, e1))"
      using assms(1,3,4)
      by (auto simp: processEvent_def Let_def engine_dispatch_def catchA_def
          split: prod.splits sum.splits)
    have rows: "mr_row m1 = mr_row m0"
      using on_memory.failed_rows [THEN wpD, OF failed] by (simp add: memory_view_def)
    from post [OF edit] assms(5) have "row_indexed (mr_row m0 i) = revid_of ev" "1 \<le> revid_of ev"
      by (auto simp: edit_post_def memory_view_def row_step_def rows current_row_def gap_row_def)
    moreover from this have "ev_revid ev = Some (revid_of ev)"
      by (auto simp: revid_of_def split: option.splits)
    moreover have "src_cursor (mr_source m1) = src_cursor (mr_source m)"
      using on_memory.processEvent_wp [THEN wpD, OF _ _ assms(1)] assms(2)
      by (simp add: event_post_def memory_view_def)
    ultimately show ?thesis by (simp add: rows)
  qed
  have "wp (processEvent ?E \<lparr>co_crashAt = None, co_hardCrash = False\<rparr> ev)
    (\<lambda>r (m2, x3, e3). r = Inr (R_UNWRITTEN DUPLICATE) \<and> e3 = e2 \<and> mr_entities m2 = mr_entities m1 \<and>
      src_cursor (mr_source m2) = Some ?c) (m1, x2, e2)"
    using assms(3,4,6) n ent
    by (simp add: processEvent_def Let_def engine_dispatch_def engine_edit_def wp_simps new_fence_def
        fst_observe SYNC_NAMES_def wp_mr_commitEvent)
  then show ?thesis by (simp add: wp_def split: prod.splits)
qed


section \<open>A concrete environment\<close>

text \<open>
  An environment of files and named graphs, with a backend that confirms what it holds; the
  inputs of the witnesses below.
\<close>

type_synonym demo_state = "(string \<times> string) list \<times> (string \<times> string) list"

definition demo_event :: "int \<Rightarrow> int \<Rightarrow> int option \<Rightarrow> change_event" where
  "demo_event rcid revid oldRevid =
     \<lparr>ev_rcid = rcid, ev_timestamp = ''2026-08-19T00:00:01Z'', ev_type = Some ''edit'',
      ev_title = Some ''Item:Q1'', ev_revid = Some revid, ev_oldRevid = oldRevid,
      ev_logtype = None, ev_logaction = None, ev_comment = None, ev_tags = None,
      ev_redirect = False\<rparr>"

definition no_repository :: "'w repository_ops" where
  "no_repository =
     \<lparr>r_loadSource = raiseA [], r_recordPoll = (\<lambda>_. raiseA []),
      r_setSourceStatus = (\<lambda>_ _. raiseA []), r_loadEntity = (\<lambda>_. raiseA []),
      r_saveEntity = (\<lambda>_. raiseA []), r_commitEvent = (\<lambda>_ _. raiseA []),
      r_advanceCursor = (\<lambda>_. raiseA []), r_startRebuild = (\<lambda>_. raiseA []),
      r_finishRebuild = (\<lambda>_ _. raiseA []), r_registerGraph = None,
      r_unregisterGraph = None, r_setSchemaState = None\<rparr>"

definition demo_env :: "(demo_state, unit) sync_engine" where
  "demo_env =
     \<lparr>en_sourceIdentity = ''local'',
      en_read = (\<lambda>c n. returnA [demo_event 1 20 None, demo_event 2 21 (Some 20)]),
      en_repository = no_repository,
      en_fetch = (\<lambda>i n. returnA \<lparr>ft_entity = i, ft_revision = n, ft_rdf = ''rdf'',
        ft_mediaType = ''application/n-triples''\<rparr>),
      en_partition = (\<lambda>f. Inr \<lparr>pt_entityRdf = ft_rdf f, pt_entityGraphIri = None,
        pt_schemaGraphIri = None, pt_schemaRdf = None\<rparr>),
      en_replaceNamedGraph = (\<lambda>g path t. bindA (readA fst) (\<lambda>fs.
        case map_of fs path of None \<Rightarrow> raiseA ''ENOENT''
        | Some d \<Rightarrow> modifyA (apsnd (AList.update g d)))),
      en_deleteNamedGraph = (\<lambda>g. modifyA (apsnd (AList.delete g))),
      en_query = (\<lambda>q. returnA (Some True)),
      en_resolve = (\<lambda>c ev. returnA \<lparr>rz_unambiguous = False, rz_entities = []\<rparr>),
      en_stage = (\<lambda>i s. returnA ()),
      en_catchUp = (\<lambda>i a b. returnA ()),
      en_cutover = (\<lambda>i. returnA ()),
      en_increment = (\<lambda>m. returnA ()),
      en_observe = (\<lambda>m x. returnA ()),
      en_log = (\<lambda>n cx r c. returnA ()),
      en_backendType = ''demo'',
      en_clock = returnA \<lparr>date_iso = ''2026-08-20T00:00:00.000Z'', date_ms = 1787184000000\<rparr>,
      en_randomUUID = returnA ''00000000-0000-4000-8000-000000000001'',
      en_sha256 = (\<lambda>s. replicate 64 (CHR ''0'')),
      en_writeFile = (\<lambda>p d. modifyA (apfst (AList.update p d))),
      en_unlink = (\<lambda>p. modifyA (apfst (AList.delete p)))\<rparr>"

definition demo_world :: "(memory_repo, demo_state) world" where
  "demo_world = (new_memory_repo ''local'', new_sync_metrics, ([], []))"

definition demo_engine :: "((memory_repo, demo_state) world, unit) sync_engine" where
  "demo_engine = assemble (memory_ops (\<lambda>_. ''2026-08-20T00:00:00.000Z'')) demo_env (\<lambda>_ _ _. returnA ())"

abbreviation no_crash :: crash_options where
  "no_crash \<equiv> \<lparr>co_crashAt = None, co_hardCrash = False\<rparr>"

abbreviation row_crash :: crash_options where
  "row_crash \<equiv> \<lparr>co_crashAt = Some ''AFTER_FENCE_BEFORE_CURSOR'', co_hardCrash = True\<rparr>"

lemma demo_filed: "filed (memory_view (fst demo_world))"
  by (simp add: demo_world_def memory_view_new)

lemma demo_step:
  "processEvent (assemble (memory_ops (\<lambda>_. ''2026-08-20T00:00:00.000Z'')) demo_env (\<lambda>_ _ _. returnA ()))
     opts ev (fst w, fst (snd w), snd (snd w)) =
   (fst (processEvent demo_engine opts ev w),
    (fst (snd (processEvent demo_engine opts ev w)),
     fst (snd (snd (processEvent demo_engine opts ev w))),
     snd (snd (snd (processEvent demo_engine opts ev w)))))"
  by (simp add: demo_engine_def)

lemma processEvent_filed:
  assumes "processEvent (assemble (memory_ops now) X cu) opts ev (m, x, e) = (r, (m', x', e'))"
    and "filed (memory_view m)"
  shows "filed (memory_view m')"
  using on_memory.processEvent_wp [THEN wpD, OF _ _ assms(1)] assms(2)
  by (auto simp: event_post_def intro: rows_evolve_filed)

abbreviation demo_first :: change_event where
  "demo_first \<equiv> demo_event 1 20 None"

abbreviation demo_applied :: "sync_result result \<times> (memory_repo, demo_state) world" where
  "demo_applied \<equiv> processEvent demo_engine no_crash demo_first demo_world"

theorem processEvent_cursor_witness:
  "src_cursor (mr_source (fst (snd demo_applied))) = Some (event_cursor demo_env demo_first)"
proof -
  have "fst demo_applied = Inr R_APPLIED" by code_simp
  with processEvent_cursor [OF demo_step demo_filed, of no_crash demo_first] show ?thesis by simp
qed

theorem pollOnce_invariant_witness:
  "\<exists>m'. m' = fst (snd (pollOnce demo_engine 50 50 no_crash demo_world)) \<and>
     (\<forall>i. row_entity (mr_row m' i) = i \<and> 0 \<le> row_indexed (mr_row m' i) \<and>
      row_indexed (mr_row m' i) \<le> row_latestSeen (mr_row m' i))"
proof -
  let ?p = "pollOnce demo_engine 50 50 no_crash demo_world"
  have eq: "pollOnce (assemble (memory_ops (\<lambda>_. ''2026-08-20T00:00:00.000Z'')) demo_env (\<lambda>_ _ _. returnA ()))
      50 50 no_crash (fst demo_world, fst (snd demo_world), snd (snd demo_world)) =
    (fst ?p, (fst (snd ?p), fst (snd (snd ?p)), snd (snd (snd ?p))))"
    by (simp add: demo_engine_def)
  have "mr_row (fst demo_world) i = pending_row i" for i
    by (simp add: demo_world_def new_memory_repo_def mr_row_def)
  with pollOnce_invariant [OF eq] show ?thesis by (simp add: pending_row_def)
qed

theorem processEvent_monotone_witness:
  "row_indexed (mr_row (fst demo_world) ''Q1'') \<le> row_indexed (mr_row (fst (snd demo_applied)) ''Q1'')"
proof -
  have "cl_action (classifyChange demo_first) = ENTITY_EDIT" by code_simp
  with processEvent_monotone [OF demo_step demo_filed] show ?thesis by simp
qed

theorem applied_is_verified_witness:
  "\<exists>i n f p g e1 e2 path e3 e4 e5.
    cl_entity (classifyChange demo_first) = Some i \<and> cl_action (classifyChange demo_first) = ENTITY_EDIT \<and>
    ev_revid demo_first = Some n \<and>
    en_fetch demo_env i n (snd (snd demo_world)) = (Inr f, e1) \<and>
    en_partition demo_env f = Inr p \<and> entity_graph_of p i = Inr g \<and>
    en_writeFile demo_env path (pt_entityRdf p) e1 = (Inr (), e2) \<and>
    en_replaceNamedGraph demo_env g path ''application/n-triples'' e2 = (Inr (), e3) \<and>
    en_query demo_env (verify_query (''urn:jwb:entity:'' @ i) i n) e4 = (Inr (Some True), e5) \<and>
    row_indexed (mr_row (fst (snd demo_applied)) i) = n \<and>
    row_status (mr_row (fst (snd demo_applied)) i) = ''CURRENT'' \<and>
    row_checksum (mr_row (fst (snd demo_applied)) i) = Some (en_sha256 demo_env (pt_entityRdf p))"
proof -
  have ok: "fst demo_applied = Inr R_APPLIED" by code_simp
  show ?thesis by (rule applied_is_verified [OF demo_step [of no_crash demo_first demo_world, unfolded ok] demo_filed])
qed

theorem gap_fails_closed_witness:
  "let (r, (m, x, e)) = demo_applied;
       (r', (m', x', e')) = processEvent demo_engine no_crash (demo_event 2 22 (Some 21)) (m, x, e)
   in e' = e \<and> src_cursor (mr_source m') = src_cursor (mr_source m) \<and>
      src_status (mr_source m') = ''REBUILD_REQUIRED'' \<and> row_status (mr_row m' ''Q1'') = ''GAP''"
proof -
  let ?w = "snd demo_applied" and ?ev = "demo_event 2 22 (Some 21)"
  have c: "cl_action (classifyChange ?ev) = ENTITY_EDIT" "cl_entity (classifyChange ?ev) = Some ''Q1''"
    "ev_revid ?ev = Some 22" "ev_oldRevid ?ev = Some 21" "row_indexed (mr_row (fst ?w) ''Q1'') = 20"
    by code_simp+
  have log: "\<forall>nm cx res code. keeps (\<lambda>e. e) (en_log demo_env nm cx res code)"
    by (simp add: demo_env_def keeps_returnA)
  have "filed (memory_view (fst ?w))" by (rule processEvent_filed [OF demo_step demo_filed])
  from gap_fails_closed [OF demo_step this c(1,2,3) _ _ _ log] c(4,5) show ?thesis
    by (simp add: prod.case_eq_if Let_def)
qed

theorem crash_recovery_witness:
  "fst (processEvent demo_engine row_crash demo_first demo_world) = Inl ''INJECTED_AFTER_FENCE_BEFORE_CURSOR'' \<and>
   (\<exists>m2 x3 e2. processEvent demo_engine no_crash demo_first
      (snd (processEvent demo_engine row_crash demo_first demo_world)) =
      (Inr (R_UNWRITTEN DUPLICATE), (m2, x3, e2)) \<and>
     src_cursor (mr_source m2) = Some (event_cursor demo_env demo_first))"
proof -
  let ?p = "processEvent demo_engine row_crash demo_first demo_world"
  have c: "cl_action (classifyChange demo_first) = ENTITY_EDIT"
    "cl_entity (classifyChange demo_first) = Some ''Q1''"
    "row_indexed (mr_row (fst (snd ?p)) ''Q1'') \<noteq> row_indexed (mr_row (fst demo_world) ''Q1'')"
    "fst ?p = Inl ''INJECTED_AFTER_FENCE_BEFORE_CURSOR''"
    "follows cursor_less (src_cursor (mr_source (fst demo_world))) (event_cursor demo_env demo_first)"
    by code_simp+
  from crash_recovery [OF demo_step [of row_crash demo_first demo_world, unfolded c(4)] demo_filed c(1,2,3,5),
    of "fst (snd (snd ?p))" "snd (snd (snd ?p))"] c(4)
  show ?thesis by (auto simp: demo_engine_def)
qed

end
