(* ===== verification/SyncRebuild.thy ===== *)
theory SyncRebuild
  imports SyncWorld
begin

text \<open>
  \<open>RdfSyncEngine.rebuild\<close>: what the end of a rebuild says about its steps.
\<close>

lemma memory_rebuild_sel [simp]:
  "r_startRebuild (lift_repository (memory_ops now)) v = on_fst (mr_startRebuild v)"
  "r_finishRebuild (lift_repository (memory_ops now)) i z = on_fst (mr_finishRebuild i z)"
  by (simp_all add: lift_repository_def memory_ops_def)

lemma assemble_rebuild_sel [simp]:
  "en_stage (assemble R X cu) i s = on_env (en_stage X i s)"
  "en_catchUp (assemble R X cu) = cu"
  "en_cutover (assemble R X cu) i = on_env (en_cutover X i)"
  "en_clock (assemble R X cu) = on_env (en_clock X)"
  "en_randomUUID (assemble R X cu) = on_env (en_randomUUID X)"
  "en_observe (assemble R X cu) m x = on_snd (on_fst (sm_observe m x))"
  by (simp_all add: assemble_def)

definition has_rebuild :: "string \<Rightarrow> memory_repo \<Rightarrow> bool" where
  "has_rebuild i m \<longleftrightarrow> list_ex (\<lambda>r. rs_id (rb_start r) = i) (mr_rebuilds m)"

lemma update_first_ex:
  "list_ex (\<lambda>r. rs_id (rb_start r) = i) (update_first p (assign_end v) rs) =
   list_ex (\<lambda>r. rs_id (rb_start r) = i) rs"
  by (induction rs) (auto simp: assign_end_def)

lemma finishRebuild_eq:
  "has_rebuild i m \<Longrightarrow> mr_finishRebuild i v m = (Inr (),
     mr_source_update (src_status_update (\<lambda>_. re_status v))
       (mr_rebuilds_update (update_first (\<lambda>r. rs_id (rb_start r) = i) (assign_end v)) m))"
  "\<not> has_rebuild i m \<Longrightarrow> mr_finishRebuild i v m = (Inl ''Cannot convert undefined or null to object'', m)"
  by (simp_all add: mr_finishRebuild_def has_rebuild_def bindA_def readA_def thenA_def modifyA_def raiseA_def)

lemma finishRebuild_keeps: "keeps (has_rebuild j \<circ> fst) (on_fst (mr_finishRebuild i v))"
proof (rule keepsI)
  fix w r w' assume "on_fst (mr_finishRebuild i v) w = (r, w')"
  then have "mr_finishRebuild i v (fst w) = (r, fst w')" by (simp add: on_fst_eq)
  then show "(has_rebuild j \<circ> fst) w' = (has_rebuild j \<circ> fst) w"
    by (cases "has_rebuild i (fst w)")
      (auto simp: finishRebuild_eq has_rebuild_def update_first_ex dest!: sym [of _ "fst w'"])
qed

lemma steps_keep:
  assumes "keeps (mr_rebuilds \<circ> fst) (cu i a b)"
  shows "keeps (has_rebuild j \<circ> fst) (rebuild_steps (assemble (memory_ops now) X cu) i t s a b ca)"
proof -
  have "keeps (has_rebuild j \<circ> fst) (cu i a b)"
    using assms by (auto simp: keeps_def has_rebuild_def)
  then show ?thesis
    unfolding rebuild_steps_def rebuild_finish_def assemble_rebuild_sel assemble_sel
      memory_rebuild_sel engine_crash_def
    by (intro keeps_intros keeps_on_snd finishRebuild_keeps)
qed

lemma steps_Inr:
  assumes "rebuild_steps E i t s a b ca w = (Inr j, w')"
  shows "\<exists>w1 w2 w3. en_stage E i s w = (Inr (), w1) \<and>
    en_catchUp E i a b w1 = (Inr (), w2) \<and> en_cutover E i w2 = (Inr (), w3) \<and>
    rebuild_finish E i t b w3 = (Inr j, w')"
  using assms unfolding rebuild_steps_def bindA_Inr thenA_Inr engine_crash_Inr by auto

lemma finish_healthy:
  assumes "rebuild_finish (assemble (memory_ops now) X cu) i t b w = (Inr j, w')"
  shows "j = i \<and> src_status (mr_source (fst w')) = ''HEALTHY''"
proof -
  have "wp (rebuild_finish (assemble (memory_ops now) X cu) i t b)
    (\<lambda>r w'. is_ok r \<longrightarrow> r = Inr i \<and> src_status (mr_source (fst w')) = ''HEALTHY'') w"
    apply (simp add: rebuild_finish_def wp_simps)
    apply (rule wpI; simp split: sum.splits add: wp_simps)
    apply (intro allI impI)
    apply (rule wpI)
    subgoal for r s' d r' m'
      apply (cases "has_rebuild i (fst w)"; clarsimp simp add: finishRebuild_eq split: sum.splits)
      apply (rule wpI; auto simp: wp_simps sm_observe_def SYNC_NAMES_def split: sum.splits)
      done
    done
  from wpD [OF this assms] show ?thesis by simp
qed

lemma steps_healthy:
  assumes "rebuild_steps (assemble (memory_ops now) X cu) i t s a b ca w = (Inr j, w')"
  shows "j = i \<and> src_status (mr_source (fst w')) = ''HEALTHY'' \<and>
    (\<exists>e1 e2 w3 w4 e5. en_stage X i s e1 = (Inr (), e2) \<and> snd (snd w3) = e2 \<and>
       cu i a b w3 = (Inr (), w4) \<and> en_cutover X i (snd (snd w4)) = (Inr (), e5))"
proof -
  let ?E = "assemble (memory_ops now) X cu"
  obtain w1 w2 w3 where c: "en_stage ?E i s w = (Inr (), w1)"
    "en_catchUp ?E i a b w1 = (Inr (), w2)" "en_cutover ?E i w2 = (Inr (), w3)"
    "rebuild_finish ?E i t b w3 = (Inr j, w')"
    using steps_Inr [OF assms] by blast
  have "en_stage X i s (snd (snd w)) = (Inr (), snd (snd w1))" "cu i a b w1 = (Inr (), w2)"
    "en_cutover X i (snd (snd w2)) = (Inr (), snd (snd w3))"
    using c(1-3) by (simp_all add: on_snd_eq)
  with finish_healthy [OF c(4)] show ?thesis by blast
qed

lemma rebuild_failed_eq:
  assumes "is_ok (fst (en_clock X (snd (snd w))))" "has_rebuild i (fst w)"
    and "rebuild_failed (assemble (memory_ops now) X cu) i msg w = (r, w')"
  shows "r = Inl msg \<and> src_status (mr_source (fst w')) = ''REBUILD_REQUIRED''"
proof -
  obtain t e' where t: "en_clock X (snd (snd w)) = (Inr t, e')"
    using assms(1) by (metis is_ok_iff prod.collapse)
  have "wp (rebuild_failed (assemble (memory_ops now) X cu) i msg)
    (\<lambda>r w'. r = Inl msg \<and> src_status (mr_source (fst w')) = ''REBUILD_REQUIRED'') w"
    using assms(2)
    by (simp add: rebuild_failed_def wp_simps SYNC_NAMES_def) (simp add: wp_def t wp_simps
      finishRebuild_eq [unfolded wp_def] bindA_def thenA_def on_fst_def raiseA_def split: prod.splits)
  from wpD [OF this assms(3)] show ?thesis .
qed

text \<open>C10: a rebuild is reported healthy only after the new generation was staged, caught up and cut
  over, in this order, and then the source is healthy; when any step fails, the error is rethrown
  and the source is left asking for a rebuild.\<close>

theorem rebuild_outcome:
  assumes "rebuild (assemble (memory_ops now) X cu) s a b ca (m, x, e) = (r, (m', x', e'))"
    and "\<And>e. is_ok (fst (en_clock X e))" "\<And>e. is_ok (fst (en_randomUUID X e))"
    and "\<And>i. keeps (mr_rebuilds \<circ> fst) (cu i a b)"
  shows "case r of
      Inr i \<Rightarrow> src_status (mr_source m') = ''HEALTHY'' \<and>
        (\<exists>e1 e2 w3 w4 e5. en_stage X i s e1 = (Inr (), e2) \<and> snd (snd w3) = e2 \<and>
          cu i a b w3 = (Inr (), w4) \<and> en_cutover X i (snd (snd w4)) = (Inr (), e5))
    | Inl message \<Rightarrow> src_status (mr_source m') = ''REBUILD_REQUIRED''"
proof -
  obtain i e1 where u: "en_randomUUID X e = (Inr i, e1)"
    using assms(3) by (metis is_ok_iff prod.collapse)
  obtain t e2 where t: "en_clock X e1 = (Inr t, e2)"
    using assms(2) by (metis is_ok_iff prod.collapse)
  let ?E = "assemble (memory_ops now) X cu"
  obtain w where row: "has_rebuild i (fst w)"
    and run: "catchA (rebuild_steps ?E i t s a b ca) (rebuild_failed ?E i) w = (r, (m', x', e'))"
  proof -
    let ?C = "catchA (rebuild_steps ?E i t s a b ca) (rebuild_failed ?E i)"
    define P where "P r w' \<longleftrightarrow> (\<exists>w. has_rebuild i (fst w) \<and> ?C w = (r, w'))" for r w'
    have run: "wp ?C P w" if "has_rebuild i (fst w)" for w
      using that unfolding P_def by (intro wpI) blast
    have "wp (rebuild ?E s a b ca) P (m, x, e)"
      unfolding rebuild_def wp_bindA wp_thenA assemble_rebuild_sel assemble_sel memory_rebuild_sel
        wp_on_snd wp_on_fst
      by (simp add: wp_def [of "en_randomUUID X"] wp_def [of "en_clock X"] u t mr_startRebuild_def
          wp_thenA wp_modifyA sm_wp SYNC_NAMES_def)
        (rule run, simp add: has_rebuild_def)
    from wpD [OF this assms(1)] that show ?thesis unfolding P_def by blast
  qed
  show ?thesis
  proof -
    obtain q w' where run': "rebuild_steps ?E i t s a b ca w = (q, w')" by (metis prod.collapse)
    show ?thesis
    proof (cases q)
      case (Inr j)
      with run' run have e: "r = Inr j" "w' = (m', x', e')" by (auto simp: catchA_def)
      from steps_healthy [OF run' [unfolded Inr]] show ?thesis
        unfolding e by (simp only: sum.case fst_conv)
    next
      case (Inl msg)
      have "has_rebuild i (fst w')"
        using keepsD [OF steps_keep [where cu = cu and i = i and a = a and b = b, OF assms(4)] run']
          row by simp
      with rebuild_failed_eq [OF assms(2) this, of now cu msg] run' Inl run show ?thesis
        by (auto simp: catchA_def)
    qed
  qed
qed

definition demo_cursor :: cursor where
  "demo_cursor = \<lparr>cur_source = ''local'', cur_timestamp = ''2026-08-19T00:00:00Z'', cur_rcid = 0\<rparr>"

theorem rebuild_outcome_witness:
  "src_status (mr_source (fst (snd (rebuild demo_engine () demo_cursor demo_cursor None demo_world)))) =
     ''HEALTHY''"
proof -
  let ?p = "rebuild demo_engine () demo_cursor demo_cursor None demo_world"
  have eq: "rebuild (assemble (memory_ops (\<lambda>_. ''2026-08-20T00:00:00.000Z'')) demo_env (\<lambda>_ _ _. returnA ()))
      () demo_cursor demo_cursor None (fst demo_world, fst (snd demo_world), snd (snd demo_world)) =
    (fst ?p, (fst (snd ?p), fst (snd (snd ?p)), snd (snd (snd ?p))))"
    by (simp add: demo_engine_def)
  have ok: "fst ?p = Inr ''00000000-0000-4000-8000-000000000001''" by code_simp
  from rebuild_outcome [OF eq] show ?thesis
    by (simp add: demo_env_def returnA_def keeps_def ok)
qed

end
