(* ===== verification/Generation.thy ===== *)
theory Generation
  imports Protocol
begin

text \<open>
  \<open>packages/rdf-sync/src/generation.js\<close>: the states of an RDF generation, the transitions
  between them, generation identifiers and the graph identifiers of a generation.
\<close>

definition RDF_GENERATION_STATES :: "string list" where
  "RDF_GENERATION_STATES = [''CREATING'', ''LOADING'', ''CATCHING_UP'', ''VALIDATING'', ''READY'',
     ''SERVING'', ''RETIRING'', ''RETIRED'', ''FAILED'']"

definition TRANSITIONS :: "(string \<times> string list) list" where
  "TRANSITIONS =
     [(''CREATING'', [''LOADING'', ''FAILED'']),
      (''LOADING'', [''CATCHING_UP'', ''VALIDATING'', ''FAILED'']),
      (''CATCHING_UP'', [''VALIDATING'', ''FAILED'']),
      (''VALIDATING'', [''READY'', ''FAILED'']),
      (''READY'', [''SERVING'', ''FAILED'']),
      (''SERVING'', [''RETIRING'']),
      (''RETIRING'', [''RETIRED'', ''SERVING'', ''FAILED'']),
      (''RETIRED'', []),
      (''FAILED'', [])]"

definition validateGenerationId :: "string \<Rightarrow> string result" where
  "validateGenerationId v =
     bindR (requireR (generation_id v) ''invalid RDF generation ID'') (\<lambda>_. Inr v)"

definition validateGenerationState :: "string \<Rightarrow> string result" where
  "validateGenerationState v =
     bindR (requireR (List.member RDF_GENERATION_STATES v) ''invalid RDF generation state'')
       (\<lambda>_. Inr v)"

definition successors :: "string \<Rightarrow> string list" where
  "successors from' = (case map_of TRANSITIONS from' of None \<Rightarrow> [] | Some ss \<Rightarrow> ss)"

definition assertGenerationTransition :: "string \<Rightarrow> string \<Rightarrow> bool result" where
  "assertGenerationTransition from' to' =
     bindR (validateGenerationState from') (\<lambda>_.
     bindR (validateGenerationState to') (\<lambda>_.
     bindR (requireR (List.member (successors from') to')
       (''illegal RDF generation transition '' @ from' @ ''->'' @ to')) (\<lambda>_.
     Inr True)))"

text \<open>\<open>/^(?:entity:[QP][1-9][0-9]*|global-schema)$/u\<close>\<close>

definition GENERATION_PARTITION :: rx where
  "GENERATION_PARTITION = Alts [Cat (Lit ''entity:'') ENTITY_ID, Lit ''global-schema'']"

definition generationGraphIri :: "string \<Rightarrow> string \<Rightarrow> string result" where
  "generationGraphIri generationId partition' =
     bindR (validateGenerationId generationId) (\<lambda>_.
     bindR (requireR (rx_test GENERATION_PARTITION partition') ''invalid generation partition'') (\<lambda>_.
     Inr (''urn:jwb:generation:'' @ generationId @ '':'' @ partition')))"

section \<open>Properties\<close>

lemma validateGenerationId_eq [simp]:
  "validateGenerationId v = Inr w \<longleftrightarrow> w = v \<and> generation_id v"
  "validateGenerationId v = Inl e \<longleftrightarrow> \<not> generation_id v \<and> e = ''invalid RDF generation ID''"
  by (auto simp: validateGenerationId_def bindR_eq_Inr bindR_eq_Inl)

lemma validateGenerationId_if:
  "validateGenerationId v =
     (if generation_id v then Inr v else Inl ''invalid RDF generation ID'')"
  by (simp add: validateGenerationId_def requireR_def)

lemma assertGenerationTransition_eq:
  "assertGenerationTransition s t = Inr b \<longleftrightarrow> b \<and>
     s \<in> set RDF_GENERATION_STATES \<and> t \<in> set RDF_GENERATION_STATES \<and> t \<in> set (successors s)"
  by (auto simp: assertGenerationTransition_def validateGenerationState_def bindR_eq_Inr)

lemma partition_iff:
  "rx_test GENERATION_PARTITION p \<longleftrightarrow>
     (\<exists>e. entity_id e \<and> p = ''entity:'' @ e) \<or> p = ''global-schema''"
  unfolding GENERATION_PARTITION_def rx_test_lang rx_lang_Alts entity_id_def
  by (auto simp: rx_lang_Lit_Cat simp del: rx_lang.simps)

lemma separator_inject:
  "c \<notin> set a \<Longrightarrow> c \<notin> set b \<Longrightarrow> a @ c # x = b @ c # y \<longleftrightarrow> a = b \<and> x = y"
proof (induction a arbitrary: b)
  case Nil
  then show ?case by (cases b) auto
next
  case (Cons z a)
  then show ?case by (cases b) auto
qed

text \<open>The graph identifiers of generations do not collide: two different partitions, or the same
  partition of two different generations, always have different graphs.\<close>

theorem generationGraphIri_injective:
  assumes "generationGraphIri g p = Inr i" "generationGraphIri h q = Inr i"
  shows "g = h \<and> p = q"
proof -
  from assms have i: "''urn:jwb:generation:'' @ g @ '':'' @ p = ''urn:jwb:generation:'' @ h @ '':'' @ q"
    and ids: "generation_id g" "generation_id h"
    by (auto simp: generationGraphIri_def bindR_eq_Inr)
  from i have "g @ CHR '':'' # p = h @ CHR '':'' # q" by simp
  moreover have "CHR '':'' \<notin> set g" "CHR '':'' \<notin> set h"
    using ids by (simp_all add: generation_id_no_colon)
  ultimately show ?thesis
    by (simp add: separator_inject)
qed

theorem generationGraphIri_injective_witness:
  "generationGraphIri ''gen-a'' ''entity:Q1'' = Inr ''urn:jwb:generation:gen-a:entity:Q1'' \<and>
   (''gen-a'' = ''gen-a'' \<and> ''entity:Q1'' = ''entity:Q1'')"
proof -
  have i: "generationGraphIri ''gen-a'' ''entity:Q1'' = Inr ''urn:jwb:generation:gen-a:entity:Q1''"
    by code_simp
  from generationGraphIri_injective [OF i i] i show ?thesis by blast
qed

end
