(* ===== verification/GenerationBackend.thy ===== *)
theory GenerationBackend
  imports Generation "HOL-Library.AList"
begin

text \<open>
  \<open>MemoryGenerationBackend\<close> of \<open>services/rdf-sync/src/generation-rebuild-coordinator.js\<close>: the
  blue/green generations of the dataset, their promotion, rollback, retirement and deletion.
  Rows are updated through the map (\<open>upd_gen\<close>), so two references to one row see each other's
  writes as in the code.  The clock readings and the UUID of a promotion are arguments.
\<close>

record gen_value =
  gv_revision :: int
  gv_value :: "string option"

record gen_row =
  g_id :: string
  g_state :: string
  g_sourceCursor :: cursor
  g_catchupCursor :: "cursor option"
  g_validation :: string
  g_serving :: bool
  g_data :: "(string \<times> gen_value) list"
  g_createdAt :: string
  g_retiredAt :: "string option"

record promotion =
  pr_id :: string
  pr_from :: "string option"
  pr_to :: string
  pr_state :: string

record gen_backend =
  gb_generations :: "(string \<times> gen_row) list"
  gb_active :: "string option"
  gb_promotions :: "(string \<times> promotion) list"

definition new_backend :: gen_backend where
  "new_backend = \<lparr>gb_generations = [], gb_active = None, gb_promotions = []\<rparr>"

definition gen_of :: "gen_backend \<Rightarrow> string \<Rightarrow> gen_row option" where
  "gen_of b i = map_of (gb_generations b) i"

definition upd_gen :: "string \<Rightarrow> (gen_row \<Rightarrow> gen_row) \<Rightarrow> gen_backend \<Rightarrow> gen_backend" where
  "upd_gen i f b = b\<lparr>gb_generations :=
     map (\<lambda>(k, r). (k, if k = i then f r else r)) (gb_generations b)\<rparr>"

text \<open>\<open>new Map(entries)\<close>: a later entry of the same key wins\<close>

definition map_from :: "(string \<times> 'v) list \<Rightarrow> (string \<times> 'v) list" where
  "map_from entries = fold (\<lambda>(k, v). AList.update k v) entries []"

text \<open>\<open>#row\<close>\<close>

definition find_gen :: "string \<Rightarrow> (gen_backend, gen_row) action" where
  "find_gen i =
     thenA (liftA (validateGenerationId i))
     (bindA (readA (\<lambda>b. gen_of b i)) (\<lambda>r.
     case r of None \<Rightarrow> raiseA ''GENERATION_NOT_FOUND'' | Some row \<Rightarrow> returnA row))"

definition createGeneration :: "string \<Rightarrow> string \<Rightarrow> cursor \<Rightarrow> (gen_backend, gen_row) action" where
  "createGeneration now generationId sourceSnapshotCursor =
     thenA (liftA (validateGenerationId generationId))
     (bindA (readA (\<lambda>b. gen_of b generationId)) (\<lambda>old.
     if old \<noteq> None then raiseA ''GENERATION_EXISTS''
     else
       let row = \<lparr>g_id = generationId, g_state = ''CREATING'', g_sourceCursor = sourceSnapshotCursor,
         g_catchupCursor = None, g_validation = ''PENDING'', g_serving = False, g_data = [],
         g_createdAt = now, g_retiredAt = None\<rparr>
       in thenA (modifyA (gb_generations_update (\<lambda>gs. gs @ [(generationId, row)]))) (returnA row)))"

definition loadSnapshotIntoGeneration ::
  "string \<Rightarrow> (string \<times> gen_value) list \<Rightarrow> (gen_backend, string) action" where
  "loadSnapshotIntoGeneration generationId snapshot =
     bindA (find_gen generationId) (\<lambda>row.
     thenA (liftA (assertGenerationTransition (g_state row) ''LOADING''))
     (thenA (modifyA (upd_gen generationId (\<lambda>r. r\<lparr>g_state := ''LOADING'', g_data := map_from snapshot\<rparr>)))
     (returnA generationId)))"

definition applyEntityChangeToGeneration ::
  "string \<Rightarrow> string \<Rightarrow> int \<Rightarrow> string \<Rightarrow> (gen_backend, unit) action" where
  "applyEntityChangeToGeneration generationId entityId revision source =
     bindA (find_gen generationId) (\<lambda>row.
     thenA
       (if g_state row = ''LOADING''
        then modifyA (upd_gen generationId (g_state_update (\<lambda>_. ''CATCHING_UP'')))
        else whenA (g_state row \<noteq> ''CATCHING_UP'') (raiseA ''GENERATION_NOT_CATCHING_UP''))
       (modifyA (upd_gen generationId (\<lambda>r. r\<lparr>g_validation := ''PENDING'',
         g_data := AList.update entityId \<lparr>gv_revision = revision, gv_value = Some source\<rparr> (g_data r)\<rparr>))))"

definition deleteEntityFromGeneration :: "string \<Rightarrow> string \<Rightarrow> (gen_backend, unit) action" where
  "deleteEntityFromGeneration generationId entityId =
     bindA (find_gen generationId) (\<lambda>row.
     if \<not> List.member [''LOADING'', ''CATCHING_UP''] (g_state row) then raiseA ''GENERATION_NOT_MUTABLE''
     else modifyA (upd_gen generationId (g_data_update (AList.delete entityId))))"

definition queryGeneration :: "string \<Rightarrow> string \<Rightarrow> (gen_backend, nat) action" where
  "queryGeneration generationId sparql =
     (if sparql = [] then raiseA ''invalid generation query''
      else bindA (find_gen generationId) (\<lambda>row. returnA (length (g_data row))))"

definition validateGeneration :: "string \<Rightarrow> cursor option \<Rightarrow> (gen_backend, bool) action" where
  "validateGeneration generationId catchupCursor =
     bindA (find_gen generationId) (\<lambda>row.
     if g_state row = ''READY'' \<and> g_validation row = ''VALID'' then returnA True
     else
       thenA
         (if List.member [''LOADING'', ''CATCHING_UP''] (g_state row)
          then modifyA (upd_gen generationId (\<lambda>r. r\<lparr>g_state := ''VALIDATING'',
            g_catchupCursor := (case catchupCursor of None \<Rightarrow> g_catchupCursor r | Some c \<Rightarrow> Some c)\<rparr>))
          else whenA (g_state row \<noteq> ''VALIDATING'') (raiseA ''GENERATION_NOT_VALIDATABLE''))
       (thenA (modifyA (upd_gen generationId (\<lambda>r. r\<lparr>g_validation := ''VALID'', g_state := ''READY''\<rparr>)))
       (returnA True)))"

definition getServingGeneration :: "(gen_backend, gen_row option) action" where
  "getServingGeneration =
     bindA (readA gb_active) (\<lambda>active.
     case active of None \<Rightarrow> returnA None | Some i \<Rightarrow> bindA (find_gen i) (\<lambda>row. returnA (Some row)))"

definition promoteGeneration ::
  "string \<Rightarrow> string \<Rightarrow> string option \<Rightarrow> (gen_backend, promotion) action" where
  "promoteGeneration promotionId generationId expectedServingGenerationId =
     bindA (find_gen generationId) (\<lambda>row.
     if g_state row \<noteq> ''READY'' then raiseA ''GENERATION_NOT_READY''
     else
     bindA (readA gb_active) (\<lambda>active.
     if active \<noteq> expectedServingGenerationId then raiseA ''SERVING_GENERATION_CONFLICT''
     else
     bindA (case active of None \<Rightarrow> returnA None
            | Some i \<Rightarrow> bindA (find_gen i) (\<lambda>previous. returnA (Some (g_id previous)))) (\<lambda>previous.
     let promotion = \<lparr>pr_id = promotionId, pr_from = previous, pr_to = generationId,
       pr_state = ''COMMITTED''\<rparr> in
     thenA (case active of None \<Rightarrow> returnA ()
            | Some i \<Rightarrow> modifyA (upd_gen i (\<lambda>r. r\<lparr>g_state := ''RETIRING'', g_serving := False\<rparr>)))
     (thenA (modifyA (upd_gen generationId (\<lambda>r. r\<lparr>g_state := ''SERVING'', g_serving := True\<rparr>)))
     (thenA (modifyA (gb_active_update (\<lambda>_. Some generationId)))
     (thenA (modifyA (gb_promotions_update (AList.update promotionId promotion)))
     (returnA promotion)))))))"

definition rollbackPromotion :: "string \<Rightarrow> (gen_backend, string option) action" where
  "rollbackPromotion promotionId =
     bindA (readA (\<lambda>b. map_of (gb_promotions b) promotionId)) (\<lambda>found.
     bindA (readA gb_active) (\<lambda>active.
     case found of
       None \<Rightarrow> raiseA ''PROMOTION_NOT_ROLLBACKABLE''
     | Some promotion \<Rightarrow>
         if pr_state promotion \<noteq> ''COMMITTED'' \<or> active \<noteq> Some (pr_to promotion)
         then raiseA ''PROMOTION_NOT_ROLLBACKABLE''
         else
           thenA (bindA (find_gen (pr_to promotion)) (\<lambda>_. returnA ()))
           (thenA (modifyA (upd_gen (pr_to promotion) (\<lambda>r. r\<lparr>g_state := ''READY'', g_serving := False\<rparr>)))
           (thenA (case pr_from promotion of
               None \<Rightarrow> returnA ()
             | Some i \<Rightarrow> thenA (bindA (find_gen i) (\<lambda>_. returnA ()))
                 (modifyA (upd_gen i (\<lambda>r. r\<lparr>g_state := ''SERVING'', g_serving := True\<rparr>))))
           (thenA (modifyA (gb_active_update (\<lambda>_. pr_from promotion)))
           (thenA (modifyA (gb_promotions_update
               (AList.update promotionId (promotion\<lparr>pr_state := ''ROLLED_BACK''\<rparr>))))
           (returnA (pr_from promotion))))))))"

definition retireGeneration :: "string \<Rightarrow> string \<Rightarrow> (gen_backend, unit) action" where
  "retireGeneration now generationId =
     bindA (find_gen generationId) (\<lambda>row.
     if g_serving row then raiseA ''CANNOT_RETIRE_SERVING_GENERATION''
     else if g_state row = ''READY''
     then modifyA (upd_gen generationId (g_state_update (\<lambda>_. ''FAILED'')))
     else if g_state row \<noteq> ''RETIRING'' then raiseA ''GENERATION_NOT_RETIRING''
     else modifyA (upd_gen generationId (\<lambda>r. r\<lparr>g_state := ''RETIRED'', g_retiredAt := Some now\<rparr>)))"

definition deleteGeneration :: "string \<Rightarrow> (gen_backend, unit) action" where
  "deleteGeneration generationId =
     bindA (find_gen generationId) (\<lambda>row.
     if g_serving row \<or> \<not> List.member [''RETIRED'', ''FAILED''] (g_state row)
     then raiseA ''GENERATION_NOT_DELETABLE''
     else modifyA (gb_generations_update (AList.delete generationId)))"

definition listGenerations :: "(gen_backend, gen_row list) action" where
  "listGenerations = readA (map snd \<circ> gb_generations)"

definition serving_data :: "(gen_backend, (string \<times> gen_value) list option) action" where
  "serving_data =
     bindA (readA gb_active) (\<lambda>active.
     case active of None \<Rightarrow> returnA None | Some i \<Rightarrow> bindA (find_gen i) (\<lambda>row. returnA (Some (g_data row))))"

section \<open>Any sequence of operations\<close>

datatype gen_op =
    Create string string cursor
  | Load string "(string \<times> gen_value) list"
  | ApplyChange string string int string
  | DeleteEntity string string
  | Validate string "cursor option"
  | Promote string string "string option"
  | Rollback string
  | Retire string string
  | DeleteGen string

fun run_gen_op :: "gen_op \<Rightarrow> gen_backend \<Rightarrow> gen_backend" where
  "run_gen_op (Create now i c) b = snd (createGeneration now i c b)"
| "run_gen_op (Load i s) b = snd (loadSnapshotIntoGeneration i s b)"
| "run_gen_op (ApplyChange i e r v) b = snd (applyEntityChangeToGeneration i e r v b)"
| "run_gen_op (DeleteEntity i e) b = snd (deleteEntityFromGeneration i e b)"
| "run_gen_op (Validate i c) b = snd (validateGeneration i c b)"
| "run_gen_op (Promote p i x) b = snd (promoteGeneration p i x b)"
| "run_gen_op (Rollback p) b = snd (rollbackPromotion p b)"
| "run_gen_op (Retire now i) b = snd (retireGeneration now i b)"
| "run_gen_op (DeleteGen i) b = snd (deleteGeneration i b)"

text \<open>
  A rollback whose previous generation has been deleted is not safe: the code demotes the
  serving generation before it finds out (\<open>rollback_after_delete_breaks_serving\<close> below).
\<close>

definition rollback_safe :: "gen_op \<Rightarrow> gen_backend \<Rightarrow> bool" where
  "rollback_safe op b = (case op of
     Rollback p \<Rightarrow> (case map_of (gb_promotions b) p of
         None \<Rightarrow> True
       | Some q \<Rightarrow> (case pr_from q of None \<Rightarrow> True | Some i \<Rightarrow> gen_of b i \<noteq> None))
   | _ \<Rightarrow> True)"

inductive reachable_backend :: "gen_backend \<Rightarrow> bool" where
  start: "reachable_backend new_backend"
| step: "reachable_backend b \<Longrightarrow> rollback_safe op b \<Longrightarrow> reachable_backend (run_gen_op op b)"

text \<open>
  Exactly one generation serves when one is active, it is the active one, and it is in the state
  \<open>SERVING\<close>; when none is active none serves.
\<close>

definition serving_ok :: "gen_backend \<Rightarrow> bool" where
  "serving_ok b \<longleftrightarrow>
     (\<forall>i r. gen_of b i = Some r \<longrightarrow> (g_serving r \<longleftrightarrow> gb_active b = Some i) \<and>
       (g_state r = ''SERVING'' \<longleftrightarrow> gb_active b = Some i)) \<and>
     (case gb_active b of None \<Rightarrow> True | Some i \<Rightarrow> gen_of b i \<noteq> None)"

section \<open>One generation serves\<close>

lemma gen_of_simps [simp]:
  "gen_of (upd_gen i f b) j = (if j = i then map_option f (gen_of b j) else gen_of b j)"
  "gen_of (gb_active_update g b) j = gen_of b j"
  "gen_of (gb_promotions_update h b) j = gen_of b j"
  "gb_active (upd_gen i f b) = gb_active b"
  "gb_promotions (upd_gen i f b) = gb_promotions b"
proof -
  have "map_of (map (\<lambda>(k, r). (k, if k = i then f r else r)) gs) j =
     (if j = i then map_option f (map_of gs j) else map_of gs j)" for gs
    by (induction gs) auto
  then show "gen_of (upd_gen i f b) j = (if j = i then map_option f (gen_of b j) else gen_of b j)"
    by (simp add: gen_of_def upd_gen_def)
qed (simp_all add: gen_of_def upd_gen_def)

lemma gen_of_delete [simp]:
  "gen_of (gb_generations_update (AList.delete i) b) j = (if j = i then None else gen_of b j)"
  by (simp add: gen_of_def map_of_delete) (simp add: delete_conv')

lemma gen_of_append [simp]:
  "gen_of (gb_generations_update (\<lambda>gs. gs @ [(i, r)]) b) j =
     (case gen_of b j of None \<Rightarrow> (if j = i then Some r else None) | Some q \<Rightarrow> Some q)"
  by (auto simp: gen_of_def map_add_def split: option.splits)

lemma wp_find_gen [wp_simps]:
  "wp (find_gen i) Q b =
     (if \<not> generation_id i then Q (Inl ''invalid RDF generation ID'') b
      else case gen_of b i of None \<Rightarrow> Q (Inl ''GENERATION_NOT_FOUND'') b | Some r \<Rightarrow> Q (Inr r) b)"
  by (auto simp: find_gen_def validateGenerationId_if wp_simps split: option.splits)

text \<open>Rows are filed under their own identifiers, which are valid, and one generation serves.\<close>

definition backend_inv :: "gen_backend \<Rightarrow> bool" where
  "backend_inv b \<longleftrightarrow> serving_ok b \<and>
     (\<forall>i r. gen_of b i = Some r \<longrightarrow> g_id r = i \<and> generation_id i)"

lemma backend_inv_start: "backend_inv new_backend"
  by (simp add: backend_inv_def serving_ok_def new_backend_def gen_of_def)

lemma gen_states_distinct:
  "assertGenerationTransition s ''LOADING'' = Inr u \<Longrightarrow> s = ''CREATING''"
  unfolding assertGenerationTransition_eq
  by (auto simp: successors_def TRANSITIONS_def split: if_splits)

lemma inv_createGeneration:
  "backend_inv b \<Longrightarrow> wp (createGeneration now i c) (\<lambda>_. backend_inv) b"
  by (auto simp: createGeneration_def validateGenerationId_if wp_simps backend_inv_def serving_ok_def
      Let_def split: option.splits if_splits)

lemma inv_load:
  "backend_inv b \<Longrightarrow> wp (loadSnapshotIntoGeneration i s) (\<lambda>_. backend_inv) b"
  by (fastforce simp: loadSnapshotIntoGeneration_def wp_simps backend_inv_def serving_ok_def
      dest: gen_states_distinct split: option.splits sum.splits)

lemma inv_applyChange:
  "backend_inv b \<Longrightarrow> wp (applyEntityChangeToGeneration i e r v) (\<lambda>_. backend_inv) b"
  by (fastforce simp: applyEntityChangeToGeneration_def wp_simps backend_inv_def serving_ok_def
      split: option.splits)

lemma inv_deleteEntity:
  "backend_inv b \<Longrightarrow> wp (deleteEntityFromGeneration i e) (\<lambda>_. backend_inv) b"
  by (fastforce simp: deleteEntityFromGeneration_def wp_simps backend_inv_def serving_ok_def
      split: option.splits)

lemma inv_validate:
  "backend_inv b \<Longrightarrow> wp (validateGeneration i c) (\<lambda>_. backend_inv) b"
  by (fastforce simp: validateGeneration_def wp_simps backend_inv_def serving_ok_def
      split: option.splits)

lemma inv_promote:
  "backend_inv b \<Longrightarrow> wp (promoteGeneration p i x) (\<lambda>_. backend_inv) b"
  by (fastforce simp: promoteGeneration_def wp_simps backend_inv_def serving_ok_def Let_def
      split: option.splits)

lemma inv_rollback:
  "backend_inv b \<Longrightarrow> rollback_safe (Rollback p) b \<Longrightarrow> wp (rollbackPromotion p) (\<lambda>_. backend_inv) b"
  by (fastforce simp: rollbackPromotion_def rollback_safe_def wp_simps backend_inv_def serving_ok_def
      split: option.splits)

lemma inv_retire:
  "backend_inv b \<Longrightarrow> wp (retireGeneration now i) (\<lambda>_. backend_inv) b"
  by (fastforce simp: retireGeneration_def wp_simps backend_inv_def serving_ok_def
      split: option.splits)

lemma inv_deleteGen:
  "backend_inv b \<Longrightarrow> wp (deleteGeneration i) (\<lambda>_. backend_inv) b"
  by (fastforce simp: deleteGeneration_def wp_simps backend_inv_def serving_ok_def
      split: option.splits)

lemmas backend_inv_ops = inv_createGeneration inv_load inv_applyChange inv_deleteEntity
  inv_validate inv_promote inv_retire inv_deleteGen

lemma backend_inv_step:
  assumes "backend_inv b" "rollback_safe op b"
  shows "backend_inv (run_gen_op op b)"
proof (cases op)
  case (Rollback p)
  with assms show ?thesis using inv_rollback [of b p] by (simp add: wp_snd)
qed (use assms(1) backend_inv_ops [of b] in \<open>simp_all add: wp_snd\<close>)

lemma reachable_backend_inv: "reachable_backend b \<Longrightarrow> backend_inv b"
  by (induction rule: reachable_backend.induct) (auto intro: backend_inv_start backend_inv_step)

section \<open>Properties\<close>

text \<open>
  What remains of it under every operation, the unsafe rollback included: a generation that is
  marked as serving, or is in the state \<open>SERVING\<close>, is the active one.
\<close>

definition marked_is_active :: "gen_backend \<Rightarrow> bool" where
  "marked_is_active b \<longleftrightarrow>
     (\<forall>i r. gen_of b i = Some r \<and> (g_serving r \<or> g_state r = ''SERVING'') \<longrightarrow> gb_active b = Some i)"

lemma marked_steps:
  assumes "marked_is_active b"
  shows marked_create: "wp (createGeneration now i c) (\<lambda>_. marked_is_active) b"
    and marked_load: "wp (loadSnapshotIntoGeneration i s) (\<lambda>_. marked_is_active) b"
    and marked_change: "wp (applyEntityChangeToGeneration i e rv v) (\<lambda>_. marked_is_active) b"
    and marked_delete: "wp (deleteEntityFromGeneration i e) (\<lambda>_. marked_is_active) b"
    and marked_validate: "wp (validateGeneration i cu) (\<lambda>_. marked_is_active) b"
    and marked_promote: "wp (promoteGeneration p i x) (\<lambda>_. marked_is_active) b"
    and marked_rollback: "wp (rollbackPromotion p) (\<lambda>_. marked_is_active) b"
    and marked_retire: "wp (retireGeneration now i) (\<lambda>_. marked_is_active) b"
    and marked_deleteGen: "wp (deleteGeneration i) (\<lambda>_. marked_is_active) b"
  using assms
  by (fastforce simp: createGeneration_def loadSnapshotIntoGeneration_def applyEntityChangeToGeneration_def
      deleteEntityFromGeneration_def validateGeneration_def promoteGeneration_def rollbackPromotion_def
      retireGeneration_def deleteGeneration_def validateGenerationId_if wp_simps marked_is_active_def Let_def
      dest: gen_states_distinct split: option.splits sum.splits if_splits)+

lemma marked_step: "marked_is_active b \<Longrightarrow> marked_is_active (run_gen_op op b)"
  using marked_steps [of b] by (cases op) (simp_all add: wp_snd)

definition run_gen_ops :: "gen_op list \<Rightarrow> gen_backend \<Rightarrow> gen_backend" where
  "run_gen_ops ops b = fold run_gen_op ops b"

lemma marked_run: "marked_is_active b \<Longrightarrow> marked_is_active (run_gen_ops ops b)"
  by (induction ops arbitrary: b) (simp_all add: run_gen_ops_def marked_step)

lemma marked_start: "marked_is_active new_backend"
  by (simp add: marked_is_active_def new_backend_def gen_of_def)

text \<open>No rollback of the run leads to a generation that is gone by then.\<close>

fun safe_run :: "gen_op list \<Rightarrow> gen_backend \<Rightarrow> bool" where
  "safe_run [] b = True"
| "safe_run (op # ops) b = (rollback_safe op b \<and> safe_run ops (run_gen_op op b))"

lemma safe_run_reachable: "reachable_backend b \<Longrightarrow> safe_run ops b \<Longrightarrow> reachable_backend (run_gen_ops ops b)"
  by (induction ops arbitrary: b) (simp_all add: run_gen_ops_def reachable_backend.step)

text \<open>C16: At most one generation serves.  Whatever operations the blue/green backend runs, in any order and
  with any arguments, a generation that is marked as serving, or is in the state \<open>SERVING\<close>, is the
  active one, so there is never a second one.  As long as no rollback returns to a generation that was deleted
  meanwhile, the converse holds too: the active generation exists and is the one that serves.
  (After such a rollback the active generation no longer serves:
  \<open>rollback_after_delete_breaks_serving\<close>.)\<close>

theorem one_generation_serves:
  "(\<forall>i r. gen_of (run_gen_ops ops new_backend) i = Some r \<and> (g_serving r \<or> g_state r = ''SERVING'') \<longrightarrow>
      gb_active (run_gen_ops ops new_backend) = Some i) \<and>
   (safe_run ops new_backend \<longrightarrow> serving_ok (run_gen_ops ops new_backend))"
  using marked_run [OF marked_start, of ops] reachable_backend_inv [OF safe_run_reachable [OF reachable_backend.start], of ops]
  unfolding marked_is_active_def backend_inv_def by blast

definition demo_ops :: "gen_op list" where
  "demo_ops =
     [Create ''t'' ''gen-a'' \<lparr>cur_source = ''s'', cur_timestamp = ''2020-01-01T00:00:00Z'', cur_rcid = 1\<rparr>,
      Load ''gen-a'' [(''Q1'', \<lparr>gv_revision = 1, gv_value = Some ''x''\<rparr>)],
      Validate ''gen-a'' None, Promote ''p1'' ''gen-a'' None,
      Create ''t'' ''gen-b'' \<lparr>cur_source = ''s'', cur_timestamp = ''2020-01-01T00:00:00Z'', cur_rcid = 2\<rparr>,
      Load ''gen-b'' [(''Q1'', \<lparr>gv_revision = 2, gv_value = Some ''y''\<rparr>)],
      Validate ''gen-b'' None, Promote ''p2'' ''gen-b'' (Some ''gen-a'')]"

lemma reachable_fold:
  "reachable_backend b \<Longrightarrow> (\<forall>op \<in> set ops. case op of Rollback p \<Rightarrow> False | _ \<Rightarrow> True) \<Longrightarrow>
   reachable_backend (run_gen_ops ops b)"
proof (induction ops arbitrary: b)
  case (Cons op ops)
  have "rollback_safe op b" using Cons.prems(2) by (auto simp: rollback_safe_def split: gen_op.splits)
  with Cons.prems(1) have "reachable_backend (run_gen_op op b)" by (rule reachable_backend.step)
  with Cons show ?case by (simp add: run_gen_ops_def)
qed (simp add: run_gen_ops_def)

lemma demo_reachable: "reachable_backend (run_gen_ops demo_ops new_backend)"
  by (rule reachable_fold [OF reachable_backend.start]) (simp add: demo_ops_def)

theorem one_generation_serves_witness:
  "serving_ok (run_gen_ops demo_ops new_backend) \<and>
   gb_active (run_gen_ops demo_ops new_backend) = Some ''gen-b'' \<and>
   map_option g_state (gen_of (run_gen_ops demo_ops new_backend) ''gen-a'') = Some ''RETIRING''"
proof (intro conjI)
  have "safe_run demo_ops new_backend" by code_simp
  then show "serving_ok (run_gen_ops demo_ops new_backend)"
    using one_generation_serves [of demo_ops] by blast
qed code_simp+

text \<open>The transitions of the table, and how far an operation moves a row\<close>

definition table_step :: "string \<Rightarrow> string \<Rightarrow> bool" where
  "table_step s t \<longleftrightarrow> List.member (successors s) t"

lemma table_steps:
  "table_step ''CREATING'' ''LOADING''"
  "table_step ''LOADING'' ''CATCHING_UP''"
  "table_step ''LOADING'' ''VALIDATING''"
  "table_step ''CATCHING_UP'' ''VALIDATING''"
  "table_step ''VALIDATING'' ''READY''"
  "table_step ''READY'' ''SERVING''"
  "table_step ''READY'' ''FAILED''"
  "table_step ''SERVING'' ''RETIRING''"
  "table_step ''RETIRING'' ''RETIRED''"
  by code_simp+

lemma table_paths [intro]:
  "table_step\<^sup>*\<^sup>* s s"
  "table_step s t \<Longrightarrow> table_step\<^sup>*\<^sup>* s t"
  "table_step s t \<Longrightarrow> table_step t u \<Longrightarrow> table_step\<^sup>*\<^sup>* s u"
  by (auto intro: rtranclp.rtrancl_into_rtrancl)

definition rows_move :: "gen_backend \<Rightarrow> gen_backend \<Rightarrow> bool" where
  "rows_move b b' \<longleftrightarrow> (\<forall>i r r'. gen_of b i = Some r \<longrightarrow> gen_of b' i = Some r' \<longrightarrow>
     table_step\<^sup>*\<^sup>* (g_state r) (g_state r'))"

lemma moves_create: "wp (createGeneration now i c) (\<lambda>_. rows_move b) b"
  by (auto simp: createGeneration_def validateGenerationId_if wp_simps rows_move_def Let_def
      split: option.splits if_splits)

lemma moves_load: "wp (loadSnapshotIntoGeneration i s) (\<lambda>_. rows_move b) b"
  by (auto simp: loadSnapshotIntoGeneration_def wp_simps rows_move_def table_steps
      dest!: gen_states_distinct split: option.splits sum.splits if_splits)

lemma moves_applyChange: "wp (applyEntityChangeToGeneration i e r v) (\<lambda>_. rows_move b) b"
  by (auto simp: applyEntityChangeToGeneration_def wp_simps rows_move_def table_steps
      split: option.splits if_splits)

lemma moves_deleteEntity: "wp (deleteEntityFromGeneration i e) (\<lambda>_. rows_move b) b"
  by (auto simp: deleteEntityFromGeneration_def wp_simps rows_move_def
      split: option.splits if_splits)

lemma moves_validate: "wp (validateGeneration i c) (\<lambda>_. rows_move b) b"
  by (auto simp: validateGeneration_def wp_simps rows_move_def table_steps
      intro: table_paths(3) [where t = "''VALIDATING''"] split: option.splits if_splits)

lemma moves_promote: "serving_ok b \<Longrightarrow> wp (promoteGeneration p i x) (\<lambda>_. rows_move b) b"
  by (fastforce simp: promoteGeneration_def wp_simps rows_move_def serving_ok_def Let_def table_steps
      split: option.splits if_splits)

lemma moves_retire: "wp (retireGeneration now i) (\<lambda>_. rows_move b) b"
  by (auto simp: retireGeneration_def wp_simps rows_move_def table_steps
      split: option.splits if_splits)

lemma moves_deleteGen: "wp (deleteGeneration i) (\<lambda>_. rows_move b) b"
  by (auto simp: deleteGeneration_def wp_simps rows_move_def split: option.splits if_splits)

lemmas backend_moves = moves_create moves_load moves_applyChange moves_deleteEntity
  moves_validate moves_promote moves_retire moves_deleteGen

lemma run_gen_op_moves:
  assumes "serving_ok b" "\<forall>p. op \<noteq> Rollback p"
  shows "rows_move b (run_gen_op op b)"
  using assms(2) backend_moves [where b = b] assms(1)
  by (cases op) (simp_all add: wp_snd)

text \<open>Every operation other than a rollback moves every generation along the transition table of
  \<open>generation.js\<close> only.\<close>

theorem generation_states_follow_table:
  assumes "reachable_backend b" "\<forall>p. op \<noteq> Rollback p"
    "gen_of b i = Some r" "gen_of (run_gen_op op b) i = Some r'"
  shows "table_step\<^sup>*\<^sup>* (g_state r) (g_state r')"
  using run_gen_op_moves [of b op] reachable_backend_inv [OF assms(1)] assms(2-4)
  unfolding backend_inv_def rows_move_def by blast

theorem generation_states_follow_table_witness:
  "table_step\<^sup>*\<^sup>* ''READY'' ''SERVING'' \<and>
   map_option g_state (gen_of (run_gen_ops (take 3 demo_ops) new_backend) ''gen-a'') = Some ''READY''"
proof -
  define b where "b = run_gen_ops (take 3 demo_ops) new_backend"
  have r: "reachable_backend b" unfolding b_def
    by (rule reachable_fold [OF reachable_backend.start]) (simp add: demo_ops_def)
  have 1: "map_option g_state (gen_of b ''gen-a'') = Some ''READY''" unfolding b_def by code_simp
  have 2: "map_option g_state (gen_of (run_gen_op (Promote ''p'' ''gen-a'' None) b) ''gen-a'') = Some ''SERVING''"
    unfolding b_def by code_simp
  from 1 2 obtain x y where xy: "gen_of b ''gen-a'' = Some x" "g_state x = ''READY''"
    "gen_of (run_gen_op (Promote ''p'' ''gen-a'' None) b) ''gen-a'' = Some y" "g_state y = ''SERVING''"
    by auto
  show ?thesis using generation_states_follow_table [OF r _ xy(1,3)] xy(2,4) 1 unfolding b_def by simp
qed

text \<open>Deleting the generation a promotion came from and then rolling the promotion back fails, but only
  after the serving generation was demoted: the active pointer is left on a generation that does not
  serve.\<close>

theorem rollback_after_delete_breaks_serving:
  "\<exists>b. reachable_backend b \<and> serving_ok b \<and>
     (case rollbackPromotion ''p2'' b of (r, b') \<Rightarrow>
        r = Inl ''GENERATION_NOT_FOUND'' \<and> gb_active b' = Some ''gen-b'' \<and>
        map_option g_serving (gen_of b' ''gen-b'') = Some False \<and> \<not> serving_ok b')"
proof -
  define b where "b = run_gen_ops (demo_ops @ [Retire ''t'' ''gen-a'', DeleteGen ''gen-a'']) new_backend"
  have r: "reachable_backend b" unfolding b_def
    by (rule reachable_fold [OF reachable_backend.start]) (simp add: demo_ops_def)
  then have ok: "serving_ok b" using reachable_backend_inv by (simp add: backend_inv_def)
  have run: "case rollbackPromotion ''p2'' b of (r, b') \<Rightarrow>
      r = Inl ''GENERATION_NOT_FOUND'' \<and> gb_active b' = Some ''gen-b'' \<and>
      map_option g_serving (gen_of b' ''gen-b'') = Some False"
    unfolding b_def by code_simp
  then have "case rollbackPromotion ''p2'' b of (r, b') \<Rightarrow> \<not> serving_ok b'"
    by (auto simp: serving_ok_def split: prod.splits)
  with r ok run show ?thesis by (intro exI [of _ b]) (auto split: prod.splits)
qed

end
