(* ===== verification/GenerationRebuild.thy ===== *)
theory GenerationRebuild
  imports GenerationBackend
begin

text \<open>
  \<open>GenerationRebuildCoordinator\<close> of \<open>services/rdf-sync/src/generation-rebuild-coordinator.js\<close>: a
  generation is staged from a snapshot, caught up from the change source and cut over.  The state
  is the pair of the coordinator's \<open>staged\<close> map with the backend, and the state of the change
  source and of the engine that prepares the changes, which are parameters.  The catch-up loop
  runs as long as the source delivers events, so it has fuel; \<open>None\<close> is running out of it.
\<close>

type_synonym staged = "(string \<times> string) list"

type_synonym 's rebuild_world = "(staged \<times> gen_backend) \<times> 's"

record gen_event =
  ge_entityId :: "string option"
  ge_revid :: int
  ge_value :: "string option"

record gen_change =
  gc_entityId :: string
  gc_revision :: int
  gc_source :: string

type_synonym 's gen_reader = "cursor \<Rightarrow> nat \<Rightarrow> ('s, gen_event list \<times> cursor) action"
type_synonym 's gen_preparer = "(gen_event \<Rightarrow> ('s, gen_change) action) option"

definition on_staged :: "(staged, 'a) action \<Rightarrow> ('s rebuild_world, 'a) action" where
  "on_staged m = on_fst (on_fst m)"

definition on_backend :: "(gen_backend, 'a) action \<Rightarrow> ('s rebuild_world, 'a) action" where
  "on_backend m = on_fst (on_snd m)"

definition FIRST_CURSOR :: cursor where
  "FIRST_CURSOR = \<lparr>cur_source = ''local'', cur_timestamp = ''1970-01-01T00:00:00Z'', cur_rcid = 0\<rparr>"

definition stage ::
  "string \<Rightarrow> string \<Rightarrow> (string \<times> gen_value) list \<Rightarrow> cursor option \<Rightarrow> ('s rebuild_world, unit) action" where
  "stage now i snapshot startCursor =
     bindA (liftA (validateGenerationId (''gen-'' @ i))) (\<lambda>generationId.
     bindA (on_backend (createGeneration now generationId
       (case startCursor of None \<Rightarrow> FIRST_CURSOR | Some c \<Rightarrow> c))) (\<lambda>_.
     bindA (on_backend (loadSnapshotIntoGeneration generationId snapshot)) (\<lambda>_.
     on_staged (modifyA (AList.update i generationId)))))"

text \<open>\<open>#generation\<close>\<close>

definition staged_generation :: "string \<Rightarrow> ('s rebuild_world, string) action" where
  "staged_generation i =
     bindA (on_staged (readA (\<lambda>st. map_of st i))) (\<lambda>g.
     case g of None \<Rightarrow> raiseA ''REBUILD_STAGE_MISSING'' | Some generationId \<Rightarrow> returnA generationId)"

text \<open>\<open>`entity:${event.entityId}`\<close>: a missing identifier reads as \<open>undefined\<close>\<close>

definition default_change :: "string \<Rightarrow> gen_event \<Rightarrow> gen_change result" where
  "default_change generationId event =
     (let e = (case ge_entityId event of None \<Rightarrow> ''undefined'' | Some e \<Rightarrow> e) in
      bindR (generationGraphIri generationId (''entity:'' @ e)) (\<lambda>_.
      Inr \<lparr>gc_entityId = e, gc_revision = ge_revid event,
        gc_source = (case ge_value event of None \<Rightarrow> [] | Some v \<Rightarrow> v)\<rparr>))"

definition catchUp_event ::
  "'s gen_preparer \<Rightarrow> string \<Rightarrow> gen_event \<Rightarrow> ('s rebuild_world, unit) action" where
  "catchUp_event prepare generationId event =
     bindA (case prepare of
        Some p \<Rightarrow> on_snd (p event)
      | None \<Rightarrow> liftA (default_change generationId event)) (\<lambda>change.
     on_backend (applyEntityChangeToGeneration generationId (gc_entityId change)
       (gc_revision change) (gc_source change)))"

definition before_end :: "cursor \<Rightarrow> cursor option \<Rightarrow> bool" where
  "before_end c endCursor = (case endCursor of
     None \<Rightarrow> True
   | Some e \<Rightarrow> cur_timestamp c < cur_timestamp e \<or>
       cur_timestamp c = cur_timestamp e \<and> cur_rcid c < cur_rcid e)"

fun catchUp_loop ::
  "'s gen_reader \<Rightarrow> 's gen_preparer \<Rightarrow> string \<Rightarrow> cursor option \<Rightarrow> nat \<Rightarrow> cursor \<Rightarrow>
   ('s rebuild_world, cursor option) action" where
  "catchUp_loop read prepare generationId endCursor fuel c =
     (if \<not> before_end c endCursor then returnA (Some c)
      else case fuel of
        0 \<Rightarrow> returnA None
      | Suc fuel' \<Rightarrow>
          bindA (on_snd (read c 100)) (\<lambda>(events, next).
          if events = [] then returnA (Some c)
          else thenA (forA events (catchUp_event prepare generationId))
            (catchUp_loop read prepare generationId endCursor fuel' next)))"

declare catchUp_loop.simps [simp del]

definition catchUp ::
  "'s gen_reader \<Rightarrow> 's gen_preparer \<Rightarrow> nat \<Rightarrow> string \<Rightarrow> cursor \<Rightarrow> cursor option \<Rightarrow>
   ('s rebuild_world, unit option) action" where
  "catchUp read prepare fuel i startCursor endCursor =
     bindA (staged_generation i) (\<lambda>generationId.
     bindA (catchUp_loop read prepare generationId endCursor fuel startCursor) (\<lambda>reached.
     case reached of
       None \<Rightarrow> returnA None
     | Some c \<Rightarrow> thenA (on_backend (validateGeneration generationId (Some c))) (returnA (Some ()))))"

definition cutover :: "string \<Rightarrow> string \<Rightarrow> ('s rebuild_world, promotion) action" where
  "cutover promotionId i =
     bindA (staged_generation i) (\<lambda>generationId.
     bindA (on_backend getServingGeneration) (\<lambda>serving.
     thenA (on_backend (validateGeneration generationId None))
     (bindA (on_backend (promoteGeneration promotionId generationId (map_option g_id serving))) (\<lambda>promotion.
     thenA (on_staged (modifyA (AList.delete i)))
     (returnA promotion)))))"

section \<open>What is served does not move while a generation is built\<close>

text \<open>The active generation and its row, data included\<close>

definition served :: "gen_backend \<Rightarrow> (string \<times> gen_row option) option" where
  "served b = map_option (\<lambda>i. (i, gen_of b i)) (gb_active b)"

definition same_service :: "gen_backend \<Rightarrow> gen_backend \<Rightarrow> bool" where
  "same_service b b' \<longleftrightarrow> backend_inv b' \<and> served b' = served b"

lemma same_service_refl: "backend_inv b \<Longrightarrow> same_service b b"
  by (simp add: same_service_def)

lemma same_service_trans: "same_service a b \<Longrightarrow> same_service b c \<Longrightarrow> same_service a c"
  by (simp add: same_service_def)

lemma servedI:
  "gb_active b' = gb_active b \<Longrightarrow> (\<And>i. gb_active b = Some i \<Longrightarrow> gen_of b' i = gen_of b i) \<Longrightarrow>
   served b' = served b"
  by (cases "gb_active b") (simp_all add: served_def)

lemma wp_conj: "wp m P s \<Longrightarrow> wp m Q s \<Longrightarrow> wp m (\<lambda>r s'. P r s' \<and> Q r s') s"
  by (simp add: wp_def split: prod.splits)

lemma active_serves:
  "backend_inv b \<Longrightarrow> gb_active b = Some i \<Longrightarrow> gen_of b i = Some r \<Longrightarrow> g_state r = ''SERVING''"
  by (auto simp: backend_inv_def serving_ok_def)

lemma served_create:
  "backend_inv b \<Longrightarrow> wp (createGeneration now i c) (\<lambda>_. same_service b) b"
  unfolding same_service_def
  by (rule wp_conj [OF inv_createGeneration])
     (auto simp: createGeneration_def validateGenerationId_if wp_simps Let_def
       backend_inv_def serving_ok_def split: option.splits if_splits intro!: servedI)

lemma served_load:
  "backend_inv b \<Longrightarrow> wp (loadSnapshotIntoGeneration i s) (\<lambda>_. same_service b) b"
  unfolding same_service_def
  by (rule wp_conj [OF inv_load])
     (auto simp: loadSnapshotIntoGeneration_def wp_simps
       dest!: gen_states_distinct dest: active_serves split: option.splits if_splits sum.splits intro!: servedI)

lemma served_applyChange:
  "backend_inv b \<Longrightarrow> wp (applyEntityChangeToGeneration i e r v) (\<lambda>_. same_service b) b"
  unfolding same_service_def
  by (rule wp_conj [OF inv_applyChange])
     (auto simp: applyEntityChangeToGeneration_def wp_simps
       dest: active_serves split: option.splits if_splits intro!: servedI)

lemma served_validate:
  "backend_inv b \<Longrightarrow> wp (validateGeneration i c) (\<lambda>_. same_service b) b"
  unfolding same_service_def
  by (rule wp_conj [OF inv_validate])
     (auto simp: validateGeneration_def wp_simps
       dest: active_serves split: option.splits if_splits intro!: servedI)

text \<open>The same for an action of the coordinator, whatever it does to the source\<close>

definition keeps_service :: "('s rebuild_world, 'a) action \<Rightarrow> bool" where
  "keeps_service m \<longleftrightarrow> moves (\<lambda>((st, b), s) ((st', b'), s'). backend_inv b \<longrightarrow> same_service b b') m"

lemma service_rel:
  "reflp (\<lambda>((st, b), s) ((st', b'), s'). backend_inv b \<longrightarrow> same_service b b')"
  "transp (\<lambda>((st, b), s) ((st', b'), s'). backend_inv b \<longrightarrow> same_service b b')"
  by (auto simp: reflp_def transp_def same_service_refl same_service_def)

lemma keeps_service_combinators:
  "keeps_service (returnA x)"
  "keeps_service (raiseA e)"
  "keeps_service (liftA r)"
  "keeps_service m \<Longrightarrow> (\<And>x. keeps_service (f x)) \<Longrightarrow> keeps_service (bindA m f)"
  "keeps_service m \<Longrightarrow> keeps_service n \<Longrightarrow> keeps_service (thenA m n)"
  "(\<And>x. keeps_service (g x)) \<Longrightarrow> keeps_service (forA xs g)"
  using service_rel unfolding keeps_service_def
  by (auto intro!: moves_intros)

lemma keeps_service_parts:
  "keeps_service (on_staged k)"
  "keeps_service (on_snd h)"
  by (auto simp: keeps_service_def moves_def on_staged_def on_fst_def on_snd_def same_service_refl
      split: prod.splits)

lemma keeps_service_backend:
  "(\<And>b. backend_inv b \<Longrightarrow> wp m (\<lambda>_. same_service b) b) \<Longrightarrow> keeps_service (on_backend m)"
  unfolding keeps_service_def moves_def on_backend_def
  by (auto simp: on_fst_def on_snd_def wp_snd split: prod.splits)
     (metis snd_conv)

lemmas keeps_service_ops =
  keeps_service_backend [OF served_create] keeps_service_backend [OF served_load]
  keeps_service_backend [OF served_applyChange] keeps_service_backend [OF served_validate]

lemmas keeps_service_intros = keeps_service_combinators keeps_service_parts keeps_service_ops

lemma stage_keeps: "keeps_service (stage now i snapshot c)"
  by (simp add: stage_def keeps_service_intros)

lemma staged_generation_keeps: "keeps_service (staged_generation i)"
  unfolding staged_generation_def
  by (intro keeps_service_intros) (simp add: keeps_service_intros split: option.split)

lemma catchUp_event_keeps: "keeps_service (catchUp_event p g ev)"
  by (simp add: catchUp_event_def keeps_service_intros split: option.split)

lemma catchUp_loop_keeps: "keeps_service (catchUp_loop read p g e fuel c)"
proof (induction fuel arbitrary: c)
  case 0
  then show ?case by (simp add: catchUp_loop.simps [of _ _ _ _ 0] keeps_service_intros)
next
  case (Suc fuel)
  then show ?case
    by (auto simp: catchUp_loop.simps [of _ _ _ _ "Suc fuel"] split: prod.split
        intro!: keeps_service_intros catchUp_event_keeps)
qed

lemma catchUp_keeps: "keeps_service (catchUp read p fuel i c e)"
  unfolding catchUp_def
  by (intro keeps_service_intros staged_generation_keeps catchUp_loop_keeps)
     (auto split: option.split intro!: keeps_service_intros)

section \<open>The catch-up loop ends\<close>

text \<open>
  \<open>reads_log\<close> is the documented behaviour of a change source over a log of finitely many positions: a
  batch with events ends at a position of the log that lies after the cursor it was asked with (the
  source of the program does that: \<open>changes_read_forward\<close> of \<open>EntitySource\<close>).  Nothing is assumed of
  the state of the source: the same question gives the same batch again.
\<close>

abbreviation position_after :: "cursor \<Rightarrow> cursor \<Rightarrow> bool" where
  "position_after c k \<equiv> before_end c (Some k)"

definition reads_log :: "cursor list \<Rightarrow> 's gen_reader \<Rightarrow> bool" where
  "reads_log log read \<longleftrightarrow> (\<forall>c n s events next s'. read c n s = (Inr (events, next), s') \<and> events \<noteq> [] \<longrightarrow>
     next \<in> set log \<and> position_after c next)"

lemma position_after_simps:
  "\<not> position_after c c" "position_after c k \<Longrightarrow> position_after k m \<Longrightarrow> position_after c m"
  by (auto simp: before_end_def)

lemma positions_left:
  assumes "next \<in> set log" "position_after c next"
  shows "length (filter (position_after next) log) < length (filter (position_after c) log)"
proof -
  have "filter (position_after next) log = filter (position_after next) (filter (position_after c) log)"
    using position_after_simps(2) [OF assms(2)] by (auto intro: filter_cong)
  moreover have "length (filter (position_after next) (filter (position_after c) log)) < length (filter (position_after c) log)"
    by (rule length_filter_less [of "next"]) (use assms position_after_simps(1) in auto)
  ultimately show ?thesis by simp
qed

lemma catchUp_loop_returns:
  assumes m: "reads_log log read" and "length (filter (position_after c) log) < fuel"
  shows "fst (catchUp_loop read prepare g e fuel c w) \<noteq> Inr None"
  using assms(2)
proof (induction fuel arbitrary: c w)
  case (Suc fuel)
  obtain r w1 where read: "on_snd (read c 100) w = (r, w1)" using prod.exhaust by blast
  show ?case
  proof (cases r)
    case (Inl err)
    with read show ?thesis by (simp add: catchUp_loop.simps [of _ _ _ _ "Suc fuel"] bindA_def returnA_def)
  next
    case (Inr batch)
    obtain events nxt where batch: "batch = (events, nxt)" by fastforce
    obtain q w2 where body: "forA events (catchUp_event prepare g) w1 = (q, w2)" using prod.exhaust by blast
    have "nxt \<in> set log \<and> position_after c nxt" if "events \<noteq> []"
      using m read Inr batch that unfolding reads_log_def on_snd_eq by meson
    with positions_left Suc.prems have "events \<noteq> [] \<Longrightarrow> length (filter (position_after nxt) log) < fuel" by fastforce
    then have "events \<noteq> [] \<Longrightarrow> fst (catchUp_loop read prepare g e fuel nxt w2) \<noteq> Inr None"
      by (auto intro!: Suc.IH)
    then show ?thesis using read Inr batch body
      by (auto simp: catchUp_loop.simps [of _ _ _ _ "Suc fuel"] bindA_def thenA_def returnA_def
          split: sum.splits)
  qed
qed simp

section \<open>What is caught up\<close>

text \<open>The entities after a list of events, each overwriting the last value of its entity\<close>

definition replay :: "gen_event list \<Rightarrow> (string \<times> gen_value) list \<Rightarrow> (string \<times> gen_value) list" where
  "replay events d = fold (\<lambda>ev. AList.update (the (ge_entityId ev))
     \<lparr>gv_revision = ge_revid ev, gv_value = Some (case ge_value ev of None \<Rightarrow> [] | Some v \<Rightarrow> v)\<rparr>) events d"

definition has_entity :: "gen_event \<Rightarrow> bool" where
  "has_entity ev = (case ge_entityId ev of None \<Rightarrow> False | Some e \<Rightarrow> entity_id e)"

text \<open>A source that delivers given batches one after the other\<close>

definition batches_read :: "(gen_event list \<times> cursor) list gen_reader" where
  "batches_read c k = (\<lambda>bs. case bs of [] \<Rightarrow> (Inr ([], c), []) | b # bs' \<Rightarrow> (Inr b, bs'))"

text \<open>The generation under construction holds exactly these entities\<close>

definition holds_data :: "string \<Rightarrow> (string \<times> gen_value) list \<Rightarrow> gen_backend \<Rightarrow> bool" where
  "holds_data g d b = (case gen_of b g of
     None \<Rightarrow> False
   | Some r \<Rightarrow> generation_id g \<and> g_data r = d \<and> List.member [''LOADING'', ''CATCHING_UP''] (g_state r))"

lemma default_change_ok:
  "generation_id g \<Longrightarrow> has_entity ev \<Longrightarrow>
   default_change g ev = Inr \<lparr>gc_entityId = the (ge_entityId ev), gc_revision = ge_revid ev,
     gc_source = (case ge_value ev of None \<Rightarrow> [] | Some v \<Rightarrow> v)\<rparr>"
  by (auto simp: default_change_def generationGraphIri_def validateGenerationId_if has_entity_def
      partition_iff split: option.splits)

lemma wp_on_backend [wp_simps]:
  "wp (on_backend m) Q w = wp m (\<lambda>r b. Q r ((fst (fst w), b), snd w)) (snd (fst w))"
  by (simp add: on_backend_def wp_on_fst wp_on_snd)

lemma wp_on_staged [wp_simps]:
  "wp (on_staged m) Q w = wp m (\<lambda>r st. Q r ((st, snd (fst w)), snd w)) (fst (fst w))"
  by (simp add: on_staged_def wp_on_fst)

lemma catchUp_event_holds:
  "holds_data g d (snd (fst w)) \<Longrightarrow> has_entity ev \<Longrightarrow>
   wp (catchUp_event None g ev) (\<lambda>r w'. r = Inr () \<and> holds_data g (replay [ev] d) (snd (fst w')) \<and>
     fst (fst w') = fst (fst w) \<and> snd w' = snd w) w"
  by (auto simp: catchUp_event_def wp_simps holds_data_def default_change_ok
      applyEntityChangeToGeneration_def replay_def split: option.splits if_splits)

lemma forA_holds:
  "holds_data g d (snd (fst w)) \<Longrightarrow> list_all has_entity evs \<Longrightarrow>
   wp (forA evs (catchUp_event None g)) (\<lambda>r w'. r = Inr () \<and>
     holds_data g (replay evs d) (snd (fst w')) \<and> fst (fst w') = fst (fst w) \<and> snd w' = snd w) w"
proof (induction evs arbitrary: d w)
  case (Cons ev evs)
  have *: "replay (ev # evs) d = replay evs (replay [ev] d)" by (simp add: replay_def)
  show ?case unfolding forA.simps wp_simps
    by (rule wp_mono [OF catchUp_event_holds [OF Cons.prems(1)]])
       (use Cons in \<open>auto simp: * intro!: wp_mono [OF Cons.IH]\<close>)
qed (simp add: wp_simps replay_def)

lemma catchUp_loop_holds:
  "holds_data g d (snd (fst w)) \<Longrightarrow> snd w = bs \<Longrightarrow>
   list_all (\<lambda>(evs, _). evs \<noteq> [] \<and> list_all has_entity evs) bs \<Longrightarrow> length bs < fuel \<Longrightarrow>
   wp (catchUp_loop batches_read None g None fuel c) (\<lambda>r w'.
     (\<exists>c'. r = Inr (Some c')) \<and> holds_data g (replay (concat (map fst bs)) d) (snd (fst w')) \<and>
     fst (fst w') = fst (fst w)) w"
proof (induction bs arbitrary: d w fuel c)
  case Nil
  then obtain k where "fuel = Suc k" by (cases fuel) auto
  with Nil show ?case
    by (simp add: catchUp_loop.simps [of _ _ _ _ "Suc k"] wp_simps before_end_def)
       (simp add: wp_def batches_read_def replay_def returnA_def)
next
  case (Cons batch bs)
  obtain evs nxt where b: "batch = (evs, nxt)" by fastforce
  from Cons.prems(4) obtain k where k: "fuel = Suc k" "length bs < k" by (cases fuel) auto
  have *: "replay (concat (map fst (batch # bs))) d = replay (concat (map fst bs)) (replay evs d)"
    by (simp add: replay_def b)
  have ne: "evs \<noteq> []" and evs: "list_all has_entity evs"
    and bs: "list_all (\<lambda>(evs, _). evs \<noteq> [] \<and> list_all has_entity evs) bs"
    using Cons.prems(3) b by auto
  let ?w = "(fst w, bs)"
  have read: "wp (on_snd (batches_read c 100)) Q w = Q (Inr (evs, nxt)) ?w" for Q
    using Cons.prems(2) b by (simp add: wp_on_snd) (simp add: wp_def batches_read_def)
  have "wp (forA evs (catchUp_event None g)) (\<lambda>r w'. r = Inr () \<and>
     holds_data g (replay evs d) (snd (fst w')) \<and> fst (fst w') = fst (fst ?w) \<and> snd w' = snd ?w) ?w"
    by (rule forA_holds) (use Cons.prems(1) evs in simp_all)
  then show ?case
    unfolding * k(1) catchUp_loop.simps [of _ _ _ _ "Suc k"]
    using ne Cons.IH [OF _ _ bs k(2)]
    by (simp add: before_end_def wp_bindA read wp_thenA) (erule wp_mono, force)
qed

section \<open>Properties\<close>

text \<open>C26: while a new generation is staged and caught up, whatever the snapshot, the change source and the
  engine deliver and even if the rebuild fails on the way, the serving generation stays the serving
  one and its row, with all its data, stays as it is.\<close>

theorem rebuild_isolation:
  assumes "reachable_backend b"
    "thenA (stage now i snapshot c) (catchUp read prepare fuel i c1 c2) ((st, b), s) = (r, ((st', b'), s'))"
  shows "gb_active b' = gb_active b \<and>
     (\<forall>g. gb_active b = Some g \<longrightarrow> gen_of b' g = gen_of b g) \<and> serving_ok b'"
proof -
  have "keeps_service (thenA (stage now i snapshot c) (catchUp read prepare fuel i c1 c2))"
    by (intro keeps_service_intros stage_keeps catchUp_keeps)
  from movesD [OF this [unfolded keeps_service_def] assms(2)]
  have "same_service b b'" using reachable_backend_inv [OF assms(1)] by simp
  then show ?thesis
    by (cases "gb_active b'"; cases "gb_active b")
       (auto simp: same_service_def served_def backend_inv_def)
qed

definition demo_events :: "(gen_event list \<times> cursor) list" where
  "demo_events =
     [([\<lparr>ge_entityId = Some ''Q1'', ge_revid = 3, ge_value = Some ''z''\<rparr>,
        \<lparr>ge_entityId = Some ''P2'', ge_revid = 4, ge_value = None\<rparr>],
       \<lparr>cur_source = ''s'', cur_timestamp = ''2020-01-02T00:00:00Z'', cur_rcid = 4\<rparr>)]"

definition demo_snapshot :: "(string \<times> gen_value) list" where
  "demo_snapshot = [(''Q1'', \<lparr>gv_revision = 2, gv_value = Some ''y''\<rparr>)]"

definition serving_backend :: gen_backend where
  "serving_backend = run_gen_ops (take 4 demo_ops) new_backend"

lemma serving_backend_reachable: "reachable_backend serving_backend"
  unfolding serving_backend_def
  by (rule reachable_fold [OF reachable_backend.start]) (simp add: demo_ops_def)

theorem rebuild_isolation_witness:
  "\<exists>r st' b' s'.
     thenA (stage ''t'' ''new'' demo_snapshot None)
       (catchUp batches_read None 5 ''new'' FIRST_CURSOR None)
       (([], serving_backend), demo_events) = (r, ((st', b'), s')) \<and>
     gb_active serving_backend = Some ''gen-a'' \<and> gb_active b' = Some ''gen-a'' \<and>
     map_option g_state (gen_of b' ''gen-new'') = Some ''READY''"
proof -
  let ?m = "thenA (stage ''t'' ''new'' demo_snapshot None)
       (catchUp batches_read None 5 ''new'' FIRST_CURSOR None) (([], serving_backend), demo_events)"
  obtain r st' b' s' where run: "?m = (r, ((st', b'), s'))" by (metis prod.collapse)
  have "map_option g_state (gen_of (snd (fst (snd ?m))) ''gen-new'') = Some ''READY''" by code_simp
  moreover have "gb_active serving_backend = Some ''gen-a''" by code_simp
  ultimately show ?thesis
    using rebuild_isolation [OF serving_backend_reachable run] run by auto
qed

text \<open>C34: The catch-up of a rebuild ends.  Over a change source that reads a finite log, where a batch with
  events ends at a position of the log after the cursor it was asked with, the loop needs no more rounds
  than the log has positions after the start cursor, plus one: it asks each time from where the last
  batch ended.\<close>

theorem catchUp_ends:
  assumes "reads_log log read" "length (filter (position_after startCursor) log) < fuel"
  shows "fst (catchUp read prepare fuel i startCursor endCursor ((st, b), s)) \<noteq> Inr None"
proof (cases "map_of st i")
  case None
  then show ?thesis
    by (simp add: catchUp_def staged_generation_def on_staged_def on_fst_def readA_def bindA_def raiseA_def)
next
  case (Some g)
  then have *: "staged_generation i ((st, b), s) = (Inr g, ((st, b), s))"
    by (simp add: staged_generation_def on_staged_def on_fst_def readA_def bindA_def returnA_def)
  have "fst (catchUp_loop read prepare g endCursor fuel startCursor ((st, b), s)) \<noteq> Inr None"
    by (rule catchUp_loop_returns [OF assms])
  then show ?thesis unfolding catchUp_def
    by (auto simp: * bindA_def thenA_def returnA_def split: prod.splits sum.splits option.splits)
qed

text \<open>A log with positions of its own, read without a state\<close>

definition log_read :: "(cursor \<times> gen_event) list \<Rightarrow> unit gen_reader" where
  "log_read log c n = (let found = take n (filter (position_after c \<circ> fst) log) in
     returnA (map snd found, if found = [] then c else fst (last found)))"

lemma log_read_reads: "reads_log (map fst log) (log_read log)"
proof -
  have "fst (last (take n (filter (position_after c \<circ> fst) log))) \<in> set (map fst log) \<and>
      position_after c (fst (last (take n (filter (position_after c \<circ> fst) log))))"
    if "take n (filter (position_after c \<circ> fst) log) \<noteq> []" for c n
    using in_set_takeD [OF last_in_set [OF that]] by auto
  then show ?thesis by (auto simp: reads_log_def log_read_def Let_def returnA_def)
qed

definition demo_log :: "(cursor \<times> gen_event) list" where
  "demo_log = map (\<lambda>n. (\<lparr>cur_source = ''s'', cur_timestamp = ''2020-01-02T00:00:00Z'', cur_rcid = n\<rparr>,
     \<lparr>ge_entityId = Some ''Q1'', ge_revid = n, ge_value = Some ''z''\<rparr>)) [4, 5]"

definition staged_rebuild :: "unit rebuild_world" where
  "staged_rebuild = snd (stage ''t'' ''new'' demo_snapshot None (([], serving_backend), ()))"

theorem catchUp_ends_witness:
  "fst (catchUp (log_read demo_log) None 3 ''new'' FIRST_CURSOR None staged_rebuild) = Inr (Some ())"
proof -
  have l: "length (filter (position_after FIRST_CURSOR) (map fst demo_log)) < 3" by (simp add: demo_log_def)
  obtain st b where w: "staged_rebuild = ((st, b), ())" by (cases staged_rebuild) auto
  have "is_ok (fst (catchUp (log_read demo_log) None 3 ''new'' FIRST_CURSOR None staged_rebuild))" by code_simp
  moreover have "fst (catchUp (log_read demo_log) None 3 ''new'' FIRST_CURSOR None staged_rebuild) \<noteq> Inr None"
    using catchUp_ends [OF log_read_reads l, of None "''new''" None st b "()"] unfolding w .
  ultimately show ?thesis
    by (cases "fst (catchUp (log_read demo_log) None 3 ''new'' FIRST_CURSOR None staged_rebuild)") auto
qed

text \<open>What a caught-up generation holds is the snapshot it was staged from with every event delivered
  since replayed on top of it, in order: for a source that delivers any batches of entity events, a
  stage that succeeds is followed by a catch-up that succeeds, and the staged generation is then
  \<open>READY\<close> and \<open>VALID\<close> with exactly these entities.\<close>

theorem rebuild_replays:
  assumes "stage now i snapshot c ((st, b), batches) = (Inr (), ((st1, b1), s1))"
    "list_all (\<lambda>(evs, _). evs \<noteq> [] \<and> list_all has_entity evs) batches" "length batches < fuel"
  shows "\<exists>r b2 s2. catchUp batches_read None fuel i c1 None ((st1, b1), s1) =
       (Inr (Some ()), ((st1, b2), s2)) \<and>
     gen_of b2 (''gen-'' @ i) = Some r \<and> g_state r = ''READY'' \<and> g_validation r = ''VALID'' \<and>
     g_data r = replay (concat (map fst batches)) (map_from snapshot)"
proof -
  let ?g = "''gen-'' @ i" and ?d = "replay (concat (map fst batches)) (map_from snapshot)"
  have 1: "holds_data ?g (map_from snapshot) b1 \<and> map_of st1 i = Some ?g \<and> s1 = batches"
  proof -
    have "wp (stage now i snapshot c) (\<lambda>r w'. r = Inr () \<longrightarrow>
        holds_data ?g (map_from snapshot) (snd (fst w')) \<and>
        map_of (fst (fst w')) i = Some ?g \<and> snd w' = batches) ((st, b), batches)"
      by (auto simp: stage_def wp_simps validateGenerationId_if createGeneration_def Let_def
          loadSnapshotIntoGeneration_def holds_data_def update_conv' split: option.splits sum.splits if_splits)
    from wpD [OF this assms(1)] show ?thesis by simp
  qed
  have staged: "staged_generation i ((st1, b1), s1) = (Inr ?g, ((st1, b1), s1))"
    using 1 by (simp add: staged_generation_def on_staged_def on_fst_def readA_def bindA_def returnA_def)
  have "wp (catchUp batches_read None fuel i c1 None) (\<lambda>q w'. q = Inr (Some ()) \<and> fst (fst w') = st1 \<and>
      (\<exists>r. gen_of (snd (fst w')) ?g = Some r \<and> g_state r = ''READY'' \<and> g_validation r = ''VALID'' \<and>
        g_data r = ?d)) ((st1, b1), s1)"
    unfolding catchUp_def wp_bindA
    apply (simp add: wp_def [of "staged_generation i"] staged)
    apply (rule wp_mono [OF catchUp_loop_holds [OF _ _ assms(2,3)]])
    using 1 by (auto simp: wp_simps validateGeneration_def holds_data_def split: option.splits if_splits)
  then show ?thesis by (auto simp: wp_def split: prod.splits)
qed

theorem rebuild_replays_witness:
  "\<exists>r b2 s2 w. catchUp batches_read None 5 ''new'' FIRST_CURSOR None w = (Inr (Some ()), ((fst (fst w), b2), s2)) \<and>
     gen_of b2 ''gen-new'' = Some r \<and>
     map_of (g_data r) ''Q1'' = Some \<lparr>gv_revision = 3, gv_value = Some ''z''\<rparr>"
proof -
  let ?s = "stage ''t'' ''new'' demo_snapshot None (([], serving_backend), demo_events)"
  obtain q st1 b1 s1 where run: "?s = (q, ((st1, b1), s1))" by (metis prod.collapse)
  have "fst ?s = Inr ()" by code_simp
  with run have run': "?s = (Inr (), ((st1, b1), s1))" by simp
  have "list_all (\<lambda>(evs, _). evs \<noteq> [] \<and> list_all has_entity evs) demo_events" "length demo_events < 5"
    by code_simp+
  from rebuild_replays [OF run' this, of FIRST_CURSOR] obtain r b2 s2 where
    w: "catchUp batches_read None 5 ''new'' FIRST_CURSOR None ((st1, b1), s1) = (Inr (Some ()), ((st1, b2), s2))"
      "gen_of b2 ''gen-new'' = Some r"
      "g_data r = replay (concat (map fst demo_events)) (map_from demo_snapshot)" by auto
  have "map_of (replay (concat (map fst demo_events)) (map_from demo_snapshot)) ''Q1'' =
      Some \<lparr>gv_revision = 3, gv_value = Some ''z''\<rparr>" by code_simp
  with w show ?thesis by (intro exI [of _ r] exI [of _ b2] exI [of _ s2] exI [of _ "((st1, b1), s1)"]) simp
qed

text \<open>C27: the cutover is a switch: when it succeeds the staged generation is the one that serves, with the
  data it had, the previous one is \<open>RETIRING\<close> and the stage is forgotten; when it fails, the same
  generation serves as before, with the same data.\<close>

theorem cutover_switches:
  assumes "reachable_backend b" "cutover p i ((st, b), s) = (r, ((st', b'), s'))"
  shows "case r of
      Inl e \<Rightarrow> gb_active b' = gb_active b \<and> (\<forall>g. gb_active b = Some g \<longrightarrow> gen_of b' g = gen_of b g)
    | Inr pr \<Rightarrow> (\<exists>g row row'. map_of st i = Some g \<and> map_of st' i = None \<and> gb_active b' = Some g \<and>
        gen_of b g = Some row \<and> gen_of b' g = Some row' \<and> g_data row' = g_data row \<and> g_serving row' \<and>
        pr_from pr = gb_active b \<and> gb_active b \<noteq> Some g \<and>
        (\<forall>h. gb_active b = Some h \<longrightarrow>
          map_option (\<lambda>x. (g_state x, g_serving x)) (gen_of b' h) = Some (''RETIRING'', False)))"
proof -
  have inv: "backend_inv b" by (rule reachable_backend_inv [OF assms(1)])
  then have rows: "\<And>j x. gen_of b j = Some x \<Longrightarrow> g_id x = j \<and> generation_id j"
    and srv: "\<And>j x. gen_of b j = Some x \<Longrightarrow> gb_active b = Some j \<Longrightarrow> g_state x = ''SERVING''"
    and act: "\<And>j. gb_active b = Some j \<Longrightarrow> \<exists>x. gen_of b j = Some x"
    by (auto simp: backend_inv_def serving_ok_def)
  have "wp (cutover p i) (\<lambda>r w'. case r of
      Inl e \<Rightarrow> gb_active (snd (fst w')) = gb_active b \<and>
        (\<forall>g. gb_active b = Some g \<longrightarrow> gen_of (snd (fst w')) g = gen_of b g)
    | Inr pr \<Rightarrow> (\<exists>g row row'. map_of st i = Some g \<and> map_of (fst (fst w')) i = None \<and>
        gb_active (snd (fst w')) = Some g \<and> gen_of b g = Some row \<and>
        gen_of (snd (fst w')) g = Some row' \<and> g_data row' = g_data row \<and> g_serving row' \<and>
        pr_from pr = gb_active b \<and> gb_active b \<noteq> Some g \<and>
        (\<forall>h. gb_active b = Some h \<longrightarrow>
          map_option (\<lambda>x. (g_state x, g_serving x)) (gen_of (snd (fst w')) h) = Some (''RETIRING'', False))))
      ((st, b), s)"
    by (auto simp: cutover_def staged_generation_def wp_simps getServingGeneration_def
        validateGeneration_def promoteGeneration_def Let_def delete_conv' dest: rows srv act
        split: option.splits if_splits)
  from wpD [OF this assms(2)] show ?thesis by (simp only: fst_conv snd_conv)
qed

theorem cutover_switches_witness:
  "\<exists>(w :: unit rebuild_world) pr w'. cutover ''p9'' ''new'' w = (Inr pr, w') \<and> gb_active (snd (fst w)) = Some ''gen-a'' \<and>
     gb_active (snd (fst w')) = Some ''gen-new''"
proof -
  define b where "b = run_gen_ops [Create ''t'' ''gen-new'' FIRST_CURSOR, Load ''gen-new'' demo_snapshot,
      Validate ''gen-new'' None] serving_backend"
  have r: "reachable_backend b" unfolding b_def
    by (rule reachable_fold [OF serving_backend_reachable]) simp
  let ?m = "cutover ''p9'' ''new'' (([(''new'', ''gen-new'')], b), ())"
  obtain q st' b' s' where run: "?m = (q, ((st', b'), s'))" by (metis prod.collapse)
  have "is_ok (fst ?m)" unfolding b_def by code_simp
  then obtain pr where q: "q = Inr pr" using run by (auto simp: is_ok_iff)
  have "gb_active b = Some ''gen-a''" unfolding b_def by code_simp
  with cutover_switches [OF r run] q run show ?thesis
    by (intro exI [of _ "(([(''new'', ''gen-new'')], b), ())"] exI [of _ pr]
        exI [of _ "((st', b'), s')"]) auto
qed

end
