(* ===== verification/RdfBackendContract.thy ===== *)
theory RdfBackendContract
  imports JsValue
begin

text \<open>
  \<open>packages/rdf-domain/src/rdf-backend.js\<close>: the backend types, the capability metadata and its
  validation, and the abstract class whose methods all throw; the profiles of
  \<open>services/rdf-backends/src/profiles.js\<close>; the guarantees of
  \<open>packages/rdf-domain/src/query-serving.js\<close>.
\<close>

definition RDF_BACKEND_TYPES :: "string list" where
  "RDF_BACKEND_TYPES = [''virtuoso'', ''fuseki-tdb2'', ''blazegraph-wdqs'', ''oxigraph'', ''qlever'']"

definition RDF_BACKEND_CAPABILITY_NAMES :: "string list" where
  "RDF_BACKEND_CAPABILITY_NAMES =
     [''sparql11Query'', ''sparql11Update'', ''namedGraphs'', ''transactionalUpdate'',
      ''graphStoreProtocol'', ''serviceFederation'', ''fullTextSearch'', ''geoSparql'',
      ''wikibaseLabelService'', ''isolatedGenerations'', ''atomicServingCutover'',
      ''rollbackCutover'', ''generationDelete'', ''generationQuery'']"

record backend_metadata =
  bm_backendType :: string
  bm_capabilities :: "(string \<times> bool) list"

text \<open>An object that is not an array; \<open>Object.keys\<close> lists its properties in their order.\<close>

fun js_object :: "jsval \<Rightarrow> (string \<times> jsval) list option" where
  "js_object (JObj ps) = Some ps"
| "js_object _ = None"

fun js_bool :: "jsval \<Rightarrow> bool option" where
  "js_bool (JBool b) = Some b"
| "js_bool _ = None"

text \<open>The loop that copies the capabilities, in the order of their names\<close>

fun normalize_capabilities :: "jsval \<Rightarrow> string list \<Rightarrow> (string \<times> bool) list result" where
  "normalize_capabilities v [] = Inr []"
| "normalize_capabilities v (name # names) =
     (case js_bool (js_prop v name) of
        None \<Rightarrow> Inl (''RDF backend capability '' @ name @ '' must be boolean'')
      | Some b \<Rightarrow> bindR (normalize_capabilities v names) (\<lambda>rest. Inr ((name, b) # rest)))"

definition validateRdfBackendMetadata :: "jsval \<Rightarrow> backend_metadata result" where
  "validateRdfBackendMetadata value =
     (case js_object value of
        None \<Rightarrow> Inl ''RDF backend metadata must be an object''
      | Some _ \<Rightarrow>
      (case js_prop value ''backendType'' of
        JStr backendType \<Rightarrow>
          if \<not> List.member RDF_BACKEND_TYPES backendType
          then Inl ''RDF backend type is not supported''
          else
          (case js_object (js_prop value ''capabilities'') of
             None \<Rightarrow> Inl ''RDF backend capabilities must be an object''
           | Some ps \<Rightarrow>
               let keys = map fst ps;
                   unknown = filter (\<lambda>k. \<not> List.member RDF_BACKEND_CAPABILITY_NAMES k) keys;
                   missing = filter (\<lambda>k. \<not> List.member keys k) RDF_BACKEND_CAPABILITY_NAMES
               in if unknown \<noteq> []
                  then Inl (''unknown RDF backend capabilities: '' @ join '', '' unknown)
                  else if missing \<noteq> []
                  then Inl (''missing RDF backend capabilities: '' @ join '', '' missing)
                  else bindR (normalize_capabilities (JObj ps) RDF_BACKEND_CAPABILITY_NAMES) (\<lambda>cs.
                    Inr \<lparr>bm_backendType = backendType, bm_capabilities = cs\<rparr>))
      | _ \<Rightarrow> Inl ''RDF backend type is not supported''))"

section \<open>The abstract class\<close>

definition notImplemented :: "string \<Rightarrow> 'a result" where
  "notImplemented operation = Inl (''RdfBackend.'' @ operation @ '' is not implemented'')"

text \<open>The methods of the class, each with the operation its body names\<close>

definition RdfBackend_methods :: "(string \<times> string) list" where
  "RdfBackend_methods =
     [(''metadata'', ''metadata''),
      (''initialize'', ''initialize''),
      (''health'', ''health''),
      (''loadSnapshot'', ''loadSnapshot''),
      (''replaceDataset'', ''replaceDataset''),
      (''applyEntityChange'', ''applyEntityChange''),
      (''replaceNamedGraph'', ''replaceNamedGraph''),
      (''deleteNamedGraph'', ''deleteNamedGraph''),
      (''createGeneration'', ''createGeneration''),
      (''loadSnapshotIntoGeneration'', ''loadSnapshotIntoGeneration''),
      (''applyEntityChangeToGeneration'', ''applyEntityChangeToGeneration''),
      (''deleteEntityFromGeneration'', ''deleteEntityFromGeneration''),
      (''queryGeneration'', ''queryGeneration''),
      (''validateGeneration'', ''validateGeneration''),
      (''getServingGeneration'', ''getServingGeneration''),
      (''promoteGeneration'', ''promoteGeneration''),
      (''rollbackPromotion'', ''rollbackPromotion''),
      (''retireGeneration'', ''retireGeneration''),
      (''deleteGeneration'', ''deleteGeneration''),
      (''listGenerations'', ''listGenerations''),
      (''sparqlQueryEndpoint'', ''sparqlQueryEndpoint''),
      (''internalUpdateEndpoint'', ''internalUpdateEndpoint''),
      (''query'', ''query''),
      (''exportDataset'', ''exportDataset''),
      (''rebuild'', ''rebuild''),
      (''reset'', ''reset''),
      (''shutdown'', ''shutdown'')]"

text \<open>
  A call of a method of a class that extends it: \<open>own\<close> are the methods the class declares itself.
\<close>

definition backend_call :: "(string \<times> 'a result) list \<Rightarrow> string \<Rightarrow> 'a result" where
  "backend_call own name =
     (case map_of own name of
        Some r \<Rightarrow> r
      | None \<Rightarrow> (case map_of RdfBackend_methods name of
          Some operation \<Rightarrow> notImplemented operation
        | None \<Rightarrow> Inl ''TypeError''))"

section \<open>Profiles\<close>

text \<open>\<open>{...base, k: v, ...}\<close>\<close>

definition with_props :: "(string \<times> bool) list \<Rightarrow> (string \<times> bool) list \<Rightarrow> (string \<times> bool) list" where
  "with_props base changes = map (\<lambda>(k, v). (k, case map_of changes k of None \<Rightarrow> v | Some w \<Rightarrow> w)) base"

definition profile_base :: "(string \<times> bool) list" where
  "profile_base =
     [(''sparql11Query'', True), (''sparql11Update'', True), (''namedGraphs'', True),
      (''transactionalUpdate'', False), (''graphStoreProtocol'', True), (''serviceFederation'', False),
      (''fullTextSearch'', False), (''geoSparql'', False), (''wikibaseLabelService'', False),
      (''isolatedGenerations'', False), (''atomicServingCutover'', False), (''rollbackCutover'', False),
      (''generationDelete'', False), (''generationQuery'', False)]"

definition RDF_BACKEND_PROFILES :: "(string \<times> backend_metadata) list" where
  "RDF_BACKEND_PROFILES =
     [(''fuseki-tdb2'', \<lparr>bm_backendType = ''fuseki-tdb2'', bm_capabilities =
        with_props profile_base [(''transactionalUpdate'', True), (''serviceFederation'', True)]\<rparr>),
      (''oxigraph'', \<lparr>bm_backendType = ''oxigraph'', bm_capabilities =
        with_props profile_base [(''transactionalUpdate'', True), (''serviceFederation'', True)]\<rparr>),
      (''virtuoso'', \<lparr>bm_backendType = ''virtuoso'', bm_capabilities =
        with_props profile_base [(''serviceFederation'', True), (''fullTextSearch'', True)]\<rparr>),
      (''blazegraph-wdqs'', \<lparr>bm_backendType = ''blazegraph-wdqs'', bm_capabilities =
        with_props profile_base [(''graphStoreProtocol'', False), (''wikibaseLabelService'', True)]\<rparr>)]"

definition QUERY_SERVING_CAPABILITIES :: "(string \<times> bool) list" where
  "QUERY_SERVING_CAPABILITIES =
     [(''isolatedPhysicalTargets'', True), (''requestBoundaryCutover'', True),
      (''compareAndSwapPointer'', True), (''rollbackPointer'', True),
      (''multipleRouterConvergence'', True)]"

text \<open>\<open>MemoryGenerationBackend.metadata\<close>\<close>

definition memory_backend_metadata :: backend_metadata where
  "memory_backend_metadata = \<lparr>bm_backendType = ''oxigraph'', bm_capabilities =
     [(''sparql11Query'', True), (''sparql11Update'', True), (''namedGraphs'', True),
      (''transactionalUpdate'', True), (''graphStoreProtocol'', True), (''serviceFederation'', False),
      (''fullTextSearch'', False), (''geoSparql'', False), (''wikibaseLabelService'', False),
      (''isolatedGenerations'', True), (''atomicServingCutover'', True), (''rollbackCutover'', True),
      (''generationDelete'', True), (''generationQuery'', True)]\<rparr>"

section \<open>Properties\<close>

text \<open>Metadata as the object that \<open>validateRdfBackendMetadata\<close> returns\<close>

definition metadata_value :: "backend_metadata \<Rightarrow> jsval" where
  "metadata_value m = JObj [(''backendType'', JStr (bm_backendType m)),
     (''capabilities'', JObj (map (\<lambda>(k, b). (k, JBool b)) (bm_capabilities m)))]"

definition well_described :: "backend_metadata \<Rightarrow> bool" where
  "well_described m \<longleftrightarrow> bm_backendType m \<in> set RDF_BACKEND_TYPES \<and>
     map fst (bm_capabilities m) = RDF_BACKEND_CAPABILITY_NAMES"

lemma js_bool_eq [simp]: "js_bool v = Some b \<longleftrightarrow> v = JBool b"
  by (cases v) auto

lemma js_object_eq [simp]: "js_object v = Some ps \<longleftrightarrow> v = JObj ps"
  by (cases v) auto

lemma normalize_names: "normalize_capabilities v names = Inr cs \<Longrightarrow> map fst cs = names"
  by (induction names arbitrary: cs) (auto simp: bindR_eq_Inr split: option.splits)

lemma normalize_values:
  "normalize_capabilities v names = Inr cs \<Longrightarrow> (k, b) \<in> set cs \<Longrightarrow> js_prop v k = JBool b"
  by (induction names arbitrary: cs) (auto simp: bindR_eq_Inr split: option.splits)

lemma normalize_booleans:
  "(\<And>k. k \<in> set names \<Longrightarrow> js_prop v k = JBool (f k)) \<Longrightarrow>
   normalize_capabilities v names = Inr (map (\<lambda>k. (k, f k)) names)"
  by (induction names) auto

lemma capability_names_distinct: "distinct RDF_BACKEND_CAPABILITY_NAMES"
  by code_simp

lemma validate_Inr:
  "validateRdfBackendMetadata v = Inr m \<longleftrightarrow>
     (\<exists>ps. js_object v \<noteq> None \<and> js_prop v ''backendType'' = JStr (bm_backendType m) \<and>
       bm_backendType m \<in> set RDF_BACKEND_TYPES \<and> js_prop v ''capabilities'' = JObj ps \<and>
       set (map fst ps) = set RDF_BACKEND_CAPABILITY_NAMES \<and>
       normalize_capabilities (JObj ps) RDF_BACKEND_CAPABILITY_NAMES = Inr (bm_capabilities m))"
  unfolding validateRdfBackendMetadata_def Let_def
  by (cases m) (auto simp: filter_empty_conv bindR_eq_Inr split: option.splits jsval.splits if_splits)

text \<open>What \<open>validateRdfBackendMetadata\<close> returns names a supported backend type and states every
  capability exactly once, in the fixed order; and every such description, written as an object, is
  accepted and comes back unchanged.\<close>

theorem metadata_roundtrip:
  "(\<forall>v m. validateRdfBackendMetadata v = Inr m \<longrightarrow> well_described m) \<and>
   (\<forall>m. well_described m \<longrightarrow> validateRdfBackendMetadata (metadata_value m) = Inr m)"
proof (intro conjI allI impI)
  fix v m assume "validateRdfBackendMetadata v = Inr m"
  then show "well_described m"
    unfolding validate_Inr by (auto simp: well_described_def dest: normalize_names)
next
  fix m assume m: "well_described m"
  let ?cs = "bm_capabilities m"
  let ?ps = "map (\<lambda>(k, b). (k, JBool b)) ?cs"
  have names: "map fst ?cs = RDF_BACKEND_CAPABILITY_NAMES" using m by (simp add: well_described_def)
  have val: "js_prop (JObj ?ps) k = JBool (the (map_of ?cs k))"
    if "k \<in> set RDF_BACKEND_CAPABILITY_NAMES" for k
  proof -
    from that names have "k \<in> fst ` set ?cs" by (metis list.set_map)
    then obtain b where "map_of ?cs k = Some b" by (metis map_of_eq_None_iff not_None_eq)
    then show ?thesis by (simp add: map_of_map)
  qed
  have "normalize_capabilities (JObj ?ps) RDF_BACKEND_CAPABILITY_NAMES =
      Inr (map (\<lambda>k. (k, the (map_of ?cs k))) RDF_BACKEND_CAPABILITY_NAMES)"
    by (rule normalize_booleans) (rule val)
  also have "map (\<lambda>k. (k, the (map_of ?cs k))) RDF_BACKEND_CAPABILITY_NAMES = ?cs"
  proof -
    have "distinct (map fst ?cs)" using names capability_names_distinct by simp
    then have "map (\<lambda>p. (fst p, the (map_of ?cs (fst p)))) ?cs = ?cs"
      by (intro map_idI) (auto simp: map_of_is_SomeI)
    then show ?thesis by (simp flip: names add: comp_def)
  qed
  finally have norm: "normalize_capabilities (JObj ?ps) RDF_BACKEND_CAPABILITY_NAMES = Inr ?cs" .
  have "map fst ?ps = RDF_BACKEND_CAPABILITY_NAMES"
    unfolding names [symmetric] by (simp add: case_prod_beta comp_def)
  then have keys: "set (map fst ?ps) = set RDF_BACKEND_CAPABILITY_NAMES" by simp
  show "validateRdfBackendMetadata (metadata_value m) = Inr m"
    unfolding validate_Inr
    by (rule exI [of _ ?ps])
       (use norm keys m in \<open>auto simp: metadata_value_def well_described_def\<close>)
qed

theorem metadata_roundtrip_witness:
  "validateRdfBackendMetadata (metadata_value memory_backend_metadata) = Inr memory_backend_metadata \<and>
   well_described memory_backend_metadata"
proof -
  have "well_described memory_backend_metadata"
    by (simp add: well_described_def memory_backend_metadata_def RDF_BACKEND_TYPES_def
        RDF_BACKEND_CAPABILITY_NAMES_def)
  with metadata_roundtrip show ?thesis by blast
qed

text \<open>Every profile passes the validation at the integration boundary.\<close>

lemma profiles_validate:
  "list_all (\<lambda>(k, m). bm_backendType m = k \<and>
     validateRdfBackendMetadata (metadata_value m) = Inr m) RDF_BACKEND_PROFILES"
  by code_simp

text \<open>Every method of the abstract class reports itself.\<close>

lemma abstract_methods_report_themselves:
  "list_all (\<lambda>(name, _). (backend_call [] name :: unit result) =
     Inl (''RdfBackend.'' @ name @ '' is not implemented'')) RdfBackend_methods"
  by code_simp

text \<open>
  The methods \<open>MemoryGenerationBackend\<close> declares: it advertises \<open>sparql11Query\<close>, but its
  \<open>query\<close> is the abstract one.
\<close>

definition MEMORY_BACKEND_METHODS :: "string list" where
  "MEMORY_BACKEND_METHODS =
     [''metadata'', ''createGeneration'', ''loadSnapshotIntoGeneration'',
      ''applyEntityChangeToGeneration'', ''deleteEntityFromGeneration'', ''queryGeneration'',
      ''validateGeneration'', ''getServingGeneration'', ''promoteGeneration'', ''rollbackPromotion'',
      ''retireGeneration'', ''deleteGeneration'', ''listGenerations'']"

text \<open>The in-memory backend advertises SPARQL queries and the graph store protocol, and calling its
  \<open>query\<close> or \<open>replaceNamedGraph\<close> throws the \<open>not implemented\<close> error of the abstract class.\<close>

theorem memory_backend_overstates:
  "map_of (bm_capabilities memory_backend_metadata) ''sparql11Query'' = Some True \<and>
   map_of (bm_capabilities memory_backend_metadata) ''graphStoreProtocol'' = Some True \<and>
   backend_call (map (\<lambda>k. (k, Inr ())) MEMORY_BACKEND_METHODS) ''query'' =
     Inl ''RdfBackend.query is not implemented'' \<and>
   backend_call (map (\<lambda>k. (k, Inr ())) MEMORY_BACKEND_METHODS) ''replaceNamedGraph'' =
     Inl ''RdfBackend.replaceNamedGraph is not implemented''"
  by code_simp

end
