(* ===== verification/RdfLines.thy ===== *)
theory RdfLines
  imports Identifiers
begin

text \<open>
  N-Triples documents as the source handles them: text split into lines, blank and comment lines
  dropped, and sets of lines written back sorted and without duplicates.  The normalizer, the
  partitioner and the canonicalizer share these operations and facts.
\<close>

text \<open>\<open>rdf.split('\n').map(trim)\<close> without the empty lines and the comments\<close>

definition is_content :: "string \<Rightarrow> bool" where
  "is_content line \<longleftrightarrow> line \<noteq> [] \<and> \<not> starts_with ''#'' line"

definition content_lines :: "string \<Rightarrow> string list" where
  "content_lines rdf = filter is_content (map trim (split_on LF rdf))"

text \<open>\<open>[...new Set(lines)].sort().join('\n') + (lines.length ? '\n' : '')\<close>\<close>

definition graph_text :: "string list \<Rightarrow> string" where
  "graph_text lines = join [LF] (sort (uniq lines)) @ (if lines = [] then [] else [LF])"

text \<open>\<open>body.trim().split('\n').filter(Boolean)\<close>\<close>

definition body_lines :: "string \<Rightarrow> string list" where
  "body_lines body = filter (\<lambda>l. l \<noteq> []) (split_on LF (trim body))"

text \<open>A line as \<open>content_lines\<close> delivers it\<close>

definition clean_line :: "string \<Rightarrow> bool" where
  "clean_line l \<longleftrightarrow> is_content l \<and> trim l = l \<and> LF \<notin> set l"

lemma content_clean: "l \<in> set (content_lines rdf) \<Longrightarrow> clean_line l"
  using set_trim split_on_members
  by (fastforce simp: content_lines_def clean_line_def)

lemma split_on_snoc: "split_on c (a @ [c]) = split_on c a @ [[]]"
proof (induction a)
  case (Cons x a)
  then show ?case using split_on_nonempty [of c a] by (auto split: list.split)
qed simp

lemma split_on_text:
  assumes "\<And>l. l \<in> set ls \<Longrightarrow> LF \<notin> set l"
  shows "split_on LF (graph_text ls) = (if ls = [] then [[]] else sort (uniq ls) @ [[]])"
proof (cases "ls = []")
  case False
  then have ne: "sort (uniq ls) \<noteq> []"
    by (metis set_empty set_sort set_uniq)
  have "split_on LF (join [LF] (sort (uniq ls))) = sort (uniq ls)"
    by (rule split_on_join [OF ne]) (use assms in simp)
  then show ?thesis using False by (simp add: graph_text_def split_on_snoc)
qed (simp add: graph_text_def)

lemma trim_Nil [simp]: "trim [] = []"
  by (simp add: trim_def trim_start_def trim_end_def)

lemma content_lines_text:
  assumes "list_all clean_line ls"
  shows "content_lines (graph_text ls) = sort (uniq ls)"
proof -
  have c: "\<And>l. l \<in> set ls \<Longrightarrow> is_content l \<and> trim l = l \<and> LF \<notin> set l"
    using assms by (auto simp: list_all_iff clean_line_def)
  have "filter is_content (map trim (sort (uniq ls))) = sort (uniq ls)"
  proof -
    have "map trim (sort (uniq ls)) = sort (uniq ls)" by (rule map_idI) (use c in simp)
    moreover have "filter is_content (sort (uniq ls)) = sort (uniq ls)"
      unfolding filter_id_conv using c by simp
    ultimately show ?thesis by (simp only:)
  qed
  moreover have "split_on LF (graph_text ls) = (if ls = [] then [[]] else sort (uniq ls) @ [[]])"
    by (rule split_on_text) (use c in blast)
  ultimately show ?thesis
    by (cases "ls = []") (simp_all add: content_lines_def is_content_def)
qed

text \<open>The text of a set of lines is determined by the set, and determines it.\<close>

lemma sort_uniq_cong: "set xs = set ys \<Longrightarrow> sort (uniq xs) = sort (uniq (ys :: 'a :: linorder list))"
  by (rule sorted_distinct_set_unique)
     (simp_all only: sorted_sort distinct_sort distinct_uniq set_sort set_uniq)

lemma graph_text_cong: "set xs = set ys \<Longrightarrow> graph_text xs = graph_text ys"
  unfolding graph_text_def by (frule sort_uniq_cong) (cases xs; cases ys; simp)

lemma graph_text_eq_iff:
  assumes "list_all clean_line xs" "list_all clean_line ys"
  shows "graph_text xs = graph_text ys \<longleftrightarrow> set xs = set ys"
proof
  assume "graph_text xs = graph_text ys"
  then have "sort (uniq xs) = sort (uniq ys)"
    using content_lines_text [OF assms(1)] content_lines_text [OF assms(2)] by simp
  then show "set xs = set ys" by (metis set_sort set_uniq)
qed (rule graph_text_cong)

lemma graph_text_sorted [simp]: "graph_text (sort (uniq ls)) = graph_text ls"
  by (rule graph_text_cong) simp

lemma set_content_text: "list_all clean_line ls \<Longrightarrow> set (content_lines (graph_text ls)) = set ls"
  by (simp add: content_lines_text)

lemma trim_end_snoc: "is_space x \<Longrightarrow> trim_end (s @ [x]) = trim_end s"
  by (simp add: trim_end_def)

lemma trim_end_stable: "s \<noteq> [] \<Longrightarrow> \<not> is_space (last s) \<Longrightarrow> trim_end s = s"
  by (cases s rule: rev_cases) (auto simp: trim_end_def)

lemma clean_ends:
  assumes "clean_line l"
  shows "l \<noteq> []" "\<not> is_space (hd l)" "\<not> is_space (last l)"
proof -
  have l: "l \<noteq> []" "trim l = l" using assms by (auto simp: clean_line_def is_content_def)
  show "l \<noteq> []" by fact
  have e: "trim_end (trim_start l) = l" using l(2) by (simp add: trim_def)
  have ne: "trim_start l \<noteq> []" using e l(1) by (auto simp: trim_end_def)
  have "length (trim_end (trim_start l)) \<le> length (trim_start l)"
    using length_dropWhile_le [of is_space "rev (trim_start l)"] by (simp add: trim_end_def)
  then have len: "length l \<le> length (trim_start l)" using e by simp
  show "\<not> is_space (hd l)"
  proof
    assume sp: "is_space (hd l)"
    obtain x xs where "l = x # xs" using l(1) by (cases l) auto
    with sp have "length (trim_start l) < length l"
      using length_dropWhile_le [of is_space xs] by (simp add: trim_start_def)
    with len show False by simp
  qed
  have "rev l = dropWhile is_space (rev (trim_start l))"
    using e by (metis rev_rev_ident trim_end_def)
  then show "\<not> is_space (last l)" using l(1)
    by (metis hd_dropWhile_not hd_rev rev_is_Nil_conv)
qed

end
