(* ===== verification/Normalizer.thy ===== *)
theory Normalizer
  imports RdfLines JsDate JsValue
begin

text \<open>
  \<open>packages/rdf-sync/src/canonical-rdf-normalizer.js\<close>: export metadata is taken out of the
  N-Triples that Wikibase produces, the rest is written sorted and without duplicates, and the
  manifest of a generation records what was taken out.  SHA-256 is a parameter.
\<close>

definition JWB_RDF_NORMALIZATION_MODEL :: string where
  "JWB_RDF_NORMALIZATION_MODEL = ''jwb-rdf-normalization-v1''"

definition DUMP_SUBJECT :: string where
  "DUMP_SUBJECT = ''<http://wikiba.se/ontology#Dump>''"

definition DUMP_PREDICATES :: "string list" where
  "DUMP_PREDICATES =
     [''http://www.w3.org/1999/02/22-rdf-syntax-ns#type'',
      ''http://creativecommons.org/ns#license'',
      ''http://schema.org/softwareVersion'',
      ''http://schema.org/dateModified'',
      ''http://www.w3.org/2002/07/owl#imports'']"

definition ENTITY_EXPORT_PREDICATES :: "string list" where
  "ENTITY_EXPORT_PREDICATES =
     [''http://creativecommons.org/ns#license'', ''http://schema.org/softwareVersion'']"

text \<open>\<open>_:[A-Za-z0-9][A-Za-z0-9._-]*\<close>\<close>

definition is_label_char :: "char \<Rightarrow> bool" where
  "is_label_char c \<longleftrightarrow> is_alnum c \<or> c = CHR ''.'' \<or> c = CHR ''_'' \<or> c = CHR ''-''"

definition BNODE :: rx where
  "BNODE = Cats [Lit ''_:'', Cls is_alnum, Star (Cls is_label_char)]"

text \<open>\<open>.\<close>, among the 8-bit code units\<close>

definition AnyChar :: rx where
  "AnyChar = Cls (\<lambda>c. c \<noteq> LF \<and> c \<noteq> CHR 0x0D)"

text \<open>\<open>/^(<[^>]+>|_:[A-Za-z0-9][A-Za-z0-9._-]*)\s+<([^>]+)>\s+(.+)\s*\.$/u\<close>\<close>

definition TRIPLE_LINE :: rx where
  "TRIPLE_LINE = Cats
     [Grp 1 (Alts [Cats [Lit ''<'', Plus1 (NoneOf ''>''), Lit ''>''], BNODE]),
      Plus1 (Cls is_space), Lit ''<'', Grp 2 (Plus1 (NoneOf ''>'')), Lit ''>'',
      Plus1 (Cls is_space), Grp 3 (Plus1 AnyChar), Star (Cls is_space), Lit ''.'']"

record nt_triple =
  nt_subject :: string
  nt_predicate :: string
  nt_object :: string

definition captured :: "captures \<Rightarrow> nat \<Rightarrow> string" where
  "captured c k = (case group c k of None \<Rightarrow> [] | Some s \<Rightarrow> s)"

text \<open>\<open>parse\<close>\<close>

definition parse_triple :: "string \<Rightarrow> nt_triple result" where
  "parse_triple line = (case rx_exec TRIPLE_LINE line of
     None \<Rightarrow> Inl ''RDF_NORMALIZATION_UNSUPPORTED_SYNTAX''
   | Some c \<Rightarrow> Inr \<lparr>nt_subject = captured c 1, nt_predicate = captured c 2,
       nt_object = trim_end (captured c 3)\<rparr>)"

record evidence =
  evi_category :: string
  evi_predicate :: string
  evi_object :: string

definition evidence_of :: "nt_triple \<Rightarrow> string \<Rightarrow> evidence" where
  "evidence_of v category =
     \<lparr>evi_category = category, evi_predicate = nt_predicate v, evi_object = nt_object v\<rparr>"

text \<open>What the loop does with one line: keep it (\<open>None\<close>) or take it out as evidence\<close>

definition line_verdict :: "string \<Rightarrow> string \<Rightarrow> evidence option result" where
  "line_verdict sourceKind line =
     bindR (parse_triple line) (\<lambda>v.
     if nt_subject v = DUMP_SUBJECT then
       (if sourceKind \<noteq> ''FULL_DUMP'' \<or> \<not> List.member DUMP_PREDICATES (nt_predicate v)
        then Inl ''RDF_NORMALIZATION_UNKNOWN_DUMP_METADATA''
        else Inr (Some (evidence_of v ''DUMP_EXPORT'')))
     else if contains ''/wiki/Special:EntityData/'' (nt_subject v) \<and>
         List.member ENTITY_EXPORT_PREDICATES (nt_predicate v)
     then Inr (Some (evidence_of v ''ENTITY_EXPORT''))
     else Inr None)"

fun normalize_lines :: "string \<Rightarrow> string list \<Rightarrow> (string list \<times> evidence list) result" where
  "normalize_lines sourceKind [] = Inr ([], [])"
| "normalize_lines sourceKind (line # rest) =
     bindR (line_verdict sourceKind line) (\<lambda>verdict.
     bindR (normalize_lines sourceKind rest) (\<lambda>(kept, provenance).
     case verdict of
       None \<Rightarrow> Inr (line # kept, provenance)
     | Some e \<Rightarrow> Inr (kept, e # provenance)))"

record normalization =
  nz_model :: string
  nz_rdf :: string
  nz_provenance :: "evidence list"
  nz_checksum :: string

definition normalizeWikibaseRdf ::
  "(string \<Rightarrow> string) \<Rightarrow> string \<Rightarrow> string \<Rightarrow> normalization result" where
  "normalizeWikibaseRdf sha256 rdf sourceKind =
     (if \<not> List.member [''FULL_DUMP'', ''ENTITY_DATA''] sourceKind
      then Inl ''invalid RDF normalization source''
      else
      bindR (normalize_lines sourceKind (content_lines rdf)) (\<lambda>(kept, provenance).
      let normalizedRdf = graph_text kept in
      Inr \<lparr>nz_model = JWB_RDF_NORMALIZATION_MODEL, nz_rdf = normalizedRdf,
        nz_provenance = provenance, nz_checksum = sha256 normalizedRdf\<rparr>))"

record generation_manifest =
  gm_version :: nat
  gm_generationId :: string
  gm_sourceIdentity :: string
  gm_normalizationModel :: string
  gm_partitionModel :: string
  gm_sourceCursor :: jsval
  gm_generatedAt :: string
  gm_exporterVersion :: "string list"
  gm_license :: "string list"
  gm_mediaWikiVersion :: "string option"
  gm_wikibaseVersion :: "string option"
  gm_datasetChecksum :: string
  gm_validationResult :: string

text \<open>The objects recorded for a predicate, sorted and without duplicates\<close>

definition provenance_values :: "evidence list \<Rightarrow> string \<Rightarrow> string list" where
  "provenance_values provenance p =
     sort (uniq (map evi_object (filter (\<lambda>e. evi_predicate e = p) provenance)))"

definition generationManifest ::
  "string \<Rightarrow> string \<Rightarrow> jsval \<Rightarrow> evidence list list \<Rightarrow> string option \<Rightarrow> string option \<Rightarrow> string \<Rightarrow>
   string \<Rightarrow> generation_manifest result" where
  "generationManifest generationId sourceIdentity sourceCursor normalizations mediaWikiVersion
     wikibaseVersion datasetChecksum generatedAt =
     (if \<not> generation_id generationId \<or> \<not> source_identity sourceIdentity
      then Inl ''invalid generation manifest identity''
      else if \<not> js_truthy sourceCursor \<or> js_integer (js_prop sourceCursor ''rcid'') = None \<or>
        date_parse (js_string (js_prop sourceCursor ''timestamp'')) = None
      then Inl ''invalid generation manifest cursor''
      else if \<not> rx_test SHA256_HEX datasetChecksum
      then Inl ''invalid generation Dataset checksum''
      else
      let provenance = concat normalizations in
      Inr \<lparr>gm_version = 1, gm_generationId = generationId, gm_sourceIdentity = sourceIdentity,
        gm_normalizationModel = JWB_RDF_NORMALIZATION_MODEL, gm_partitionModel = ''jwb-partition-v1'',
        gm_sourceCursor = sourceCursor, gm_generatedAt = generatedAt,
        gm_exporterVersion = provenance_values provenance ''http://schema.org/softwareVersion'',
        gm_license = provenance_values provenance ''http://creativecommons.org/ns#license'',
        gm_mediaWikiVersion = mediaWikiVersion, gm_wikibaseVersion = wikibaseVersion,
        gm_datasetChecksum = datasetChecksum, gm_validationResult = ''PENDING''\<rparr>)"

section \<open>Properties\<close>

definition keeps_line :: "string \<Rightarrow> string \<Rightarrow> bool" where
  "keeps_line sourceKind line \<longleftrightarrow> line_verdict sourceKind line = Inr None"

lemma normalize_lines_Inr:
  "normalize_lines k ls = Inr (kept, prov) \<Longrightarrow>
     kept = filter (keeps_line k) ls \<and> (\<forall>l \<in> set ls. is_ok (line_verdict k l)) \<and>
     length kept + length prov = length ls"
  by (induction ls arbitrary: kept prov)
     (auto simp: bindR_eq_Inr keeps_line_def split: option.splits prod.splits)

lemma normalize_lines_kept:
  "list_all (keeps_line k) ls \<Longrightarrow> normalize_lines k ls = Inr (ls, [])"
  by (induction ls) (auto simp: keeps_line_def)

lemma normalize_Inr:
  "normalizeWikibaseRdf sha rdf k = Inr n \<longleftrightarrow>
     k \<in> {''FULL_DUMP'', ''ENTITY_DATA''} \<and>
     (\<exists>kept. normalize_lines k (content_lines rdf) = Inr (kept, nz_provenance n) \<and>
       nz_rdf n = graph_text kept) \<and>
     nz_model n = JWB_RDF_NORMALIZATION_MODEL \<and> nz_checksum n = sha (nz_rdf n)"
  unfolding normalizeWikibaseRdf_def
  by (cases n) (auto simp: bindR_eq_Inr Let_def split: prod.splits)

text \<open>The lines that make it into the normalized text\<close>

definition semantic_lines :: "string \<Rightarrow> string \<Rightarrow> string set" where
  "semantic_lines k rdf = {l \<in> set (content_lines rdf). keeps_line k l}"

lemma normalize_text:
  assumes "normalizeWikibaseRdf sha rdf k = Inr n"
  shows "\<exists>kept. nz_rdf n = graph_text kept \<and> set kept = semantic_lines k rdf \<and>
     list_all clean_line kept \<and> list_all (keeps_line k) kept"
proof -
  from assms obtain kept where k: "normalize_lines k (content_lines rdf) = Inr (kept, nz_provenance n)"
    "nz_rdf n = graph_text kept" unfolding normalize_Inr by blast
  with normalize_lines_Inr [OF k(1)] show ?thesis
    by (intro exI [of _ kept]) (auto simp: semantic_lines_def list_all_iff intro: content_clean)
qed

text \<open>C35: normalization is idempotent: normalizing a normalized text takes nothing out and returns the
  same text with the same checksum.\<close>

theorem normalize_idempotent:
  assumes "normalizeWikibaseRdf sha rdf k = Inr n"
  shows "normalizeWikibaseRdf sha (nz_rdf n) k = Inr (n\<lparr>nz_provenance := []\<rparr>)"
proof -
  obtain kept where k: "nz_rdf n = graph_text kept" "list_all clean_line kept" "list_all (keeps_line k) kept"
    using normalize_text [OF assms] by blast
  have "content_lines (nz_rdf n) = sort (uniq kept)"
    unfolding k(1) by (rule content_lines_text [OF k(2)])
  moreover have "normalize_lines k (sort (uniq kept)) = Inr (sort (uniq kept), [])"
    by (rule normalize_lines_kept) (use k(3) in \<open>simp add: list_all_iff\<close>)
  ultimately show ?thesis using assms k(1) unfolding normalize_Inr by auto
qed

definition demo_rdf :: string where
  "demo_rdf =
     ''<http://wikiba.se/ontology#Dump> <http://schema.org/softwareVersion> \"1\" .'' @ [LF] @
     ''# c'' @ [LF] @ ''<x:/entity/Q1> <p> <o> .'' @ [LF] @ ''<a> <p> <o> .'' @ [LF] @ ''<a> <p> <o> .''"

definition demo_normalized :: normalization where
  "demo_normalized = \<lparr>nz_model = ''jwb-rdf-normalization-v1'',
     nz_rdf = ''<a> <p> <o> .'' @ [LF] @ ''<x:/entity/Q1> <p> <o> .'' @ [LF],
     nz_provenance = [\<lparr>evi_category = ''DUMP_EXPORT'',
       evi_predicate = ''http://schema.org/softwareVersion'', evi_object = ''\"1\"''\<rparr>],
     nz_checksum = ''<a> <p> <o> .'' @ [LF] @ ''<x:/entity/Q1> <p> <o> .'' @ [LF]\<rparr>"

lemma demo_normalizes: "normalizeWikibaseRdf id demo_rdf ''FULL_DUMP'' = Inr demo_normalized"
  by code_simp

theorem normalize_idempotent_witness:
  "normalizeWikibaseRdf id (nz_rdf demo_normalized) ''FULL_DUMP'' =
     Inr (demo_normalized\<lparr>nz_provenance := []\<rparr>)"
  by (rule normalize_idempotent [OF demo_normalizes])

text \<open>C36: the normalized text is a complete invariant of the content: two exports of the same kind normalize
  to the same text exactly when they have the same set of content lines besides the export metadata,
  in whatever order, repeated or not; and then they have the same checksum.\<close>

theorem normalize_complete_invariant:
  assumes "normalizeWikibaseRdf sha a k = Inr m" "normalizeWikibaseRdf sha b k = Inr n"
  shows "(nz_rdf m = nz_rdf n \<longleftrightarrow> semantic_lines k a = semantic_lines k b) \<and>
     (semantic_lines k a = semantic_lines k b \<longrightarrow> nz_checksum m = nz_checksum n)"
proof -
  obtain xs where xs: "nz_rdf m = graph_text xs" "set xs = semantic_lines k a" "list_all clean_line xs"
    using normalize_text [OF assms(1)] by blast
  obtain ys where ys: "nz_rdf n = graph_text ys" "set ys = semantic_lines k b" "list_all clean_line ys"
    using normalize_text [OF assms(2)] by blast
  have "nz_rdf m = nz_rdf n \<longleftrightarrow> semantic_lines k a = semantic_lines k b"
    using graph_text_eq_iff [OF xs(3) ys(3)] xs ys by simp
  then show ?thesis using assms unfolding normalize_Inr by auto
qed

theorem normalize_complete_invariant_witness:
  "semantic_lines ''FULL_DUMP'' demo_rdf = semantic_lines ''FULL_DUMP'' (nz_rdf demo_normalized) \<and>
   nz_rdf demo_normalized = nz_rdf (demo_normalized\<lparr>nz_provenance := []\<rparr>)"
proof -
  have "normalizeWikibaseRdf id (nz_rdf demo_normalized) ''FULL_DUMP'' =
      Inr (demo_normalized\<lparr>nz_provenance := []\<rparr>)" by code_simp
  from normalize_complete_invariant [OF demo_normalizes this] show ?thesis by simp
qed

text \<open>The values of the manifest are what the normalizations took out, whatever their order.\<close>

lemma provenance_values_cong:
  "set xs = set ys \<Longrightarrow> provenance_values xs p = provenance_values ys p"
  unfolding provenance_values_def by (rule sort_uniq_cong) simp

lemma set_provenance_values:
  "set (provenance_values prov p) = {evi_object e | e. e \<in> set prov \<and> evi_predicate e = p}"
  by (auto simp: provenance_values_def)

end
