(* ===== verification/RdfPartition.thy ===== *)
theory RdfPartition
  imports Normalizer "HOL-Library.AList" "HOL-Library.Product_Lexorder" "HOL-Library.Multiset"
begin

text \<open>
  \<open>packages/rdf-sync/src/dataset-partition.js\<close>: the triples of a Wikibase export are divided
  into one graph per entity (what is reachable from it through statement, value and reference
  nodes), one schema graph per property and a global graph.  The two \<open>while (changed)\<close> loops are
  functions whose termination is proved; the first is proved to compute reachability.

  \<open>localeCompare\<close> only orders entity kinds (\<open>P\<close> before \<open>Q\<close>) and graphs whose lines are sorted
  again afterwards.  Entity numbers are read as unbounded integers, as \<open>Number\<close> does below
  \<open>2^53\<close>.
\<close>

definition JWB_PARTITION_MODEL :: string where
  "JWB_PARTITION_MODEL = ''jwb-partition-v1''"

definition GLOBAL_GRAPH_IRI :: string where
  "GLOBAL_GRAPH_IRI = ''urn:jwb:global''"

definition requireEntity :: "string \<Rightarrow> unit result" where
  "requireEntity v = requireR (entity_id v) ''invalid entity ID''"

definition partition_entityGraphIri :: "string \<Rightarrow> string result" where
  "partition_entityGraphIri entityId =
     bindR (requireEntity entityId) (\<lambda>_. Inr (''urn:jwb:entity:'' @ entityId))"

definition schemaGraphIri :: "string \<Rightarrow> string result" where
  "schemaGraphIri propertyId =
     bindR (requireR (property_id propertyId) ''invalid Property ID'') (\<lambda>_.
     Inr (''urn:jwb:schema:'' @ propertyId))"

section \<open>Parsing\<close>

text \<open>\<open>"(?:[^"\\]|\\.)*"(?:@[A-Za-z0-9-]+|\^\^<[^>]+>)?\<close>\<close>

definition RDF_LITERAL :: rx where
  "RDF_LITERAL = Cats
     [Chr (CHR 0x22),
      Star (Alts [NoneOf [CHR 0x22, CHR 0x5C], Cats [Chr (CHR 0x5C), AnyChar]]),
      Chr (CHR 0x22),
      Opt (Alts [Cats [Lit ''@'', Plus1 (Cls (\<lambda>c. is_alnum c \<or> c = CHR ''-''))],
                 Cats [Lit ''^^<'', Plus1 (NoneOf ''>''), Lit ''>'']])]"

definition IRI_REF :: "nat \<Rightarrow> rx" where
  "IRI_REF k = Cats [Lit ''<'', Grp k (Plus1 (NoneOf ''>'')), Lit ''>'']"

definition NTRIPLES_LINE :: rx where
  "NTRIPLES_LINE = Cats
     [Grp 1 (Alts [IRI_REF 2, Grp 3 BNODE]), Plus1 (Cls is_space),
      Lit ''<'', Plus1 (NoneOf ''>''), Lit ''>'', Plus1 (Cls is_space),
      Grp 4 (Alts [IRI_REF 5, Grp 6 BNODE, RDF_LITERAL]), Star (Cls is_space), Lit ''.'']"

datatype object_type = Iri | Bnode | Literal

record triple =
  t_line :: string
  t_subject :: string
  t_object :: string
  t_objectType :: object_type

definition parse_ntriple :: "string \<Rightarrow> triple result" where
  "parse_ntriple line = (case rx_exec NTRIPLES_LINE line of
     None \<Rightarrow> Inl ''unsupported N-Triples line''
   | Some m \<Rightarrow> Inr \<lparr>t_line = line,
       t_subject = (case group m 2 of Some s \<Rightarrow> s | None \<Rightarrow> captured m 3),
       t_object = (case group m 5 of Some s \<Rightarrow> s | None \<Rightarrow>
          (case group m 6 of Some s \<Rightarrow> s | None \<Rightarrow> captured m 4)),
       t_objectType = (if group m 5 \<noteq> None then Iri else if group m 6 \<noteq> None then Bnode else Literal)\<rparr>)"

fun mapR :: "('a \<Rightarrow> 'b result) \<Rightarrow> 'a list \<Rightarrow> 'b list result" where
  "mapR f [] = Inr []"
| "mapR f (x # xs) = bindR (f x) (\<lambda>y. bindR (mapR f xs) (\<lambda>ys. Inr (y # ys)))"

definition parse_ntriples :: "string \<Rightarrow> triple list result" where
  "parse_ntriples rdf = mapR parse_ntriple (content_lines rdf)"

section \<open>Ownership\<close>

text \<open>\<open>/r$/.exec(s)\<close>: the leftmost place from which \<open>r\<close> matches up to the end\<close>

fun rx_exec_tail :: "rx \<Rightarrow> string \<Rightarrow> captures option" where
  "rx_exec_tail r [] = rx_exec r []"
| "rx_exec_tail r (x # xs) =
     (case rx_exec r (x # xs) of Some c \<Rightarrow> Some c | None \<Rightarrow> rx_exec_tail r xs)"

text \<open>\<open>subject.match(/\/entity\/([QP][1-9][0-9]*)$/u)?.[1]\<close>\<close>

definition subject_entity :: "string \<Rightarrow> string option" where
  "subject_entity s = (case rx_exec_tail (Cats [Lit ''/entity/'', Grp 1 ENTITY_ID]) s of
     None \<Rightarrow> None | Some c \<Rightarrow> group c 1)"

definition discoverEntities :: "triple list \<Rightarrow> string list" where
  "discoverEntities triples =
     sort_key (\<lambda>i. (hd i, digits_val (tl i)))
       (uniq (List.map_filter (subject_entity \<circ> t_subject) triples))"

text \<open>\<open>/\/(?:entity\/statement|value|reference)\//u.test(object)\<close>\<close>

definition is_node_iri :: "string \<Rightarrow> bool" where
  "is_node_iri obj \<longleftrightarrow>
     contains ''/entity/statement/'' obj \<or> contains ''/value/'' obj \<or> contains ''/reference/'' obj"

text \<open>One round of the loop of \<open>closure\<close>: \<open>owned\<close> grows while the triples are gone through\<close>

definition extends_owned :: "(string \<Rightarrow> bool) \<Rightarrow> string list \<Rightarrow> triple \<Rightarrow> bool" where
  "extends_owned follow owned v \<longleftrightarrow> List.member owned (t_subject v) \<and> t_objectType v \<noteq> Literal \<and>
     follow (t_object v) \<and> \<not> List.member owned (t_object v)"

fun closure_pass :: "(string \<Rightarrow> bool) \<Rightarrow> triple list \<Rightarrow> string list \<Rightarrow> string list" where
  "closure_pass follow [] owned = owned"
| "closure_pass follow (v # vs) owned =
     closure_pass follow vs (if extends_owned follow owned v then owned @ [t_object v] else owned)"

lemma closure_pass_grows:
  "\<exists>new. closure_pass follow vs owned = owned @ new \<and> set new \<subseteq> t_object ` set vs \<and>
     set new \<inter> set owned = {}"
proof (induction vs arbitrary: owned)
  case (Cons v vs)
  then obtain new where
    "closure_pass follow vs (if extends_owned follow owned v then owned @ [t_object v] else owned) =
       (if extends_owned follow owned v then owned @ [t_object v] else owned) @ new"
    "set new \<subseteq> t_object ` set vs"
    "set new \<inter> set (if extends_owned follow owned v then owned @ [t_object v] else owned) = {}"
    by blast
  then show ?case
    by (intro exI [of _ "(if extends_owned follow owned v then [t_object v] else []) @ new"])
       (auto simp: extends_owned_def split: if_splits)
qed simp

function closure_loop :: "(string \<Rightarrow> bool) \<Rightarrow> triple list \<Rightarrow> string list \<Rightarrow> string list" where
  "closure_loop follow triples owned =
     (let owned' = closure_pass follow triples owned
      in if owned' = owned then owned else closure_loop follow triples owned')"
  by pat_completeness auto
termination
proof (relation "measure (\<lambda>(f, ts, owned). card (t_object ` set ts - set owned))")
  fix f ts owned owned'
  assume o: "owned' = closure_pass f ts owned" "owned' \<noteq> owned"
  obtain new where new: "owned' = owned @ new" "set new \<subseteq> t_object ` set ts" "set new \<inter> set owned = {}"
    using closure_pass_grows [of f ts owned] o(1) by blast
  with o(2) obtain x where "x \<in> set new" by (cases new) auto
  with new have "t_object ` set ts - set owned' \<subset> t_object ` set ts - set owned" by auto
  then show "((f, ts, owned'), (f, ts, owned)) \<in> measure (\<lambda>(f, ts, owned). card (t_object ` set ts - set owned))"
    by (auto intro: psubset_card_mono)
qed simp

declare closure_loop.simps [simp del]

definition closure :: "triple list \<Rightarrow> string list \<Rightarrow> (string \<Rightarrow> bool) \<Rightarrow> string list" where
  "closure triples roots follow =
     (let owned = closure_loop follow triples (uniq roots)
      in sort (map t_line (filter (\<lambda>v. List.member owned (t_subject v)) triples)))"

definition entity_roots :: "triple list \<Rightarrow> string \<Rightarrow> string list" where
  "entity_roots triples entityId =
     map t_subject (filter (\<lambda>v. ends_with (''/entity/'' @ entityId) (t_subject v) \<or>
       ends_with (''/wiki/Special:EntityData/'' @ entityId) (t_subject v)) triples)"

definition ownedEntityLines :: "triple list \<Rightarrow> string \<Rightarrow> string list" where
  "ownedEntityLines triples entityId = closure triples (entity_roots triples entityId) is_node_iri"

text \<open>One round of the loop of \<open>ownedPropertySchemaLines\<close>\<close>

definition add_candidates :: "triple list \<Rightarrow> string \<Rightarrow> string list \<Rightarrow> string list" where
  "add_candidates triples obj ls =
     fold (\<lambda>c ls. if t_subject c = obj \<and> \<not> List.member ls (t_line c) then ls @ [t_line c] else ls)
       triples ls"

fun schema_pass :: "triple list \<Rightarrow> triple list \<Rightarrow> string list \<Rightarrow> string list" where
  "schema_pass triples [] ls = ls"
| "schema_pass triples (v # vs) ls =
     schema_pass triples vs
       (if List.member ls (t_line v) \<and> t_objectType v = Bnode
        then add_candidates triples (t_object v) ls else ls)"

lemma add_candidates_grows:
  "set cs \<subseteq> set triples \<Longrightarrow>
   \<exists>new. fold (\<lambda>c ls. if t_subject c = obj \<and> \<not> List.member ls (t_line c) then ls @ [t_line c] else ls) cs ls
       = ls @ new \<and> set new \<subseteq> t_line ` set triples \<and> set new \<inter> set ls = {}"
proof (induction cs arbitrary: ls)
  case (Cons c cs)
  let ?ls = "if t_subject c = obj \<and> \<not> List.member ls (t_line c) then ls @ [t_line c] else ls"
  from Cons obtain new where
    "fold (\<lambda>c ls. if t_subject c = obj \<and> \<not> List.member ls (t_line c) then ls @ [t_line c] else ls) cs ?ls
       = ?ls @ new" "set new \<subseteq> t_line ` set triples" "set new \<inter> set ?ls = {}"
    by (meson set_subset_Cons subset_trans)
  then show ?case using Cons.prems
    by (intro exI [of _ "(if t_subject c = obj \<and> \<not> List.member ls (t_line c) then [t_line c] else []) @ new"])
       (auto split: if_splits)
qed simp

lemma schema_pass_grows:
  "\<exists>new. schema_pass triples vs ls = ls @ new \<and> set new \<subseteq> t_line ` set triples \<and> set new \<inter> set ls = {}"
proof (induction vs arbitrary: ls)
  case (Cons v vs)
  let ?ls = "if List.member ls (t_line v) \<and> t_objectType v = Bnode
        then add_candidates triples (t_object v) ls else ls"
  have "\<exists>a. ?ls = ls @ a \<and> set a \<subseteq> t_line ` set triples \<and> set a \<inter> set ls = {}"
    using add_candidates_grows [of triples triples "t_object v" ls]
    by (cases "List.member ls (t_line v) \<and> t_objectType v = Bnode") (simp_all add: add_candidates_def)
  then obtain a where a: "?ls = ls @ a" "set a \<subseteq> t_line ` set triples" "set a \<inter> set ls = {}"
    by blast
  obtain b where "schema_pass triples vs ?ls = ?ls @ b" "set b \<subseteq> t_line ` set triples" "set b \<inter> set ?ls = {}"
    using Cons by blast
  with a show ?case by (intro exI [of _ "a @ b"]) auto
qed simp

function schema_loop :: "triple list \<Rightarrow> string list \<Rightarrow> string list" where
  "schema_loop triples ls =
     (let ls' = schema_pass triples triples ls in if ls' = ls then ls else schema_loop triples ls')"
  by pat_completeness auto
termination
proof (relation "measure (\<lambda>(ts, ls). card (t_line ` set ts - set ls))")
  fix ts ls ls'
  assume o: "ls' = schema_pass ts ts ls" "ls' \<noteq> ls"
  obtain new where new: "ls' = ls @ new" "set new \<subseteq> t_line ` set ts" "set new \<inter> set ls = {}"
    using schema_pass_grows [of ts ts ls] o(1) by blast
  with o(2) obtain x where "x \<in> set new" by (cases new) auto
  with new have "t_line ` set ts - set ls' \<subset> t_line ` set ts - set ls" by auto
  then show "((ts, ls'), (ts, ls)) \<in> measure (\<lambda>(ts, ls). card (t_line ` set ts - set ls))"
    by (auto intro: psubset_card_mono)
qed simp

declare schema_loop.simps [simp del]

definition ownedPropertySchemaLines :: "triple list \<Rightarrow> string \<Rightarrow> string list" where
  "ownedPropertySchemaLines triples propertyId =
     (case List.find (\<lambda>v. ends_with (''/entity/'' @ propertyId) (t_subject v)) triples of
        None \<Rightarrow> []
      | Some found \<Rightarrow>
          let root = t_subject found;
              seeds = map t_object (filter (\<lambda>v. t_subject v = root \<and> t_objectType v = Iri \<and>
                list_ex (\<lambda>c. t_subject c = t_object v) triples \<and> \<not> is_node_iri (t_object v)) triples);
              ls = uniq (map t_line (filter (\<lambda>v. List.member seeds (t_subject v)) triples))
          in sort (schema_loop triples ls))"

section \<open>Partitions\<close>

type_synonym graphs = "(string \<times> string) list"

text \<open>One round of the loop over the entities: the graphs and the lines assigned so far\<close>

definition partition_entity ::
  "triple list \<Rightarrow> string \<Rightarrow> graphs \<times> string list \<Rightarrow> (graphs \<times> string list) result" where
  "partition_entity triples entityId = (\<lambda>(graphs, assigned).
     let entityLines = ownedEntityLines triples entityId in
     bindR (partition_entityGraphIri entityId) (\<lambda>iri.
     let graphs = AList.update iri (graph_text entityLines) graphs;
         assigned = assigned @ entityLines
     in if starts_with ''P'' entityId then
          let schemaLines = ownedPropertySchemaLines triples entityId in
          bindR (schemaGraphIri entityId) (\<lambda>schemaIri.
          Inr (AList.update schemaIri (graph_text schemaLines) graphs, assigned @ schemaLines))
        else Inr (graphs, assigned)))"

fun partition_entities ::
  "triple list \<Rightarrow> string list \<Rightarrow> graphs \<times> string list \<Rightarrow> (graphs \<times> string list) result" where
  "partition_entities triples [] acc = Inr acc"
| "partition_entities triples (e # es) acc =
     bindR (partition_entity triples e acc) (partition_entities triples es)"

record dataset =
  ds_partitionModel :: string
  ds_graphs :: graphs

definition partitionWikibaseSnapshot :: "string \<Rightarrow> dataset result" where
  "partitionWikibaseSnapshot rdf =
     bindR (parse_ntriples rdf) (\<lambda>triples.
     bindR (partition_entities triples (discoverEntities triples) ([], [])) (\<lambda>(graphs, assigned).
     Inr \<lparr>ds_partitionModel = JWB_PARTITION_MODEL,
       ds_graphs = AList.update GLOBAL_GRAPH_IRI
         (graph_text (filter (\<lambda>l. \<not> List.member assigned l) (map t_line triples))) graphs\<rparr>))"

record entity_partition =
  ep_partitionModel :: string
  ep_entityId :: string
  ep_entityGraphIri :: string
  ep_entityRdf :: string
  ep_schemaGraphIri :: "string option"
  ep_schemaRdf :: string

definition partitionWikibaseEntity :: "string \<Rightarrow> string \<Rightarrow> entity_partition result" where
  "partitionWikibaseEntity entityId rdf =
     bindR (requireEntity entityId) (\<lambda>_.
     bindR (parse_ntriples rdf) (\<lambda>triples.
     let entityLines = ownedEntityLines triples entityId in
     if entityLines = [] then Inl ''entity identity absent from RDF''
     else
     bindR (partition_entityGraphIri entityId) (\<lambda>iri.
     let r = \<lparr>ep_partitionModel = JWB_PARTITION_MODEL, ep_entityId = entityId,
       ep_entityGraphIri = iri, ep_entityRdf = graph_text entityLines,
       ep_schemaGraphIri = None, ep_schemaRdf = []\<rparr>
     in if starts_with ''P'' entityId then
          bindR (schemaGraphIri entityId) (\<lambda>schemaIri.
          Inr (r\<lparr>ep_schemaGraphIri := Some schemaIri,
            ep_schemaRdf := graph_text (ownedPropertySchemaLines triples entityId)\<rparr>))
        else Inr r)))"

text \<open>\<open>`${line.slice(0, -1).trimEnd()} <${graphIri}> .`\<close>\<close>

definition quad_line :: "string \<Rightarrow> string \<Rightarrow> string" where
  "quad_line graphIri line = trim_end (butlast line) @ '' <'' @ graphIri @ ''> .''"

definition datasetToNQuads :: "graphs \<Rightarrow> string" where
  "datasetToNQuads graphs =
     join [LF] (sort (concat (map (\<lambda>(iri, body). map (quad_line iri) (body_lines body))
       (sort_key fst graphs)))) @ [LF]"

text \<open>\<open>services/rdf-sync/src/entity-partitioner.js\<close>\<close>

definition WikibaseEntityPartitioner_partition ::
  "(string \<Rightarrow> string) \<Rightarrow> string \<Rightarrow> string \<Rightarrow> entity_partition result" where
  "WikibaseEntityPartitioner_partition sha256 entityId rdf =
     bindR (normalizeWikibaseRdf sha256 rdf ''ENTITY_DATA'') (\<lambda>normalized.
     partitionWikibaseEntity entityId (nz_rdf normalized))"

section \<open>The loop computes reachability\<close>

inductive owned_by :: "(string \<Rightarrow> bool) \<Rightarrow> triple set \<Rightarrow> string set \<Rightarrow> string \<Rightarrow> bool"
  for follow T roots where
  root: "x \<in> roots \<Longrightarrow> owned_by follow T roots x"
| node: "owned_by follow T roots (t_subject v) \<Longrightarrow> v \<in> T \<Longrightarrow> t_objectType v \<noteq> Literal \<Longrightarrow>
    follow (t_object v) \<Longrightarrow> owned_by follow T roots (t_object v)"

lemma closure_pass_sound:
  "set vs \<subseteq> T \<Longrightarrow> (\<forall>x \<in> set owned. owned_by follow T roots x) \<Longrightarrow>
   \<forall>x \<in> set (closure_pass follow vs owned). owned_by follow T roots x"
proof (induction vs arbitrary: owned)
  case (Cons v vs)
  have "\<forall>x \<in> set (if extends_owned follow owned v then owned @ [t_object v] else owned).
      owned_by follow T roots x"
    using Cons.prems by (auto simp: extends_owned_def intro: owned_by.node)
  with Cons show ?case by simp
qed simp

lemma closure_pass_fixed:
  "closure_pass follow vs owned = owned \<Longrightarrow> v \<in> set vs \<Longrightarrow> \<not> extends_owned follow owned v"
proof (induction vs arbitrary: owned)
  case (Cons w ws)
  have "\<not> extends_owned follow owned w"
  proof
    assume "extends_owned follow owned w"
    with Cons.prems(1) closure_pass_grows [of follow ws "owned @ [t_object w]"] show False by auto
  qed
  with Cons show ?case by auto
qed simp

lemma closure_loop_owned:
  "(\<forall>x \<in> set owned. owned_by follow (set ts) roots x) \<Longrightarrow> roots \<subseteq> set owned \<Longrightarrow>
   set (closure_loop follow ts owned) = {x. owned_by follow (set ts) roots x}"
proof (induction follow ts owned rule: closure_loop.induct)
  case (1 follow ts owned)
  show ?case
  proof (cases "closure_pass follow ts owned = owned")
    case True
    have "x \<in> set owned" if "owned_by follow (set ts) roots x" for x
      using that
    proof induction
      case (node v)
      with closure_pass_fixed [OF True node.hyps(2)] show ?case by (simp add: extends_owned_def)
    qed (use 1 in blast)
    with 1 True show ?thesis by (auto simp: closure_loop.simps [of follow ts owned])
  next
    case False
    have "roots \<subseteq> set (closure_pass follow ts owned)"
      using closure_pass_grows [of follow ts owned] 1 by auto
    with False 1 closure_pass_sound [of ts "set ts" owned follow roots] show ?thesis
      by (simp add: closure_loop.simps [of follow ts owned] Let_def)
  qed
qed

definition entity_triples :: "triple list \<Rightarrow> string \<Rightarrow> triple set" where
  "entity_triples ts e =
     {v \<in> set ts. owned_by is_node_iri (set ts) (set (entity_roots ts e)) (t_subject v)}"

lemma set_closure:
  "set (closure ts roots follow) = t_line ` {v \<in> set ts. owned_by follow (set ts) (set roots) (t_subject v)}"
proof -
  have "set (closure_loop follow ts (uniq roots)) = {x. owned_by follow (set ts) (set roots) x}"
    by (rule closure_loop_owned) (auto intro: owned_by.root)
  then show ?thesis by (auto simp: closure_def Let_def)
qed

lemma set_ownedEntityLines: "set (ownedEntityLines ts e) = t_line ` entity_triples ts e"
  by (simp add: ownedEntityLines_def set_closure entity_triples_def)

section \<open>What the parser delivers\<close>

lemma mapR_Inr: "mapR f xs = Inr ys \<Longrightarrow> length ys = length xs \<and> (\<forall>i < length xs. f (xs ! i) = Inr (ys ! i))"
proof (induction xs arbitrary: ys)
  case (Cons x xs)
  then obtain y zs where *: "f x = Inr y" "mapR f xs = Inr zs" "ys = y # zs"
    by (auto simp: bindR_eq_Inr)
  from Cons.IH [OF *(2)] * show ?case by (auto simp: nth_Cons split: nat.split)
qed simp

lemma mapR_set: "mapR f xs = Inr ys \<Longrightarrow> set ys = {y. \<exists>x \<in> set xs. f x = Inr y}"
  by (induction xs arbitrary: ys) (auto simp: bindR_eq_Inr)

lemma parse_line: "parse_ntriple l = Inr t \<Longrightarrow> t_line t = l"
  by (auto simp: parse_ntriple_def split: option.splits)

lemma parse_lines: "parse_ntriples rdf = Inr ts \<Longrightarrow> map t_line ts = content_lines rdf"
  unfolding parse_ntriples_def using mapR_Inr [of parse_ntriple "content_lines rdf" ts] parse_line
  by (intro nth_equalityI) auto

lemma parse_set: "parse_ntriples rdf = Inr ts \<Longrightarrow>
   set ts = {t. t_line t \<in> set (content_lines rdf) \<and> parse_ntriple (t_line t) = Inr t}"
  unfolding parse_ntriples_def using mapR_set [of parse_ntriple "content_lines rdf" ts] parse_line
  by auto

lemma parse_clean: "parse_ntriples rdf = Inr ts \<Longrightarrow> v \<in> set ts \<Longrightarrow> clean_line (t_line v)"
  by (auto simp: parse_set intro: content_clean)

lemma owned_clean: "parse_ntriples rdf = Inr ts \<Longrightarrow> list_all clean_line (ownedEntityLines ts e)"
  by (auto simp: list_all_iff set_ownedEntityLines entity_triples_def intro: parse_clean)

lemma schema_loop_set:
  "set (schema_loop ts ls) \<subseteq> set ls \<union> t_line ` set ts \<and> set ls \<subseteq> set (schema_loop ts ls)"
proof (induction ts ls rule: schema_loop.induct)
  case (1 ts ls)
  obtain new where new: "schema_pass ts ts ls = ls @ new" "set new \<subseteq> t_line ` set ts"
    using schema_pass_grows [of ts ts ls] by blast
  show ?case
  proof (cases "schema_pass ts ts ls = ls")
    case True
    then show ?thesis by (simp add: schema_loop.simps [of ts ls])
  next
    case False
    with 1 have "set (schema_loop ts (ls @ new)) \<subseteq> set (ls @ new) \<union> t_line ` set ts \<and>
        set (ls @ new) \<subseteq> set (schema_loop ts (ls @ new))" by (simp add: new(1))
    with False new show ?thesis by (auto simp: schema_loop.simps [of ts ls] Let_def)
  qed
qed

lemma schema_lines_subset: "set (ownedPropertySchemaLines ts p) \<subseteq> t_line ` set ts"
proof (cases "List.find (\<lambda>v. ends_with (''/entity/'' @ p) (t_subject v)) ts")
  case (Some found)
  have "set (schema_loop ts (uniq (map t_line (filter P ts)))) \<subseteq> t_line ` set ts" for P
    using schema_loop_set [of ts "uniq (map t_line (filter P ts))"] by auto
  then show ?thesis unfolding ownedPropertySchemaLines_def Some Let_def by simp
qed (simp add: ownedPropertySchemaLines_def)

lemma schema_clean:
  assumes "parse_ntriples rdf = Inr ts"
  shows "list_all clean_line (ownedPropertySchemaLines ts p)"
  unfolding list_all_iff using schema_lines_subset [of ts p] parse_clean [OF assms] by blast

section \<open>The graphs of a snapshot\<close>

lemma iri_keys [simp]:
  "(''urn:jwb:entity:'' @ a = ''urn:jwb:schema:'' @ b) = False"
  "(''urn:jwb:schema:'' @ b = ''urn:jwb:entity:'' @ a) = False"
  "(GLOBAL_GRAPH_IRI = ''urn:jwb:entity:'' @ a) = False"
  "(GLOBAL_GRAPH_IRI = ''urn:jwb:schema:'' @ b) = False"
  "(''urn:jwb:entity:'' @ a = GLOBAL_GRAPH_IRI) = False"
  "(''urn:jwb:schema:'' @ b = GLOBAL_GRAPH_IRI) = False"
  by (simp_all add: GLOBAL_GRAPH_IRI_def)

lemma graph_iris:
  "partition_entityGraphIri e = Inr k \<longleftrightarrow> entity_id e \<and> k = ''urn:jwb:entity:'' @ e"
  "schemaGraphIri e = Inr k \<longleftrightarrow> property_id e \<and> k = ''urn:jwb:schema:'' @ e"
  by (auto simp: partition_entityGraphIri_def schemaGraphIri_def requireEntity_def bindR_eq_Inr)

lemma partition_entity_Inr:
  "partition_entity ts e (g, a) = Inr (g', a') \<longleftrightarrow> entity_id e \<and>
     (if starts_with ''P'' e
      then property_id e \<and>
        g' = AList.update (''urn:jwb:schema:'' @ e) (graph_text (ownedPropertySchemaLines ts e))
          (AList.update (''urn:jwb:entity:'' @ e) (graph_text (ownedEntityLines ts e)) g) \<and>
        a' = a @ ownedEntityLines ts e @ ownedPropertySchemaLines ts e
      else g' = AList.update (''urn:jwb:entity:'' @ e) (graph_text (ownedEntityLines ts e)) g \<and>
        a' = a @ ownedEntityLines ts e)"
  by (auto simp: partition_entity_def Let_def bindR_eq_Inr graph_iris)

text \<open>The lines that the loop assigns for some entities\<close>

definition assigned_lines :: "triple list \<Rightarrow> string list \<Rightarrow> string set" where
  "assigned_lines ts es = (\<Union>e \<in> set es. set (ownedEntityLines ts e) \<union>
     (if starts_with ''P'' e then set (ownedPropertySchemaLines ts e) else {}))"

text \<open>The graph the loop leaves under a key, if it is a key of one of the entities\<close>

definition own_graph :: "triple list \<Rightarrow> string list \<Rightarrow> string \<Rightarrow> string \<Rightarrow> bool" where
  "own_graph ts es k b \<longleftrightarrow> (\<exists>e \<in> set es.
     (k = ''urn:jwb:entity:'' @ e \<and> b = graph_text (ownedEntityLines ts e)) \<or>
     (starts_with ''P'' e \<and> k = ''urn:jwb:schema:'' @ e \<and> b = graph_text (ownedPropertySchemaLines ts e)))"

lemma own_graph_Cons:
  "own_graph ts (e # es) k b \<longleftrightarrow> own_graph ts [e] k b \<or> own_graph ts es k b"
  by (auto simp: own_graph_def)

lemma own_graph_unique: "own_graph ts es k b \<Longrightarrow> own_graph ts es' k b' \<Longrightarrow> b = b'"
  by (auto simp: own_graph_def)

lemma partition_entity_graphs:
  "partition_entity ts e (g, a) = Inr (g', a') \<Longrightarrow>
   (map_of g' k = Some b \<longleftrightarrow> own_graph ts [e] k b \<or> (\<nexists>c. own_graph ts [e] k c) \<and> map_of g k = Some b) \<and>
   set a' = set a \<union> assigned_lines ts [e]"
  by (auto simp: partition_entity_Inr own_graph_def assigned_lines_def update_conv' split: if_splits)

lemma partition_entities_graphs:
  "partition_entities ts es (g, a) = Inr (g', a') \<Longrightarrow>
   (map_of g' k = Some b \<longleftrightarrow> own_graph ts es k b \<or> (\<nexists>c. own_graph ts es k c) \<and> map_of g k = Some b) \<and>
   set a' = set a \<union> assigned_lines ts es"
proof (induction es arbitrary: g a)
  case Nil
  then show ?case by (simp add: own_graph_def assigned_lines_def)
next
  case (Cons e es)
  from Cons.prems obtain g1 a1 where 1: "partition_entity ts e (g, a) = Inr (g1, a1)"
    and 2: "partition_entities ts es (g1, a1) = Inr (g', a')"
    by (auto simp: bindR_eq_Inr)
  have "assigned_lines ts (e # es) = assigned_lines ts [e] \<union> assigned_lines ts es"
    by (simp add: assigned_lines_def)
  moreover have "c = b" if "own_graph ts [e] k b" "own_graph ts es k c" for b c
    using own_graph_unique that by blast
  ultimately show ?case
    using Cons.IH [OF 2] partition_entity_graphs [OF 1, of k b]
    unfolding own_graph_Cons [of ts e es] by blast
qed

lemma snapshot_Inr:
  assumes "partitionWikibaseSnapshot rdf = Inr d"
  obtains ts assigned where "parse_ntriples rdf = Inr ts"
    "set assigned = assigned_lines ts (discoverEntities ts)"
    "\<And>k b. map_of (ds_graphs d) k = Some b \<longleftrightarrow> own_graph ts (discoverEntities ts) k b \<or>
       k = GLOBAL_GRAPH_IRI \<and> b = graph_text (filter (\<lambda>l. l \<notin> set assigned) (map t_line ts))"
proof -
  from assms obtain ts g a where ts: "parse_ntriples rdf = Inr ts"
    and p: "partition_entities ts (discoverEntities ts) ([], []) = Inr (g, a)"
    and d: "ds_graphs d = AList.update GLOBAL_GRAPH_IRI
      (graph_text (filter (\<lambda>l. l \<notin> set a) (map t_line ts))) g"
    by (auto simp: partitionWikibaseSnapshot_def bindR_eq_Inr)
  note pg = partition_entities_graphs [OF p]
  show thesis
  proof (rule that [OF ts])
    show "set a = assigned_lines ts (discoverEntities ts)" using pg by simp
    show "map_of (ds_graphs d) k = Some b \<longleftrightarrow> own_graph ts (discoverEntities ts) k b \<or>
       k = GLOBAL_GRAPH_IRI \<and> b = graph_text (filter (\<lambda>l. l \<notin> set a) (map t_line ts))" for k b
    proof (cases "k = GLOBAL_GRAPH_IRI")
      case True
      then show ?thesis by (auto simp: d update_conv' own_graph_def GLOBAL_GRAPH_IRI_def)
    next
      case False
      then show ?thesis using pg [of k b] by (simp add: d update_conv')
    qed
  qed
qed

section \<open>Properties\<close>

text \<open>C37: the graph of an entity holds exactly the lines reachable from it: the loop that computes the
  owned nodes ends with the reflexive transitive closure of the entity's subjects under the
  statement, value and reference nodes they point to.\<close>

theorem owned_lines_reachable:
  "l \<in> set (ownedEntityLines ts e) \<longleftrightarrow>
     (\<exists>v \<in> set ts. t_line v = l \<and>
       owned_by is_node_iri (set ts) (set (entity_roots ts e)) (t_subject v))"
  unfolding set_ownedEntityLines entity_triples_def by blast

text \<open>C38: partitioning a snapshot loses nothing and invents nothing: the lines of all its graphs together
  are the content lines of the document.\<close>

theorem partition_lossless:
  assumes "partitionWikibaseSnapshot rdf = Inr d"
  shows "l \<in> set (content_lines rdf) \<longleftrightarrow>
    (\<exists>k b. map_of (ds_graphs d) k = Some b \<and> l \<in> set (content_lines b))"
proof -
  obtain ts a where ts: "parse_ntriples rdf = Inr ts"
    and a: "set a = assigned_lines ts (discoverEntities ts)"
    and g: "\<And>k b. map_of (ds_graphs d) k = Some b \<longleftrightarrow> own_graph ts (discoverEntities ts) k b \<or>
       k = GLOBAL_GRAPH_IRI \<and> b = graph_text (filter (\<lambda>l. l \<notin> set a) (map t_line ts))"
    by (rule snapshot_Inr [OF assms]) (rule that)
  have lines: "set (content_lines rdf) = t_line ` set ts" using parse_lines [OF ts] by (metis set_map)
  have cleanf: "list_all clean_line (filter (\<lambda>l. l \<notin> set a) (map t_line ts))"
    by (auto simp: list_all_iff intro: parse_clean [OF ts])
  have own: "set (content_lines (graph_text (ownedEntityLines ts e))) = set (ownedEntityLines ts e)"
    "set (content_lines (graph_text (ownedPropertySchemaLines ts e))) = set (ownedPropertySchemaLines ts e)"
    for e using owned_clean [OF ts] schema_clean [OF ts] by (simp_all add: set_content_text)
  show ?thesis
  proof
    assume l: "l \<in> set (content_lines rdf)"
    show "\<exists>k b. map_of (ds_graphs d) k = Some b \<and> l \<in> set (content_lines b)"
    proof (cases "l \<in> set a")
      case True
      then obtain e where e: "e \<in> set (discoverEntities ts)"
        "l \<in> set (ownedEntityLines ts e) \<or> starts_with ''P'' e \<and> l \<in> set (ownedPropertySchemaLines ts e)"
        unfolding a assigned_lines_def by (auto split: if_splits)
      then have "\<exists>k b. own_graph ts (discoverEntities ts) k b \<and> l \<in> set (content_lines b)"
      proof (elim disjE conjE)
        assume "l \<in> set (ownedEntityLines ts e)"
        with e(1) own(1) [of e] show ?thesis unfolding own_graph_def by blast
      next
        assume "starts_with ''P'' e" "l \<in> set (ownedPropertySchemaLines ts e)"
        with e(1) own(2) [of e] show ?thesis unfolding own_graph_def by blast
      qed
      with g show ?thesis by blast
    next
      case False
      then have "l \<in> set (content_lines (graph_text (filter (\<lambda>l. l \<notin> set a) (map t_line ts))))"
        using l by (auto simp: set_content_text [OF cleanf] lines)
      with g [of GLOBAL_GRAPH_IRI "graph_text (filter (\<lambda>l. l \<notin> set a) (map t_line ts))"]
      show ?thesis by blast
    qed
  next
    assume "\<exists>k b. map_of (ds_graphs d) k = Some b \<and> l \<in> set (content_lines b)"
    then obtain k b where b: "map_of (ds_graphs d) k = Some b" "l \<in> set (content_lines b)" by blast
    from b(1) [unfolded g] show "l \<in> set (content_lines rdf)"
    proof
      assume "own_graph ts (discoverEntities ts) k b"
      then obtain e where "b = graph_text (ownedEntityLines ts e) \<or>
          b = graph_text (ownedPropertySchemaLines ts e)" unfolding own_graph_def by blast
      with b(2) own [of e] have "l \<in> set (ownedEntityLines ts e) \<union> set (ownedPropertySchemaLines ts e)"
        by blast
      with schema_lines_subset [of ts e] show ?thesis
        unfolding lines set_ownedEntityLines entity_triples_def by blast
    next
      assume "k = GLOBAL_GRAPH_IRI \<and> b = graph_text (filter (\<lambda>l. l \<notin> set a) (map t_line ts))"
      with b(2) set_content_text [OF cleanf] show ?thesis by (simp add: lines)
    qed
  qed
qed

definition demo_dump :: string where
  "demo_dump =
     ''<h/entity/Q1> <p> <h/value/1> .'' @ [LF] @ ''<h/entity/Q2> <p> <h/value/1> .'' @ [LF] @
     ''<h/value/1> <p> <o> .'' @ [LF] @ ''<h/other> <p> <o> .'' @ [LF]"

definition demo_graphs :: graphs where
  "demo_graphs =
     [(''urn:jwb:entity:Q1'', ''<h/entity/Q1> <p> <h/value/1> .'' @ [LF] @ ''<h/value/1> <p> <o> .'' @ [LF]),
      (''urn:jwb:entity:Q2'', ''<h/entity/Q2> <p> <h/value/1> .'' @ [LF] @ ''<h/value/1> <p> <o> .'' @ [LF]),
      (''urn:jwb:global'', ''<h/other> <p> <o> .'' @ [LF])]"

lemma demo_partition:
  "partitionWikibaseSnapshot demo_dump =
     Inr \<lparr>ds_partitionModel = ''jwb-partition-v1'', ds_graphs = demo_graphs\<rparr>"
  by code_simp

theorem partition_lossless_witness:
  "\<exists>k b. map_of demo_graphs k = Some b \<and> ''<h/other> <p> <o> .'' \<in> set (content_lines b)"
proof -
  have "List.member (content_lines demo_dump) ''<h/other> <p> <o> .''" by code_simp
  with partition_lossless [OF demo_partition] show ?thesis by simp
qed

text \<open>A value node that two entities share is written to the graphs of both: the partition of a
  snapshot is not without duplication.\<close>

theorem shared_value_in_two_graphs:
  "\<exists>rdf d. partitionWikibaseSnapshot rdf = Inr d \<and>
     (\<exists>l a b. map_of (ds_graphs d) ''urn:jwb:entity:Q1'' = Some a \<and>
       map_of (ds_graphs d) ''urn:jwb:entity:Q2'' = Some b \<and>
       l \<in> set (content_lines a) \<and> l \<in> set (content_lines b))"
proof -
  have "List.member (content_lines (the (map_of demo_graphs ''urn:jwb:entity:Q1''))) ''<h/value/1> <p> <o> .''"
    "List.member (content_lines (the (map_of demo_graphs ''urn:jwb:entity:Q2''))) ''<h/value/1> <p> <o> .''"
    "map_of demo_graphs ''urn:jwb:entity:Q1'' \<noteq> None" "map_of demo_graphs ''urn:jwb:entity:Q2'' \<noteq> None"
    by code_simp+
  with demo_partition show ?thesis by fastforce
qed

text \<open>Partitioning one entity agrees with partitioning the whole snapshot: whenever the response for one
  entity is a part of the snapshot that contains everything the entity owns, the graph written for
  the entity is the graph the snapshot has under the same name, to the character.\<close>

theorem entity_graph_local:
  assumes "partitionWikibaseSnapshot full = Inr d" "partitionWikibaseEntity e sub = Inr p"
    "parse_ntriples full = Inr F" "parse_ntriples sub = Inr S"
    "set S \<subseteq> set F" "entity_triples F e \<subseteq> set S" "e \<in> set (discoverEntities F)"
  shows "map_of (ds_graphs d) (ep_entityGraphIri p) = Some (ep_entityRdf p)"
proof -
  let ?o = "\<lambda>T. owned_by is_node_iri (set T) (set (entity_roots T e))"
  have SF: "?o F x" if "?o S x" for x
    using that
  proof induction
    case (root x)
    then show ?case using assms(5) by (intro owned_by.root) (auto simp: entity_roots_def)
  next
    case (node v)
    then show ?case using assms(5) by (intro owned_by.node) auto
  qed
  have FS: "?o S x" if "?o F x" for x
    using that
  proof induction
    case (root x)
    then obtain v where v: "v \<in> set F" "t_subject v = x" "x \<in> set (entity_roots F e)"
      by (auto simp: entity_roots_def)
    then have "v \<in> entity_triples F e" by (auto simp: entity_triples_def intro: owned_by.root)
    with v assms(6) show ?case by (intro owned_by.root) (auto simp: entity_roots_def)
  next
    case (node v)
    then have "v \<in> entity_triples F e" by (simp add: entity_triples_def)
    with node assms(6) show ?case by (intro owned_by.node) auto
  qed
  have "entity_triples S e = entity_triples F e"
    using SF FS assms(5,6) by (auto simp: entity_triples_def)
  then have eq: "graph_text (ownedEntityLines S e) = graph_text (ownedEntityLines F e)"
    by (intro graph_text_cong) (simp add: set_ownedEntityLines)
  have p: "ep_entityGraphIri p = ''urn:jwb:entity:'' @ e" "ep_entityRdf p = graph_text (ownedEntityLines S e)"
    using assms(2,4) by (auto simp: partitionWikibaseEntity_def Let_def bindR_eq_Inr graph_iris split: if_splits)
  obtain ts a where ts: "parse_ntriples full = Inr ts" and
    g: "\<And>k b. map_of (ds_graphs d) k = Some b \<longleftrightarrow> own_graph ts (discoverEntities ts) k b \<or>
       k = GLOBAL_GRAPH_IRI \<and> b = graph_text (filter (\<lambda>l. l \<notin> set a) (map t_line ts))"
    by (rule snapshot_Inr [OF assms(1)]) (rule that)
  from ts assms(3) have "ts = F" by simp
  with assms(7) have "own_graph ts (discoverEntities ts) (''urn:jwb:entity:'' @ e)
      (graph_text (ownedEntityLines F e))" unfolding own_graph_def by blast
  with g show ?thesis by (simp add: p eq)
qed

lemma entity_triples_exec:
  "entity_triples ts e = set (filter (\<lambda>v. List.member
     (closure_loop is_node_iri ts (uniq (entity_roots ts e))) (t_subject v)) ts)"
proof -
  have "set (closure_loop is_node_iri ts (uniq (entity_roots ts e))) =
      {x. owned_by is_node_iri (set ts) (set (entity_roots ts e)) x}"
    by (rule closure_loop_owned) (auto intro: owned_by.root)
  then show ?thesis by (auto simp: entity_triples_def)
qed

definition demo_triples :: "triple list" where
  "demo_triples =
     [\<lparr>t_line = ''<h/entity/Q1> <p> <h/value/1> .'', t_subject = ''h/entity/Q1'', t_object = ''h/value/1'',
       t_objectType = Iri\<rparr>,
      \<lparr>t_line = ''<h/entity/Q2> <p> <h/value/1> .'', t_subject = ''h/entity/Q2'', t_object = ''h/value/1'',
       t_objectType = Iri\<rparr>,
      \<lparr>t_line = ''<h/value/1> <p> <o> .'', t_subject = ''h/value/1'', t_object = ''o'', t_objectType = Iri\<rparr>,
      \<lparr>t_line = ''<h/other> <p> <o> .'', t_subject = ''h/other'', t_object = ''o'', t_objectType = Iri\<rparr>]"

definition demo_response :: string where
  "demo_response = ''<h/value/1> <p> <o> .'' @ [LF] @ ''<h/entity/Q1> <p> <h/value/1> .'' @ [LF]"

definition demo_entity_partition :: entity_partition where
  "demo_entity_partition = \<lparr>ep_partitionModel = ''jwb-partition-v1'', ep_entityId = ''Q1'',
     ep_entityGraphIri = ''urn:jwb:entity:Q1'',
     ep_entityRdf = ''<h/entity/Q1> <p> <h/value/1> .'' @ [LF] @ ''<h/value/1> <p> <o> .'' @ [LF],
     ep_schemaGraphIri = None, ep_schemaRdf = []\<rparr>"

theorem entity_graph_local_witness:
  "map_of demo_graphs (ep_entityGraphIri demo_entity_partition) = Some (ep_entityRdf demo_entity_partition)"
proof -
  have p: "partitionWikibaseEntity ''Q1'' demo_response = Inr demo_entity_partition" by code_simp
  have F: "parse_ntriples demo_dump = Inr demo_triples" by code_simp
  have S: "parse_ntriples demo_response = Inr [demo_triples ! 2, demo_triples ! 0]" by code_simp
  have "filter (\<lambda>v. List.member (closure_loop is_node_iri demo_triples
      (uniq (entity_roots demo_triples ''Q1''))) (t_subject v)) demo_triples =
      [demo_triples ! 0, demo_triples ! 2]" by code_simp
  then have owned: "entity_triples demo_triples ''Q1'' \<subseteq> set [demo_triples ! 2, demo_triples ! 0]"
    unfolding entity_triples_exec by simp
  have sub: "set [demo_triples ! 2, demo_triples ! 0] \<subseteq> set demo_triples"
    by (simp add: demo_triples_def)
  have "List.member (discoverEntities demo_triples) ''Q1''" by code_simp
  then have disc: "''Q1'' \<in> set (discoverEntities demo_triples)" by simp
  from entity_graph_local [OF demo_partition p F S sub owned disc] show ?thesis by simp
qed

text \<open>The order in which the graphs are listed does not matter to the quads.\<close>

lemma mset_concat_map: "mset (concat (map f xs)) = (\<Sum>x \<in># mset xs. mset (f x))"
  by (induction xs) simp_all

lemma sort_mset_cong: "mset xs = mset ys \<Longrightarrow> sort xs = sort ys"
  by (rule properties_for_sort) simp_all

lemma quads_order: "mset g = mset h \<Longrightarrow> datasetToNQuads g = datasetToNQuads h"
  unfolding datasetToNQuads_def
  by (intro arg_cong [where f = "\<lambda>ls. join [LF] ls @ [LF]"] sort_mset_cong) (simp add: mset_concat_map)

end
