(* ===== verification/RdfCanonical.thy ===== *)
theory RdfCanonical
  imports RdfPartition
begin

text \<open>
  \<open>packages/rdf-sync/src/rdf-canonicalization.js\<close>: canonical labels for the blank nodes of a
  graph, by colour refinement and an exhaustive search within the colour classes.  SHA-256 and
  \<open>String.fromCodePoint\<close> are parameters.  Hashes are hexadecimal, where \<open>localeCompare\<close> is the
  order of the code units.
\<close>

section \<open>Text\<close>

text \<open>\<open>s.replace(/r/g, f)\<close> for an expression that matches no empty text\<close>

function rx_replace_all :: "rx \<Rightarrow> (captures \<Rightarrow> string \<Rightarrow> string) \<Rightarrow> string \<Rightarrow> string" where
  "rx_replace_all r f [] = []"
| "rx_replace_all r f (x # xs) =
     (case runs r (x # xs) [] of
        [] \<Rightarrow> x # rx_replace_all r f xs
      | (rest, c) # _ \<Rightarrow>
          if length rest \<le> length xs
          then f c (take (length (x # xs) - length rest) (x # xs)) @ rx_replace_all r f rest
          else x # rx_replace_all r f xs)"
  by pat_completeness auto
termination by (relation "measure (\<lambda>(r, f, s). length s)") auto

text \<open>\<open>s.replaceAll(w, v)\<close> of a text that is not empty\<close>

function replace_text :: "string \<Rightarrow> string \<Rightarrow> string \<Rightarrow> string" where
  "replace_text w v [] = []"
| "replace_text w v (x # xs) =
     (if w \<noteq> [] \<and> starts_with w (x # xs) then v @ replace_text w v (drop (length w) (x # xs))
      else x # replace_text w v xs)"
  by pat_completeness auto
termination by (relation "measure (\<lambda>(w, v, s). length s)") (auto simp: Suc_diff_le)

text \<open>Number.parseInt(s, 16)\<close>

definition hex_digit_val :: "char \<Rightarrow> nat" where
  "hex_digit_val c = (let k = (of_char c :: nat) in
     if k \<le> 57 then k - 48 else if k \<le> 70 then k - 55 else k - 87)"

definition hex_val :: "string \<Rightarrow> nat" where
  "hex_val s = fold (\<lambda>c acc. 16 * acc + hex_digit_val c) s 0"

text \<open>\<open>\\u([0-9A-Fa-f]{4})|\\U([0-9A-Fa-f]{8})\<close>\<close>

definition UNICODE_ESCAPE :: rx where
  "UNICODE_ESCAPE = Alts
     [Cats [Chr (CHR 0x5C), Chr (CHR ''u''), Grp 1 (Times 4 (Cls is_hex))],
      Cats [Chr (CHR 0x5C), Chr (CHR ''U''), Grp 2 (Times 8 (Cls is_hex))]]"

text \<open>\<open>"([+-]?)([0-9]+)(?:\.([0-9]+))?"\^\^<http://www.w3.org/2001/XMLSchema#decimal>\<close>\<close>

definition DECIMAL_LITERAL :: rx where
  "DECIMAL_LITERAL = Cats
     [Chr (CHR 0x22), Grp 1 (Opt (OneOf ''+-'')), Grp 2 (Plus1 (Cls is_digit)),
      Opt (Cats [Chr (CHR ''.''), Grp 3 (Plus1 (Cls is_digit))]), Chr (CHR 0x22),
      Lit ''^^<http://www.w3.org/2001/XMLSchema#decimal>'']"

text \<open>\<open>integer.replace(/^0+(?=[0-9])/, '')\<close> and \<open>fraction.replace(/0+$/, '')\<close>\<close>

fun strip_leading_zeros :: "string \<Rightarrow> string" where
  "strip_leading_zeros (c # d # ds) =
     (if c = CHR ''0'' then strip_leading_zeros (d # ds) else c # d # ds)"
| "strip_leading_zeros ds = ds"

definition strip_trailing_zeros :: "string \<Rightarrow> string" where
  "strip_trailing_zeros s = rev (dropWhile (\<lambda>c. c = CHR ''0'') (rev s))"

definition normal_decimal :: "captures \<Rightarrow> string" where
  "normal_decimal m =
     (let sign = captured m 1;
          normalizedInteger = strip_leading_zeros (captured m 2);
          normalizedFraction = strip_trailing_zeros (captured m 3);
          isZero = (normalizedInteger = ''0'' \<and> normalizedFraction = [])
      in [CHR 0x22] @ (if sign = ''-'' \<and> \<not> isZero then ''-'' else []) @ normalizedInteger @
         (if normalizedFraction \<noteq> [] then CHR ''.'' # normalizedFraction else []) @
         [CHR 0x22] @ ''^^<http://www.w3.org/2001/XMLSchema#decimal>'')"

definition normalizeLiteral :: "(nat \<Rightarrow> string) \<Rightarrow> string \<Rightarrow> string" where
  "normalizeLiteral fromCodePoint line =
     rx_replace_all DECIMAL_LITERAL (\<lambda>m _. normal_decimal m)
       (rx_replace_all UNICODE_ESCAPE
         (\<lambda>m _. fromCodePoint (hex_val (case group m 1 of Some s \<Rightarrow> s | None \<Rightarrow> captured m 2)))
         (rx_replace_all (Plus1 (Chr (CHR 0x09))) (\<lambda>_ _. '' '') line))"

section \<open>Canonical labels\<close>

type_synonym labelling = "(string \<times> string) list"

definition blankNodes :: "string \<Rightarrow> string list" where
  "blankNodes line = rx_find_all BNODE line"

text \<open>\<open>serialize\<close>: labels applied, duplicates dropped, sorted; the text always ends a line\<close>

definition relabel_line :: "labelling \<Rightarrow> string \<Rightarrow> string" where
  "relabel_line labels line =
     rx_replace_all BNODE (\<lambda>_ node. case map_of labels node of Some l \<Rightarrow> l | None \<Rightarrow> node) line"

definition serialize :: "string list \<Rightarrow> labelling \<Rightarrow> string" where
  "serialize triples labels = join [LF] (sort (uniq (map (relabel_line labels) triples))) @ [LF]"

definition signature_of :: "string \<Rightarrow> string list \<Rightarrow> labelling option \<Rightarrow> string" where
  "signature_of node triples colors =
     join [LF] (sort (map (\<lambda>line.
       rx_replace_all BNODE (\<lambda>_ other. CHR ''@'' #
           (case (case colors of None \<Rightarrow> None | Some cs \<Rightarrow> map_of cs other) of
              Some color \<Rightarrow> color | None \<Rightarrow> ''BNODE''))
         (replace_text node ''@SELF'' line))
       (filter (\<lambda>line. List.member (blankNodes line) node) triples)))"

definition colour_round ::
  "(string \<Rightarrow> string) \<Rightarrow> string list \<Rightarrow> string list \<Rightarrow> labelling option \<Rightarrow> labelling" where
  "colour_round hash nodes triples colors =
     map (\<lambda>node. (node, hash (signature_of node triples colors))) nodes"

text \<open>The refinement loop; \<open>k\<close> is the number of rounds left\<close>

fun refine :: "(string \<Rightarrow> string) \<Rightarrow> string list \<Rightarrow> string list \<Rightarrow> nat \<Rightarrow> labelling \<Rightarrow> labelling" where
  "refine hash nodes triples 0 colors = colors"
| "refine hash nodes triples (Suc k) colors =
     (let next = colour_round hash nodes triples (Some colors) in
      if list_all (\<lambda>node. map_of next node = map_of colors node) nodes then colors
      else refine hash nodes triples k next)"

text \<open>The nodes of each colour, by colour\<close>

definition colour_groups :: "string list \<Rightarrow> labelling \<Rightarrow> string list list" where
  "colour_groups nodes colors =
     (let colour = (\<lambda>node. case map_of colors node of Some c \<Rightarrow> c | None \<Rightarrow> ''undefined'')
      in map (\<lambda>c. filter (\<lambda>node. colour node = c) nodes) (sort (uniq (map colour nodes))))"

fun factorial :: "nat \<Rightarrow> nat" where
  "factorial 0 = 1"
| "factorial (Suc k) = Suc k * factorial k"

definition combinations :: "string list list \<Rightarrow> nat" where
  "combinations groups = fold (\<lambda>group value. value * factorial (length group)) groups 1"

text \<open>\<open>permutations\<close>: each element first, in turn, followed by every order of the others\<close>

definition without :: "nat \<Rightarrow> 'a list \<Rightarrow> 'a list" where
  "without i xs = take i xs @ drop (Suc i) xs"

fun orders :: "nat \<Rightarrow> 'a list \<Rightarrow> 'a list list" where
  "orders 0 values = [values]"
| "orders (Suc k) values =
     (if length values < 2 then [values]
      else concat (map (\<lambda>i. map ((#) (values ! i)) (orders k (without i values))) [0 ..< length values]))"

definition permutations :: "'a list \<Rightarrow> 'a list list" where
  "permutations values = orders (length values) values"

fun cartesianPermutations :: "'a list list \<Rightarrow> 'a list list" where
  "cartesianPermutations [] = [[]]"
| "cartesianPermutations (g # groups) =
     concat (map (\<lambda>p. map (\<lambda>rest. p @ rest) (cartesianPermutations groups)) (permutations g))"

definition canonical_label :: "nat \<Rightarrow> string" where
  "canonical_label i = ''_:c14n'' @ show_nat i"

definition order_labels :: "string list \<Rightarrow> labelling" where
  "order_labels order = zip order (map canonical_label [0 ..< length order])"

fun best_candidate :: "string option \<Rightarrow> string list \<Rightarrow> string option" where
  "best_candidate best [] = best"
| "best_candidate best (c # cs) =
     best_candidate (case best of None \<Rightarrow> Some c | Some b \<Rightarrow> if c < b then Some c else Some b) cs"

definition graph_lines :: "(nat \<Rightarrow> string) \<Rightarrow> string \<Rightarrow> string list" where
  "graph_lines fromCodePoint input =
     filter is_content (map (\<lambda>line. normalizeLiteral fromCodePoint (trim line)) (split_on LF input))"

definition graph_nodes :: "string list \<Rightarrow> string list" where
  "graph_nodes triples = sort (uniq (concat (map blankNodes triples)))"

definition canonicalizeRdfGraph ::
  "(string \<Rightarrow> string) \<Rightarrow> (nat \<Rightarrow> string) \<Rightarrow> int \<Rightarrow> string \<Rightarrow> string result" where
  "canonicalizeRdfGraph hash fromCodePoint maxPermutations input =
     (if maxPermutations < 1 \<or> maxPermutations > 1000000
      then Inl ''invalid RDF canonicalization bound''
      else
      let triples = graph_lines fromCodePoint input;
          nodes = graph_nodes triples
      in if nodes = [] then Inr (serialize triples [])
      else
      let colors = refine hash nodes triples (Suc (length nodes))
            (colour_round hash nodes triples None);
          groups = colour_groups nodes colors
      in if int (combinations groups) > maxPermutations
         then Inl ''RDF_CANONICALIZATION_SEARCH_LIMIT''
         else Inr (case best_candidate None
             (map (\<lambda>order. serialize triples (order_labels order)) (cartesianPermutations groups)) of
           Some best \<Rightarrow> best | None \<Rightarrow> []))"

record rdf_diff =
  df_canonicalOnly :: "string list"
  df_generationOnly :: "string list"

definition diff_lines :: "string \<Rightarrow> string \<Rightarrow> rdf_diff" where
  "diff_lines left right =
     (let a = uniq (body_lines left); b = uniq (body_lines right)
      in \<lparr>df_canonicalOnly = filter (\<lambda>line. \<not> List.member b line) a,
          df_generationOnly = filter (\<lambda>line. \<not> List.member a line) b\<rparr>)"

definition diffCanonicalRdfGraphs ::
  "(string \<Rightarrow> string) \<Rightarrow> (nat \<Rightarrow> string) \<Rightarrow> int \<Rightarrow> string \<Rightarrow> string \<Rightarrow> rdf_diff result" where
  "diffCanonicalRdfGraphs hash fcp bound left right =
     bindR (canonicalizeRdfGraph hash fcp bound left) (\<lambda>a.
     bindR (canonicalizeRdfGraph hash fcp bound right) (\<lambda>b.
     Inr (diff_lines a b)))"

text \<open>\<open>/\s<[^>]+>\s\.$/u\<close>\<close>

definition QUAD_END :: rx where
  "QUAD_END = Cats [Cls is_space, Lit ''<'', Plus1 (NoneOf ''>''), Lit ''>'', Cls is_space, Lit ''.'']"

definition canonicalizeRdfDataset ::
  "(string \<Rightarrow> string) \<Rightarrow> (nat \<Rightarrow> string) \<Rightarrow> int \<Rightarrow> string \<Rightarrow> string result" where
  "canonicalizeRdfDataset hash fcp bound input =
     (if list_all (\<lambda>line. rx_exec_tail QUAD_END line \<noteq> None)
          (filter (\<lambda>line. line \<noteq> []) (map trim (split_on LF input)))
      then canonicalizeRdfGraph hash fcp bound input
      else Inl ''RDF Dataset input must be N-Quads with an IRI graph name'')"

definition diffCanonicalRdfDatasets ::
  "(string \<Rightarrow> string) \<Rightarrow> (nat \<Rightarrow> string) \<Rightarrow> int \<Rightarrow> string \<Rightarrow> string \<Rightarrow> rdf_diff result" where
  "diffCanonicalRdfDatasets hash fcp bound left right =
     bindR (canonicalizeRdfDataset hash fcp bound left) (\<lambda>a.
     bindR (canonicalizeRdfDataset hash fcp bound right) (\<lambda>b.
     Inr (diff_lines a b)))"

section \<open>Properties\<close>

lemma without_mset: "i < length xs \<Longrightarrow> add_mset (xs ! i) (mset (without i xs)) = mset xs"
proof -
  assume i: "i < length xs"
  have "mset xs = mset (take i xs @ xs ! i # drop (Suc i) xs)" using id_take_nth_drop [OF i] by simp
  then show ?thesis by (simp add: without_def)
qed

lemma length_without [simp]: "i < length xs \<Longrightarrow> length (without i xs) = length xs - 1"
  by (simp add: without_def)

lemma orders_perm: "length xs \<le> k \<Longrightarrow> p \<in> set (orders k xs) \<Longrightarrow> mset p = mset xs"
proof (induction k arbitrary: xs p)
  case (Suc k)
  show ?case
  proof (cases "length xs < 2")
    case False
    with Suc.prems obtain i q where "i < length xs" "q \<in> set (orders k (without i xs))" "p = xs ! i # q"
      by auto
    with Suc.IH [of "without i xs" q] Suc.prems(1) show ?thesis
      using without_mset [of i xs] by simp
  qed (use Suc.prems in simp)
qed simp

lemma length_orders: "length xs \<le> k \<Longrightarrow> length (orders k xs) = factorial (length xs)"
proof (induction k arbitrary: xs)
  case (Suc k)
  show ?case
  proof (cases "length xs < 2")
    case True
    then show ?thesis by (cases "length xs") (auto simp: numeral_2_eq_2)
  next
    case False
    then obtain m where m: "length xs = Suc m" by (cases "length xs") auto
    have "map (\<lambda>i. length (map ((#) (xs ! i)) (orders k (without i xs)))) [0 ..< length xs] =
        map (\<lambda>i. factorial m) [0 ..< length xs]"
      using Suc m by (intro map_cong) auto
    then show ?thesis using False m
      by (simp add: length_concat comp_def sum_list_triv del: length_map map_eq_conv)
  qed
qed simp

lemma cartesian_perm: "p \<in> set (cartesianPermutations gs) \<Longrightarrow> mset p = mset (concat gs)"
  by (induction gs arbitrary: p) (auto simp: permutations_def dest: orders_perm [OF order_refl])

lemma combinations_Cons: "combinations (g # gs) = factorial (length g) * combinations gs"
proof -
  have "fold (\<lambda>group value. value * factorial (length group)) gs (c :: nat) =
      c * fold (\<lambda>group value. value * factorial (length group)) gs 1" for c
  proof (induction gs arbitrary: c)
    case (Cons h hs)
    show ?case using Cons [of "c * factorial (length h)"] Cons [of "factorial (length h)"] by simp
  qed simp
  from this [of "factorial (length g)"] show ?thesis by (simp add: combinations_def)
qed

lemma length_cartesian: "length (cartesianPermutations gs) = combinations gs"
proof (induction gs)
  case (Cons g gs)
  then show ?case
    by (simp add: length_concat comp_def sum_list_triv combinations_Cons permutations_def length_orders)
qed (simp add: combinations_def)

lemma combinations_pos: "combinations gs > 0"
proof (induction gs)
  case (Cons g gs)
  have "factorial k > 0" for k by (induction k) simp_all
  with Cons show ?case by (simp add: combinations_Cons)
qed (simp add: combinations_def)

lemma classes_partition:
  "distinct ns \<Longrightarrow> distinct cs \<Longrightarrow> distinct (concat (map (\<lambda>c. filter (\<lambda>n. f n = c) ns) cs))"
  by (induction cs) auto

lemma colour_groups_nodes:
  "distinct nodes \<Longrightarrow> distinct (concat (colour_groups nodes colors)) \<and>
   set (concat (colour_groups nodes colors)) = set nodes"
  unfolding colour_groups_def Let_def by (rule conjI) (rule classes_partition, auto)

lemma best_candidate_min:
  "cs \<noteq> [] \<or> best \<noteq> None \<Longrightarrow> \<exists>m. best_candidate best cs = Some m \<and>
     m \<in> set cs \<union> set_option best \<and> (\<forall>c \<in> set cs \<union> set_option best. m \<le> c)"
proof (induction cs arbitrary: best)
  case Nil
  then show ?case by auto
next
  case (Cons c cs)
  let ?b = "case best of None \<Rightarrow> Some c | Some b \<Rightarrow> if c < b then Some c else Some b"
  have "?b \<noteq> None" by (simp split: option.split)
  with Cons.IH [of ?b] obtain m where "best_candidate ?b cs = Some m" "m \<in> set cs \<union> set_option ?b"
    "\<forall>c \<in> set cs \<union> set_option ?b. m \<le> c" by blast
  then show ?case by (auto split: option.splits if_splits)
qed

lemma graph_nodes_distinct [simp]: "distinct (graph_nodes triples)"
  by (simp add: graph_nodes_def)

lemma digits_show_nat: "digits_val (show_nat k) = k \<and> all_digits (show_nat k)"
proof (induction k rule: less_induct)
  case (less k)
  have dv: "d < 10 \<Longrightarrow> digit_val (digit_char d) = d \<and> is_digit (digit_char d)" for d
    by (simp add: digit_val_def digit_char_def is_digit_def between_def less_eq_char_def)
  have snoc: "digits_val (s @ [c]) = digits_val s * 10 + digit_val c" for s c
    by (induction s) (simp_all add: algebra_simps)
  show ?case
  proof (cases "k < 10")
    case True
    then show ?thesis by (simp add: show_nat.simps [of k] dv all_digits_def)
  next
    case False
    with less [of "k div 10"] show ?thesis
      by (simp add: show_nat.simps [of k] snoc dv all_digits_def)
  qed
qed

lemma show_nat_inject: "show_nat a = show_nat b \<longleftrightarrow> a = b"
  by (metis digits_show_nat)

lemma order_labels_props:
  "map fst (order_labels order) = order \<and> distinct (map snd (order_labels order))"
  by (simp add: order_labels_def distinct_map inj_on_def canonical_label_def show_nat_inject)

text \<open>A labelling that gives every blank node of the graph a label of its own\<close>

definition proper_labelling :: "string list \<Rightarrow> labelling \<Rightarrow> bool" where
  "proper_labelling triples labels \<longleftrightarrow> distinct (map fst labels) \<and> distinct (map snd labels) \<and>
     set (map fst labels) = set (graph_nodes triples) \<and> set (map snd labels) \<subseteq> range canonical_label"

lemma order_labels_proper:
  assumes "p \<in> set (cartesianPermutations (colour_groups (graph_nodes ts) colors))"
  shows "proper_labelling ts (order_labels p)"
proof -
  have m: "mset p = mset (concat (colour_groups (graph_nodes ts) colors))"
    by (rule cartesian_perm [OF assms])
  then have "distinct p" "set p = set (graph_nodes ts)"
    using colour_groups_nodes [of "graph_nodes ts" colors]
    by (metis graph_nodes_distinct mset_eq_imp_distinct_iff, metis graph_nodes_distinct mset_eq_setD)
  moreover have "set (map snd (order_labels p)) \<subseteq> range canonical_label"
    by (auto simp: order_labels_def dest!: set_zip_rightD)
  ultimately show ?thesis by (simp add: proper_labelling_def order_labels_props)
qed

lemma canonicalize_relabels:
  assumes "canonicalizeRdfGraph hash fcp bound input = Inr out"
  shows "\<exists>labels. proper_labelling (graph_lines fcp input) labels \<and>
     out = serialize (graph_lines fcp input) labels"
proof (cases "graph_nodes (graph_lines fcp input) = []")
  case True
  then have "out = serialize (graph_lines fcp input) []"
    using assms by (simp add: canonicalizeRdfGraph_def Let_def split: if_splits)
  moreover have "proper_labelling (graph_lines fcp input) []" using True by (simp add: proper_labelling_def)
  ultimately show ?thesis by blast
next
  case False
  define gs where "gs = colour_groups (graph_nodes (graph_lines fcp input))
    (refine hash (graph_nodes (graph_lines fcp input)) (graph_lines fcp input)
      (Suc (length (graph_nodes (graph_lines fcp input))))
      (colour_round hash (graph_nodes (graph_lines fcp input)) (graph_lines fcp input) None))"
  let ?cs = "map (\<lambda>order. serialize (graph_lines fcp input) (order_labels order)) (cartesianPermutations gs)"
  have "length ?cs > 0" by (simp add: length_cartesian combinations_pos)
  then have ne: "?cs \<noteq> []" by (metis length_greater_0_conv)
  then obtain m where m: "best_candidate None ?cs = Some m" "m \<in> set ?cs"
    using best_candidate_min [of ?cs None] by auto
  moreover have "out = m"
    using assms False m(1) unfolding canonicalizeRdfGraph_def Let_def gs_def by (simp split: if_splits)
  ultimately obtain p where "p \<in> set (cartesianPermutations gs)"
    "out = serialize (graph_lines fcp input) (order_labels p)" by auto
  then show ?thesis using order_labels_proper unfolding gs_def by blast
qed

lemma diff_empty_iff:
  "df_canonicalOnly (diff_lines a b) = [] \<and> df_generationOnly (diff_lines a b) = [] \<longleftrightarrow>
   set (body_lines a) = set (body_lines b)"
  by (auto simp: diff_lines_def Let_def filter_empty_conv)

text \<open>Text without tabs, escapes and literals is not touched by \<open>normalizeLiteral\<close>.\<close>

lemma rx_replace_none:
  "(\<And>x xs. x \<in> set s \<Longrightarrow> runs r (x # xs) [] = []) \<Longrightarrow> rx_replace_all r f s = s"
  by (induction s) (simp_all del: runs.simps)

definition plain_text :: "string \<Rightarrow> bool" where
  "plain_text s \<longleftrightarrow> list_all (\<lambda>c. c \<noteq> CHR 0x09 \<and> c \<noteq> CHR 0x5C \<and> c \<noteq> CHR 0x22) s"

lemma normalizeLiteral_plain: "plain_text s \<Longrightarrow> normalizeLiteral fcp s = s"
  unfolding normalizeLiteral_def
  by (subst rx_replace_none [where r = "Plus1 (Chr (CHR 0x09))"],
      fastforce simp: plain_text_def list_all_iff Plus1_def Chr_def,
      subst rx_replace_none [where r = UNICODE_ESCAPE],
      fastforce simp: plain_text_def list_all_iff UNICODE_ESCAPE_def Chr_def,
      rule rx_replace_none,
      fastforce simp: plain_text_def list_all_iff DECIMAL_LITERAL_def Chr_def)

lemma graph_lines_plain: "plain_text input \<Longrightarrow> graph_lines fcp input = content_lines input"
proof -
  assume p: "plain_text input"
  have mem: "l \<in> set (split_on c s) \<Longrightarrow> set l \<subseteq> set s" for l c s
  proof (induction s arbitrary: l)
    case (Cons x xs)
    then show ?case using split_on_nonempty [of c xs] by (fastforce split: if_splits list.splits)
  qed simp
  have "normalizeLiteral fcp (trim l) = trim l" if "l \<in> set (split_on LF input)" for l
    using mem [OF that] set_trim [of l] p
    by (intro normalizeLiteral_plain) (auto simp: plain_text_def list_all_iff)
  then have eq: "map (\<lambda>l. normalizeLiteral fcp (trim l)) (split_on LF input) = map trim (split_on LF input)"
    by simp
  show ?thesis unfolding graph_lines_def content_lines_def eq ..
qed

section \<open>The blank nodes of a line\<close>

text \<open>
  The code takes for a blank node whatever looks like one, also inside a literal.  The blank nodes of an
  N-Triples line are words outside its literals and IRIs.
\<close>

datatype place = Outside | In_iri | In_literal

fun term_text :: "place \<Rightarrow> string \<Rightarrow> string" where
  "term_text p [] = []"
| "term_text Outside (c # s) =
     (if c = CHR ''<'' then CHR '' '' # term_text In_iri s
      else if c = CHR 0x22 then CHR '' '' # term_text In_literal s
      else c # term_text Outside s)"
| "term_text In_iri (c # s) = (if c = CHR ''>'' then term_text Outside s else term_text In_iri s)"
| "term_text In_literal (c # s) =
     (if c = CHR 0x5C then (case s of [] \<Rightarrow> [] | _ # t \<Rightarrow> term_text In_literal t)
      else if c = CHR 0x22 then term_text Outside s else term_text In_literal s)"

definition blank_terms :: "string \<Rightarrow> string list" where
  "blank_terms line = filter (starts_with ''_:'') (split_on (CHR '' '') (term_text Outside line))"

text \<open>Lines that stay lines after the normalization of their literals, and whose blank nodes the code reads right\<close>

definition plain_graph :: "string list \<Rightarrow> bool" where
  "plain_graph lines \<longleftrightarrow> list_all (\<lambda>l. clean_line l \<and> blankNodes l = blank_terms l) lines"

text \<open>A one-to-one naming of the blank nodes of some lines by canonical labels\<close>

definition renames :: "string list \<Rightarrow> labelling \<Rightarrow> bool" where
  "renames lines labels \<longleftrightarrow> distinct (map fst labels) \<and> distinct (map snd labels) \<and>
     set (map fst labels) = (\<Union>l \<in> set lines. set (blank_terms l)) \<and> set (map snd labels) \<subseteq> range canonical_label"

lemma proper_renames:
  assumes "plain_graph ts" "proper_labelling ts labels"
  shows "renames ts labels"
proof -
  have "set (graph_nodes ts) = (\<Union>l \<in> set ts. set (blankNodes l))" by (simp add: graph_nodes_def)
  also have "\<dots> = (\<Union>l \<in> set ts. set (blank_terms l))"
    using assms(1) by (auto simp: plain_graph_def list_all_iff)
  finally show ?thesis using assms(2) by (simp add: renames_def proper_labelling_def)
qed

text \<open>Replacing keeps a line a line, when the replacements do.\<close>

lemma rx_replace_all_set:
  "(\<And>c m. set (f c m) \<subseteq> set m \<union> A) \<Longrightarrow> set (rx_replace_all r f s) \<subseteq> set s \<union> A"
proof (induction r f s rule: rx_replace_all.induct)
  case (2 r f x xs)
  have f: "set (f c m) \<subseteq> set m \<union> A" for c m using 2(4) .
  show ?case
  proof (cases "runs r (x # xs) []")
    case Nil
    with 2(1) f show ?thesis by auto
  next
    case (Cons p ps)
    obtain rest c where p: "p = (rest, c)" by fastforce
    show ?thesis
    proof (cases "length rest \<le> length xs")
      case True
      let ?m = "take (length (x # xs) - length rest) (x # xs)"
      have "(rest, c) \<in> set (runs r (x # xs) [])" using Cons p by simp
      from runs_sound [OF this] obtain w where w: "x # xs = w @ rest" by blast
      then have "?m = w" by (metis append_eq_conv_conj diff_add_inverse2 length_append)
      moreover have "set (rx_replace_all r f rest) \<subseteq> set rest \<union> A"
        using 2(2) [OF Cons p [symmetric] True] f by blast
      moreover have "rx_replace_all r f (x # xs) = f c ?m @ rx_replace_all r f rest" using Cons p True by simp
      moreover have "set (x # xs) = set w \<union> set rest" unfolding w by simp
      ultimately show ?thesis using f [of c w] by auto
    next
      case False
      with 2(3) [OF Cons p [symmetric] False] f Cons p show ?thesis by auto
    qed
  qed
qed simp

lemma rx_replace_all_ends:
  assumes f: "\<And>c m. m \<noteq> [] \<Longrightarrow> f c m \<noteq> [] \<and> (hd (f c m) = hd m \<or> P (hd (f c m))) \<and> (last (f c m) = last m \<or> P (last (f c m)))"
  shows "s \<noteq> [] \<Longrightarrow> rx_replace_all r f s \<noteq> [] \<and> (hd (rx_replace_all r f s) = hd s \<or> P (hd (rx_replace_all r f s))) \<and>
    (last (rx_replace_all r f s) = last s \<or> P (last (rx_replace_all r f s)))"
  using f
proof (induction r f s rule: rx_replace_all.induct)
  case (2 r f x xs)
  note f = 2(5)
  have keep: "x # rx_replace_all r f xs \<noteq> [] \<and> hd (x # rx_replace_all r f xs) = x \<and>
      (last (x # rx_replace_all r f xs) = last (x # xs) \<or> P (last (x # rx_replace_all r f xs)))"
    if "xs \<noteq> [] \<Longrightarrow> rx_replace_all r f xs \<noteq> [] \<and> (hd (rx_replace_all r f xs) = hd xs \<or> P (hd (rx_replace_all r f xs))) \<and>
      (last (rx_replace_all r f xs) = last xs \<or> P (last (rx_replace_all r f xs)))"
    using that by (cases xs) auto
  show ?case
  proof (cases "runs r (x # xs) []")
    case Nil
    with keep [OF 2(1) [OF Nil _ f]] show ?thesis by simp
  next
    case (Cons p ps)
    obtain rest c where p: "p = (rest, c)" by fastforce
    show ?thesis
    proof (cases "length rest \<le> length xs")
      case True
      let ?m = "take (length (x # xs) - length rest) (x # xs)"
      have "(rest, c) \<in> set (runs r (x # xs) [])" using Cons p by simp
      from runs_sound [OF this] obtain w where w: "x # xs = w @ rest" by blast
      then have m: "?m = w" by (metis append_eq_conv_conj diff_add_inverse2 length_append)
      from w True have wne: "w \<noteq> []" by auto
      have out: "rx_replace_all r f (x # xs) = f c w @ rx_replace_all r f rest"
        using Cons p True m by simp
      from w wne have h: "hd w = x" by (cases w) auto
      show ?thesis
      proof (cases "rest = []")
        case True
        then show ?thesis unfolding out using f [OF wne, of c] w h by simp
      next
        case False
        note ih = 2(2) [OF Cons p [symmetric] True False f]
        have "last (x # xs) = last rest" using w False by simp
        with ih f [OF wne, of c] h show ?thesis unfolding out by auto
      qed
    next
      case False
      with keep [OF 2(3) [OF Cons p [symmetric] False _ f]] Cons p show ?thesis by simp
    qed
  qed
qed simp

lemma trim_by_ends: "l \<noteq> [] \<Longrightarrow> \<not> is_space (hd l) \<Longrightarrow> \<not> is_space (last l) \<Longrightarrow> trim l = l"
  by (simp add: trim_def trim_start_stable trim_end_stable)

definition good_end :: "char \<Rightarrow> bool" where
  "good_end c \<longleftrightarrow> \<not> is_space c \<and> c \<noteq> CHR ''#''"

lemma canonical_label_ends:
  "canonical_label i \<noteq> [] \<and> good_end (hd (canonical_label i)) \<and> good_end (last (canonical_label i)) \<and>
     LF \<notin> set (canonical_label i)"
proof -
  have digits: "list_all is_digit (show_nat i)" using digits_show_nat [of i] by (simp add: all_digits_def)
  have digit: "is_digit c \<Longrightarrow> good_end c \<and> c \<noteq> LF" for c
    by (auto simp: good_end_def is_space_def is_digit_def between_def less_eq_char_def)
  have "show_nat i \<noteq> []" by (simp add: show_nat.simps [of i])
  with digits have "is_digit (last (show_nat i))" by (simp add: list_all_iff)
  with digit digits \<open>show_nat i \<noteq> []\<close> show ?thesis
    by (auto simp: canonical_label_def list_all_iff good_end_def is_space_def)
qed

lemma relabelled_clean:
  assumes "set (map snd labels) \<subseteq> range canonical_label" "clean_line l"
  shows "clean_line (relabel_line labels l)"
proof -
  let ?f = "\<lambda>c node. case map_of labels node of Some n \<Rightarrow> n | None \<Rightarrow> node"
  have lab: "\<exists>i. n = canonical_label i" if "map_of labels m = Some n" for m n
    using assms(1) map_of_SomeD [OF that] by force
  have ends: "?f c m \<noteq> [] \<and> (hd (?f c m) = hd m \<or> good_end (hd (?f c m))) \<and> (last (?f c m) = last m \<or> good_end (last (?f c m)))"
    if "m \<noteq> []" for c :: captures and m
    using that canonical_label_ends by (auto split: option.split dest!: lab)
  have chars: "set (?f c m) \<subseteq> set m \<union> (UNIV - {LF})" for c :: captures and m
    using canonical_label_ends by (auto split: option.split dest!: lab)
  note l = clean_ends [OF assms(2)]
  have "hd l \<noteq> CHR ''#''" using assms(2) by (cases l) (auto simp: clean_line_def is_content_def starts_with_def)
  with l have "good_end (hd l)" by (simp add: good_end_def)
  moreover note rx_replace_all_ends [of ?f good_end l BNODE, OF ends l(1)]
  ultimately have out: "relabel_line labels l \<noteq> []" "good_end (hd (relabel_line labels l))"
    "last (relabel_line labels l) = last l \<or> good_end (last (relabel_line labels l))"
    unfolding relabel_line_def by auto
  have "LF \<notin> set (relabel_line labels l)"
    using rx_replace_all_set [of ?f "UNIV - {LF}" BNODE l, OF chars] assms(2)
    unfolding relabel_line_def clean_line_def by blast
  moreover have "trim (relabel_line labels l) = relabel_line labels l"
    using out l(3) by (intro trim_by_ends) (auto simp: good_end_def)
  moreover have "is_content (relabel_line labels l)"
    using out(1,2) by (cases "relabel_line labels l") (auto simp: is_content_def starts_with_def good_end_def)
  ultimately show ?thesis by (simp add: clean_line_def)
qed

lemma join_ends:
  "ls \<noteq> [] \<Longrightarrow> list_all clean_line ls \<Longrightarrow>
     join [LF] ls \<noteq> [] \<and> hd (join [LF] ls) = hd (hd ls) \<and> last (join [LF] ls) = last (last ls)"
proof (induction "[LF]" ls rule: join.induct)
  case (3 x y xs)
  from 3(3) have "x \<noteq> []" using clean_ends(1) by simp
  with 3 show ?case by simp
qed (auto dest: clean_ends(1))

lemma body_lines_serialize:
  assumes "list_all clean_line ts" "set (map snd labels) \<subseteq> range canonical_label"
  shows "set (body_lines (serialize ts labels)) = relabel_line labels ` set ts"
proof (cases "ts = []")
  case True
  then show ?thesis by (simp add: serialize_def body_lines_def trim_def trim_start_def trim_end_def is_space_def)
next
  case False
  let ?ls = "sort (uniq (map (relabel_line labels) ts))"
  have clean: "list_all clean_line ?ls" using assms relabelled_clean by (auto simp: list_all_iff)
  have ne: "?ls \<noteq> []" using False by (metis map_is_Nil_conv set_empty set_sort set_uniq)
  note j = join_ends [OF ne clean]
  have "hd ?ls \<in> set ?ls" "last ?ls \<in> set ?ls" using ne by (rule hd_in_set, rule last_in_set)
  with clean have e: "clean_line (hd ?ls)" "clean_line (last ?ls)" by (auto simp: list_all_iff)
  have h: "\<not> is_space (hd (join [LF] ?ls))" using j clean_ends(2) [OF e(1)] by simp
  have la: "\<not> is_space (last (join [LF] ?ls))" using j clean_ends(3) [OF e(2)] by simp
  have "trim (serialize ts labels) = trim_end (join [LF] ?ls @ [LF])"
    unfolding serialize_def trim_def using j h by (subst trim_start_stable) auto
  also have "\<dots> = trim_end (join [LF] ?ls)" by (rule trim_end_snoc) (simp add: is_space_def)
  also have "\<dots> = join [LF] ?ls" using trim_end_stable j la by blast
  finally have t: "trim (serialize ts labels) = join [LF] ?ls" .
  have "split_on LF (join [LF] ?ls) = ?ls"
    by (rule split_on_join [OF ne]) (use clean in \<open>auto simp: list_all_iff clean_line_def\<close>)
  moreover have "filter (\<lambda>l. l \<noteq> []) ?ls = ?ls"
    unfolding filter_id_conv using clean clean_ends(1) by (auto simp: list_all_iff)
  ultimately show ?thesis unfolding body_lines_def t by simp
qed

definition isomorphic_lines :: "string list \<Rightarrow> string list \<Rightarrow> bool" where
  "isomorphic_lines ls rs \<longleftrightarrow> (\<exists>la lb. renames ls la \<and> renames rs lb \<and> relabel_line la ` set ls = relabel_line lb ` set rs)"

lemma no_difference_isomorphic:
  assumes "diffCanonicalRdfGraphs hash fcp bound left right = Inr d"
    "df_canonicalOnly d = []" "df_generationOnly d = []"
    "plain_graph (graph_lines fcp left)" "plain_graph (graph_lines fcp right)"
  shows "isomorphic_lines (graph_lines fcp left) (graph_lines fcp right)"
proof -
  from assms(1) obtain a b where ab: "canonicalizeRdfGraph hash fcp bound left = Inr a"
    "canonicalizeRdfGraph hash fcp bound right = Inr b" "d = diff_lines a b"
    by (auto simp: diffCanonicalRdfGraphs_def bindR_eq_Inr)
  have same: "set (body_lines a) = set (body_lines b)"
    using assms(2,3) ab(3) diff_empty_iff by blast
  have clean: "list_all clean_line (graph_lines fcp left)" "list_all clean_line (graph_lines fcp right)"
    using assms(4,5) by (auto simp: plain_graph_def list_all_iff)
  from canonicalize_relabels [OF ab(1)] obtain la where la: "proper_labelling (graph_lines fcp left) la"
    "a = serialize (graph_lines fcp left) la" by blast
  from canonicalize_relabels [OF ab(2)] obtain lb where lb: "proper_labelling (graph_lines fcp right) lb"
    "b = serialize (graph_lines fcp right) lb" by blast
  have labels: "set (map snd la) \<subseteq> range canonical_label" "set (map snd lb) \<subseteq> range canonical_label"
    using la(1) lb(1) by (simp_all add: proper_labelling_def)
  note eq = same [unfolded la(2) lb(2) body_lines_serialize [OF clean(1) labels(1)] body_lines_serialize [OF clean(2) labels(2)]]
  show ?thesis unfolding isomorphic_lines_def
    using proper_renames [OF assms(4) la(1)] proper_renames [OF assms(5) lb(1)] eq by blast
qed


definition plain_code_point :: "nat \<Rightarrow> string" where
  "plain_code_point k = [char_of k]"

definition demo_left :: string where
  "demo_left = ''_:x <p> _:y .''"

definition demo_right :: string where
  "demo_right = ''_:b <p> _:a .''"

definition demo_canonical :: string where
  "demo_canonical = ''_:c14n1 <p> _:c14n0 .'' @ [LF]"

lemma demo_lines:
  "graph_lines fcp demo_left = [''_:x <p> _:y .'']"
  "graph_lines fcp demo_right = [''_:b <p> _:a .'']"
  by (subst graph_lines_plain, code_simp, code_simp)+

lemma demo_canonicalizes:
  "canonicalizeRdfGraph id fcp 100000 demo_left = Inr demo_canonical"
  "canonicalizeRdfGraph id fcp 100000 demo_right = Inr demo_canonical"
  unfolding canonicalizeRdfGraph_def demo_lines by code_simp+


text \<open>
  What looks like a blank node inside a literal is renamed: the graphs \<open><s> <p> "_:x"\<close> and \<open><s> <p> "_:y"\<close>,
  which have no blank node, do not differ.
\<close>

definition quoted :: "string \<Rightarrow> string" where
  "quoted s = [CHR 0x22] @ s @ [CHR 0x22]"

definition no_difference :: "rdf_diff result" where
  "no_difference = Inr \<lparr>df_canonicalOnly = [], df_generationOnly = []\<rparr>"

lemma literal_read_as_node:
  "diffCanonicalRdfGraphs id plain_code_point 100000 (''<s> <p> '' @ quoted ''_:x'' @ '' .'') (''<s> <p> '' @ quoted ''_:y'' @ '' .'') =
     no_difference"
  "blank_terms (''<s> <p> '' @ quoted ''_:x'' @ '' .'') = []"
  by code_simp+

text \<open>
  An escaped line break is written out, and the comparison takes the pieces for lines of their own: a graph
  with the literals \<open>a\nb\<close> and \<open>c\nd\<close> does not differ from one with \<open>a\nd\<close> and \<open>c\nb\<close>.
\<close>

definition broken :: "string \<Rightarrow> string \<Rightarrow> string" where
  "broken a b = ''<s> <p> '' @ quoted (a @ [CHR 0x5C] @ ''u000A'' @ b) @ '' .''"

lemma escaped_line_break:
  "diffCanonicalRdfGraphs id plain_code_point 100000 (broken ''a'' ''b'' @ [LF] @ broken ''c'' ''d'') (broken ''a'' ''d'' @ [LF] @ broken ''c'' ''b'') =
     no_difference"
  by code_simp

text \<open>The search is bounded: a canonicalization that does not fail with the search limit has tried at
  most \<open>maxPermutations\<close> labellings, exactly the product of the factorials of the sizes of the
  colour classes, and found the smallest text among them.\<close>

theorem search_bounded:
  assumes "canonicalizeRdfGraph hash fcp bound input = Inr out"
    "graph_lines fcp input = ts" "graph_nodes ts = nodes" "nodes \<noteq> []"
    "colour_groups nodes (refine hash nodes ts (Suc (length nodes)) (colour_round hash nodes ts None)) = gs"
  shows "length (cartesianPermutations gs) = combinations gs \<and> int (combinations gs) \<le> bound \<and>
     bound \<le> 1000000 \<and>
     out \<in> (\<lambda>p. serialize ts (order_labels p)) ` set (cartesianPermutations gs) \<and>
     (\<forall>p \<in> set (cartesianPermutations gs). out \<le> serialize ts (order_labels p))"
proof -
  let ?cs = "map (\<lambda>order. serialize ts (order_labels order)) (cartesianPermutations gs)"
  have "length ?cs > 0" by (simp add: length_cartesian combinations_pos)
  then have ne: "?cs \<noteq> []" by (metis length_greater_0_conv)
  then obtain m where m: "best_candidate None ?cs = Some m" "m \<in> set ?cs" "\<forall>c \<in> set ?cs. m \<le> c"
    using best_candidate_min [of ?cs None] by auto
  have "out = m" "int (combinations gs) \<le> bound" "bound \<le> 1000000"
    using assms m(1) unfolding canonicalizeRdfGraph_def Let_def by (simp_all split: if_splits)
  with m show ?thesis by (simp add: length_cartesian)
qed

theorem search_bounded_witness:
  "\<exists>gs. length (cartesianPermutations gs) = combinations gs \<and> int (combinations gs) \<le> 100000 \<and>
     demo_canonical \<in> (\<lambda>p. serialize [''_:x <p> _:y .''] (order_labels p)) ` set (cartesianPermutations gs)"
proof -
  have ne: "graph_nodes [''_:x <p> _:y .''] \<noteq> []" by code_simp
  from search_bounded [OF demo_canonicalizes(1) demo_lines(1) refl ne refl]
  show ?thesis by blast
qed

text \<open>The canonical form depends on the labels when one label is a prefix of another: the two
  isomorphic graphs \<open>_:b10 <p> _:b1\<close> and \<open>_:x <p> _:y\<close> get different canonical forms for some hash
  function, so a comparison of equal graphs can report differences.\<close>

theorem canonical_form_depends_on_labels:
  "\<exists>hash a b. canonicalizeRdfGraph hash plain_code_point 100000 ''_:b10 <p> _:b1 .'' = Inr a \<and>
     canonicalizeRdfGraph hash plain_code_point 100000 ''_:x <p> _:y .'' = Inr b \<and> a \<noteq> b \<and>
     relabel_line [(''_:b10'', ''_:x''), (''_:b1'', ''_:y'')] ''_:b10 <p> _:b1 .'' = ''_:x <p> _:y .''"
proof -
  have l: "graph_lines plain_code_point ''_:b10 <p> _:b1 .'' = [''_:b10 <p> _:b1 .'']"
    by (subst graph_lines_plain) code_simp+
  have "canonicalizeRdfGraph id plain_code_point 100000 ''_:b10 <p> _:b1 .'' =
      Inr (''_:c14n0 <p> _:c14n1 .'' @ [LF])"
    unfolding canonicalizeRdfGraph_def l by code_simp
  moreover have "canonicalizeRdfGraph id plain_code_point 100000 ''_:x <p> _:y .'' = Inr demo_canonical"
    using demo_canonicalizes(1) by (simp add: demo_left_def)
  moreover have "''_:c14n0 <p> _:c14n1 .'' @ [LF] \<noteq> demo_canonical" by code_simp
  moreover have "relabel_line [(''_:b10'', ''_:x''), (''_:b1'', ''_:y'')] ''_:b10 <p> _:b1 .'' = ''_:x <p> _:y .''"
    by code_simp
  ultimately show ?thesis by blast
qed

end
