(* ===== verification/SnapshotLoader.thy ===== *)
theory SnapshotLoader
  imports RdfPartition SyncState
begin

text \<open>
  \<open>services/rdf-sync/src/generation-dataset-loader.js\<close>: a dump is normalized, partitioned and
  written graph by graph to an empty backend, with the revision of every entity recorded.  The
  backend, the repository, the file system, the clock and SHA-256 are fields of the loader;
  \<open>memory_loader\<close> puts the in-memory repository in their place.
\<close>

record snapshot_manifest =
  sm_version :: nat
  sm_normalizationModel :: string
  sm_partitionModel :: string
  sm_graphCount :: nat
  sm_provenance :: "evidence list"

record 'w dataset_loader =
  ld_resetToken :: "('w, string) action"
  ld_reset :: "string \<Rightarrow> ('w, unit) action"
  ld_replaceNamedGraph :: "string \<Rightarrow> string \<Rightarrow> string \<Rightarrow> ('w, unit) action"
  ld_registerGraph :: "string \<Rightarrow> string \<Rightarrow> string option \<Rightarrow> ('w, unit) action"
  ld_saveEntity :: "entity_row \<Rightarrow> ('w, unit) action"
  ld_setSchemaState :: "string \<Rightarrow> ('w, unit) action"
  ld_saveGenerationManifest :: "(snapshot_manifest \<Rightarrow> ('w, unit) action) option"
  ld_writeFile :: "string \<Rightarrow> string \<Rightarrow> ('w, unit) action"
  ld_chmod :: "string \<Rightarrow> ('w, unit) action"
  ld_unlink :: "string \<Rightarrow> ('w, unit) action"
  ld_now :: "('w, string) action"
  ld_sha256 :: "string \<Rightarrow> string"

text \<open>\<open>materialize\<close>: \<open>writeFile\<close> is the exclusive one (\<open>flag: "wx"\<close>)\<close>

definition loader_materialize :: "'w dataset_loader \<Rightarrow> string \<Rightarrow> string \<Rightarrow> ('w, string) action" where
  "loader_materialize L graphIri body =
     (let path = ''/tmp/jwb-generation-'' @ ld_sha256 L graphIri @ ''.nt'' in
      thenA (ld_writeFile L path body) (thenA (ld_chmod L path) (returnA path)))"

text \<open>\<open>[...s.matchAll(/r/g)]\<close> with the captured groups, for an expression that matches no empty text\<close>

function rx_matches :: "rx \<Rightarrow> string \<Rightarrow> captures list" where
  "rx_matches r [] = []"
| "rx_matches r (x # xs) =
     (case runs r (x # xs) [] of
        [] \<Rightarrow> rx_matches r xs
      | (rest, c) # _ \<Rightarrow>
          if length rest \<le> length xs then c # rx_matches r rest else rx_matches r xs)"
  by pat_completeness auto
termination by (relation "measure (\<lambda>(r, s). length s)") auto

text \<open>
  \<open><[^>]+/(?:entity|wiki/Special:EntityData)/ID> <http://schema\.org/version> "([0-9]+)"(?:...)?\<close>
\<close>

definition REVISION_TRIPLE :: "string \<Rightarrow> rx" where
  "REVISION_TRIPLE entityId = Cats
     [Lit ''<'', Plus1 (NoneOf ''>''), Lit ''/'', Alts [Lit ''entity'', Lit ''wiki/Special:EntityData''],
      Lit (''/'' @ entityId @ ''> <http://schema.org/version> ''), Chr (CHR 0x22),
      Grp 1 (Plus1 (Cls is_digit)), Chr (CHR 0x22),
      Opt (Lit ''^^<http://www.w3.org/2001/XMLSchema#integer>'')]"

definition entityRevision :: "string \<Rightarrow> string \<Rightarrow> int result" where
  "entityRevision body entityId =
     (case uniq (map (\<lambda>m. digits_val (captured m 1)) (rx_matches (REVISION_TRIPLE entityId) body)) of
        [revision] \<Rightarrow> if 1 \<le> revision then Inr (int revision)
          else Inl ''SNAPSHOT_ENTITY_REVISION_AMBIGUOUS''
      | _ \<Rightarrow> Inl ''SNAPSHOT_ENTITY_REVISION_AMBIGUOUS'')"

text \<open>\<open>/^urn:jwb:(?:entity:|schema:)([QP][1-9][0-9]*)$/u\<close>\<close>

definition MANAGED_GRAPH :: rx where
  "MANAGED_GRAPH = Cats [Lit ''urn:jwb:'', Alts [Lit ''entity:'', Lit ''schema:''], Grp 1 ENTITY_ID]"

definition graph_entity :: "string \<Rightarrow> string option" where
  "graph_entity graphIri = (case rx_exec MANAGED_GRAPH graphIri of None \<Rightarrow> None | Some c \<Rightarrow> group c 1)"

definition partition_kind :: "string \<Rightarrow> string" where
  "partition_kind graphIri =
     (if graphIri = ''urn:jwb:global'' then ''GLOBAL''
      else if starts_with ''urn:jwb:schema:'' graphIri then ''PROPERTY_SCHEMA'' else ''ENTITY'')"

text \<open>One round of the loop over the graphs\<close>

definition load_graph :: "'w dataset_loader \<Rightarrow> string \<times> string \<Rightarrow> ('w, unit) action" where
  "load_graph L = (\<lambda>(graphIri, body).
     if body = [] then returnA ()
     else
     bindA (loader_materialize L graphIri body) (\<lambda>path.
     thenA (finallyA (ld_replaceNamedGraph L graphIri path ''application/n-triples'')
        (catchA (ld_unlink L path) (\<lambda>_. returnA ())))
     (let entityId = graph_entity graphIri; partitionKind = partition_kind graphIri in
      thenA (ld_registerGraph L graphIri partitionKind entityId)
      (whenA (partitionKind = ''ENTITY'')
        (let e = (case entityId of Some e \<Rightarrow> e | None \<Rightarrow> ''null'') in
         bindA (liftA (entityRevision body e)) (\<lambda>revision.
         bindA (ld_now L) (\<lambda>now.
         ld_saveEntity L \<lparr>row_entity = e, row_indexed = revision, row_latestSeen = revision,
           row_status = ''CURRENT'', row_checksum = Some (ld_sha256 L body),
           row_lastSuccessAt = Some now, row_errorCode = None\<rparr>)))))))"

record load_result =
  lr_graphCount :: nat
  lr_partitionModel :: string
  lr_normalizationModel :: string
  lr_provenance :: "evidence list"

definition loadSnapshot :: "'w dataset_loader \<Rightarrow> string \<Rightarrow> ('w, load_result) action" where
  "loadSnapshot L rdf =
     bindA (liftA (normalizeWikibaseRdf (ld_sha256 L) rdf ''FULL_DUMP'')) (\<lambda>normalization.
     bindA (liftA (partitionWikibaseSnapshot (nz_rdf normalization))) (\<lambda>dataset.
     bindA (ld_resetToken L) (\<lambda>token.
     thenA (ld_reset L token)
     (thenA (forA (ds_graphs dataset) (load_graph L))
     (thenA (ld_setSchemaState L ''CURRENT'')
     (thenA (case ld_saveGenerationManifest L of
         None \<Rightarrow> returnA ()
       | Some save \<Rightarrow> save \<lparr>sm_version = 1, sm_normalizationModel = nz_model normalization,
           sm_partitionModel = ds_partitionModel dataset, sm_graphCount = length (ds_graphs dataset),
           sm_provenance = nz_provenance normalization\<rparr>)
     (returnA \<lparr>lr_graphCount = length (ds_graphs dataset), lr_partitionModel = ds_partitionModel dataset,
       lr_normalizationModel = nz_model normalization, lr_provenance = nz_provenance normalization\<rparr>)))))))"

section \<open>On the in-memory repository\<close>

text \<open>Any backend, file system and clock, acting on a state of their own\<close>

record 'b loader_effects =
  lx_resetToken :: "('b, string) action"
  lx_reset :: "string \<Rightarrow> ('b, unit) action"
  lx_replaceNamedGraph :: "string \<Rightarrow> string \<Rightarrow> string \<Rightarrow> ('b, unit) action"
  lx_writeFile :: "string \<Rightarrow> string \<Rightarrow> ('b, unit) action"
  lx_chmod :: "string \<Rightarrow> ('b, unit) action"
  lx_unlink :: "string \<Rightarrow> ('b, unit) action"
  lx_now :: "('b, string) action"
  lx_sha256 :: "string \<Rightarrow> string"

definition memory_loader :: "'b loader_effects \<Rightarrow> (memory_repo \<times> 'b) dataset_loader" where
  "memory_loader X =
     \<lparr>ld_resetToken = on_snd (lx_resetToken X), ld_reset = (\<lambda>t. on_snd (lx_reset X t)),
      ld_replaceNamedGraph = (\<lambda>g p t. on_snd (lx_replaceNamedGraph X g p t)),
      ld_registerGraph = (\<lambda>g k e. on_fst (mr_registerGraph g k (case e of None \<Rightarrow> [] | Some x \<Rightarrow> x))),
      ld_saveEntity = (\<lambda>r. on_fst (mr_saveEntity r)),
      ld_setSchemaState = (\<lambda>s. on_fst (mr_setSchemaState s)),
      ld_saveGenerationManifest = None,
      ld_writeFile = (\<lambda>p b. on_snd (lx_writeFile X p b)), ld_chmod = (\<lambda>p. on_snd (lx_chmod X p)),
      ld_unlink = (\<lambda>p. on_snd (lx_unlink X p)), ld_now = on_snd (lx_now X),
      ld_sha256 = lx_sha256 X\<rparr>"

section \<open>Properties\<close>

lemma graph_entity_iff:
  "graph_entity g = Some e \<longleftrightarrow>
     entity_id e \<and> (g = ''urn:jwb:entity:'' @ e \<or> g = ''urn:jwb:schema:'' @ e)"
proof -
  let ?k = "Alts [Lit ''entity:'', Lit ''schema:'']"
  have k: "\<not> has_group ?k" "\<not> has_group ENTITY_ID" "\<not> has_group (Lit ''urn:jwb:'')"
    by (simp_all add: Chr_def ENTITY_ID_def OneOf_def Lit.simps)
  have lk: "w \<in> rx_lang ?k \<longleftrightarrow> w = ''entity:'' \<or> w = ''schema:''" for w
    by (auto simp: rx_lang_Alts)
  have run: "\<exists>w. c = [(1, w)] \<and> entity_id w \<and> (g = ''urn:jwb:entity:'' @ w \<or> g = ''urn:jwb:schema:'' @ w)"
    if "rx_exec MANAGED_GRAPH g = Some c" for c
  proof -
    from rx_exec_runs [OF that] obtain s1 c1 s2 c2 where
      r: "(s1, c1) \<in> set (runs (Lit ''urn:jwb:'') g [])" "(s2, c2) \<in> set (runs ?k s1 c1)"
        "([], c) \<in> set (runs (Grp 1 ENTITY_ID) s2 c2)"
      unfolding MANAGED_GRAPH_def Cats.simps by (metis runs_Cat)
    from runs_plain [OF r(1) k(3)] have "c1 = []" "g = ''urn:jwb:'' @ s1" by auto
    moreover from runs_plain [OF r(2) k(1)] obtain u where "c2 = c1" "s1 = u @ s2" "u = ''entity:'' \<or> u = ''schema:''"
      unfolding lk by blast
    moreover from runs_Grp [OF r(3) k(2)] have "entity_id s2" "c = (1, s2) # c2"
      by (auto simp: entity_id_def rx_test_lang)
    ultimately show ?thesis by auto
  qed
  show ?thesis
  proof
    assume "graph_entity g = Some e"
    then obtain c where "rx_exec MANAGED_GRAPH g = Some c" "group c 1 = Some e"
      by (auto simp: graph_entity_def split: option.splits)
    with run [OF this(1)] show "entity_id e \<and> (g = ''urn:jwb:entity:'' @ e \<or> g = ''urn:jwb:schema:'' @ e)"
      by (auto simp: group_def)
  next
    assume *: "entity_id e \<and> (g = ''urn:jwb:entity:'' @ e \<or> g = ''urn:jwb:schema:'' @ e)"
    then obtain u where t: "g = ''urn:jwb:'' @ u @ e" "u \<in> rx_lang ?k" by (auto simp: lk simp del: Alts.simps)
    have "g \<in> rx_lang MANAGED_GRAPH"
      unfolding MANAGED_GRAPH_def Cats.simps t(1)
      using t(2) * by (intro rx_lang_CatI) (auto simp: entity_id_def rx_test_lang simp del: Alts.simps)
    then obtain c where c: "rx_exec MANAGED_GRAPH g = Some c" using rx_exec_lang by blast
    from run [OF c] * have "c = [(1, e)]" by auto
    with c show "graph_entity g = Some e" by (simp add: graph_entity_def group_def)
  qed
qed

text \<open>A graph of a snapshot is an entity graph or not, and what loading it does to the rows\<close>

definition loaded_row :: "string \<Rightarrow> int \<Rightarrow> string \<Rightarrow> string \<Rightarrow> entity_row" where
  "loaded_row e revision checksum at =
     \<lparr>row_entity = e, row_indexed = revision, row_latestSeen = revision, row_status = ''CURRENT'',
       row_checksum = Some checksum, row_lastSuccessAt = Some at, row_errorCode = None\<rparr>"

definition row_loaded :: "'b loader_effects \<Rightarrow> memory_repo \<Rightarrow> string \<times> string \<Rightarrow> bool" where
  "row_loaded X m g \<longleftrightarrow> (\<forall>e. entity_id e \<and> fst g = ''urn:jwb:entity:'' @ e \<and> snd g \<noteq> [] \<longrightarrow>
     (\<exists>rev at. entityRevision (snd g) e = Inr rev \<and> mr_row m e = loaded_row e rev (lx_sha256 X (snd g)) at))"

lemma unlink_frame: "catchA (on_snd m) (\<lambda>_. returnA u) w = (r, w') \<Longrightarrow> fst w' = fst w"
  by (erule keepsD [rotated]) (intro keeps_intros)

lemma load_graph_other:
  assumes "load_graph (memory_loader X) (g, body) w = (Inr u, w')"
    "entity_id e" "g \<noteq> ''urn:jwb:entity:'' @ e" "graph_entity g \<noteq> None \<or> partition_kind g \<noteq> ''ENTITY''"
  shows "mr_row (fst w') e = mr_row (fst w) e"
proof -
  have "f \<noteq> e" if "graph_entity g = Some f" "partition_kind g = ''ENTITY''" for f
    using that assms(3) by (auto simp: graph_entity_iff partition_kind_def starts_with_iff split: if_splits)
  then show ?thesis using assms(1,4)
    by (auto simp: load_graph_def memory_loader_def loader_materialize_def Let_def bindA_Inr thenA_Inr
        finallyA_Inr on_fst_eq on_snd_eq whenA_def mr_registerGraph_def mr_saveEntity_def
        dest!: unlink_frame split: if_splits option.splits)
qed

lemma load_graph_entity:
  assumes "load_graph (memory_loader X) (''urn:jwb:entity:'' @ e, body) w = (Inr u, w')"
    "entity_id e"
  shows "row_loaded X (fst w') (''urn:jwb:entity:'' @ e, body)"
proof -
  have g: "graph_entity (''urn:jwb:entity:'' @ e) = Some e" using assms(2) by (simp only: graph_entity_iff) simp
  have k: "partition_kind (''urn:jwb:entity:'' @ e) = ''ENTITY''"
    by (simp add: partition_kind_def starts_with_def)
  show ?thesis
  proof (cases "body = []")
    case False
    with assms(1) have "\<exists>rev at. entityRevision body e = Inr rev \<and>
        mr_row (fst w') e = loaded_row e rev (lx_sha256 X body) at"
      unfolding load_graph_def memory_loader_def Let_def prod.case g k option.case
      by (auto simp: loader_materialize_def bindA_Inr thenA_Inr on_fst_eq on_snd_eq whenA_def
          mr_saveEntity_def loaded_row_def)
    then show ?thesis by (auto simp: row_loaded_def)
  qed (simp add: row_loaded_def)
qed

text \<open>The graphs a snapshot can have\<close>

definition managed_key :: "string \<Rightarrow> bool" where
  "managed_key k \<longleftrightarrow> k = GLOBAL_GRAPH_IRI \<or> graph_entity k \<noteq> None"

definition managed_graphs :: "graphs \<Rightarrow> bool" where
  "managed_graphs gs \<longleftrightarrow> distinct (map fst gs) \<and> fst ` set gs \<subseteq> {k. managed_key k}"

lemma managed_update: "managed_key k \<Longrightarrow> managed_graphs g \<Longrightarrow> managed_graphs (AList.update k b g)"
  by (simp add: managed_graphs_def distinct_update dom_update)

lemma managed_keys:
  "managed_key GLOBAL_GRAPH_IRI"
  "entity_id e \<Longrightarrow> managed_key (''urn:jwb:entity:'' @ e)"
  "entity_id e \<Longrightarrow> managed_key (''urn:jwb:schema:'' @ e)"
  unfolding managed_key_def using graph_entity_iff by blast+

lemma managed_known: "managed_graphs gs \<Longrightarrow> k \<in> set (map fst gs) \<Longrightarrow>
   graph_entity k \<noteq> None \<or> partition_kind k \<noteq> ''ENTITY''"
  by (auto simp: managed_graphs_def managed_key_def partition_kind_def GLOBAL_GRAPH_IRI_def)

lemma load_graphs_rows:
  "forA gs (load_graph (memory_loader X)) w = (Inr u, w') \<Longrightarrow> managed_graphs gs \<Longrightarrow>
   (\<forall>g \<in> set gs. row_loaded X (fst w') g) \<and>
   (\<forall>e. entity_id e \<and> ''urn:jwb:entity:'' @ e \<notin> set (map fst gs) \<longrightarrow> mr_row (fst w') e = mr_row (fst w) e)"
proof (induction gs arbitrary: w)
  case (Cons g gs)
  obtain k body where g: "g = (k, body)" by fastforce
  from Cons.prems(1) obtain v w1 where 1: "load_graph (memory_loader X) (k, body) w = (Inr v, w1)"
    and 2: "forA gs (load_graph (memory_loader X)) w1 = (Inr u, w')" by (auto simp: thenA_Inr g)
  have m: "managed_graphs gs" "k \<notin> set (map fst gs)" using Cons.prems(2) by (auto simp: managed_graphs_def g)
  have known: "graph_entity k \<noteq> None \<or> partition_kind k \<noteq> ''ENTITY''"
    by (rule managed_known [OF Cons.prems(2)]) (simp add: g)
  note IH = Cons.IH [OF 2 m(1)]
  have "row_loaded X (fst w') (k, body)"
  proof (unfold row_loaded_def, intro allI impI)
    fix e assume e: "entity_id e \<and> fst (k, body) = ''urn:jwb:entity:'' @ e \<and> snd (k, body) \<noteq> []"
    then have k: "k = ''urn:jwb:entity:'' @ e" by simp
    from load_graph_entity [OF 1 [unfolded k]] e have "row_loaded X (fst w1) (k, body)" by (simp add: k)
    moreover have "mr_row (fst w') e = mr_row (fst w1) e" using IH m(2) e k by blast
    ultimately show "\<exists>rev at. entityRevision (snd (k, body)) e = Inr rev \<and>
        mr_row (fst w') e = loaded_row e rev (lx_sha256 X (snd (k, body))) at"
      using e unfolding row_loaded_def by simp
  qed
  moreover have "mr_row (fst w') e = mr_row (fst w) e"
    if "entity_id e" "''urn:jwb:entity:'' @ e \<notin> set (map fst (g # gs))" for e
    using load_graph_other [OF 1 that(1) _ known] IH that by (auto simp: g)
  ultimately show ?case using IH by (auto simp: g)
qed simp

lemma partition_entity_managed:
  "partition_entity ts e (g, a) = Inr (g', a') \<Longrightarrow> managed_graphs g \<Longrightarrow> managed_graphs g'"
  unfolding partition_entity_Inr
  by (cases "starts_with ''P'' e") (use managed_update managed_keys in \<open>simp_all only: if_True if_False simp_thms\<close>)

lemma partition_entities_managed:
  "partition_entities ts es (g, a) = Inr (g', a') \<Longrightarrow> managed_graphs g \<Longrightarrow> managed_graphs g'"
  by (induction es arbitrary: g a) (auto simp: bindR_eq_Inr dest: partition_entity_managed)

lemma snapshot_managed: "partitionWikibaseSnapshot rdf = Inr d \<Longrightarrow> managed_graphs (ds_graphs d)"
proof -
  assume "partitionWikibaseSnapshot rdf = Inr d"
  then obtain ts g a b where "partition_entities ts (discoverEntities ts) ([], []) = Inr (g, a)"
    "ds_graphs d = AList.update GLOBAL_GRAPH_IRI b g"
    by (auto simp: partitionWikibaseSnapshot_def bindR_eq_Inr)
  moreover have "managed_graphs []" by (simp add: managed_graphs_def)
  ultimately show ?thesis using partition_entities_managed managed_update managed_keys(1) by metis
qed

text \<open>A snapshot that loads successfully leaves every entity at exactly the revision its own graph
  states: whatever the backend and the file system do, the row of each entity with a graph says
  \<open>CURRENT\<close>, with the one revision found in that graph as indexed and latest seen revision and the
  checksum of that graph, and the schema state is \<open>CURRENT\<close>.\<close>

theorem snapshot_rows:
  assumes "loadSnapshot (memory_loader X) rdf w = (Inr out, w')"
  shows "mr_schemaState (fst w') = ''CURRENT'' \<and>
    (\<exists>n d. normalizeWikibaseRdf (lx_sha256 X) rdf ''FULL_DUMP'' = Inr n \<and>
      partitionWikibaseSnapshot (nz_rdf n) = Inr d \<and> lr_graphCount out = length (ds_graphs d) \<and>
      (\<forall>e body. entity_id e \<and> map_of (ds_graphs d) (''urn:jwb:entity:'' @ e) = Some body \<and> body \<noteq> [] \<longrightarrow>
        (\<exists>rev at. entityRevision body e = Inr rev \<and> 1 \<le> rev \<and>
          mr_row (fst w') e = loaded_row e rev (lx_sha256 X body) at)))"
proof -
  have sha: "ld_sha256 (memory_loader X) = lx_sha256 X" by (simp add: memory_loader_def)
  from assms obtain n d w1 w2 u where
    n: "normalizeWikibaseRdf (lx_sha256 X) rdf ''FULL_DUMP'' = Inr n"
    and d: "partitionWikibaseSnapshot (nz_rdf n) = Inr d"
    and loop: "forA (ds_graphs d) (load_graph (memory_loader X)) w1 = (Inr u, w2)"
    and w': "on_fst (mr_setSchemaState ''CURRENT'') w2 = (Inr (), w')"
    and out: "lr_graphCount out = length (ds_graphs d)"
    unfolding loadSnapshot_def sha
    by (auto simp: bindA_Inr thenA_Inr) (auto simp: memory_loader_def)
  have rows: "mr_row (fst w') = mr_row (fst w2)" "mr_schemaState (fst w') = ''CURRENT''"
    using w' by (auto simp: on_fst_eq mr_setSchemaState_def)
  have pos: "entityRevision b e = Inr rev \<Longrightarrow> 1 \<le> rev" for b e rev
    by (auto simp: entityRevision_def split: list.splits if_splits)
  have "\<exists>rev at. entityRevision body e = Inr rev \<and> 1 \<le> rev \<and>
          mr_row (fst w') e = loaded_row e rev (lx_sha256 X body) at"
    if "entity_id e" "map_of (ds_graphs d) (''urn:jwb:entity:'' @ e) = Some body" "body \<noteq> []" for e body
  proof -
    have "row_loaded X (fst w2) (''urn:jwb:entity:'' @ e, body)"
      using load_graphs_rows [OF loop snapshot_managed [OF d]] map_of_SomeD [OF that(2)] by blast
    with that show ?thesis unfolding row_loaded_def rows(1) using pos by fastforce
  qed
  with n d out rows(2) show ?thesis by blast
qed

definition demo_effects :: "unit loader_effects" where
  "demo_effects = \<lparr>lx_resetToken = returnA ''t'', lx_reset = (\<lambda>_. returnA ()),
     lx_replaceNamedGraph = (\<lambda>_ _ _. returnA ()), lx_writeFile = (\<lambda>_ _. returnA ()),
     lx_chmod = (\<lambda>_. returnA ()), lx_unlink = (\<lambda>_. returnA ()), lx_now = returnA ''now'',
     lx_sha256 = (\<lambda>_. ''h'')\<rparr>"

definition demo_revision_rdf :: string where
  "demo_revision_rdf = ''<h/entity/Q1> <http://schema.org/version> \"5\" .''"

lemma demo_revision_partition:
  "bindR (normalizeWikibaseRdf (lx_sha256 demo_effects) demo_revision_rdf ''FULL_DUMP'') (\<lambda>n.
     bindR (partitionWikibaseSnapshot (nz_rdf n)) (\<lambda>d.
     Inr (map_of (ds_graphs d) ''urn:jwb:entity:Q1''))) = Inr (Some (demo_revision_rdf @ [LF]))"
  by code_simp

theorem snapshot_rows_witness:
  "\<exists>w' at. snd (loadSnapshot (memory_loader demo_effects) demo_revision_rdf (new_memory_repo ''s'', ())) = w' \<and>
     mr_row (fst w') ''Q1'' = loaded_row ''Q1'' 5 ''h'' at"
proof -
  let ?m = "loadSnapshot (memory_loader demo_effects) demo_revision_rdf (new_memory_repo ''s'', ())"
  obtain r w' where run: "?m = (r, w')" by (metis prod.collapse)
  have "is_ok (fst ?m)" by code_simp
  with run obtain out where run': "?m = (Inr out, w')" by (auto simp: is_ok_iff)
  from snapshot_rows [OF run'] obtain n d where
    nd: "normalizeWikibaseRdf (lx_sha256 demo_effects) demo_revision_rdf ''FULL_DUMP'' = Inr n"
      "partitionWikibaseSnapshot (nz_rdf n) = Inr d"
    and rows: "\<forall>e body. entity_id e \<and> map_of (ds_graphs d) (''urn:jwb:entity:'' @ e) = Some body \<and> body \<noteq> [] \<longrightarrow>
        (\<exists>rev at. entityRevision body e = Inr rev \<and> 1 \<le> rev \<and>
          mr_row (fst w') e = loaded_row e rev (lx_sha256 demo_effects body) at)" by blast
  from demo_revision_partition nd
  have "map_of (ds_graphs d) (''urn:jwb:entity:'' @ ''Q1'') = Some (demo_revision_rdf @ [LF])" by simp
  moreover have "entity_id ''Q1''" by code_simp
  ultimately obtain rev at where "entityRevision (demo_revision_rdf @ [LF]) ''Q1'' = Inr rev"
    "mr_row (fst w') ''Q1'' = loaded_row ''Q1'' rev (lx_sha256 demo_effects (demo_revision_rdf @ [LF])) at"
    using rows by blast
  moreover have "entityRevision (demo_revision_rdf @ [LF]) ''Q1'' = Inr 5" by code_simp
  ultimately show ?thesis using run by (auto simp: demo_effects_def)
qed

end
