(* ===== verification/ControlDb.thy ===== *)
theory ControlDb
  imports Prelude
begin

text \<open>
  The control database, as the repositories under \<open>services/rdf-sync/src/\<close> see it: the tables of
  \<open>packages/jwb-database/migrations/\<close> that the generation lifecycle uses, with the constraints the
  code relies on.  A table is the list of its rows.  A column that may be \<open>NULL\<close> is an \<open>option\<close>,
  an instant is its milliseconds, a \<open>bigint\<close> is an \<open>int\<close>.  \<open>UPDATE ... WHERE ... RETURNING *\<close> is
  \<open>update_table\<close>, whose result is the list of updated rows; its length is the \<open>rowCount\<close>.  A
  statement that would break a constraint fails and changes nothing.  \<open>now()\<close> reads \<open>db_now\<close>,
  which only the environment changes; \<open>randomUUID()\<close> draws the next of \<open>db_uuid\<close>.

  A repository method that opens a transaction takes the lock of the row it decides on before it
  reads (\<open>FOR UPDATE\<close>), so two such transactions on one row do not interleave; each is one
  \<open>transactionA\<close> here, and the single statements between transactions are steps of their own.
\<close>

section \<open>Rows\<close>

record generation_row =
  gr_source :: string
  gr_id :: string
  gr_backend :: string
  gr_state :: string
  gr_validation :: string
  gr_checksum :: "string option"
  gr_normalization :: "string option"
  gr_partition :: string
  gr_manifest :: "string option"
  gr_protection :: string
  gr_version :: int
  gr_snapshot :: "int \<times> int"
  gr_promotedAt :: "int option"
  gr_retiredAt :: "int option"
  gr_error :: "string option"
  gr_runtime :: "string option"
  gr_namespace :: "string option"

record pointer_row =
  pt_query :: string
  pt_source :: string
  pt_generation :: string
  pt_previous :: "string option"
  pt_version :: int
  pt_updatedAt :: int

record promotion_row =
  pm_id :: string
  pm_operation :: "string option"
  pm_source :: string
  pm_from :: "string option"
  pm_to :: string
  pm_state :: string
  pm_phase :: string
  pm_expected :: "int option"
  pm_resulting :: "int option"
  pm_createdAt :: int
  pm_verifiedAt :: "int option"
  pm_completedAt :: "int option"

record generation_sync_row =
  gs_source :: string
  gs_generation :: string
  gs_state :: string
  gs_schema :: string
  gs_snapshot :: "int \<times> int"
  gs_catchup :: "(int \<times> int) option"
  gs_lastSuccess :: "int option"
  gs_error :: "string option"

record source_row =
  sr_source :: string
  sr_ingestion :: "(int \<times> int) option"
  sr_legacy :: string

record graph_row =
  gg_source :: string
  gg_generation :: string
  gg_iri :: string
  gg_kind :: string
  gg_entity :: "string option"

record revision_row =
  rv_source :: string
  rv_generation :: string
  rv_entity :: string
  rv_indexed :: int
  rv_latest :: int
  rv_state :: string
  rv_checksum :: "string option"
  rv_lastSuccess :: "string option"
  rv_error :: "string option"

record operation_row =
  op_id :: string
  op_key :: string
  op_source :: string
  op_query :: string
  op_candidate :: string
  op_backend :: string
  op_reason :: string
  op_state :: string
  op_expectedGeneration :: "string option"
  op_expectedVersion :: "int option"
  op_snapshot :: "(int \<times> int) option"
  op_target :: "(int \<times> int) option"
  op_claimedBy :: "string option"
  op_ownerPod :: "string option"
  op_lease :: "int option"
  op_fence :: int
  op_error :: "string option"
  op_createdAt :: int
  op_completedAt :: "int option"
  op_type :: "string option"

record retirement_row =
  rt_id :: string
  rt_operation :: string
  rt_source :: string
  rt_generation :: string
  rt_state :: string
  rt_reasons :: "string list"
  rt_expectedPointer :: "int option"
  rt_expectedVersion :: "int option"
  rt_fence :: int
  rt_token :: "string option"
  rt_error :: "string option"
  rt_checkedAt :: "int option"
  rt_attemptedAt :: "int option"
  rt_deletedAt :: "int option"
  rt_finalizedAt :: "int option"

record release_row =
  rl_id :: string
  rl_operation :: string
  rl_key :: string
  rl_source :: string
  rl_query :: string
  rl_generation :: string
  rl_serving :: string
  rl_expectedVersion :: int
  rl_pointerVersion :: int
  rl_generationVersion :: int
  rl_fence :: int

record audit_row =
  au_id :: string
  au_operation :: "string option"
  au_source :: string
  au_released :: "string option"
  au_rollback :: "string option"
  au_serving :: string

record attempt_row =
  da_id :: string
  da_operation :: string
  da_generation :: string
  da_fence :: int
  da_token :: string
  da_role :: string
  da_namespace :: string
  da_name :: string
  da_uid :: string
  da_resourceVersion :: string
  da_state :: string
  da_intentAt :: "int option"
  da_acceptedAt :: "int option"
  da_absentAt :: "int option"

record control_db =
  db_now :: int
  db_uuid :: "nat \<Rightarrow> string"
  db_drawn :: nat
  db_generations :: "generation_row list"
  db_pointers :: "pointer_row list"
  db_promotions :: "promotion_row list"
  db_syncs :: "generation_sync_row list"
  db_sources :: "source_row list"
  db_graphs :: "graph_row list"
  db_revisions :: "revision_row list"
  db_operations :: "operation_row list"
  db_retirements :: "retirement_row list"
  db_releases :: "release_row list"
  db_audits :: "audit_row list"
  db_attempts :: "attempt_row list"

type_synonym 'a db = "(control_db, 'a) action"

section \<open>Constraints\<close>

definition generation_key :: "generation_row \<Rightarrow> string \<times> string" where
  "generation_key g = (gr_source g, gr_id g)"

text \<open>
  Primary key, the two partial unique indexes (\<open>rdf_generation_one_serving\<close>,
  \<open>rdf_generation_one_rollback_protection\<close>) and the row checks
\<close>

definition generations_ok :: "generation_row list \<Rightarrow> bool" where
  "generations_ok gs \<longleftrightarrow>
     distinct (map generation_key gs) \<and>
     distinct (map gr_source (filter (\<lambda>g. gr_state g = ''SERVING'') gs)) \<and>
     distinct (map gr_source (filter (\<lambda>g. gr_protection g = ''ROLLBACK'') gs)) \<and>
     list_all (\<lambda>g. gr_state g = ''SERVING'' \<longrightarrow>
       gr_validation g = ''VALID'' \<and> gr_promotedAt g \<noteq> None) gs \<and>
     list_all (\<lambda>g. gr_validation g = ''VALID'' \<longrightarrow> gr_checksum g \<noteq> None) gs"

definition pointers_ok :: "pointer_row list \<Rightarrow> bool" where
  "pointers_ok ps \<longleftrightarrow> distinct (map pt_query ps)"

definition promotions_ok :: "promotion_row list \<Rightarrow> bool" where
  "promotions_ok ps \<longleftrightarrow> distinct (map pm_id ps)"

text \<open>The states of migration 013, and the unique keys of the table\<close>

definition RETIREMENT_STATES :: "string list" where
  "RETIREMENT_STATES = [''REQUESTED'', ''WAITING_ELIGIBILITY'', ''ELIGIBLE'', ''SCHEDULED'', ''RETIRING'',
     ''LOGICALLY_RETIRED'', ''PHYSICAL_DELETE_PENDING'', ''PHYSICALLY_DELETED'', ''METADATA_FINALIZED'',
     ''FAILED'', ''AMBIGUOUS'']"

definition retirements_ok :: "retirement_row list \<Rightarrow> bool" where
  "retirements_ok rs \<longleftrightarrow>
     distinct (map rt_id rs) \<and> distinct (map (\<lambda>r. (rt_source r, rt_generation r)) rs) \<and>
     list_all (\<lambda>r. List.member RETIREMENT_STATES (rt_state r)) rs"

definition operations_ok :: "operation_row list \<Rightarrow> bool" where
  "operations_ok os \<longleftrightarrow> distinct (map op_id os) \<and> distinct (map op_key os)"

section \<open>Statements\<close>

text \<open>What the server answers when a constraint fails\<close>

definition CONSTRAINT_VIOLATION :: string where
  "CONSTRAINT_VIOLATION = ''violates constraint''"

definition select_rows :: "(control_db \<Rightarrow> 'r list) \<Rightarrow> ('r \<Rightarrow> bool) \<Rightarrow> 'r list db" where
  "select_rows get' P = readA (\<lambda>d. filter P (get' d))"

definition update_rows :: "('r \<Rightarrow> bool) \<Rightarrow> ('r \<Rightarrow> 'r) \<Rightarrow> 'r list \<Rightarrow> 'r list" where
  "update_rows P f = map (\<lambda>r. if P r then f r else r)"

definition update_table ::
  "(control_db \<Rightarrow> 'r list) \<Rightarrow> (('r list \<Rightarrow> 'r list) \<Rightarrow> control_db \<Rightarrow> control_db) \<Rightarrow> ('r list \<Rightarrow> bool) \<Rightarrow>
   ('r \<Rightarrow> bool) \<Rightarrow> ('r \<Rightarrow> 'r) \<Rightarrow> 'r list db" where
  "update_table get' put ok P f = (\<lambda>d.
     if ok (update_rows P f (get' d))
     then (Inr (map f (filter P (get' d))), put (\<lambda>_. update_rows P f (get' d)) d)
     else (Inl CONSTRAINT_VIOLATION, d))"

definition insert_row ::
  "(control_db \<Rightarrow> 'r list) \<Rightarrow> (('r list \<Rightarrow> 'r list) \<Rightarrow> control_db \<Rightarrow> control_db) \<Rightarrow> ('r list \<Rightarrow> bool) \<Rightarrow>
   'r \<Rightarrow> 'r db" where
  "insert_row get' put ok r = (\<lambda>d.
     if ok (get' d @ [r]) then (Inr r, put (\<lambda>_. get' d @ [r]) d) else (Inl CONSTRAINT_VIOLATION, d))"

definition now_db :: "int db" where
  "now_db = readA db_now"

definition randomUUID :: "string db" where
  "randomUUID = bindA (readA (\<lambda>d. db_uuid d (db_drawn d))) (\<lambda>u.
     thenA (modifyA (\<lambda>d. d\<lparr>db_drawn := Suc (db_drawn d)\<rparr>)) (returnA u))"

abbreviation update_generations where
  "update_generations \<equiv> update_table db_generations db_generations_update generations_ok"

abbreviation update_pointers where
  "update_pointers \<equiv> update_table db_pointers db_pointers_update pointers_ok"

abbreviation update_promotions where
  "update_promotions \<equiv> update_table db_promotions db_promotions_update promotions_ok"

abbreviation update_retirements where
  "update_retirements \<equiv> update_table db_retirements db_retirements_update retirements_ok"

abbreviation update_operations where
  "update_operations \<equiv> update_table db_operations db_operations_update operations_ok"

abbreviation insert_generation where
  "insert_generation \<equiv> insert_row db_generations db_generations_update generations_ok"

abbreviation insert_promotion where
  "insert_promotion \<equiv> insert_row db_promotions db_promotions_update promotions_ok"

abbreviation insert_retirement where
  "insert_retirement \<equiv> insert_row db_retirements db_retirements_update retirements_ok"

abbreviation insert_operation where
  "insert_operation \<equiv> insert_row db_operations db_operations_update operations_ok"

text \<open>\<open>if (!b) throw new Error(e)\<close> in a method\<close>

abbreviation ensureA :: "bool \<Rightarrow> string \<Rightarrow> ('s, unit) action" where
  "ensureA b e \<equiv> liftA (requireR b e)"

text \<open>The one row of a result, when the code has checked that there is one\<close>

definition one_row :: "string \<Rightarrow> 'r list \<Rightarrow> 'r db" where
  "one_row e rs = (case rs of [r] \<Rightarrow> returnA r | _ \<Rightarrow> raiseA e)"

text \<open>An empty database at instant 0\<close>

definition empty_db :: control_db where
  "empty_db = \<lparr>db_now = 0, db_uuid = (\<lambda>_. ''00000000-0000-4000-8000-000000000000''), db_drawn = 0,
     db_generations = [], db_pointers = [], db_promotions = [], db_syncs = [], db_sources = [],
     db_graphs = [], db_revisions = [], db_operations = [], db_retirements = [], db_releases = [],
     db_audits = [], db_attempts = []\<rparr>"

section \<open>Rules\<close>

lemma wp_select_rows [wp_simps]: "wp (select_rows get' P) Q d = Q (Inr (filter P (get' d))) d"
  by (simp add: select_rows_def wp_simps)

lemma wp_update_table [wp_simps]:
  "wp (update_table get' put ok P f) Q d =
     (if ok (update_rows P f (get' d))
      then Q (Inr (map f (filter P (get' d)))) (put (\<lambda>_. update_rows P f (get' d)) d)
      else Q (Inl CONSTRAINT_VIOLATION) d)"
  by (simp add: wp_def update_table_def)

lemma wp_insert_row [wp_simps]:
  "wp (insert_row get' put ok r) Q d =
     (if ok (get' d @ [r]) then Q (Inr r) (put (\<lambda>_. get' d @ [r]) d)
      else Q (Inl CONSTRAINT_VIOLATION) d)"
  by (simp add: wp_def insert_row_def)

lemma wp_now_db [wp_simps]: "wp now_db Q d = Q (Inr (db_now d)) d"
  by (simp add: now_db_def wp_simps)

lemma wp_randomUUID [wp_simps]:
  "wp randomUUID Q d = Q (Inr (db_uuid d (db_drawn d))) (d\<lparr>db_drawn := Suc (db_drawn d)\<rparr>)"
  by (simp add: randomUUID_def wp_simps)

lemma wp_one_row [wp_simps]:
  "wp (one_row e rs) Q d = (case rs of [r] \<Rightarrow> Q (Inr r) d | _ \<Rightarrow> Q (Inl e) d)"
  by (simp add: one_row_def wp_simps split: list.splits)

lemma wp_ensure:
  "wp (thenA (ensureA b e) m) Q s = (if b then wp m Q s else Q (Inl e) s)"
  by (simp add: wp_simps requireR_def)

lemma set_update_rows [simp]:
  "set (update_rows P f rs) = f ` {r \<in> set rs. P r} \<union> {r \<in> set rs. \<not> P r}"
  by (auto simp: update_rows_def)

lemma update_rows_Nil [simp]: "update_rows P f [] = []"
  by (simp add: update_rows_def)

lemma update_rows_Cons [simp]:
  "update_rows P f (r # rs) = (if P r then f r else r) # update_rows P f rs"
  by (simp add: update_rows_def)

lemma map_update_rows: "(\<And>r. k (f r) = k r) \<Longrightarrow> map k (update_rows P f rs) = map k rs"
  by (simp add: update_rows_def)

lemma update_rows_id: "\<forall>r \<in> set rs. \<not> P r \<Longrightarrow> update_rows P f rs = rs"
  by (simp add: update_rows_def map_idI)

text \<open>At most one row has a key that a unique index covers\<close>

lemma distinct_map_filter_single:
  "distinct (map k (filter P rs)) \<Longrightarrow> r \<in> set rs \<Longrightarrow> s \<in> set rs \<Longrightarrow> P r \<Longrightarrow> P s \<Longrightarrow> k r = k s \<Longrightarrow> r = s"
  by (metis (no_types, lifting) distinct_map inj_onD mem_Collect_eq set_filter)

lemma distinct_key_filter:
  "distinct (map k rs) \<Longrightarrow> r \<in> set rs \<Longrightarrow> k r = x \<Longrightarrow> filter (\<lambda>s. k s = x) rs = [r]"
proof (induction rs)
  case (Cons a rs)
  then show ?case by (auto simp: filter_empty_conv image_iff)
qed simp

text \<open>Successful statements\<close>

lemma update_table_Inr:
  "update_table get' put ok P f d = (Inr rs, d') \<longleftrightarrow>
     ok (update_rows P f (get' d)) \<and> rs = map f (filter P (get' d)) \<and>
     d' = put (\<lambda>_. update_rows P f (get' d)) d"
  by (auto simp: update_table_def)

lemma insert_row_Inr:
  "insert_row get' put ok r d = (Inr x, d') \<longleftrightarrow> ok (get' d @ [r]) \<and> x = r \<and> d' = put (\<lambda>_. get' d @ [r]) d"
  by (auto simp: insert_row_def)

lemma select_rows_Inr: "select_rows get' P d = (Inr rs, d') \<longleftrightarrow> rs = filter P (get' d) \<and> d' = d"
  by (auto simp: select_rows_def readA_def)

lemma now_db_Inr: "now_db d = (Inr t, d') \<longleftrightarrow> t = db_now d \<and> d' = d"
  by (auto simp: now_db_def readA_def)

lemma randomUUID_Inr:
  "randomUUID d = (Inr u, d') \<longleftrightarrow> u = db_uuid d (db_drawn d) \<and> d' = d\<lparr>db_drawn := Suc (db_drawn d)\<rparr>"
  by (auto simp: randomUUID_def bindA_Inr thenA_Inr readA_def modifyA_def returnA_def)

lemma one_row_Inr: "one_row e rs d = (Inr r, d') \<longleftrightarrow> rs = [r] \<and> d' = d"
  by (auto simp: one_row_def raiseA_def returnA_def split: list.splits)

lemmas db_Inr = bindA_Inr thenA_Inr update_table_Inr insert_row_Inr select_rows_Inr now_db_Inr
  randomUUID_Inr one_row_Inr transactionA_ok

text \<open>The keys of a registry, row against row\<close>

lemma distinct_filter_key:
  assumes "distinct (map k rs)"
  shows "distinct (map h (filter P rs)) \<longleftrightarrow>
    (\<forall>a \<in> set rs. \<forall>b \<in> set rs. P a \<and> P b \<and> h a = h b \<longrightarrow> k a = k b)"
proof -
  have inj: "a = b" if "a \<in> set rs" "b \<in> set rs" "k a = k b" for a b
    using assms that by (auto simp: distinct_map dest: inj_onD)
  have "distinct (filter P rs)" using assms by (simp add: distinct_map)
  then have "distinct (map h (filter P rs)) \<longleftrightarrow> inj_on h {a \<in> set rs. P a}" by (simp add: distinct_map)
  also have "\<dots> \<longleftrightarrow> (\<forall>a \<in> set rs. \<forall>b \<in> set rs. P a \<and> P b \<and> h a = h b \<longrightarrow> k a = k b)"
    using inj by (auto simp: inj_on_def)
  finally show ?thesis .
qed

lemma generations_ok_iff:
  "generations_ok gs \<longleftrightarrow> distinct (map generation_key gs) \<and>
     (\<forall>a \<in> set gs. \<forall>b \<in> set gs. gr_state a = ''SERVING'' \<and> gr_state b = ''SERVING'' \<and>
        gr_source a = gr_source b \<longrightarrow> gr_id a = gr_id b) \<and>
     (\<forall>a \<in> set gs. \<forall>b \<in> set gs. gr_protection a = ''ROLLBACK'' \<and> gr_protection b = ''ROLLBACK'' \<and>
        gr_source a = gr_source b \<longrightarrow> gr_id a = gr_id b) \<and>
     (\<forall>g \<in> set gs. gr_state g = ''SERVING'' \<longrightarrow> gr_validation g = ''VALID'' \<and> gr_promotedAt g \<noteq> None) \<and>
     (\<forall>g \<in> set gs. gr_validation g = ''VALID'' \<longrightarrow> gr_checksum g \<noteq> None)"
proof (cases "distinct (map generation_key gs)")
  case True
  show ?thesis
    unfolding generations_ok_def distinct_filter_key [OF True] by (auto simp: list_all_iff generation_key_def)
qed (simp add: generations_ok_def)

lemma generations_ok_keys: "generations_ok gs \<Longrightarrow> distinct (map generation_key gs)"
  by (simp add: generations_ok_def)

text \<open>Updating the one row with a key\<close>

lemma update_key_none: "k r \<notin> k ` set rs \<Longrightarrow> update_rows (\<lambda>x. k x = k r \<and> Q x) f rs = rs"
  by (rule update_rows_id) (auto simp: image_iff)

lemma filter_update_key:
  assumes "distinct (map k rs)" "filter P rs = [r]" "Q r"
  shows "filter P (update_rows (\<lambda>x. k x = k r \<and> Q x) f rs) = (if P (f r) then [f r] else [])"
    "filter (\<lambda>x. k x = k r) rs = [r]" "filter (\<lambda>x. k x = k r \<and> Q x) rs = [r]"
proof -
  from assms(2) have r: "r \<in> set rs" by (metis list.set_intros(1) filter_is_subset subsetD)
  obtain us vs where s: "rs = us @ r # vs" using r by (meson split_list)
  with assms(1) have n: "k r \<notin> k ` set us" "k r \<notin> k ` set vs" by auto
  have "r \<in> set (filter P rs)" using assms(2) by simp
  then have pr: "P r" by simp
  have "length (filter P rs) = 1" using assms(2) by simp
  with pr s have e: "filter P us = []" "filter P vs = []" "P r" by simp_all
  show "filter P (update_rows (\<lambda>x. k x = k r \<and> Q x) f rs) = (if P (f r) then [f r] else [])"
    using e assms(3) update_key_none [OF n(1), of Q f] update_key_none [OF n(2), of Q f]
    by (simp add: s update_rows_def)
  have "filter (\<lambda>x. k x = k r) us = []" "filter (\<lambda>x. k x = k r) vs = []"
    using n by (auto simp: filter_empty_conv image_iff)
  then show "filter (\<lambda>x. k x = k r) rs = [r]" by (simp add: s)
  have "filter (\<lambda>x. k x = k r \<and> Q x) us = []" "filter (\<lambda>x. k x = k r \<and> Q x) vs = []"
    using n by (auto simp: filter_empty_conv image_iff)
  then show "filter (\<lambda>x. k x = k r \<and> Q x) rs = [r]" using assms(3) by (simp add: s)
qed

lemma filter_key_single:
  assumes "distinct (map k rs)" "r \<in> set rs" "Q r"
  shows "filter (\<lambda>x. k x = k r \<and> Q x) rs = [r]"
  using filter_update_key(3) [where Q = Q, OF assms(1) distinct_key_filter [OF assms(1,2) refl] assms(3)] .

lemma filter_generation:
  assumes "distinct (map generation_key gs)" "g \<in> set gs" "Q g"
  shows "filter (\<lambda>r. gr_source r = gr_source g \<and> gr_id r = gr_id g \<and> Q r) gs = [g]"
  using filter_key_single [where Q = Q, OF assms] by (simp add: generation_key_def)

text \<open>A change of the rows that keeps their keys and their validation\<close>

lemma generations_ok_map:
  assumes ok: "generations_ok gs"
    and keep: "\<And>r. gr_source (F r) = gr_source r" "\<And>r. gr_id (F r) = gr_id r"
      "\<And>r. gr_validation (F r) = gr_validation r" "\<And>r. gr_checksum (F r) = gr_checksum r"
    and serving: "\<And>a b. a \<in> set gs \<Longrightarrow> b \<in> set gs \<Longrightarrow> gr_source a = gr_source b \<Longrightarrow> gr_state (F a) = ''SERVING'' \<Longrightarrow>
      gr_state (F b) = ''SERVING'' \<Longrightarrow> gr_id a = gr_id b"
    and rollback: "\<And>a b. a \<in> set gs \<Longrightarrow> b \<in> set gs \<Longrightarrow> gr_source a = gr_source b \<Longrightarrow> gr_protection (F a) = ''ROLLBACK'' \<Longrightarrow>
      gr_protection (F b) = ''ROLLBACK'' \<Longrightarrow> gr_id a = gr_id b"
    and valid: "\<And>a. a \<in> set gs \<Longrightarrow> gr_state (F a) = ''SERVING'' \<Longrightarrow> gr_validation a = ''VALID'' \<and> gr_promotedAt (F a) \<noteq> None"
  shows "generations_ok (map F gs)"
proof -
  have "map generation_key (map F gs) = map generation_key gs" by (simp add: generation_key_def keep)
  then have "distinct (map generation_key (map F gs))" using ok by (simp only: generations_ok_iff)
  moreover have "gr_id x = gr_id y" if "x \<in> set (map F gs)" "y \<in> set (map F gs)"
    "gr_state x = ''SERVING'' \<and> gr_state y = ''SERVING'' \<and> gr_source x = gr_source y" for x y
    using that by (auto simp: keep intro: serving)
  moreover have "gr_id x = gr_id y" if "x \<in> set (map F gs)" "y \<in> set (map F gs)"
    "gr_protection x = ''ROLLBACK'' \<and> gr_protection y = ''ROLLBACK'' \<and> gr_source x = gr_source y" for x y
    using that by (auto simp: keep intro: rollback)
  moreover have "gr_validation x = ''VALID'' \<and> gr_promotedAt x \<noteq> None"
    if "x \<in> set (map F gs)" "gr_state x = ''SERVING''" for x
    using that valid by (auto simp: keep)
  moreover have "gr_checksum x \<noteq> None" if "x \<in> set (map F gs)" "gr_validation x = ''VALID''" for x
    using that ok unfolding generations_ok_iff set_map by (metis imageE keep(3,4))
  ultimately show ?thesis unfolding generations_ok_iff by blast
qed

end
