(* ===== verification/ServingPointer.thy ===== *)
theory ServingPointer
  imports ControlDb Identifiers
begin

text \<open>
  \<open>services/rdf-sync/src/postgres-serving-pointer-repository.js\<close>: the pointer that says which
  generation a query service answers from, and the two transactions that move it.
\<close>

section \<open>The repository\<close>

text \<open>A column that may be \<open>NULL\<close>, in a place where the code only asks whether it is a text that is not empty\<close>

definition text_or_empty :: "string option \<Rightarrow> string" where
  "text_or_empty v = (case v of None \<Rightarrow> [] | Some s \<Rightarrow> s)"

record pointer_value =
  pv_queryServiceId :: string
  pv_sourceIdentity :: string
  pv_generationId :: string
  pv_previousGenerationId :: "string option"
  pv_version :: int
  pv_updatedAt :: int

definition pointer_value_of :: "pointer_row \<Rightarrow> pointer_value" where
  "pointer_value_of v = \<lparr>pv_queryServiceId = pt_query v, pv_sourceIdentity = pt_source v,
     pv_generationId = pt_generation v, pv_previousGenerationId = pt_previous v,
     pv_version = pt_version v, pv_updatedAt = pt_updatedAt v\<rparr>"

text \<open>The constructor keeps the query service identifier, after checking it\<close>

definition new_pointer_repository :: "string \<Rightarrow> string result" where
  "new_pointer_repository queryServiceId =
     bindR (requireR (query_service_id queryServiceId) ''invalid query service ID'')
       (\<lambda>_. Inr queryServiceId)"

definition sp_get :: "string \<Rightarrow> (pointer_value \<times> string list) db" where
  "sp_get queryServiceId =
     bindA (select_rows db_pointers (\<lambda>p. pt_query p = queryServiceId)) (\<lambda>rows.
     bindA (one_row ''SERVING_POINTER_MISSING'' rows) (\<lambda>r.
     bindA (select_rows db_graphs (\<lambda>g. gg_source g = pt_source r \<and> gg_generation g = pt_generation r))
       (\<lambda>graphs. returnA (pointer_value_of r, sort (map gg_iri graphs)))))"

definition sp_current :: "string \<Rightarrow> (pointer_value \<times> string list) db" where
  "sp_current queryServiceId = sp_get queryServiceId"

definition sp_locked :: "string \<Rightarrow> pointer_value db" where
  "sp_locked queryServiceId =
     bindA (select_rows db_pointers (\<lambda>p. pt_query p = queryServiceId)) (\<lambda>rows.
     bindA (one_row ''SERVING_POINTER_MISSING'' rows) (\<lambda>r. returnA (pointer_value_of r)))"

text \<open>\<open>source_identity = $1 AND generation_id = $2\<close>\<close>

definition is_generation :: "string \<Rightarrow> string \<Rightarrow> generation_row \<Rightarrow> bool" where
  "is_generation source g r \<longleftrightarrow> gr_source r = source \<and> gr_id r = g"

definition bump :: "generation_row \<Rightarrow> generation_row" where
  "bump r = r\<lparr>gr_version := gr_version r + 1\<rparr>"

text \<open>The \<open>SET\<close> clauses of the statements on \<open>rdf_generation\<close>\<close>

definition unprotect :: "generation_row \<Rightarrow> generation_row" where
  "unprotect r = bump (r\<lparr>gr_protection := ''NONE''\<rparr>)"

definition serving_or_rollback :: "string \<Rightarrow> generation_row \<Rightarrow> bool" where
  "serving_or_rollback source r \<longleftrightarrow>
     gr_source r = source \<and> (gr_protection r = ''SERVING'' \<or> gr_protection r = ''ROLLBACK'')"

definition demote_to :: "string \<Rightarrow> generation_row \<Rightarrow> generation_row" where
  "demote_to state r = bump (r\<lparr>gr_state := state, gr_protection := ''ROLLBACK''\<rparr>)"

definition serve :: "int \<Rightarrow> generation_row \<Rightarrow> generation_row" where
  "serve at r = bump (r\<lparr>gr_state := ''SERVING'', gr_protection := ''SERVING'', gr_promotedAt := Some at\<rparr>)"

definition candidate_ready :: "generation_row list \<Rightarrow> bool" where
  "candidate_ready rows = (case rows of
       [r] \<Rightarrow> gr_state r = ''READY'' \<and> gr_validation r = ''VALID'' \<and>
         gr_normalization r = Some ''jwb-rdf-normalization-v1'' \<and> gr_partition r = ''jwb-partition-v1'' \<and>
         gr_manifest r \<noteq> None
     | _ \<Rightarrow> False)"

text \<open>
  The foreign keys of \<open>rdf_generation_promotion\<close>; \<open>completed_at\<close> and the other columns of a new
  row are the defaults of the migrations
\<close>

definition generation_known :: "string \<Rightarrow> string \<Rightarrow> control_db \<Rightarrow> bool" where
  "generation_known source g d \<longleftrightarrow> list_ex (is_generation source g) (db_generations d)"

definition insert_promotion_checked :: "promotion_row \<Rightarrow> promotion_row db" where
  "insert_promotion_checked r = bindA (readA (\<lambda>d. generation_known (pm_source r) (pm_to r) d \<and>
       (case pm_from r of None \<Rightarrow> True | Some g \<Rightarrow> generation_known (pm_source r) g d))) (\<lambda>known.
     thenA (ensureA known CONSTRAINT_VIOLATION) (insert_promotion r))"

text \<open>\<open>expectedGenerationId\<close> is \<open>None\<close> for \<open>null\<close>\<close>

definition sp_promote :: "string \<Rightarrow> string \<Rightarrow> string option \<Rightarrow> int \<Rightarrow> string \<Rightarrow> pointer_value db" where
  "sp_promote queryServiceId generationId expectedGenerationId expectedVersion promotionId =
     thenA (ensureA (generation_id generationId) ''invalid generation ID'')
     (thenA (ensureA (case expectedGenerationId of None \<Rightarrow> True | Some e \<Rightarrow> generation_id e) ''invalid generation ID'')
     (thenA (ensureA (0 \<le> expectedVersion) ''invalid pointer version'')
     (transactionA
       (bindA (sp_locked queryServiceId) (\<lambda>current. bindA now_db (\<lambda>now.
        let source = pv_sourceIdentity current in
        thenA (ensureA (pv_version current = expectedVersion \<and> Some (pv_generationId current) = expectedGenerationId)
          ''SERVING_POINTER_CONFLICT'')
        (bindA (select_rows db_generations (is_generation source generationId)) (\<lambda>candidate.
        thenA (ensureA (candidate_ready candidate) ''CANDIDATE_NOT_READY'')
        (thenA (insert_promotion_checked \<lparr>pm_id = promotionId, pm_operation = None, pm_source = source,
          pm_from = Some (pv_generationId current), pm_to = generationId, pm_state = ''PREPARING'',
          pm_phase = ''GENERATION_FINALIZED'', pm_expected = None, pm_resulting = None, pm_createdAt = now,
          pm_verifiedAt = None, pm_completedAt = None\<rparr>)
        (thenA (update_retirements (\<lambda>r. rt_source r = source \<and> rt_state r = ''ROLLBACK_PROTECTED'')
          (\<lambda>r. r\<lparr>rt_state := ''RETIRING''\<rparr>))
        (thenA (update_generations (serving_or_rollback source) unprotect)
        (thenA (whenA (pv_generationId current \<noteq> [])
          (thenA (update_generations
            (\<lambda>r. is_generation source (pv_generationId current) r \<and> gr_state r = ''SERVING'')
            (demote_to ''RETIRING'')) (returnA ())))
        (thenA (update_generations (is_generation source generationId) (serve now))
        (bindA (update_pointers (\<lambda>p. pt_query p = queryServiceId \<and> pt_version p = expectedVersion)
          (\<lambda>p. p\<lparr>pt_previous := Some (pt_generation p), pt_generation := generationId,
            pt_version := pt_version p + 1, pt_updatedAt := now\<rparr>)) (\<lambda>updated.
        bindA (one_row ''SERVING_POINTER_CONFLICT'' updated) (\<lambda>row.
        thenA (update_promotions (\<lambda>p. pm_id p = promotionId)
          (\<lambda>p. p\<lparr>pm_state := ''COMMITTED'', pm_completedAt := Some now\<rparr>))
        (returnA (pointer_value_of row))))))))))))))))))"

text \<open>
  \<open>!current.previousGenerationId\<close> is also true of the empty text.  \<open>row(undefined)\<close> would raise a
  \<open>TypeError\<close> after the \<open>COMMIT\<close>; it never comes to that, because the row was locked at that version
  before, and the update finds it.
\<close>

definition sp_rollback :: "string \<Rightarrow> int \<Rightarrow> string \<Rightarrow> pointer_value db" where
  "sp_rollback queryServiceId expectedVersion promotionId =
     transactionA
       (bindA (sp_locked queryServiceId) (\<lambda>current. bindA now_db (\<lambda>now.
        let source = pv_sourceIdentity current; previous = text_or_empty (pv_previousGenerationId current) in
        thenA (ensureA (pv_version current = expectedVersion \<and> previous \<noteq> []) ''ROLLBACK_POINTER_CONFLICT'')
        (bindA (select_rows db_generations (is_generation source previous)) (\<lambda>rows.
        thenA (ensureA (case rows of [r] \<Rightarrow> gr_state r = ''RETIRING'' \<and> gr_protection r = ''ROLLBACK'' | _ \<Rightarrow> False)
          ''ROLLBACK_GENERATION_UNAVAILABLE'')
        (thenA (update_generations (serving_or_rollback source) unprotect)
        (thenA (update_generations
            (\<lambda>r. is_generation source (pv_generationId current) r \<and> gr_state r = ''SERVING'' \<and> gr_protection r = ''NONE'')
            (demote_to ''READY''))
        (thenA (update_generations (\<lambda>r. is_generation source previous r \<and> gr_protection r = ''NONE'') (serve now))
        (bindA (update_pointers (\<lambda>p. pt_query p = queryServiceId \<and> pt_version p = expectedVersion)
          (\<lambda>p. p\<lparr>pt_generation := text_or_empty (pt_previous p), pt_previous := Some (pv_generationId current),
            pt_version := pt_version p + 1, pt_updatedAt := now\<rparr>)) (\<lambda>updated.
        thenA (update_promotions (\<lambda>p. pm_id p = promotionId \<and> pm_state p = ''COMMITTED'')
          (\<lambda>p. p\<lparr>pm_state := ''ROLLED_BACK'', pm_completedAt := Some now\<rparr>))
        (bindA (one_row ''TypeError'' updated) (\<lambda>row. returnA (pointer_value_of row)))))))))))))"

section \<open>What the two transactions do\<close>

text \<open>
  The pointer of a query service agrees with the registry: the generation it names is the one that
  serves its source, it alone is protected as serving, and only the pointer's previous generation is
  kept for a rollback.
\<close>

definition pointer_sound :: "string \<Rightarrow> control_db \<Rightarrow> bool" where
  "pointer_sound q d \<longleftrightarrow> generations_ok (db_generations d) \<and>
     (case filter (\<lambda>p. pt_query p = q) (db_pointers d) of
        [p] \<Rightarrow> pt_generation p \<noteq> [] \<and>
          list_ex (is_generation (pt_source p) (pt_generation p)) (db_generations d) \<and>
          (\<forall>g \<in> set (db_generations d). gr_source g = pt_source p \<longrightarrow>
            (gr_state g = ''SERVING'' \<longleftrightarrow> gr_id g = pt_generation p) \<and>
            (gr_protection g = ''SERVING'' \<longleftrightarrow> gr_id g = pt_generation p) \<and>
            (gr_protection g = ''ROLLBACK'' \<longrightarrow> pt_previous p = Some (gr_id g)))
      | _ \<Rightarrow> False)"

text \<open>The previous generation of the pointer is in the registry, and exactly it is protected for a rollback.\<close>

definition rollback_kept :: "string \<Rightarrow> control_db \<Rightarrow> bool" where
  "rollback_kept q d \<longleftrightarrow>
     (case filter (\<lambda>p. pt_query p = q) (db_pointers d) of
        [p] \<Rightarrow> (\<forall>g \<in> set (db_generations d). gr_source g = pt_source p \<longrightarrow>
            (gr_protection g = ''ROLLBACK'' \<longleftrightarrow> pt_previous p = Some (gr_id g))) \<and>
          (case pt_previous p of None \<Rightarrow> True | Some g \<Rightarrow> list_ex (is_generation (pt_source p) g) (db_generations d))
      | _ \<Rightarrow> False)"

definition pointer_of :: "string \<Rightarrow> control_db \<Rightarrow> pointer_row" where
  "pointer_of q d = hd (filter (\<lambda>p. pt_query p = q) (db_pointers d))"

text \<open>The registry after a promotion and after a rollback, row by row\<close>

definition promoted_row :: "string \<Rightarrow> string \<Rightarrow> string \<Rightarrow> int \<Rightarrow> generation_row \<Rightarrow> generation_row" where
  "promoted_row source current new now r =
    (let a = (if serving_or_rollback source r then unprotect r else r);
         b = (if current \<noteq> [] \<and> is_generation source current a \<and> gr_state a = ''SERVING''
              then demote_to ''RETIRING'' a else a)
     in if is_generation source new b then serve now b else b)"

definition rolled_back_row :: "string \<Rightarrow> string \<Rightarrow> string \<Rightarrow> int \<Rightarrow> generation_row \<Rightarrow> generation_row" where
  "rolled_back_row source current previous now r =
    (let a = (if serving_or_rollback source r then unprotect r else r);
         b = (if is_generation source current a \<and> gr_state a = ''SERVING'' \<and> gr_protection a = ''NONE''
              then demote_to ''READY'' a else a)
     in if is_generation source previous b \<and> gr_protection b = ''NONE'' then serve now b else b)"

lemma update_rows_comp:
  "update_rows P f (update_rows Q g rs) = map (\<lambda>r. let a = (if Q r then g r else r) in if P a then f a else a) rs"
  by (simp add: update_rows_def Let_def)

lemma sp_promote_Inr:
  assumes "sp_promote q g e v pid d = (Inr val, d')"
  obtains p where "filter (\<lambda>p. pt_query p = q) (db_pointers d) = [p]" "pt_version p = v" "e = Some (pt_generation p)"
    "candidate_ready (filter (is_generation (pt_source p) g) (db_generations d))"
    "db_generations d' = map (promoted_row (pt_source p) (pt_generation p) g (db_now d)) (db_generations d)"
    "generations_ok (db_generations d')"
    "db_pointers d' = update_rows (\<lambda>p. pt_query p = q \<and> pt_version p = v)
       (\<lambda>p. p\<lparr>pt_previous := Some (pt_generation p), pt_generation := g, pt_version := pt_version p + 1,
         pt_updatedAt := db_now d\<rparr>) (db_pointers d)"
    "val = pointer_value_of (p\<lparr>pt_previous := Some (pt_generation p), pt_generation := g,
       pt_version := pt_version p + 1, pt_updatedAt := db_now d\<rparr>)" "generation_id g"
proof -
  let ?demote = "\<lambda>p. update_generations (\<lambda>r. is_generation (pt_source p) (pt_generation p) r \<and> gr_state r = ''SERVING'')
      (demote_to ''RETIRING'')"
  let ?set = "\<lambda>p. p\<lparr>pt_previous := Some (pt_generation p), pt_generation := g, pt_version := pt_version p + 1,
      pt_updatedAt := db_now d\<rparr>"
  have "\<exists>p d0 d1. whenA (pt_generation p \<noteq> []) (thenA (?demote p) (returnA ())) d0 = (Inr (), d1) \<and>
      filter (\<lambda>p. pt_query p = q) (db_pointers d) = [p] \<and> pt_version p = v \<and>
      e = Some (pt_generation p) \<and> candidate_ready (filter (is_generation (pt_source p) g) (db_generations d)) \<and>
      generation_id g \<and>
      db_generations d0 = update_rows (serving_or_rollback (pt_source p)) unprotect (db_generations d) \<and>
      db_pointers d0 = db_pointers d \<and>
      db_generations d' = update_rows (is_generation (pt_source p) g) (serve (db_now d)) (db_generations d1) \<and>
      generations_ok (db_generations d') \<and>
      db_pointers d' = update_rows (\<lambda>p. pt_query p = q \<and> pt_version p = v) ?set (db_pointers d1) \<and>
      [val] = map pointer_value_of (map ?set (filter (\<lambda>p. pt_query p = q \<and> pt_version p = v) (db_pointers d1)))"
    using assms unfolding sp_promote_def sp_locked_def insert_promotion_checked_def pointer_value_of_def
    by (simp only: db_Inr Let_def action_eq_simps)
      (elim exE conjE, clarsimp, rule exI, rule exI, rule exI, rule conjI, assumption, simp)
  then obtain p d0 d1 where p: "filter (\<lambda>p. pt_query p = q) (db_pointers d) = [p]" "pt_version p = v"
      "e = Some (pt_generation p)" "candidate_ready (filter (is_generation (pt_source p) g) (db_generations d))"
      "generation_id g"
    and d0: "db_generations d0 = update_rows (serving_or_rollback (pt_source p)) unprotect (db_generations d)"
      "db_pointers d0 = db_pointers d"
    and d1: "whenA (pt_generation p \<noteq> []) (thenA (?demote p) (returnA ())) d0 = (Inr (), d1)"
    and gens: "db_generations d' = update_rows (is_generation (pt_source p) g) (serve (db_now d)) (db_generations d1)"
      "generations_ok (db_generations d')"
    and ptrs: "db_pointers d' = update_rows (\<lambda>p. pt_query p = q \<and> pt_version p = v) ?set (db_pointers d1)"
    and val: "[val] = map pointer_value_of (map ?set (filter (\<lambda>p. pt_query p = q \<and> pt_version p = v) (db_pointers d1)))"
    by (elim exE conjE) (rule that)
  have d1: "db_pointers d1 = db_pointers d" "db_generations d1 = map (\<lambda>r. let a = if serving_or_rollback (pt_source p) r
       then unprotect r else r in if pt_generation p \<noteq> [] \<and> is_generation (pt_source p) (pt_generation p) a \<and>
         gr_state a = ''SERVING'' then demote_to ''RETIRING'' a else a) (db_generations d)"
    using d0 d1 by (auto simp: whenA_def db_Inr update_rows_def Let_def split: if_splits)
  then have gens: "db_generations d' = map (promoted_row (pt_source p) (pt_generation p) g (db_now d)) (db_generations d)"
      "generations_ok (db_generations d')"
    using gens by (simp_all add: update_rows_def promoted_row_def Let_def)
  from ptrs d1 have ptrs: "db_pointers d' = update_rows (\<lambda>p. pt_query p = q \<and> pt_version p = v) ?set (db_pointers d)"
    by simp
  from val d1 have val: "[val] = map pointer_value_of (map ?set (filter (\<lambda>p. pt_query p = q \<and> pt_version p = v) (db_pointers d)))"
    by simp
  have "filter (\<lambda>p. pt_query p = q \<and> pt_version p = v) (db_pointers d) =
      filter (\<lambda>p. pt_version p = v) (filter (\<lambda>p. pt_query p = q) (db_pointers d))" by simp
  with p val have "val = pointer_value_of (p\<lparr>pt_previous := Some (pt_generation p), pt_generation := g,
       pt_version := pt_version p + 1, pt_updatedAt := db_now d\<rparr>)" by simp
  with p gens ptrs show ?thesis by - (rule that)
qed

lemma sp_rollback_Inr:
  assumes "sp_rollback q v pid d = (Inr val, d')"
  obtains p prev g where "filter (\<lambda>p. pt_query p = q) (db_pointers d) = [p]" "pt_version p = v"
    "pt_previous p = Some prev" "prev \<noteq> []"
    "filter (is_generation (pt_source p) prev) (db_generations d) = [g]"
    "gr_state g = ''RETIRING''" "gr_protection g = ''ROLLBACK''"
    "db_generations d' = map (rolled_back_row (pt_source p) (pt_generation p) prev (db_now d)) (db_generations d)"
    "generations_ok (db_generations d')"
    "db_pointers d' = update_rows (\<lambda>p. pt_query p = q \<and> pt_version p = v)
       (\<lambda>r. r\<lparr>pt_generation := text_or_empty (pt_previous r), pt_previous := Some (pt_generation p),
         pt_version := pt_version r + 1, pt_updatedAt := db_now d\<rparr>) (db_pointers d)"
    "val = pointer_value_of (p\<lparr>pt_generation := prev, pt_previous := Some (pt_generation p),
       pt_version := pt_version p + 1, pt_updatedAt := db_now d\<rparr>)"
proof -
  let ?set = "\<lambda>p r. r\<lparr>pt_generation := text_or_empty (pt_previous r), pt_previous := Some (pt_generation p),
         pt_version := pt_version r + 1, pt_updatedAt := db_now d\<rparr>"
  have "\<exists>p. filter (\<lambda>p. pt_query p = q) (db_pointers d) = [p] \<and> pt_version p = v \<and>
      text_or_empty (pt_previous p) \<noteq> [] \<and>
      (case filter (is_generation (pt_source p) (text_or_empty (pt_previous p))) (db_generations d) of
         [g] \<Rightarrow> gr_state g = ''RETIRING'' \<and> gr_protection g = ''ROLLBACK'' | _ \<Rightarrow> False) \<and>
      db_generations d' = map (rolled_back_row (pt_source p) (pt_generation p) (text_or_empty (pt_previous p)) (db_now d))
        (db_generations d) \<and> generations_ok (db_generations d') \<and>
      db_pointers d' = update_rows (\<lambda>p. pt_query p = q \<and> pt_version p = v) (?set p) (db_pointers d) \<and>
      [val] = map pointer_value_of (map (?set p) (filter (\<lambda>p. pt_query p = q \<and> pt_version p = v) (db_pointers d)))"
    using assms unfolding sp_rollback_def sp_locked_def pointer_value_of_def
    by (simp only: db_Inr Let_def action_eq_simps)
      (elim exE conjE, clarsimp, rule exI, rule conjI, rule sym, assumption,
        simp add: update_rows_def rolled_back_row_def Let_def comp_def)
  then obtain p where p: "filter (\<lambda>p. pt_query p = q) (db_pointers d) = [p]" "pt_version p = v"
      "text_or_empty (pt_previous p) \<noteq> []"
    and r: "case filter (is_generation (pt_source p) (text_or_empty (pt_previous p))) (db_generations d) of
         [g] \<Rightarrow> gr_state g = ''RETIRING'' \<and> gr_protection g = ''ROLLBACK'' | _ \<Rightarrow> False"
    and gens: "db_generations d' = map (rolled_back_row (pt_source p) (pt_generation p) (text_or_empty (pt_previous p))
        (db_now d)) (db_generations d)" "generations_ok (db_generations d')"
    and ptrs: "db_pointers d' = update_rows (\<lambda>p. pt_query p = q \<and> pt_version p = v) (?set p) (db_pointers d)"
    and val: "[val] = map pointer_value_of (map (?set p) (filter (\<lambda>p. pt_query p = q \<and> pt_version p = v) (db_pointers d)))"
    by (elim exE conjE) (rule that)
  obtain prev where prev: "pt_previous p = Some prev" "text_or_empty (pt_previous p) = prev" "prev \<noteq> []"
    using p(3) by (cases "pt_previous p") (auto simp: text_or_empty_def)
  obtain g where g: "filter (is_generation (pt_source p) prev) (db_generations d) = [g]"
      "gr_state g = ''RETIRING''" "gr_protection g = ''ROLLBACK''"
    using r unfolding prev(2) by (auto split: list.splits)
  have "filter (\<lambda>p. pt_query p = q \<and> pt_version p = v) (db_pointers d) =
      filter (\<lambda>p. pt_version p = v) (filter (\<lambda>p. pt_query p = q) (db_pointers d))" by simp
  with p(1,2) val prev(2) have "val = pointer_value_of (p\<lparr>pt_generation := prev, pt_previous := Some (pt_generation p),
       pt_version := pt_version p + 1, pt_updatedAt := db_now d\<rparr>)" by simp
  with p(1,2) prev(1,3) g gens [unfolded prev(2)] ptrs show ?thesis by - (rule that)
qed

lemma pointer_update_single:
  assumes "filter (\<lambda>p. pt_query p = q) ps = [p]" "\<And>r. pt_query (f r) = pt_query r"
  shows "filter (\<lambda>p. pt_query p = q) (update_rows (\<lambda>p. pt_query p = q \<and> pt_version p = pt_version p0) f ps) =
    [if pt_version p = pt_version p0 then f p else p]"
  using assms(1)
proof (induction ps)
  case (Cons a ps)
  have none: "filter (\<lambda>p. pt_query p = q) (update_rows (\<lambda>p. pt_query p = q \<and> pt_version p = pt_version p0) f ps) = []"
    if "filter (\<lambda>p. pt_query p = q) ps = []" for ps
    using that by (induction ps) (auto simp: assms(2) split: if_splits)
  show ?case
  proof (cases "pt_query a = q")
    case True
    with Cons.prems none [of ps] show ?thesis by (auto simp: assms(2))
  qed (use Cons in auto)
qed simp

definition row_kept :: "generation_row \<Rightarrow> generation_row \<Rightarrow> bool" where
  "row_kept a b \<longleftrightarrow> gr_source b = gr_source a \<and> gr_id b = gr_id a"

lemma row_simps [simp]:
  "gr_source (promoted_row s c n t r) = gr_source r" "gr_id (promoted_row s c n t r) = gr_id r"
  "gr_source (rolled_back_row s c n t r) = gr_source r" "gr_id (rolled_back_row s c n t r) = gr_id r"
  by (simp_all add: promoted_row_def rolled_back_row_def Let_def unprotect_def demote_to_def serve_def bump_def)

text \<open>The protection and the state of a row after a promotion, for a sound pointer\<close>

lemma promoted_row_sound:
  assumes "gr_source r = s" "gr_state r = ''SERVING'' \<longleftrightarrow> gr_id r = c" "gr_protection r = ''SERVING'' \<longleftrightarrow> gr_id r = c"
    "c \<noteq> []" "n \<noteq> c"
  shows "gr_state (promoted_row s c n t r) = ''SERVING'' \<longleftrightarrow> gr_id r = n"
    "gr_protection (promoted_row s c n t r) = ''SERVING'' \<longleftrightarrow> gr_id r = n"
    "gr_protection (promoted_row s c n t r) = ''ROLLBACK'' \<longleftrightarrow> gr_id r = c"
  using assms by (auto simp: promoted_row_def Let_def is_generation_def serving_or_rollback_def unprotect_def
      demote_to_def serve_def bump_def)

lemma rolled_back_row_sound:
  assumes "gr_source r = s" "gr_state r = ''SERVING'' \<longleftrightarrow> gr_id r = c" "gr_protection r = ''SERVING'' \<longleftrightarrow> gr_id r = c"
    "c \<noteq> n" "gr_id r = n \<Longrightarrow> gr_protection r = ''ROLLBACK''"
  shows "gr_state (rolled_back_row s c n t r) = ''SERVING'' \<longleftrightarrow> gr_id r = n"
    "gr_protection (rolled_back_row s c n t r) = ''SERVING'' \<longleftrightarrow> gr_id r = n"
    "gr_protection (rolled_back_row s c n t r) = ''ROLLBACK'' \<longleftrightarrow> gr_id r = c"
  using assms by (auto simp: rolled_back_row_def Let_def is_generation_def serving_or_rollback_def unprotect_def
      demote_to_def serve_def bump_def)

definition pointer_switched :: "string \<Rightarrow> string \<Rightarrow> pointer_value \<Rightarrow> control_db \<Rightarrow> control_db \<Rightarrow> bool" where
  "pointer_switched q g v d d' \<longleftrightarrow>
     pv_generationId v = g \<and> pv_previousGenerationId v = Some (pt_generation (pointer_of q d)) \<and>
     pv_version v = pt_version (pointer_of q d) + 1 \<and> pointer_value_of (pointer_of q d') = v"

lemma sp_promote_sound:
  assumes "pointer_sound q d" "sp_promote q g e v pid d = (Inr val, d')"
  shows "pointer_sound q d' \<and> rollback_kept q d' \<and> pointer_switched q g val d d' \<and> pt_version (pointer_of q d) = v"
proof -
  from assms(2) obtain p where p: "filter (\<lambda>p. pt_query p = q) (db_pointers d) = [p]" "pt_version p = v"
      "candidate_ready (filter (is_generation (pt_source p) g) (db_generations d))"
    and gens: "db_generations d' = map (promoted_row (pt_source p) (pt_generation p) g (db_now d)) (db_generations d)"
      "generations_ok (db_generations d')"
    and ptrs: "db_pointers d' = update_rows (\<lambda>p. pt_query p = q \<and> pt_version p = v)
       (\<lambda>p. p\<lparr>pt_previous := Some (pt_generation p), pt_generation := g, pt_version := pt_version p + 1,
         pt_updatedAt := db_now d\<rparr>) (db_pointers d)"
    and val: "val = pointer_value_of (p\<lparr>pt_previous := Some (pt_generation p), pt_generation := g,
       pt_version := pt_version p + 1, pt_updatedAt := db_now d\<rparr>)" "generation_id g"
    by (rule sp_promote_Inr) (rule that)
  from assms(1) p(1) have known: "list_ex (is_generation (pt_source p) (pt_generation p)) (db_generations d)"
    unfolding pointer_sound_def by simp
  from assms(1) p(1) have s: "pt_generation p \<noteq> []" "\<And>r. r \<in> set (db_generations d) \<Longrightarrow> gr_source r = pt_source p \<Longrightarrow>
         (gr_state r = ''SERVING'' \<longleftrightarrow> gr_id r = pt_generation p) \<and>
         (gr_protection r = ''SERVING'' \<longleftrightarrow> gr_id r = pt_generation p)"
    unfolding pointer_sound_def by auto
  from p(3) obtain c where c: "filter (is_generation (pt_source p) g) (db_generations d) = [c]" "gr_state c = ''READY''"
    by (auto simp: candidate_ready_def split: list.splits)
  then have c': "c \<in> set (db_generations d)" "gr_source c = pt_source p" "gr_id c = g"
    by (auto simp: is_generation_def filter_eq_Cons_iff)
  have new: "g \<noteq> pt_generation p" using s(2) [OF c'(1,2)] c(2) c'(3) by auto
  have ptr: "filter (\<lambda>p. pt_query p = q) (db_pointers d') = [p\<lparr>pt_previous := Some (pt_generation p), pt_generation := g,
       pt_version := pt_version p + 1, pt_updatedAt := db_now d\<rparr>]"
    unfolding ptrs p(2) [symmetric] by (subst pointer_update_single [OF p(1)]) simp_all
  have rows: "(gr_state r' = ''SERVING'' \<longleftrightarrow> gr_id r' = g) \<and> (gr_protection r' = ''SERVING'' \<longleftrightarrow> gr_id r' = g) \<and>
      (gr_protection r' = ''ROLLBACK'' \<longleftrightarrow> gr_id r' = pt_generation p)"
    if "r' \<in> set (db_generations d')" "gr_source r' = pt_source p" for r'
  proof -
    from that gens(1) obtain r where r: "r \<in> set (db_generations d)" "gr_source r = pt_source p"
      "r' = promoted_row (pt_source p) (pt_generation p) g (db_now d) r" by auto
    have sr: "gr_state r = ''SERVING'' \<longleftrightarrow> gr_id r = pt_generation p"
      "gr_protection r = ''SERVING'' \<longleftrightarrow> gr_id r = pt_generation p" using s(2) [OF r(1,2)] by blast+
    show ?thesis unfolding r(3) row_simps using promoted_row_sound [OF r(2) sr s(1) new] by blast
  qed
  have "list_ex (is_generation (pt_source p) g) (db_generations d')"
    using c' by (auto simp: gens(1) list_ex_iff is_generation_def)
  moreover have "g \<noteq> []" using val(2) by (auto simp: generation_id_iff)
  ultimately have "pointer_sound q d'"
    unfolding pointer_sound_def ptr using rows gens(2) by auto
  moreover have "rollback_kept q d'"
    unfolding rollback_kept_def ptr using rows known by (auto simp: gens(1) list_ex_iff is_generation_def)
  ultimately show ?thesis using ptr p val
    by (simp add: pointer_switched_def pointer_of_def pointer_value_of_def)
qed

lemma sp_rollback_sound:
  assumes "pointer_sound q d" "sp_rollback q v pid d = (Inr val, d')"
  shows "pointer_sound q d' \<and> rollback_kept q d' \<and> (\<exists>prev. pt_previous (pointer_of q d) = Some prev \<and> pointer_switched q prev val d d') \<and>
    pt_version (pointer_of q d) = v"
proof -
  from assms(2) obtain p prev g where p: "filter (\<lambda>p. pt_query p = q) (db_pointers d) = [p]" "pt_version p = v"
      "pt_previous p = Some prev" "prev \<noteq> []"
    and g: "filter (is_generation (pt_source p) prev) (db_generations d) = [g]"
      "gr_state g = ''RETIRING''" "gr_protection g = ''ROLLBACK''"
    and gens: "db_generations d' = map (rolled_back_row (pt_source p) (pt_generation p) prev (db_now d)) (db_generations d)"
      "generations_ok (db_generations d')"
    and ptrs: "db_pointers d' = update_rows (\<lambda>p. pt_query p = q \<and> pt_version p = v)
       (\<lambda>r. r\<lparr>pt_generation := text_or_empty (pt_previous r), pt_previous := Some (pt_generation p),
         pt_version := pt_version r + 1, pt_updatedAt := db_now d\<rparr>) (db_pointers d)"
    and val: "val = pointer_value_of (p\<lparr>pt_generation := prev, pt_previous := Some (pt_generation p),
       pt_version := pt_version p + 1, pt_updatedAt := db_now d\<rparr>)"
    by (rule sp_rollback_Inr) (rule that)
  from assms(1) p(1) have known: "list_ex (is_generation (pt_source p) (pt_generation p)) (db_generations d)"
    unfolding pointer_sound_def by simp
  from assms(1) p(1) have s: "\<And>r. r \<in> set (db_generations d) \<Longrightarrow> gr_source r = pt_source p \<Longrightarrow>
         (gr_state r = ''SERVING'' \<longleftrightarrow> gr_id r = pt_generation p) \<and>
         (gr_protection r = ''SERVING'' \<longleftrightarrow> gr_id r = pt_generation p)"
    unfolding pointer_sound_def by auto
  from g(1) have g': "g \<in> set (db_generations d)" "gr_source g = pt_source p" "gr_id g = prev"
    by (auto simp: is_generation_def filter_eq_Cons_iff)
  have new: "pt_generation p \<noteq> prev" using s [OF g'(1,2)] g(2) g'(3) by auto
  have ptr: "filter (\<lambda>p. pt_query p = q) (db_pointers d') = [p\<lparr>pt_generation := prev,
       pt_previous := Some (pt_generation p), pt_version := pt_version p + 1, pt_updatedAt := db_now d\<rparr>]"
    unfolding ptrs p(2) [symmetric] by (subst pointer_update_single [OF p(1)]) (simp_all add: p(3) text_or_empty_def)
  have rows: "(gr_state r' = ''SERVING'' \<longleftrightarrow> gr_id r' = prev) \<and> (gr_protection r' = ''SERVING'' \<longleftrightarrow> gr_id r' = prev) \<and>
      (gr_protection r' = ''ROLLBACK'' \<longleftrightarrow> gr_id r' = pt_generation p)"
    if "r' \<in> set (db_generations d')" "gr_source r' = pt_source p" for r'
  proof -
    from that gens(1) obtain r where r: "r \<in> set (db_generations d)" "gr_source r = pt_source p"
      "r' = rolled_back_row (pt_source p) (pt_generation p) prev (db_now d) r" by auto
    have sr: "gr_state r = ''SERVING'' \<longleftrightarrow> gr_id r = pt_generation p"
      "gr_protection r = ''SERVING'' \<longleftrightarrow> gr_id r = pt_generation p" using s [OF r(1,2)] by blast+
    have pr: "gr_protection r = ''ROLLBACK''" if "gr_id r = prev"
    proof -
      have "r \<in> set (filter (is_generation (pt_source p) prev) (db_generations d))"
        using r that by (simp add: is_generation_def)
      with g(1,3) show ?thesis by simp
    qed
    show ?thesis unfolding r(3) row_simps using rolled_back_row_sound [OF r(2) sr new pr] by blast
  qed
  have "list_ex (is_generation (pt_source p) prev) (db_generations d')"
    using g' by (auto simp: gens(1) list_ex_iff is_generation_def)
  then have "pointer_sound q d'"
    unfolding pointer_sound_def ptr using rows gens(2) p(4) by auto
  moreover have "rollback_kept q d'"
    unfolding rollback_kept_def ptr using rows known by (auto simp: gens(1) list_ex_iff is_generation_def)
  ultimately show ?thesis using ptr p val
    by (simp add: pointer_switched_def pointer_of_def pointer_value_of_def)
qed

section \<open>Properties\<close>

datatype pointer_op = Promote string "string option" int string | Rollback int string

fun run_pointer_op :: "string \<Rightarrow> pointer_op \<Rightarrow> pointer_value db" where
  "run_pointer_op q (Promote g e v pid) = sp_promote q g e v pid"
| "run_pointer_op q (Rollback v pid) = sp_rollback q v pid"

fun expected_version :: "pointer_op \<Rightarrow> int" where
  "expected_version (Promote g e v pid) = v"
| "expected_version (Rollback v pid) = v"

text \<open>The operations in turn, with the number of those that succeeded\<close>

fun run_pointer_ops :: "string \<Rightarrow> pointer_op list \<Rightarrow> control_db \<Rightarrow> nat \<times> control_db" where
  "run_pointer_ops q [] d = (0, d)"
| "run_pointer_ops q (op # ops) d = (case run_pointer_op q op d of
     (r, d') \<Rightarrow> (case run_pointer_ops q ops d' of (n, d'') \<Rightarrow> ((if is_ok r then Suc n else n), d'')))"

lemma pointer_op_error: "run_pointer_op q op d = (Inl e, d') \<Longrightarrow> d' = d"
proof -
  have "atomic (run_pointer_op q op)"
    by (cases op) (auto simp: sp_promote_def sp_rollback_def intro: atomic_intros)
  then show "run_pointer_op q op d = (Inl e, d') \<Longrightarrow> d' = d" by (rule atomicD)
qed

lemma pointer_op_ok:
  "pointer_sound q d \<Longrightarrow> run_pointer_op q op d = (Inr val, d') \<Longrightarrow>
     pointer_sound q d' \<and> rollback_kept q d' \<and> pt_version (pointer_of q d') = pt_version (pointer_of q d) + 1 \<and>
     pt_previous (pointer_of q d') = Some (pt_generation (pointer_of q d)) \<and>
     expected_version op = pt_version (pointer_of q d)"
proof (cases op)
  case (Promote g e v pid)
  assume "pointer_sound q d" "run_pointer_op q op d = (Inr val, d')"
  with Promote show ?thesis using sp_promote_sound [of q d g e v pid val d']
    by (clarsimp simp: pointer_switched_def pointer_value_of_def)
next
  case (Rollback v pid)
  assume "pointer_sound q d" "run_pointer_op q op d = (Inr val, d')"
  with Rollback show ?thesis using sp_rollback_sound [of q d v pid val d']
    by (clarsimp simp: pointer_switched_def pointer_value_of_def)
qed

lemma pointer_ops_sound:
  "pointer_sound q d \<Longrightarrow> run_pointer_ops q ops d = (n, d') \<Longrightarrow>
     pointer_sound q d' \<and> pt_version (pointer_of q d') = pt_version (pointer_of q d) + int n \<and>
     (0 < n \<or> rollback_kept q d \<longrightarrow> rollback_kept q d')"
proof (induction ops arbitrary: d n)
  case (Cons op ops)
  obtain r d1 where r: "run_pointer_op q op d = (r, d1)" by fastforce
  obtain k d2 where k: "run_pointer_ops q ops d1 = (k, d2)" by fastforce
  show ?case
  proof (cases r)
    case (Inl e)
    with r have "d1 = d" using pointer_op_error by blast
    with Cons r k Inl show ?thesis by fastforce
  next
    case (Inr val)
    with r Cons.prems(1) have "pointer_sound q d1" "rollback_kept q d1" "pt_version (pointer_of q d1) = pt_version (pointer_of q d) + 1"
      using pointer_op_ok by blast+
    moreover have "d2 = d'" "n = Suc k" using Cons.prems(2) r k Inr by simp_all
    ultimately show ?thesis using Cons.IH [of d1 k] k by simp
  qed
qed simp

text \<open>C17: The serving pointer and the generation registry never disagree.  After any sequence of promotions
  and rollbacks, succeeding or failing in any order, the generation the pointer names is the only
  one that serves its source and the only one protected as serving, no generation but the pointer's previous one is
  protected for a rollback, and the version has gone up by exactly the number of operations that
  succeeded.  As soon as one has succeeded, or when it was so before, the previous generation is in the
  registry and really is protected: a rollback finds it.\<close>

theorem pointer_agrees_with_registry:
  assumes "pointer_sound q d" "run_pointer_ops q ops d = (n, d')"
  shows "pointer_sound q d' \<and> pt_version (pointer_of q d') = pt_version (pointer_of q d) + int n \<and>
    (0 < n \<or> rollback_kept q d \<longrightarrow> rollback_kept q d')"
  using pointer_ops_sound [OF assms] .

text \<open>The version is a compare-and-swap: once an operation that expected a version has succeeded, every
  later promotion or rollback that still expects that version fails and changes nothing, whatever
  other operations ran in between.\<close>

theorem stale_version_refused:
  assumes "pointer_sound q d" "run_pointer_op q op d = (Inr val, d1)"
    "run_pointer_ops q ops d1 = (n, d2)" "expected_version op' = expected_version op"
  shows "\<exists>e. run_pointer_op q op' d2 = (Inl e, d2)"
proof -
  from pointer_op_ok [OF assms(1,2)] have 1: "pointer_sound q d1"
    "pt_version (pointer_of q d1) = expected_version op + 1" by simp_all
  from pointer_ops_sound [OF 1(1) assms(3)] 1(2) have 2: "pointer_sound q d2"
    "pt_version (pointer_of q d2) = expected_version op + 1 + int n" by simp_all
  obtain r d3 where r: "run_pointer_op q op' d2 = (r, d3)" by fastforce
  show ?thesis
  proof (cases r)
    case (Inl e)
    with r pointer_op_error show ?thesis by blast
  next
    case (Inr v)
    with r pointer_op_ok [OF 2(1)] 2(2) assms(4) show ?thesis by fastforce
  qed
qed

definition demo_generation :: "string \<Rightarrow> string \<Rightarrow> string \<Rightarrow> generation_row" where
  "demo_generation g state protection = \<lparr>gr_source = ''jwb'', gr_id = g, gr_backend = ''virtuoso'', gr_state = state,
     gr_validation = ''VALID'', gr_checksum = Some ''c'', gr_normalization = Some ''jwb-rdf-normalization-v1'',
     gr_partition = ''jwb-partition-v1'', gr_manifest = Some ''m'', gr_protection = protection, gr_version = 1,
     gr_snapshot = (0, 0), gr_promotedAt = Some 0, gr_retiredAt = None, gr_error = None, gr_runtime = None,
     gr_namespace = None\<rparr>"

definition demo_pointer :: "string \<Rightarrow> pointer_row" where
  "demo_pointer q = \<lparr>pt_query = q, pt_source = ''jwb'', pt_generation = ''gen-a'', pt_previous = None,
     pt_version = 1, pt_updatedAt = 0\<rparr>"

definition demo_db :: control_db where
  "demo_db = empty_db\<lparr>db_generations := [demo_generation ''gen-a'' ''SERVING'' ''SERVING'',
     demo_generation ''gen-b'' ''READY'' ''NONE''], db_pointers := [demo_pointer ''q'']\<rparr>"

lemma demo_sound: "pointer_sound ''q'' demo_db"
  by code_simp

definition demo_ops :: "pointer_op list" where
  "demo_ops = [Promote ''gen-b'' (Some ''gen-a'') 1 ''p1'', Promote ''gen-b'' (Some ''gen-a'') 1 ''p2'',
     Rollback 2 ''p1'']"

theorem pointer_agrees_with_registry_witness:
  "pointer_sound ''q'' (snd (run_pointer_ops ''q'' demo_ops demo_db)) \<and>
     rollback_kept ''q'' (snd (run_pointer_ops ''q'' demo_ops demo_db)) \<and>
     fst (run_pointer_ops ''q'' demo_ops demo_db) = 2 \<and>
     pt_version (pointer_of ''q'' (snd (run_pointer_ops ''q'' demo_ops demo_db))) = 3"
proof -
  have n: "fst (run_pointer_ops ''q'' demo_ops demo_db) = 2" by code_simp
  have v: "pt_version (pointer_of ''q'' demo_db) = 1" by code_simp
  have "run_pointer_ops ''q'' demo_ops demo_db = (2, snd (run_pointer_ops ''q'' demo_ops demo_db))"
    by (rule prod_eqI) (simp_all add: n)
  from pointer_agrees_with_registry [OF demo_sound this] n v show ?thesis by simp
qed

theorem stale_version_refused_witness:
  "\<exists>e. run_pointer_op ''q'' (Rollback 1 ''p1'') (snd (sp_promote ''q'' ''gen-b'' (Some ''gen-a'') 1 ''p1'' demo_db)) =
     (Inl e, snd (sp_promote ''q'' ''gen-b'' (Some ''gen-a'') 1 ''p1'' demo_db))"
proof -
  let ?d = "snd (sp_promote ''q'' ''gen-b'' (Some ''gen-a'') 1 ''p1'' demo_db)"
  have ok: "is_ok (fst (run_pointer_op ''q'' (Promote ''gen-b'' (Some ''gen-a'') 1 ''p1'') demo_db))" by code_simp
  then obtain val where "run_pointer_op ''q'' (Promote ''gen-b'' (Some ''gen-a'') 1 ''p1'') demo_db = (Inr val, ?d)"
    by (auto simp: is_ok_iff prod_eq_iff)
  from stale_version_refused [OF demo_sound this, of "[]" 0 ?d "Rollback 1 ''p1''"] show ?thesis by simp
qed

text \<open>
  The registry is shared by the query services of a source, the pointer is not: a promotion through
  one service demotes the generation that the pointer of another service still names.
\<close>

definition shared_source_db :: control_db where
  "shared_source_db = demo_db\<lparr>db_pointers := [demo_pointer ''q'', demo_pointer ''r'']\<rparr>"

text \<open>Two query services of one source do not stay consistent: both pointers are sound, one service
  promotes, and the other is left pointing at a generation that is retiring.\<close>

theorem second_service_left_behind:
  "pointer_sound ''q'' shared_source_db \<and> pointer_sound ''r'' shared_source_db \<and>
   (let d = snd (sp_promote ''q'' ''gen-b'' (Some ''gen-a'') 1 ''p1'' shared_source_db)
    in pointer_sound ''q'' d \<and> \<not> pointer_sound ''r'' d \<and> pt_generation (pointer_of ''r'' d) = ''gen-a'' \<and>
       map gr_state (db_generations d) = [''RETIRING'', ''SERVING''])"
  by code_simp

end
