(* ===== verification/CoordinatorRepository.thy ===== *)
theory CoordinatorRepository
  imports ServingPointer JsDate "HOL-Library.Product_Lexorder"
begin

text \<open>
  \<open>services/rdf-sync/src/postgres-generation-coordinator-repository.js\<close>: the durable operations of the
  generation coordinator.  An operation is claimed for the time of a lease with a fence that grows at
  every claim; what a worker then writes is conditional on its name, its fence and its lease.
\<close>

section \<open>Configuration and validation\<close>

definition ACTIVE :: "string list" where
  "ACTIVE = [''REBUILD_REQUESTED'', ''CREATING_GENERATION'', ''LOADING_SNAPSHOT'', ''WAITING_FOR_CATCHUP'', ''VALIDATING'',
     ''READY_TO_PROMOTE'', ''PROMOTING'', ''PROMOTED'', ''RETIRING_OLD'', ''CLEANING_UP'', ''RETIREMENT_WAITING_ELIGIBILITY'']"

definition STATES :: "string list" where
  "STATES = ACTIVE @ [''ROLLBACK_PROTECTED'', ''COMPLETED'', ''FAILED'', ''AMBIGUOUS'']"

definition coordinator_uuid :: "string \<Rightarrow> bool" where
  "coordinator_uuid v \<longleftrightarrow> rx_test UUID_I v"

record coordinator_config =
  cf_ownerId :: string
  cf_ownerPodUid :: "string option"
  cf_leaseMs :: int

definition new_coordinator_repository :: "string \<Rightarrow> string option \<Rightarrow> int \<Rightarrow> coordinator_config result" where
  "new_coordinator_repository ownerId ownerPodUid leaseMs =
     bindR (requireR (coordinator_uuid ownerId \<and> (case ownerPodUid of None \<Rightarrow> True | Some u \<Rightarrow> coordinator_uuid u) \<and>
         1000 \<le> leaseMs \<and> leaseMs \<le> 60000) ''invalid coordinator repository configuration'') (\<lambda>_.
     Inr \<lparr>cf_ownerId = ownerId, cf_ownerPodUid = ownerPodUid, cf_leaseMs = leaseMs\<rparr>)"

text \<open>\<open>/^[a-z0-9][a-z0-9:._-]{0,127}$/u\<close>\<close>

definition is_key_char :: "char \<Rightarrow> bool" where
  "is_key_char x \<longleftrightarrow> is_lower_digit x \<or> x \<in> {CHR '':'', CHR ''.'', CHR ''_'', CHR ''-''}"

definition REQUEST_KEY :: rx where
  "REQUEST_KEY = Cats [Cls is_lower_digit, AtMost 127 (Cls is_key_char)]"

definition require_uuid :: "string \<Rightarrow> unit result" where
  "require_uuid v = requireR (coordinator_uuid v) ''invalid UUID''"

definition require_generation :: "string \<Rightarrow> unit result" where
  "require_generation v = requireR (generation_id v) ''invalid generation ID''"

definition require_identifiers :: "string \<Rightarrow> string \<Rightarrow> unit result" where
  "require_identifiers source g =
     bindR (requireR (source_identity source) ''invalid source identity'') (\<lambda>_. require_generation g)"

definition require_query :: "string \<Rightarrow> unit result" where
  "require_query v = requireR (query_service_id v) ''invalid query service ID''"

definition require_state :: "string \<Rightarrow> unit result" where
  "require_state v = requireR (List.member STATES v) ''invalid coordinator state''"

definition require_fence :: "string \<Rightarrow> int \<Rightarrow> unit result" where
  "require_fence e fence = requireR (1 \<le> fence) e"

text \<open>A cursor as the caller gives it, and the instant it stands for\<close>

record coordinator_cursor =
  cc_timestamp :: string
  cc_rcid :: int

definition require_cursor :: "coordinator_cursor \<Rightarrow> (int \<times> int) result" where
  "require_cursor v = (case date_parse (cc_timestamp v) of
       None \<Rightarrow> Inl ''invalid coordinator cursor''
     | Some t \<Rightarrow> if 0 \<le> cc_rcid v then Inr (t, cc_rcid v) else Inl ''invalid coordinator cursor'')"

record rebuild_request =
  rq_requestKey :: string
  rq_sourceIdentity :: string
  rq_queryServiceId :: string
  rq_candidateGenerationId :: string
  rq_backendType :: string
  rq_reason :: string
  rq_snapshotCursor :: coordinator_cursor
  rq_targetCursor :: coordinator_cursor

definition BACKENDS :: "string list" where
  "BACKENDS = [''virtuoso'', ''oxigraph'', ''fuseki-tdb2'']"

definition REASONS :: "string list" where
  "REASONS = [''MANUAL_LOCAL_QUALIFICATION'', ''REVISION_GAP'', ''SCHEMA_STALE'', ''BACKEND_RECOVERY'']"

text \<open>The validated cursors are the answer\<close>

definition require_request :: "rebuild_request \<Rightarrow> ((int \<times> int) \<times> (int \<times> int)) result" where
  "require_request v =
     bindR (requireR (source_identity (rq_sourceIdentity v) \<and> query_service_id (rq_queryServiceId v) \<and>
       rx_test REQUEST_KEY (rq_requestKey v)) ''invalid rebuild request'') (\<lambda>_.
     bindR (require_generation (rq_candidateGenerationId v)) (\<lambda>_.
     bindR (require_cursor (rq_snapshotCursor v)) (\<lambda>snapshot.
     bindR (require_cursor (rq_targetCursor v)) (\<lambda>target.
     bindR (requireR (List.member BACKENDS (rq_backendType v) \<and> List.member REASONS (rq_reason v)) ''invalid rebuild request'')
       (\<lambda>_. Inr (snapshot, target))))))"

section \<open>What the methods return\<close>

record operation =
  o_id :: string
  o_requestKey :: string
  o_sourceIdentity :: string
  o_queryServiceId :: string
  o_candidateGenerationId :: string
  o_backendType :: string
  o_state :: string
  o_expectedGenerationId :: "string option"
  o_expectedPointerVersion :: "int option"
  o_snapshotCursor :: "(int \<times> int) option"
  o_targetCursor :: "(int \<times> int) option"
  o_ownerId :: "string option"
  o_fence :: int
  o_errorCode :: "string option"

definition operation_of :: "operation_row \<Rightarrow> operation" where
  "operation_of v = \<lparr>o_id = op_id v, o_requestKey = op_key v, o_sourceIdentity = op_source v,
     o_queryServiceId = op_query v, o_candidateGenerationId = op_candidate v, o_backendType = op_backend v,
     o_state = op_state v, o_expectedGenerationId = op_expectedGeneration v,
     o_expectedPointerVersion = op_expectedVersion v, o_snapshotCursor = op_snapshot v, o_targetCursor = op_target v,
     o_ownerId = op_claimedBy v, o_fence = op_fence v, o_errorCode = op_error v\<rparr>"

record promotion_value =
  pr_id :: string
  pr_sourceIdentity :: string
  pr_fromGenerationId :: "string option"
  pr_toGenerationId :: string
  pr_state :: string
  pr_phase :: string
  pr_expectedPointerVersion :: "int option"
  pr_resultingPointerVersion :: "int option"

definition promotion_of :: "promotion_row \<Rightarrow> promotion_value" where
  "promotion_of v = \<lparr>pr_id = pm_id v, pr_sourceIdentity = pm_source v, pr_fromGenerationId = pm_from v,
     pr_toGenerationId = pm_to v, pr_state = pm_state v, pr_phase = pm_phase v,
     pr_expectedPointerVersion = pm_expected v, pr_resultingPointerVersion = pm_resulting v\<rparr>"

record retirement_value =
  re_id :: string
  re_operationId :: string
  re_sourceIdentity :: string
  re_generationId :: string
  re_state :: string

definition retirement_of :: "retirement_row \<Rightarrow> retirement_value" where
  "retirement_of v = \<lparr>re_id = rt_id v, re_operationId = rt_operation v, re_sourceIdentity = rt_source v,
     re_generationId = rt_generation v, re_state = rt_state v\<rparr>"

section \<open>Operations\<close>

definition new_operation :: "string \<Rightarrow> rebuild_request \<Rightarrow> (int \<times> int) \<times> (int \<times> int) \<Rightarrow> int \<Rightarrow> operation_row" where
  "new_operation u v cursors now = \<lparr>op_id = u, op_key = rq_requestKey v, op_source = rq_sourceIdentity v,
     op_query = rq_queryServiceId v, op_candidate = rq_candidateGenerationId v, op_backend = rq_backendType v,
     op_reason = rq_reason v, op_state = ''REBUILD_REQUESTED'', op_expectedGeneration = None, op_expectedVersion = None,
     op_snapshot = Some (fst cursors), op_target = Some (snd cursors), op_claimedBy = None, op_ownerPod = None,
     op_lease = None, op_fence = 0, op_error = None, op_createdAt = now, op_completedAt = None,
     op_type = Some ''PROMOTION''\<rparr>"

text \<open>\<open>ON CONFLICT(request_key) DO UPDATE SET request_key=EXCLUDED.request_key\<close> returns the row that is there\<close>

definition cr_request :: "rebuild_request \<Rightarrow> operation db" where
  "cr_request v =
     bindA (liftA (require_request v)) (\<lambda>cursors.
     bindA randomUUID (\<lambda>u. bindA now_db (\<lambda>now.
     bindA (select_rows db_operations (\<lambda>r. op_key r = rq_requestKey v)) (\<lambda>there.
     case there of
       r # _ \<Rightarrow> returnA (operation_of r)
     | [] \<Rightarrow> bindA (insert_operation (new_operation u v cursors now)) (\<lambda>r. returnA (operation_of r))))))"

definition claimable :: "int \<Rightarrow> operation_row \<Rightarrow> bool" where
  "claimable now r \<longleftrightarrow> List.member ACTIVE (op_state r) \<and> (case op_lease r of None \<Rightarrow> True | Some t \<Rightarrow> t < now)"

definition cr_claimNext :: "coordinator_config \<Rightarrow> operation option db" where
  "cr_claimNext C = transactionA (bindA now_db (\<lambda>now.
     bindA (select_rows db_operations (claimable now)) (\<lambda>rows.
     case sort_key (\<lambda>r. (op_createdAt r, op_id r)) rows of
       [] \<Rightarrow> returnA None
     | selected # _ \<Rightarrow>
         bindA (update_operations (\<lambda>r. op_id r = op_id selected)
           (\<lambda>r. r\<lparr>op_claimedBy := Some (cf_ownerId C), op_ownerPod := cf_ownerPodUid C,
             op_lease := Some (now + cf_leaseMs C), op_fence := op_fence r + 1\<rparr>)) (\<lambda>updated.
         case updated of [] \<Rightarrow> raiseA ''TypeError'' | r # _ \<Rightarrow> returnA (Some (operation_of r))))))"

definition cr_load :: "string \<Rightarrow> operation db" where
  "cr_load i = thenA (liftA (require_uuid i))
     (bindA (select_rows db_operations (\<lambda>r. op_id r = i)) (\<lambda>rows.
      bindA (one_row ''COORDINATOR_OPERATION_MISSING'' rows) (\<lambda>r. returnA (operation_of r))))"

text \<open>The fields a transition may set; \<open>None\<close> for a field that is absent or \<open>null\<close>\<close>

record transition_fields =
  tf_expectedGenerationId :: "string option"
  tf_expectedPointerVersion :: "int option"
  tf_snapshotCursor :: "(int \<times> int) option"
  tf_targetCursor :: "(int \<times> int) option"
  tf_errorCode :: "string option"

definition no_fields :: transition_fields where
  "no_fields = \<lparr>tf_expectedGenerationId = None, tf_expectedPointerVersion = None, tf_snapshotCursor = None,
     tf_targetCursor = None, tf_errorCode = None\<rparr>"

text \<open>\<open>/^[A-Z][A-Z0-9_]{2,63}$/u\<close>, the whole text\<close>

definition encode_fields :: "transition_fields \<Rightarrow> transition_fields result" where
  "encode_fields v =
     bindR (case tf_expectedGenerationId v of None \<Rightarrow> Inr () | Some g \<Rightarrow> require_generation g) (\<lambda>_.
     bindR (case tf_errorCode v of None \<Rightarrow> Inr () | Some e \<Rightarrow> requireR (rx_test ERROR_CODE e) ''invalid error code'') (\<lambda>_.
     Inr v))"

definition coalesce :: "'a option \<Rightarrow> 'a option \<Rightarrow> 'a option" where
  "coalesce a b = (case a of None \<Rightarrow> b | Some _ \<Rightarrow> a)"

text \<open>What every conditional write of a worker asks of its operation\<close>

definition holds_lease :: "coordinator_config \<Rightarrow> int \<Rightarrow> int \<Rightarrow> operation_row \<Rightarrow> bool" where
  "holds_lease C fence now r \<longleftrightarrow> op_claimedBy r = Some (cf_ownerId C) \<and> op_fence r = fence \<and>
     (case op_lease r of None \<Rightarrow> False | Some t \<Rightarrow> now < t)"

definition cr_transition ::
  "coordinator_config \<Rightarrow> string \<Rightarrow> int \<Rightarrow> string \<Rightarrow> string \<Rightarrow> transition_fields \<Rightarrow> operation db" where
  "cr_transition C i fence from' to' given =
     thenA (liftA (require_uuid i)) (thenA (liftA (require_state from')) (thenA (liftA (require_state to'))
     (thenA (liftA (require_fence ''invalid coordinator fence'' fence))
     (bindA (liftA (encode_fields given)) (\<lambda>v. bindA now_db (\<lambda>now.
      bindA (update_operations (\<lambda>r. op_id r = i \<and> holds_lease C fence now r \<and> op_state r = from')
        (\<lambda>r. r\<lparr>op_state := to', op_expectedGeneration := coalesce (tf_expectedGenerationId v) (op_expectedGeneration r),
          op_expectedVersion := coalesce (tf_expectedPointerVersion v) (op_expectedVersion r),
          op_snapshot := coalesce (tf_snapshotCursor v) (op_snapshot r), op_target := coalesce (tf_targetCursor v) (op_target r),
          op_error := tf_errorCode v, op_claimedBy := None, op_lease := None,
          op_completedAt := (if List.member [''COMPLETED'', ''FAILED'', ''AMBIGUOUS''] to' then Some now else op_completedAt r)\<rparr>))
        (\<lambda>rows. bindA (one_row ''COORDINATOR_FENCE_CONFLICT'' rows) (\<lambda>r. returnA (operation_of r)))))))))"

section \<open>Generations, the pointer and promotions\<close>

record generation_evidence =
  ge_row :: generation_row
  ge_syncState :: "string option"
  ge_schemaState :: "string option"
  ge_catchup :: "(int \<times> int) option"
  ge_failedEntities :: nat

text \<open>The \<open>LEFT JOIN\<close> with the synchronization row and the count of failed entities\<close>

definition evidence_row :: "control_db \<Rightarrow> generation_row \<Rightarrow> generation_evidence" where
  "evidence_row d g =
     (let sync = List.find (\<lambda>s. gs_source s = gr_source g \<and> gs_generation s = gr_id g) (db_syncs d) in
      \<lparr>ge_row = g, ge_syncState = map_option gs_state sync, ge_schemaState = map_option gs_schema sync,
        ge_catchup = (case sync of None \<Rightarrow> None | Some s \<Rightarrow> gs_catchup s),
        ge_failedEntities = length (filter (\<lambda>e. rv_source e = gr_source g \<and> rv_generation e = gr_id g \<and>
          (rv_state e = ''FAILED'' \<or> rv_state e = ''GAP'')) (db_revisions d))\<rparr>)"

definition cr_generationEvidence :: "string \<Rightarrow> string \<Rightarrow> generation_evidence option db" where
  "cr_generationEvidence source g = thenA (liftA (require_identifiers source g))
     (readA (\<lambda>d. map_option (evidence_row d) (List.find (is_generation source g) (db_generations d))))"

text \<open>A new generation row; the columns that are not named have their defaults\<close>

definition new_generation :: "operation \<Rightarrow> int \<times> int \<Rightarrow> generation_row" where
  "new_generation oper snapshot = \<lparr>gr_source = o_sourceIdentity oper, gr_id = o_candidateGenerationId oper,
     gr_backend = o_backendType oper, gr_state = ''CREATING'', gr_validation = ''PENDING'', gr_checksum = None,
     gr_normalization = Some ''jwb-rdf-normalization-v1'', gr_partition = ''jwb-partition-v1'', gr_manifest = None,
     gr_protection = ''NONE'', gr_version = 1, gr_snapshot = snapshot, gr_promotedAt = None, gr_retiredAt = None,
     gr_error = None, gr_runtime = None, gr_namespace = None\<rparr>"

definition cr_ensureGeneration :: "operation \<Rightarrow> generation_row db" where
  "cr_ensureGeneration oper =
     (case o_snapshotCursor oper of
        None \<Rightarrow> raiseA ''TypeError''
      | Some snapshot \<Rightarrow>
          bindA (select_rows db_generations (is_generation (o_sourceIdentity oper) (o_candidateGenerationId oper))) (\<lambda>there.
          case there of g # _ \<Rightarrow> returnA g | [] \<Rightarrow> insert_generation (new_generation oper snapshot)))"

definition cr_setGenerationState ::
  "string \<Rightarrow> string \<Rightarrow> string \<Rightarrow> string \<Rightarrow> string option \<Rightarrow> generation_row db" where
  "cr_setGenerationState source g from' to' errorCode =
     thenA (liftA (require_identifiers source g))
     (bindA (update_generations (\<lambda>r. is_generation source g r \<and> gr_state r = from')
        (\<lambda>r. bump (r\<lparr>gr_state := to', gr_error := errorCode\<rparr>))) (\<lambda>rows.
      one_row ''GENERATION_STATE_CONFLICT'' rows))"

record coordinator_pointer =
  cp_queryServiceId :: string
  cp_sourceIdentity :: string
  cp_generationId :: string
  cp_previousGenerationId :: "string option"
  cp_version :: int

definition coordinator_pointer_of :: "pointer_row \<Rightarrow> coordinator_pointer" where
  "coordinator_pointer_of v = \<lparr>cp_queryServiceId = pt_query v, cp_sourceIdentity = pt_source v,
     cp_generationId = pt_generation v, cp_previousGenerationId = pt_previous v, cp_version = pt_version v\<rparr>"

definition cr_pointer :: "string \<Rightarrow> coordinator_pointer db" where
  "cr_pointer q = bindA (select_rows db_pointers (\<lambda>p. pt_query p = q)) (\<lambda>rows.
     bindA (one_row ''SERVING_POINTER_MISSING'' rows) (\<lambda>p. returnA (coordinator_pointer_of p)))"

definition new_promotion :: "string \<Rightarrow> string \<Rightarrow> string \<Rightarrow> string \<Rightarrow> string \<Rightarrow> int \<Rightarrow> int \<Rightarrow> promotion_row" where
  "new_promotion u operationId source f t expectedVersion now = \<lparr>pm_id = u, pm_operation = Some operationId,
     pm_source = source, pm_from = Some f, pm_to = t, pm_state = ''PREPARING'', pm_phase = ''PREPARING'',
     pm_expected = Some expectedVersion, pm_resulting = None, pm_createdAt = now, pm_verifiedAt = None,
     pm_completedAt = None\<rparr>"

text \<open>\<open>ON CONFLICT DO NOTHING\<close>: an identifier that is taken inserts nothing\<close>

definition cr_preparePromotion :: "string \<Rightarrow> string \<Rightarrow> string \<Rightarrow> string \<Rightarrow> int \<Rightarrow> promotion_value db" where
  "cr_preparePromotion operationId source f t expectedVersion =
     thenA (liftA (require_uuid operationId)) (thenA (liftA (require_identifiers source t))
     (thenA (liftA (require_generation f))
     (bindA randomUUID (\<lambda>u. bindA now_db (\<lambda>now.
      bindA (select_rows db_promotions (\<lambda>p. pm_id p = u)) (\<lambda>taken.
      thenA (ensureA (taken = []) ''PROMOTION_JOURNAL_CONFLICT'')
      (bindA (insert_promotion_checked (new_promotion u operationId source f t expectedVersion now)) (\<lambda>p.
       returnA (promotion_of p)))))))))"

definition cr_casPointer :: "string \<Rightarrow> string \<Rightarrow> promotion_value db" where
  "cr_casPointer promotionId q =
     thenA (liftA (require_uuid promotionId))
     (transactionA (bindA now_db (\<lambda>now.
      bindA (select_rows db_promotions (\<lambda>p. pm_id p = promotionId)) (\<lambda>journal.
      bindA (one_row ''PROMOTION_MISSING'' journal) (\<lambda>p.
      if List.member [''POINTER_UPDATED'', ''ROUTER_VERIFIED'', ''GENERATION_FINALIZED''] (pm_phase p) then returnA (promotion_of p)
      else
        thenA (ensureA (pm_phase p = ''PREPARING'') ''PROMOTION_PHASE_INVALID'')
        (bindA (update_pointers (\<lambda>x. pt_query x = q \<and> pt_source x = pm_source p \<and> Some (pt_generation x) = pm_from p \<and>
            Some (pt_version x) = pm_expected p)
          (\<lambda>x. x\<lparr>pt_previous := Some (pt_generation x), pt_generation := pm_to p, pt_version := pt_version x + 1,
            pt_updatedAt := now\<rparr>)) (\<lambda>updated.
        bindA (one_row ''SERVING_POINTER_CONFLICT'' updated) (\<lambda>row.
        bindA (update_promotions (\<lambda>x. pm_id x = promotionId)
          (\<lambda>x. x\<lparr>pm_phase := ''POINTER_UPDATED'', pm_resulting := Some (pt_version row)\<rparr>)) (\<lambda>rows.
        bindA (one_row ''TypeError'' rows) (\<lambda>x. returnA (promotion_of x)))))))))))"

definition cr_markRouterVerified :: "string \<Rightarrow> promotion_value db" where
  "cr_markRouterVerified promotionId =
     thenA (liftA (require_uuid promotionId))
     (bindA now_db (\<lambda>now.
      bindA (update_promotions (\<lambda>x. pm_id x = promotionId \<and> (pm_phase x = ''POINTER_UPDATED'' \<or> pm_phase x = ''ROUTER_VERIFIED''))
        (\<lambda>x. x\<lparr>pm_phase := ''ROUTER_VERIFIED'', pm_verifiedAt := Some now\<rparr>)) (\<lambda>rows.
      bindA (one_row ''PROMOTION_PHASE_CONFLICT'' rows) (\<lambda>x. returnA (promotion_of x)))))"

definition cr_finalizePromotion :: "string \<Rightarrow> promotion_value db" where
  "cr_finalizePromotion promotionId =
     thenA (liftA (require_uuid promotionId))
     (transactionA (bindA now_db (\<lambda>now.
      bindA (select_rows db_promotions (\<lambda>p. pm_id p = promotionId)) (\<lambda>journal.
      bindA (one_row ''PROMOTION_MISSING'' journal) (\<lambda>p.
      if pm_phase p = ''GENERATION_FINALIZED'' then returnA (promotion_of p)
      else
        thenA (ensureA (pm_phase p = ''ROUTER_VERIFIED'') ''PROMOTION_PHASE_INVALID'')
        (bindA (select_rows db_generations (\<lambda>g. gr_source g = pm_source p \<and> gr_protection g = ''ROLLBACK'')) (\<lambda>released.
        thenA (update_generations (serving_or_rollback (pm_source p)) unprotect)
        (bindA (update_generations (\<lambda>r. gr_source r = pm_source p \<and> Some (gr_id r) = pm_from p \<and> gr_state r = ''SERVING'')
          (demote_to ''RETIRING'')) (\<lambda>old.
        bindA (update_generations (\<lambda>r. is_generation (pm_source p) (pm_to p) r \<and> gr_state r = ''READY'') (serve now)) (\<lambda>serving.
        thenA (ensureA (length old = 1 \<and> length serving = 1) ''PROMOTION_GENERATION_CONFLICT'')
        (bindA randomUUID (\<lambda>u. thenA (ensureA (pm_operation p \<noteq> None) CONSTRAINT_VIOLATION)
        (thenA (modifyA (\<lambda>d. d\<lparr>db_audits := db_audits d @ [\<lparr>au_id = u, au_operation = pm_operation p, au_source = pm_source p,
          au_released = (case released of [] \<Rightarrow> None | g # _ \<Rightarrow> Some (gr_id g)), au_rollback = pm_from p,
          au_serving = pm_to p\<rparr>]\<rparr>))
        (bindA (update_promotions (\<lambda>x. pm_id x = promotionId)
          (\<lambda>x. x\<lparr>pm_phase := ''GENERATION_FINALIZED'', pm_state := ''COMMITTED'', pm_completedAt := Some now\<rparr>)) (\<lambda>rows.
        bindA (one_row ''TypeError'' rows) (\<lambda>x. returnA (promotion_of x)))))))))))))))))"

text \<open>\<open>ORDER BY created_at DESC LIMIT 1\<close>; of rows with the same time, the one stored first\<close>

fun latest_promotion :: "promotion_row list \<Rightarrow> promotion_row option" where
  "latest_promotion [] = None"
| "latest_promotion (p # ps) = (case latest_promotion ps of
       None \<Rightarrow> Some p | Some x \<Rightarrow> if pm_createdAt p < pm_createdAt x then Some x else Some p)"

definition cr_incompletePromotion :: "string \<Rightarrow> promotion_value option db" where
  "cr_incompletePromotion source = bindA (select_rows db_promotions (\<lambda>p. pm_source p = source \<and> pm_state p = ''PREPARING''))
     (\<lambda>rows. returnA (map_option promotion_of (latest_promotion rows)))"

definition cr_operationPromotion :: "string \<Rightarrow> promotion_value option db" where
  "cr_operationPromotion operationId = thenA (liftA (require_uuid operationId))
     (bindA (select_rows db_promotions (\<lambda>p. pm_operation p = Some operationId))
       (\<lambda>rows. returnA (map_option promotion_of (latest_promotion rows))))"

section \<open>Releasing the rollback protection\<close>

record release_request =
  rr_operationId :: string
  rr_idempotencyKey :: string
  rr_sourceIdentity :: string
  rr_queryServiceId :: string
  rr_generationId :: string
  rr_expectedServingGenerationId :: string
  rr_expectedServingPointerVersion :: int

definition require_release :: "release_request \<Rightarrow> unit result" where
  "require_release v =
     bindR (require_uuid (rr_operationId v)) (\<lambda>_.
     bindR (require_identifiers (rr_sourceIdentity v) (rr_generationId v)) (\<lambda>_.
     bindR (require_generation (rr_expectedServingGenerationId v)) (\<lambda>_.
     bindR (require_query (rr_queryServiceId v)) (\<lambda>_.
     requireR (rx_test REQUEST_KEY (rr_idempotencyKey v) \<and> 1 \<le> rr_expectedServingPointerVersion v)
       ''invalid rollback release''))))"

text \<open>The row that is stored is the value that is returned\<close>

definition same_release :: "release_row \<Rightarrow> release_request \<Rightarrow> bool" where
  "same_release a b \<longleftrightarrow> rl_operation a = rr_operationId b \<and> rl_source a = rr_sourceIdentity b \<and>
     rl_query a = rr_queryServiceId b \<and> rl_generation a = rr_generationId b \<and>
     rl_serving a = rr_expectedServingGenerationId b \<and> rl_expectedVersion a = rr_expectedServingPointerVersion b"

definition releases_ok :: "release_row list \<Rightarrow> bool" where
  "releases_ok rs \<longleftrightarrow> distinct (map rl_id rs) \<and> distinct (map rl_key rs) \<and> distinct (map rl_operation rs)"

definition involves :: "string \<Rightarrow> string \<Rightarrow> promotion_row \<Rightarrow> bool" where
  "involves source g p \<longleftrightarrow> pm_source p = source \<and> pm_state p = ''PREPARING'' \<and> (pm_from p = Some g \<or> pm_to p = g)"

definition cr_releaseRollbackProtection :: "release_request \<Rightarrow> release_row db" where
  "cr_releaseRollbackProtection v =
     thenA (liftA (require_release v))
     (transactionA (bindA now_db (\<lambda>now.
      let source = rr_sourceIdentity v; g = rr_generationId v in
      bindA (select_rows db_releases (\<lambda>r. rl_key r = rr_idempotencyKey v)) (\<lambda>prior.
      case prior of
        r # _ \<Rightarrow> thenA (ensureA (same_release r v) ''ROLLBACK_RELEASE_IDEMPOTENCY_CONFLICT'') (returnA r)
      | [] \<Rightarrow>
        bindA (select_rows db_pointers (\<lambda>p. pt_query p = rr_queryServiceId v \<and> pt_source p = source)) (\<lambda>pointers.
        bindA (one_row ''SERVING_POINTER_MISSING'' pointers) (\<lambda>p.
        thenA (ensureA (pt_generation p = rr_expectedServingGenerationId v \<and> pt_previous p = Some g \<and>
            pt_version p = rr_expectedServingPointerVersion v) ''ROLLBACK_RELEASE_CAS_CONFLICT'')
        (bindA (select_rows db_generations (is_generation source g)) (\<lambda>generations.
        bindA (one_row ''GENERATION_MISSING'' generations) (\<lambda>gen.
        thenA (ensureA (\<not> (gr_state gen = ''SERVING'' \<or> gr_protection gen \<noteq> ''ROLLBACK'')) ''ROLLBACK_RELEASE_NOT_PROTECTED'')
        (bindA (select_rows db_promotions (involves source g)) (\<lambda>promotions.
        thenA (ensureA (promotions = []) ''ROLLBACK_RELEASE_PROMOTION_ACTIVE'')
        (bindA (select_rows db_retirements (\<lambda>r. rt_source r = source \<and> rt_generation r = g \<and>
            \<not> List.member [''REQUESTED'', ''WAITING_ELIGIBILITY'', ''FAILED'', ''AMBIGUOUS''] (rt_state r))) (\<lambda>conflict.
        thenA (ensureA (conflict = []) ''ROLLBACK_RELEASE_RETIREMENT_ACTIVE'')
        (bindA (update_pointers (\<lambda>x. pt_query x = rr_queryServiceId v \<and> pt_version x = rr_expectedServingPointerVersion v \<and>
            pt_previous x = Some g)
          (\<lambda>x. x\<lparr>pt_previous := None, pt_version := pt_version x + 1, pt_updatedAt := now\<rparr>)) (\<lambda>updated.
        bindA (one_row ''ROLLBACK_RELEASE_CAS_CONFLICT'' updated) (\<lambda>newPointer.
        bindA (update_generations (\<lambda>r. is_generation source g r \<and> gr_protection r = ''ROLLBACK'' \<and> gr_version r = gr_version gen)
          unprotect) (\<lambda>unprotected.
        bindA (one_row ''ROLLBACK_RELEASE_CAS_CONFLICT'' unprotected) (\<lambda>newGeneration.
        thenA (update_retirements (\<lambda>r. rt_source r = source \<and> rt_generation r = g \<and>
            List.member [''REQUESTED'', ''WAITING_ELIGIBILITY''] (rt_state r))
          (\<lambda>r. r\<lparr>rt_state := ''WAITING_ELIGIBILITY'', rt_reasons := []\<rparr>))
        (bindA randomUUID (\<lambda>u.
         insert_row db_releases db_releases_update releases_ok \<lparr>rl_id = u, rl_operation = rr_operationId v,
           rl_key = rr_idempotencyKey v, rl_source = source, rl_query = rr_queryServiceId v, rl_generation = g,
           rl_serving = rr_expectedServingGenerationId v, rl_expectedVersion = rr_expectedServingPointerVersion v,
           rl_pointerVersion = pt_version newPointer, rl_generationVersion = gr_version newGeneration,
           rl_fence = 1\<rparr>))))))))))))))))))))"

section \<open>Eligibility for retirement\<close>

record eligibility =
  el_reasons :: "string list"
  el_pointerVersion :: "int option"
  el_generationVersion :: "int option"
  el_backendType :: "string option"
  el_lifecycleState :: "string option"
  el_protectionState :: "string option"

definition el_eligible :: "eligibility \<Rightarrow> bool" where
  "el_eligible e \<longleftrightarrow> el_reasons e = []"

abbreviation reason_if :: "bool \<Rightarrow> string \<Rightarrow> string list" where
  "reason_if b r \<equiv> (if b then [r] else [])"

definition protection_reasons :: "generation_row \<Rightarrow> string option \<Rightarrow> string list" where
  "protection_reasons g retirementOperationId =
     (if gr_protection g = ''ROLLBACK'' then [''ROLLBACK_PROTECTED'']
      else if gr_protection g = ''SERVING'' then [''SERVING_PROTECTED'']
      else if gr_protection g = ''PROMOTION_IN_PROGRESS'' then [''PROMOTION_PROTECTED'']
      else reason_if (gr_protection g = ''RETIREMENT_IN_PROGRESS'' \<and> retirementOperationId = None) ''RETIREMENT_IN_PROGRESS'')"

text \<open>The reads of \<open>evaluateEligibility\<close>, all of one state of the database\<close>

definition evaluateEligibility ::
  "string \<Rightarrow> string \<Rightarrow> string \<Rightarrow> string option \<Rightarrow> control_db \<Rightarrow> eligibility" where
  "evaluateEligibility source q g retirementOperationId d =
     (let pointers = filter (\<lambda>p. pt_query p = q \<and> pt_source p = source) (db_pointers d);
          generations = filter (is_generation source g) (db_generations d) in
      case (pointers, generations) of
        ([p], [r]) \<Rightarrow>
          \<lparr>el_reasons =
             reason_if (gr_state r = ''SERVING'') ''GENERATION_SERVING'' @ protection_reasons r retirementOperationId @
             reason_if (pt_generation p = g) ''SERVING_POINTER_CURRENT'' @
             reason_if (pt_previous p = Some g) ''SERVING_POINTER_PREVIOUS'' @
             reason_if (\<not> List.member [''RETIRING'', ''RETIRED'', ''FAILED''] (gr_state r)) ''LIFECYCLE_STATE_NOT_RETIRABLE'' @
             reason_if (list_ex (involves source g) (db_promotions d)) ''PROMOTION_INCOMPLETE'' @
             reason_if (list_ex (\<lambda>x. rt_source x = source \<and> rt_generation x = g \<and> rt_state x = ''ROLLBACK_PROTECTED'')
               (db_retirements d)) ''ROLLBACK_INCOMPLETE'' @
             reason_if (list_ex (\<lambda>x. op_source x = source \<and> op_candidate x = g \<and> List.member ACTIVE (op_state x) \<and>
               Some (op_id x) \<noteq> retirementOperationId) (db_operations d)) ''LIFECYCLE_OPERATION_ACTIVE'' @
             reason_if (list_ex (\<lambda>s. gs_source s = source \<and> gs_generation s = g \<and>
               (gs_state s = ''BOOTSTRAPPING'' \<or> gs_state s = ''CATCHING_UP'')) (db_syncs d)) ''SYNC_ACTIVE'',
           el_pointerVersion = Some (pt_version p), el_generationVersion = Some (gr_version r),
           el_backendType = Some (gr_backend r), el_lifecycleState = Some (gr_state r),
           el_protectionState = Some (gr_protection r)\<rparr>
      | _ \<Rightarrow>
          \<lparr>el_reasons = reason_if (length pointers \<noteq> 1) ''SERVING_POINTER_MISSING'' @
             reason_if (length generations \<noteq> 1) ''GENERATION_MISSING'',
           el_pointerVersion = None, el_generationVersion = None, el_backendType = None,
           el_lifecycleState = None, el_protectionState = None\<rparr>)"

definition cr_evaluateRetirementEligibility :: "string \<Rightarrow> string \<Rightarrow> string \<Rightarrow> eligibility db" where
  "cr_evaluateRetirementEligibility source q g =
     thenA (liftA (require_identifiers source g)) (thenA (liftA (require_query q))
     (transactionA (readA (evaluateEligibility source q g None))))"

section \<open>Retirement\<close>

definition new_retirement :: "string \<Rightarrow> string \<Rightarrow> string \<Rightarrow> string \<Rightarrow> string list \<Rightarrow> retirement_row" where
  "new_retirement u operationId source g reasons = \<lparr>rt_id = u, rt_operation = operationId, rt_source = source,
     rt_generation = g, rt_state = ''WAITING_ELIGIBILITY'', rt_reasons = reasons, rt_expectedPointer = None,
     rt_expectedVersion = None, rt_fence = 0, rt_token = None, rt_error = None, rt_checkedAt = None,
     rt_attemptedAt = None, rt_deletedAt = None, rt_finalizedAt = None\<rparr>"

text \<open>\<open>ON CONFLICT(source_identity,generation_id) DO UPDATE SET updated_at=now()\<close>\<close>

definition cr_beginRetirement :: "string \<Rightarrow> string \<Rightarrow> string \<Rightarrow> retirement_value db" where
  "cr_beginRetirement operationId source g =
     thenA (liftA (require_uuid operationId)) (thenA (liftA (require_identifiers source g))
     (bindA randomUUID (\<lambda>u.
      bindA (select_rows db_retirements (\<lambda>r. rt_source r = source \<and> rt_generation r = g)) (\<lambda>there.
      case there of
        r # _ \<Rightarrow> returnA (retirement_of r)
      | [] \<Rightarrow> bindA (insert_retirement (new_retirement u operationId source g [''ROLLBACK_PROTECTED'']))
          (\<lambda>r. returnA (retirement_of r))))))"

definition cr_retirementTransition :: "string \<Rightarrow> string \<Rightarrow> string \<Rightarrow> retirement_value db" where
  "cr_retirementTransition i from' to' =
     thenA (liftA (require_uuid i))
     (thenA (ensureA (List.member RETIREMENT_STATES from' \<and> List.member RETIREMENT_STATES to') ''invalid retirement state'')
     (bindA now_db (\<lambda>now.
      bindA (update_retirements (\<lambda>r. rt_id r = i \<and> rt_state r = from')
        (\<lambda>r. r\<lparr>rt_state := to',
          rt_attemptedAt := (if to' = ''PHYSICAL_DELETE_PENDING'' then Some now else rt_attemptedAt r),
          rt_deletedAt := (if to' = ''PHYSICALLY_DELETED'' then Some now else rt_deletedAt r),
          rt_finalizedAt := (if to' = ''METADATA_FINALIZED'' then Some now else rt_finalizedAt r)\<rparr>)) (\<lambda>rows.
      bindA (one_row ''RETIREMENT_STATE_CONFLICT'' rows) (\<lambda>r. returnA (retirement_of r))))))"

definition cr_operationRetirement :: "string \<Rightarrow> retirement_value option db" where
  "cr_operationRetirement operationId = thenA (liftA (require_uuid operationId))
     (bindA (select_rows db_retirements (\<lambda>r. rt_operation r = operationId)) (\<lambda>rows.
      returnA (case rows of [] \<Rightarrow> None | r # _ \<Rightarrow> Some (retirement_of r))))"

definition EPOCH :: coordinator_cursor where
  "EPOCH = \<lparr>cc_timestamp = ''1970-01-01T00:00:00.000Z'', cc_rcid = 0\<rparr>"

definition cleanup_request :: "string \<Rightarrow> string \<Rightarrow> string \<Rightarrow> string \<Rightarrow> string \<Rightarrow> rebuild_request" where
  "cleanup_request requestKey source q g backend = \<lparr>rq_requestKey = requestKey, rq_sourceIdentity = source,
     rq_queryServiceId = q, rq_candidateGenerationId = g, rq_backendType = backend, rq_reason = ''BACKEND_RECOVERY'',
     rq_snapshotCursor = EPOCH, rq_targetCursor = EPOCH\<rparr>"

definition cleanup_operation :: "string \<Rightarrow> rebuild_request \<Rightarrow> int option \<Rightarrow> int \<Rightarrow> operation_row" where
  "cleanup_operation u v pointerVersion now = (new_operation u v ((0, 0), (0, 0)) now)
     \<lparr>op_state := ''RETIREMENT_WAITING_ELIGIBILITY'', op_expectedGeneration := Some (rq_candidateGenerationId v),
      op_expectedVersion := pointerVersion, op_type := Some ''RETIREMENT''\<rparr>"

text \<open>
  The second \<open>INSERT\<close> has no \<open>ON CONFLICT\<close> clause: a generation that has a retirement row already
  breaks its unique key
\<close>

definition cr_scheduleCleanup :: "string \<Rightarrow> string \<Rightarrow> string \<Rightarrow> string \<Rightarrow> string \<Rightarrow> operation db" where
  "cr_scheduleCleanup requestKey source q g backend =
     thenA (liftA (require_request (cleanup_request requestKey source q g backend)))
     (transactionA (bindA now_db (\<lambda>now.
      bindA (select_rows db_operations (\<lambda>r. op_key r = requestKey)) (\<lambda>existing.
      case existing of
        r # _ \<Rightarrow>
          thenA (ensureA (op_source r = source \<and> op_query r = q \<and> op_candidate r = g \<and> op_backend r = backend \<and>
              op_type r = Some ''RETIREMENT'') ''CLEANUP_IDEMPOTENCY_CONFLICT'')
          (returnA (operation_of r))
      | [] \<Rightarrow>
          bindA (readA (evaluateEligibility source q g None)) (\<lambda>e.
          thenA (ensureA (case el_backendType e of None \<Rightarrow> True | Some b \<Rightarrow> b = [] \<or> b = backend) ''GENERATION_BACKEND_MISMATCH'')
          (bindA randomUUID (\<lambda>operationId. bindA randomUUID (\<lambda>retirementId.
           bindA (insert_operation (cleanup_operation operationId (cleanup_request requestKey source q g backend)
             (el_pointerVersion e) now)) (\<lambda>row.
           thenA (insert_retirement ((new_retirement retirementId operationId source g (el_reasons e))
             \<lparr>rt_expectedPointer := el_pointerVersion e, rt_expectedVersion := el_generationVersion e,
              rt_checkedAt := Some now\<rparr>))
           (returnA (operation_of row)))))))))))"

definition claimed_operation :: "coordinator_config \<Rightarrow> string \<Rightarrow> int \<Rightarrow> string \<Rightarrow> operation_row db" where
  "claimed_operation C operationId fence state = bindA now_db (\<lambda>now.
     bindA (select_rows db_operations (\<lambda>r. op_id r = operationId \<and> holds_lease C fence now r \<and> op_state r = state)) (\<lambda>rows.
     one_row ''STALE_COORDINATOR_FENCE'' rows))"

record reevaluation =
  rv_eligible :: bool
  rv_reasons :: "string list"
  rv_operation :: "operation option"

definition cr_reevaluatePendingRetirement :: "coordinator_config \<Rightarrow> string \<Rightarrow> int \<Rightarrow> reevaluation db" where
  "cr_reevaluatePendingRetirement C operationId fence =
     thenA (liftA (require_uuid operationId))
     (transactionA (bindA now_db (\<lambda>now.
      bindA (claimed_operation C operationId fence ''RETIREMENT_WAITING_ELIGIBILITY'') (\<lambda>oper.
      bindA (readA (evaluateEligibility (op_source oper) (op_query oper) (op_candidate oper) (Some operationId))) (\<lambda>e.
      if \<not> el_eligible e then
        thenA (update_retirements (\<lambda>r. rt_operation r = operationId)
          (\<lambda>r. r\<lparr>rt_state := ''WAITING_ELIGIBILITY'', rt_reasons := el_reasons e, rt_checkedAt := Some now\<rparr>))
        (thenA (update_operations (\<lambda>r. op_id r = operationId)
          (\<lambda>r. r\<lparr>op_claimedBy := None, op_lease := None, op_error := Some ''RETIREMENT_WAITING_ELIGIBILITY''\<rparr>))
        (returnA \<lparr>rv_eligible = False, rv_reasons = el_reasons e, rv_operation = None\<rparr>))
      else
        bindA (update_generations (\<lambda>r. is_generation (op_source oper) (op_candidate oper) r \<and>
            Some (gr_version r) = el_generationVersion e \<and> gr_protection r = ''NONE'')
          (\<lambda>r. bump (r\<lparr>gr_state := ''RETIRING'', gr_protection := ''RETIREMENT_IN_PROGRESS''\<rparr>))) (\<lambda>rows.
        bindA (one_row ''STALE_GENERATION_VERSION'' rows) (\<lambda>g.
        thenA (update_retirements (\<lambda>r. rt_operation r = operationId)
          (\<lambda>r. r\<lparr>rt_state := ''RETIRING'', rt_reasons := [], rt_expectedPointer := el_pointerVersion e,
            rt_expectedVersion := Some (gr_version g), rt_fence := fence, rt_checkedAt := Some now\<rparr>))
        (bindA (update_operations (\<lambda>r. op_id r = operationId)
          (\<lambda>r. r\<lparr>op_state := ''CLEANING_UP'', op_error := None, op_claimedBy := None, op_lease := None\<rparr>)) (\<lambda>updated.
         bindA (one_row ''TypeError'' updated) (\<lambda>r.
         returnA \<lparr>rv_eligible = True, rv_reasons = [], rv_operation = Some (operation_of r)\<rparr>))))))))))"

definition cr_markGenerationRetired :: "coordinator_config \<Rightarrow> string \<Rightarrow> int \<Rightarrow> retirement_value db" where
  "cr_markGenerationRetired C operationId fence =
     thenA (liftA (require_uuid operationId)) (thenA (liftA (require_fence ''invalid coordinator fence'' fence))
     (transactionA (bindA now_db (\<lambda>now.
      bindA (claimed_operation C operationId fence ''CLEANING_UP'') (\<lambda>oper.
      bindA (select_rows db_retirements (\<lambda>r. rt_operation r = operationId)) (\<lambda>rows.
      bindA (one_row ''RETIREMENT_MISSING'' rows) (\<lambda>journal.
      if rt_state journal = ''LOGICALLY_RETIRED'' \<or> rt_state journal = ''PHYSICAL_DELETE_PENDING'' then returnA (retirement_of journal)
      else
        thenA (ensureA (rt_state journal = ''RETIRING'') ''RETIREMENT_STATE_CONFLICT'')
        (bindA (update_generations (\<lambda>r. is_generation (rt_source journal) (rt_generation journal) r \<and> gr_state r = ''RETIRING'' \<and>
            gr_protection r = ''RETIREMENT_IN_PROGRESS'' \<and> Some (gr_version r) = rt_expectedVersion journal)
          (\<lambda>r. bump (r\<lparr>gr_state := ''RETIRED'', gr_retiredAt := coalesce (gr_retiredAt r) (Some now)\<rparr>))) (\<lambda>gs.
        bindA (one_row ''STALE_GENERATION_VERSION'' gs) (\<lambda>g.
        bindA (update_retirements (\<lambda>r. rt_id r = rt_id journal)
          (\<lambda>r. r\<lparr>rt_state := ''LOGICALLY_RETIRED'', rt_expectedVersion := Some (gr_version g)\<rparr>)) (\<lambda>updated.
        bindA (one_row ''TypeError'' updated) (\<lambda>r. returnA (retirement_of r)))))))))))))"

section \<open>Physical deletion\<close>

definition cr_authorizePhysicalDeletion :: "coordinator_config \<Rightarrow> string \<Rightarrow> int \<Rightarrow> (retirement_value \<times> string) db" where
  "cr_authorizePhysicalDeletion C operationId fence =
     thenA (liftA (require_uuid operationId)) (thenA (liftA (require_fence ''invalid coordinator fence'' fence))
     (transactionA (bindA now_db (\<lambda>now.
      bindA (claimed_operation C operationId fence ''CLEANING_UP'') (\<lambda>oper.
      thenA (update_operations (\<lambda>r. op_id r = operationId)
        (\<lambda>r. r\<lparr>op_lease := map_option (\<lambda>t. max t (now + cf_leaseMs C)) (op_lease r)\<rparr>))
      (bindA (select_rows db_retirements (\<lambda>r. rt_operation r = operationId)) (\<lambda>rows.
      bindA (one_row ''RETIREMENT_MISSING'' rows) (\<lambda>journal.
      bindA (readA (evaluateEligibility (op_source oper) (op_query oper) (rt_generation journal) (Some operationId))) (\<lambda>e.
      thenA (ensureA (el_eligible e \<and> el_pointerVersion e = rt_expectedPointer journal \<and>
          el_generationVersion e = rt_expectedVersion journal) ''RETIREMENT_WAITING_ELIGIBILITY'')
      (bindA (if rt_state journal = ''PHYSICAL_DELETE_PENDING'' \<and> rt_fence journal = fence \<and> rt_token journal \<noteq> None
              then returnA (the (rt_token journal)) else randomUUID) (\<lambda>token.
      bindA (update_retirements (\<lambda>r. rt_id r = rt_id journal \<and>
          List.member [''RETIRED'', ''LOGICALLY_RETIRED'', ''PHYSICAL_DELETE_PENDING''] (rt_state r))
        (\<lambda>r. r\<lparr>rt_state := ''PHYSICAL_DELETE_PENDING'', rt_token := Some token, rt_fence := fence,
          rt_attemptedAt := coalesce (rt_attemptedAt r) (Some now)\<rparr>)) (\<lambda>updated.
      bindA (one_row ''RETIREMENT_STATE_CONFLICT'' updated) (\<lambda>r. returnA (retirement_of r, token))))))))))))))"

text \<open>The authority a deletion step needs: the lease, the fence and the token of the current epoch\<close>

definition deletion_authority ::
  "coordinator_config \<Rightarrow> string \<Rightarrow> int \<Rightarrow> string \<Rightarrow> control_db \<Rightarrow> (retirement_row \<times> operation_row) list" where
  "deletion_authority C operationId fence token d =
     filter (\<lambda>(r, p). op_id p = rt_operation r \<and> rt_operation r = operationId \<and> holds_lease C fence (db_now d) p \<and>
       rt_fence r = fence \<and> rt_token r = Some token \<and> rt_state r = ''PHYSICAL_DELETE_PENDING'')
     (List.product (db_retirements d) (db_operations d))"

record deletion_resource =
  dr_kind :: string
  dr_namespace :: string
  dr_name :: string
  dr_uid :: string
  dr_resourceVersion :: string
  dr_absent :: bool

definition ROLES :: "string list" where
  "ROLES = [''workload'', ''service'', ''pvc'']"

definition require_resource :: "deletion_resource \<Rightarrow> unit result" where
  "require_resource v = requireR (List.member ROLES (dr_kind v) \<and> coordinator_uuid (dr_uid v) \<and>
     dr_resourceVersion v \<noteq> [] \<and> \<not> dr_absent v) ''invalid deletion plan resource''"

definition attempt_key :: "attempt_row \<Rightarrow> string \<times> int \<times> string \<times> string" where
  "attempt_key a = (da_operation a, da_fence a, da_token a, da_role a)"

definition attempts_ok :: "attempt_row list \<Rightarrow> bool" where
  "attempts_ok as \<longleftrightarrow> distinct (map da_id as) \<and> distinct (map attempt_key as)"

text \<open>
  \<open>ON CONFLICT(...) DO UPDATE SET updated_at=now()\<close>: a resource that is planned already keeps its row,
  also when its identity differs
\<close>

definition plan_resource :: "string \<Rightarrow> int \<Rightarrow> string \<Rightarrow> string \<Rightarrow> deletion_resource \<Rightarrow> unit db" where
  "plan_resource operationId fence token g v =
     thenA (liftA (require_resource v))
     (bindA randomUUID (\<lambda>u.
      bindA (select_rows db_attempts (\<lambda>a. attempt_key a = (operationId, fence, token, dr_kind v))) (\<lambda>there.
      if there \<noteq> [] then returnA ()
      else thenA (insert_row db_attempts db_attempts_update attempts_ok
        \<lparr>da_id = u, da_operation = operationId, da_generation = g, da_fence = fence, da_token = token, da_role = dr_kind v,
         da_namespace = dr_namespace v, da_name = dr_name v, da_uid = dr_uid v, da_resourceVersion = dr_resourceVersion v,
         da_state = ''PLANNED'', da_intentAt = None, da_acceptedAt = None, da_absentAt = None\<rparr>) (returnA ()))))"

definition cr_recordDeletionPlan ::
  "coordinator_config \<Rightarrow> string \<Rightarrow> int \<Rightarrow> string \<Rightarrow> deletion_resource list \<Rightarrow> unit db" where
  "cr_recordDeletionPlan C operationId fence token resources =
     thenA (liftA (require_uuid operationId)) (thenA (liftA (require_uuid token))
     (thenA (liftA (require_fence ''invalid deletion plan'' fence))
     (transactionA (bindA (readA (deletion_authority C operationId fence token)) (\<lambda>authority.
      bindA (one_row ''STALE_COORDINATOR_FENCE'' authority) (\<lambda>(r, p).
      forA resources (plan_resource operationId fence token (rt_generation r))))))))"

definition cr_assertDeletionAuthority :: "coordinator_config \<Rightarrow> string \<Rightarrow> int \<Rightarrow> string \<Rightarrow> bool db" where
  "cr_assertDeletionAuthority C operationId fence token =
     thenA (liftA (require_uuid operationId)) (thenA (liftA (require_uuid token))
     (bindA (readA (deletion_authority C operationId fence token)) (\<lambda>authority.
      thenA (ensureA (length authority = 1) ''STALE_COORDINATOR_FENCE'') (returnA True))))"

definition set_attempt_state :: "string \<Rightarrow> int \<Rightarrow> attempt_row \<Rightarrow> attempt_row" where
  "set_attempt_state to' now a = a\<lparr>da_state := to',
     da_intentAt := (if to' = ''DELETE_INTENT'' then Some now else da_intentAt a),
     da_acceptedAt := (if to' = ''DELETE_ACCEPTED'' then Some now else da_acceptedAt a),
     da_absentAt := (if to' = ''ABSENT_CONFIRMED'' then Some now else da_absentAt a)\<rparr>"

text \<open>\<open>#deleteAttemptState\<close>: no role or no uid stands for any\<close>

definition cr_deleteAttemptState ::
  "coordinator_config \<Rightarrow> string \<Rightarrow> int \<Rightarrow> string \<Rightarrow> string option \<Rightarrow> string option \<Rightarrow> string list \<Rightarrow> string \<Rightarrow> attempt_row list db" where
  "cr_deleteAttemptState C operationId fence token kind uid from' to' =
     thenA (liftA (require_uuid operationId)) (thenA (liftA (require_uuid token))
     (thenA (liftA (require_fence ''invalid deletion attempt'' fence))
     (bindA now_db (\<lambda>now.
      bindA (readA (\<lambda>d. list_ex (\<lambda>p. op_id p = operationId \<and> holds_lease C fence now p) (db_operations d))) (\<lambda>held.
      bindA (update_table db_attempts db_attempts_update attempts_ok
        (\<lambda>a. held \<and> da_operation a = operationId \<and> da_fence a = fence \<and> da_token a = token \<and> List.member from' (da_state a) \<and>
          (case kind of None \<Rightarrow> True | Some k \<Rightarrow> da_role a = k) \<and> (case uid of None \<Rightarrow> True | Some u \<Rightarrow> da_uid a = u))
        (set_attempt_state to' now)) (\<lambda>rows.
      thenA (ensureA (rows \<noteq> []) ''STALE_COORDINATOR_FENCE'') (returnA rows)))))))"

definition cr_markDeletionFence :: "coordinator_config \<Rightarrow> string \<Rightarrow> int \<Rightarrow> string \<Rightarrow> attempt_row list db" where
  "cr_markDeletionFence C operationId fence token =
     cr_deleteAttemptState C operationId fence token None None [''PLANNED'', ''FENCE_MARKED''] ''FENCE_MARKED''"

definition cr_recordDeletionAccepted :: "coordinator_config \<Rightarrow> string \<Rightarrow> int \<Rightarrow> string \<Rightarrow> string \<Rightarrow> string \<Rightarrow> attempt_row list db" where
  "cr_recordDeletionAccepted C operationId fence token kind uid =
     cr_deleteAttemptState C operationId fence token (Some kind) (Some uid) [''DELETE_INTENT'', ''DELETE_ACCEPTED''] ''DELETE_ACCEPTED''"

definition cr_recordAbsenceConfirmed :: "coordinator_config \<Rightarrow> string \<Rightarrow> int \<Rightarrow> string \<Rightarrow> string \<Rightarrow> string \<Rightarrow> attempt_row list db" where
  "cr_recordAbsenceConfirmed C operationId fence token kind uid =
     cr_deleteAttemptState C operationId fence token (Some kind) (Some uid) [''DELETE_ACCEPTED'', ''ABSENT_CONFIRMED''] ''ABSENT_CONFIRMED''"

definition require_deletion_record :: "string \<Rightarrow> int \<Rightarrow> string \<Rightarrow> string \<Rightarrow> string \<Rightarrow> string \<Rightarrow> unit result" where
  "require_deletion_record operationId fence token kind uid resourceVersion =
     bindR (require_uuid operationId) (\<lambda>_. bindR (require_uuid token) (\<lambda>_.
     requireR (1 \<le> fence \<and> List.member ROLES kind \<and> uid \<noteq> [] \<and> resourceVersion \<noteq> []) ''invalid deletion evidence''))"

definition cr_recordDeletionIntent ::
  "coordinator_config \<Rightarrow> string \<Rightarrow> int \<Rightarrow> string \<Rightarrow> string \<Rightarrow> string \<Rightarrow> string \<Rightarrow> attempt_row list db" where
  "cr_recordDeletionIntent C operationId fence token kind uid resourceVersion =
     thenA (liftA (require_deletion_record operationId fence token kind uid resourceVersion))
     (cr_deleteAttemptState C operationId fence token (Some kind) (Some uid) [''FENCE_MARKED'', ''DELETE_INTENT''] ''DELETE_INTENT'')"

definition cr_recordDeletionProgress :: "coordinator_config \<Rightarrow> string \<Rightarrow> int \<Rightarrow> string \<Rightarrow> string \<Rightarrow> string \<Rightarrow> attempt_row list db" where
  "cr_recordDeletionProgress C operationId fence token kind uid =
     thenA (liftA (require_deletion_record operationId fence token kind uid ''recorded''))
     (cr_recordAbsenceConfirmed C operationId fence token kind uid)"

text \<open>\<open>count(*)=3 AND bool_and(attempt_state='ABSENT_CONFIRMED')\<close>\<close>

definition all_absent :: "string \<Rightarrow> int \<Rightarrow> string \<Rightarrow> control_db \<Rightarrow> bool" where
  "all_absent operationId fence token d =
     (let as = filter (\<lambda>a. da_operation a = operationId \<and> da_fence a = fence \<and> da_token a = token) (db_attempts d)
      in length as = 3 \<and> list_all (\<lambda>a. da_state a = ''ABSENT_CONFIRMED'') as)"

definition cr_confirmPhysicalDeletion :: "coordinator_config \<Rightarrow> string \<Rightarrow> int \<Rightarrow> string \<Rightarrow> retirement_value db" where
  "cr_confirmPhysicalDeletion C operationId fence token =
     thenA (liftA (require_uuid operationId)) (thenA (liftA (require_uuid token))
     (thenA (liftA (require_fence ''invalid coordinator fence'' fence))
     (bindA now_db (\<lambda>now.
      bindA (readA (\<lambda>d. list_ex (\<lambda>p. op_id p = operationId \<and> holds_lease C fence now p) (db_operations d) \<and>
        all_absent operationId fence token d)) (\<lambda>confirmed.
      bindA (update_retirements (\<lambda>r. confirmed \<and> rt_operation r = operationId \<and> rt_fence r = fence \<and>
          rt_state r = ''PHYSICAL_DELETE_PENDING'' \<and> rt_token r = Some token)
        (\<lambda>r. r\<lparr>rt_state := ''PHYSICALLY_DELETED'', rt_deletedAt := Some now\<rparr>)) (\<lambda>rows.
      bindA (one_row ''PHYSICAL_DELETE_PARTIAL'' rows) (\<lambda>r. returnA (retirement_of r))))))))"

text \<open>Alone of the fenced writes, this one does not ask for an unexpired lease\<close>

definition cr_recordDeletionFailure :: "coordinator_config \<Rightarrow> string \<Rightarrow> int \<Rightarrow> string \<Rightarrow> string \<Rightarrow> retirement_value db" where
  "cr_recordDeletionFailure C operationId fence token errorCode =
     thenA (liftA (require_uuid operationId)) (thenA (liftA (require_uuid token))
     (thenA (ensureA (1 \<le> fence \<and> rx_test ERROR_CODE errorCode) ''invalid deletion failure'')
     (bindA (readA (\<lambda>d. list_ex (\<lambda>p. op_id p = operationId \<and> op_claimedBy p = Some (cf_ownerId C) \<and> op_fence p = fence)
        (db_operations d))) (\<lambda>held.
      bindA (update_retirements (\<lambda>r. held \<and> rt_operation r = operationId \<and> rt_state r = ''PHYSICAL_DELETE_PENDING'' \<and>
          rt_token r = Some token) (\<lambda>r. r\<lparr>rt_error := Some errorCode\<rparr>)) (\<lambda>rows.
      bindA (one_row ''RETIREMENT_FENCE_CONFLICT'' rows) (\<lambda>r. returnA (retirement_of r)))))))"

definition cr_finalizeRetirement :: "coordinator_config \<Rightarrow> string \<Rightarrow> int \<Rightarrow> retirement_value db" where
  "cr_finalizeRetirement C operationId fence =
     thenA (liftA (require_uuid operationId)) (thenA (liftA (require_fence ''invalid coordinator fence'' fence))
     (transactionA (bindA now_db (\<lambda>now.
      bindA (readA (\<lambda>d. filter (\<lambda>r. rt_operation r = operationId \<and>
        list_ex (\<lambda>p. op_id p = operationId \<and> holds_lease C fence now p) (db_operations d)) (db_retirements d))) (\<lambda>rows.
      bindA (one_row ''RETIREMENT_FENCE_CONFLICT'' rows) (\<lambda>journal.
      thenA (ensureA (rt_state journal = ''PHYSICALLY_DELETED'') ''RETIREMENT_FENCE_CONFLICT'')
      (thenA (update_generations (\<lambda>r. is_generation (rt_source journal) (rt_generation journal) r \<and>
          gr_protection r = ''RETIREMENT_IN_PROGRESS'') unprotect)
      (bindA (update_retirements (\<lambda>r. rt_id r = rt_id journal)
        (\<lambda>r. r\<lparr>rt_state := ''METADATA_FINALIZED'', rt_finalizedAt := Some now\<rparr>)) (\<lambda>updated.
       bindA (one_row ''TypeError'' updated) (\<lambda>r. returnA (retirement_of r)))))))))))"

end
