(* ===== verification/CoordinatorSafety.thy ===== *)
theory CoordinatorSafety
  imports CoordinatorRepository
begin

text \<open>
  What the durable operations of the coordinator promise: fences only grow, so a worker whose lease
  was taken over can write nothing more, and a generation is retired and deleted only while nothing
  serves it, returns to it or is about to.
\<close>

section \<open>The operations of the repository, as steps of many workers\<close>

text \<open>
  A step is one call of a method, by any worker, with any arguments; \<open>Time_passes\<close> is the clock of the
  server.  The calls that only read are not steps.
\<close>

datatype deletion_step = Mark_fence | Intent string string string | Accepted string string | Absence string string | Progress string string

text \<open>The four steps of an attempt, through the methods that make them\<close>

fun run_deletion :: "coordinator_config \<Rightarrow> string \<Rightarrow> int \<Rightarrow> string \<Rightarrow> deletion_step \<Rightarrow> attempt_row list db" where
  "run_deletion C i f t Mark_fence = cr_markDeletionFence C i f t"
| "run_deletion C i f t (Intent k u v) = cr_recordDeletionIntent C i f t k u v"
| "run_deletion C i f t (Accepted k u) = cr_recordDeletionAccepted C i f t k u"
| "run_deletion C i f t (Absence k u) = cr_recordAbsenceConfirmed C i f t k u"
| "run_deletion C i f t (Progress k u) = cr_recordDeletionProgress C i f t k u"

datatype repository_op =
    Request rebuild_request
  | Claim coordinator_config
  | Transition coordinator_config string int string string transition_fields
  | Ensure_generation operation
  | Set_generation_state string string string string "string option"
  | Prepare_promotion string string string string int
  | Cas_pointer string string
  | Mark_verified string
  | Finalize_promotion string
  | Release_protection release_request
  | Begin_retirement string string string
  | Retirement_transition string string string
  | Schedule_cleanup string string string string string
  | Reevaluate coordinator_config string int
  | Mark_retired coordinator_config string int
  | Authorize coordinator_config string int
  | Record_plan coordinator_config string int string "deletion_resource list"
  | Deletion coordinator_config string int string deletion_step
  | Confirm_deletion coordinator_config string int string
  | Record_failure coordinator_config string int string string
  | Finalize_retirement coordinator_config string int
  | Time_passes int

fun run_repository_op :: "repository_op \<Rightarrow> unit db" where
  "run_repository_op (Request v) = thenA (cr_request v) (returnA ())"
| "run_repository_op (Claim C) = thenA (cr_claimNext C) (returnA ())"
| "run_repository_op (Transition C i f a b v) = thenA (cr_transition C i f a b v) (returnA ())"
| "run_repository_op (Ensure_generation v) = thenA (cr_ensureGeneration v) (returnA ())"
| "run_repository_op (Set_generation_state s g a b e) = thenA (cr_setGenerationState s g a b e) (returnA ())"
| "run_repository_op (Prepare_promotion i s f t v) = thenA (cr_preparePromotion i s f t v) (returnA ())"
| "run_repository_op (Cas_pointer i q) = thenA (cr_casPointer i q) (returnA ())"
| "run_repository_op (Mark_verified i) = thenA (cr_markRouterVerified i) (returnA ())"
| "run_repository_op (Finalize_promotion i) = thenA (cr_finalizePromotion i) (returnA ())"
| "run_repository_op (Release_protection v) = thenA (cr_releaseRollbackProtection v) (returnA ())"
| "run_repository_op (Begin_retirement i s g) = thenA (cr_beginRetirement i s g) (returnA ())"
| "run_repository_op (Retirement_transition i a b) = thenA (cr_retirementTransition i a b) (returnA ())"
| "run_repository_op (Schedule_cleanup k s q g b) = thenA (cr_scheduleCleanup k s q g b) (returnA ())"
| "run_repository_op (Reevaluate C i f) = thenA (cr_reevaluatePendingRetirement C i f) (returnA ())"
| "run_repository_op (Mark_retired C i f) = thenA (cr_markGenerationRetired C i f) (returnA ())"
| "run_repository_op (Authorize C i f) = thenA (cr_authorizePhysicalDeletion C i f) (returnA ())"
| "run_repository_op (Record_plan C i f t rs) = cr_recordDeletionPlan C i f t rs"
| "run_repository_op (Deletion C i f t s) = thenA (run_deletion C i f t s) (returnA ())"
| "run_repository_op (Confirm_deletion C i f t) = thenA (cr_confirmPhysicalDeletion C i f t) (returnA ())"
| "run_repository_op (Record_failure C i f t e) = thenA (cr_recordDeletionFailure C i f t e) (returnA ())"
| "run_repository_op (Finalize_retirement C i f) = thenA (cr_finalizeRetirement C i f) (returnA ())"
| "run_repository_op (Time_passes n) = modifyA (\<lambda>d. d\<lparr>db_now := db_now d + n\<rparr>)"

definition run_repository :: "repository_op list \<Rightarrow> control_db \<Rightarrow> control_db" where
  "run_repository ops d = fold (\<lambda>op d. snd (run_repository_op op d)) ops d"

lemmas repository_methods = cr_request_def cr_claimNext_def cr_transition_def cr_ensureGeneration_def cr_setGenerationState_def
  cr_preparePromotion_def cr_casPointer_def cr_markRouterVerified_def cr_finalizePromotion_def
  cr_releaseRollbackProtection_def cr_beginRetirement_def cr_retirementTransition_def cr_scheduleCleanup_def
  cr_reevaluatePendingRetirement_def cr_markGenerationRetired_def cr_authorizePhysicalDeletion_def
  cr_recordDeletionPlan_def cr_confirmPhysicalDeletion_def
  cr_recordDeletionFailure_def cr_finalizeRetirement_def claimed_operation_def insert_promotion_checked_def

lemmas attempt_methods = cr_markDeletionFence_def cr_recordDeletionIntent_def cr_recordDeletionAccepted_def
  cr_recordDeletionProgress_def cr_recordAbsenceConfirmed_def

section \<open>Relations that every operation keeps\<close>

text \<open>
  A relation between database states that the statements of the methods keep is kept by the methods.
  The laws say what the statements may be relied on for: an operation keeps its identifier and its
  fence does not fall; a retirement keeps its identifier and its generation.
\<close>

locale repository_frame =
  fixes R :: "control_db \<Rightarrow> control_db \<Rightarrow> bool"
  assumes refl: "reflp R" and trans: "transp R"
    and operations: "\<And>P f. (\<And>r. op_id (f r) = op_id r) \<Longrightarrow> (\<And>r. op_fence r \<le> op_fence (f r)) \<Longrightarrow> moves R (update_operations P f)"
    and new_operations: "\<And>r. moves R (insert_operation r)"
    and retirements: "\<And>P f. (\<And>r. rt_id (f r) = rt_id r) \<Longrightarrow> (\<And>r. rt_source (f r) = rt_source r) \<Longrightarrow>
      (\<And>r. rt_generation (f r) = rt_generation r) \<Longrightarrow> moves R (update_retirements P f)"
    and new_retirements: "\<And>r. moves R (insert_retirement r)"
    and attempts: "\<And>C i f t s. moves R (run_deletion C i f t s)"
    and new_attempts: "\<And>i f t g v. moves R (plan_resource i f t g v)"
    and generations: "\<And>P f. moves R (update_generations P f)" "\<And>r. moves R (insert_generation r)"
    and pointers: "\<And>P f. moves R (update_pointers P f)"
    and promotions: "\<And>P f. moves R (update_promotions P f)" "\<And>r. moves R (insert_promotion r)"
    and releases: "\<And>r. moves R (insert_row db_releases db_releases_update releases_ok r)"
    and audits: "\<And>h. moves R (modifyA (\<lambda>d. d\<lparr>db_audits := h d\<rparr>))"
    and clock: "\<And>h. moves R (modifyA (\<lambda>d. d\<lparr>db_now := h d\<rparr>))"
    and draws: "moves R randomUUID"
begin

lemmas statements = operations new_operations retirements new_retirements attempts new_attempts generations
  pointers promotions releases audits clock draws

lemma reads:
  "moves R (select_rows g P)" "moves R now_db" "moves R (one_row e rs)" "moves R (returnA x)" "moves R (raiseA e')"
  "moves R (liftA q)" "moves R (readA h)"
  using refl by (auto simp: moves_def select_rows_def now_db_def one_row_def readA_def returnA_def raiseA_def liftA_def
      reflp_def split: list.splits)

lemma control:
  "moves R m \<Longrightarrow> (\<And>x. moves R (k x)) \<Longrightarrow> moves R (bindA m k)"
  "moves R m1 \<Longrightarrow> moves R n1 \<Longrightarrow> moves R (thenA m1 n1)"
  "moves R m2 \<Longrightarrow> moves R (transactionA m2)"
  "moves R m3 \<Longrightarrow> moves R n3 \<Longrightarrow> moves R (if b then m3 else n3)"
  "(\<And>x. moves R (body x)) \<Longrightarrow> moves R (forA xs body)"
  using refl trans by (auto intro!: moves_bindA moves_thenA moves_transactionA moves_forA)

lemma cases_intro:
  "moves R m0 \<Longrightarrow> (\<And>y ys. moves R (m1 y ys)) \<Longrightarrow> moves R (case xs of [] \<Rightarrow> m0 | y # ys \<Rightarrow> m1 y ys)"
  "moves R n0 \<Longrightarrow> (\<And>y. moves R (n1 y)) \<Longrightarrow> moves R (case v of None \<Rightarrow> n0 | Some y \<Rightarrow> n1 y)"
  "(\<And>a b. moves R (q a b)) \<Longrightarrow> moves R (case p of (a, b) \<Rightarrow> q a b)"
  by (auto split: list.splits option.splits prod.splits)

lemma step: "moves R (run_repository_op op)"
  by (cases op) (auto simp: repository_methods Let_def intro!: statements reads control cases_intro)

lemma steps: "R d (run_repository ops d)"
  unfolding run_repository_def
proof (induction ops arbitrary: d)
  case Nil
  then show ?case using refl by (simp add: reflp_def)
next
  case (Cons op ops)
  have "R d (snd (run_repository_op op d))" using step [of op] by (simp add: moves_def)
  with Cons [of "snd (run_repository_op op d)"] trans show ?case by (auto dest: transpD)
qed

end

lemmas statement_defs = moves_def update_table_def insert_row_def modifyA_def randomUUID_def bindA_def thenA_def readA_def returnA_def

text \<open>The tables that a step on deletion attempts leaves alone\<close>

lemma attempts_only:
  "keeps (\<lambda>d. (db_operations d, db_retirements d, db_now d)) (run_deletion C i f t s)"
  "keeps (\<lambda>d. (db_operations d, db_retirements d, db_now d)) (plan_resource i f t g v)"
  by (cases s; auto simp: keeps_def attempt_methods cr_deleteAttemptState_def plan_resource_def update_table_def
      insert_row_def randomUUID_def bindA_def thenA_def readA_def modifyA_def returnA_def liftA_def now_db_def
      select_rows_def split: sum.splits)+

section \<open>Fences only grow\<close>

text \<open>
  The keys stay unique, and every operation of \<open>d\<close> is still there in \<open>d'\<close>, with a fence that is not
  smaller
\<close>

definition fences_grow :: "control_db \<Rightarrow> control_db \<Rightarrow> bool" where
  "fences_grow d d' \<longleftrightarrow> (operations_ok (db_operations d) \<longrightarrow> operations_ok (db_operations d')) \<and> (\<forall>a \<in> set (db_operations d). \<exists>b \<in> set (db_operations d'). op_id b = op_id a \<and> op_fence a \<le> op_fence b)"

lemma fences_trans: "transp fences_grow"
  unfolding transp_def
proof (intro allI impI)
  fix x y z assume xy: "fences_grow x y" and yz: "fences_grow y z"
  have "\<exists>c \<in> set (db_operations z). op_id c = op_id a \<and> op_fence a \<le> op_fence c" if a: "a \<in> set (db_operations x)" for a
  proof -
    from xy a obtain b where b: "b \<in> set (db_operations y)" "op_id b = op_id a" "op_fence a \<le> op_fence b"
      unfolding fences_grow_def by blast
    from yz b(1) obtain c where "c \<in> set (db_operations z)" "op_id c = op_id b" "op_fence b \<le> op_fence c"
      unfolding fences_grow_def by blast
    with b show ?thesis by (intro bexI [of _ c]) auto
  qed
  with xy yz show "fences_grow x z" unfolding fences_grow_def by blast
qed

lemma fences_same: "db_operations d' = db_operations d \<Longrightarrow> fences_grow d d'"
  by (auto simp: fences_grow_def)

lemma fences_update_operations:
  assumes "\<And>r. op_id (f r) = op_id r" "\<And>r. op_fence r \<le> op_fence (f r)"
  shows "moves fences_grow (update_operations P f)"
proof -
  have "\<exists>b \<in> set (update_rows P f rs). op_id b = op_id a \<and> op_fence a \<le> op_fence b"
    if "a \<in> set rs" for a :: operation_row and rs
    using that assms by (cases "P a") (auto intro: bexI [of _ "f a"] bexI [of _ a])
  then show ?thesis by (auto simp: moves_def update_table_def fences_grow_def)
qed

interpretation fences: repository_frame fences_grow
proof
  show "reflp fences_grow" by (auto simp: reflp_def fences_grow_def)
  show "moves fences_grow (update_operations P f)"
    if "\<And>r. op_id (f r) = op_id r" "\<And>r. op_fence r \<le> op_fence (f r)" for P f
    using that by (rule fences_update_operations)
  show "moves fences_grow (run_deletion C i f t s)" "moves fences_grow (plan_resource i f t g v)" for C i f t s g v
    using attempts_only by (auto simp: moves_def keeps_def intro!: fences_same)
qed (auto simp: statement_defs fences_grow_def intro: fences_trans)

section \<open>Stale workers\<close>

text \<open>The operation and the fence a write is conditional on\<close>

fun fenced_by :: "repository_op \<Rightarrow> (string \<times> int) option" where
  "fenced_by (Transition C i f a b v) = Some (i, f)"
| "fenced_by (Reevaluate C i f) = Some (i, f)"
| "fenced_by (Mark_retired C i f) = Some (i, f)"
| "fenced_by (Authorize C i f) = Some (i, f)"
| "fenced_by (Record_plan C i f t rs) = Some (i, f)"
| "fenced_by (Deletion C i f t s) = Some (i, f)"
| "fenced_by (Confirm_deletion C i f t) = Some (i, f)"
| "fenced_by (Record_failure C i f t e) = Some (i, f)"
| "fenced_by (Finalize_retirement C i f) = Some (i, f)"
| "fenced_by _ = None"

lemma update_none:
  assumes "\<forall>r \<in> set (get' d). \<not> P r" "put (\<lambda>_. get' d) d = d"
  shows "update_table get' put ok P f d = (if ok (get' d) then Inr [] else Inl CONSTRAINT_VIOLATION, d)"
  using assms by (simp add: update_table_def update_rows_id)

lemma same_table [simp]:
  "d\<lparr>db_operations := db_operations d\<rparr> = d" "d\<lparr>db_retirements := db_retirements d\<rparr> = d" "d\<lparr>db_attempts := db_attempts d\<rparr> = d"
  by (cases d; simp)+

definition refuses :: "control_db \<Rightarrow> 'a db \<Rightarrow> bool" where
  "refuses d m \<longleftrightarrow> (\<exists>e. m d = (Inl e, d))"

lemma refuses_guard: "refuses d m \<Longrightarrow> refuses d (thenA (liftA r) m)" "(\<And>x. refuses d (k x)) \<Longrightarrow> refuses d (bindA (liftA r) k)"
  by (auto simp: refuses_def thenA_def bindA_def liftA_def split: sum.split)

lemma refuses_read: "refuses d (k (h d)) \<Longrightarrow> refuses d (bindA (readA h) k)" "refuses d (k' (db_now d)) \<Longrightarrow> refuses d (bindA now_db k')"
  by (auto simp: refuses_def bindA_def readA_def now_db_def)

lemma refuses_transaction: "refuses d m \<Longrightarrow> refuses d (transactionA m)"
  by (auto simp: refuses_def transactionA_def)

lemma refuses_first: "refuses d m \<Longrightarrow> refuses d (bindA m k)" "refuses d m \<Longrightarrow> refuses d (thenA m n)"
  by (auto simp: refuses_def bindA_def thenA_def)

lemma refuses_update:
  assumes "\<forall>r \<in> set (get' d). \<not> P r" "put (\<lambda>_. get' d) d = d" "refuses d (k [])"
  shows "refuses d (bindA (update_table get' put ok P f) k)"
  using assms update_none [of get' d P put ok f] by (auto simp: refuses_def bindA_def)

lemma refuses_empty: "refuses d (bindA (one_row e []) k)" "refuses d (thenA (ensureA False e) m)"
  "refuses d (thenA (liftA (Inl e)) m)"
  by (auto simp: refuses_def bindA_def thenA_def one_row_def raiseA_def liftA_def)

lemma refuses_claimed:
  assumes "\<forall>p \<in> set (db_operations d). op_id p = i \<longrightarrow> op_fence p \<noteq> f"
  shows "refuses d (claimed_operation C i f state)"
proof -
  have "filter (\<lambda>r. op_id r = i \<and> holds_lease C f (db_now d) r \<and> op_state r = state) (db_operations d) = []"
    using assms by (auto simp: filter_empty_conv holds_lease_def)
  then show ?thesis
    by (simp add: claimed_operation_def refuses_def bindA_def now_db_def readA_def select_rows_def one_row_def raiseA_def)
qed

lemma lost_lease:
  assumes "\<forall>p \<in> set (db_operations d). op_id p = i \<longrightarrow> op_fence p \<noteq> f"
  shows "\<not> list_ex (\<lambda>p. op_id p = i \<and> holds_lease C f n p) (db_operations d)"
    "\<not> list_ex (\<lambda>p. op_id p = i \<and> op_claimedBy p = x \<and> op_fence p = f) (db_operations d)"
    "deletion_authority C i f t d = []"
  using assms by (auto simp: list_ex_iff holds_lease_def deletion_authority_def filter_empty_conv)

lemma stale_methods:
  assumes stale: "\<forall>p \<in> set (db_operations d). op_id p = i \<longrightarrow> op_fence p \<noteq> f"
  shows "refuses d (cr_transition C i f a b v)" "refuses d (cr_reevaluatePendingRetirement C i f)"
    "refuses d (cr_markGenerationRetired C i f)" "refuses d (cr_authorizePhysicalDeletion C i f)"
    "refuses d (cr_recordDeletionPlan C i f t rs)" "refuses d (cr_deleteAttemptState C i f t k u xs y)"
    "refuses d (cr_confirmPhysicalDeletion C i f t)" "refuses d (cr_recordDeletionFailure C i f t e)"
    "refuses d (cr_finalizeRetirement C i f)"
proof -
  note lost = lost_lease [OF stale]
  note claimed = refuses_first(1) [OF refuses_claimed [OF stale]]
  show "refuses d (cr_transition C i f a b v)"
    unfolding cr_transition_def
    by (intro refuses_guard refuses_read refuses_update) (use stale in \<open>auto simp: holds_lease_def intro: refuses_empty\<close>)
  show "refuses d (cr_reevaluatePendingRetirement C i f)"
    unfolding cr_reevaluatePendingRetirement_def by (intro refuses_guard refuses_transaction refuses_read claimed)
  show "refuses d (cr_markGenerationRetired C i f)"
    unfolding cr_markGenerationRetired_def by (intro refuses_guard refuses_transaction refuses_read claimed)
  show "refuses d (cr_authorizePhysicalDeletion C i f)"
    unfolding cr_authorizePhysicalDeletion_def by (intro refuses_guard refuses_transaction refuses_read claimed)
  show "refuses d (cr_recordDeletionPlan C i f t rs)"
    unfolding cr_recordDeletionPlan_def
    by (intro refuses_guard refuses_transaction refuses_read) (simp add: lost refuses_empty)
  show "refuses d (cr_deleteAttemptState C i f t k u xs y)"
    unfolding cr_deleteAttemptState_def
    by ((rule refuses_guard refuses_read)+, rule refuses_update) (auto simp: lost intro: refuses_empty)
  show "refuses d (cr_confirmPhysicalDeletion C i f t)"
    unfolding cr_confirmPhysicalDeletion_def
    by (intro refuses_guard refuses_read refuses_update) (auto simp: lost intro: refuses_empty)
  show "refuses d (cr_recordDeletionFailure C i f t e)"
    unfolding cr_recordDeletionFailure_def
    by (intro refuses_guard refuses_read refuses_update) (auto simp: lost intro: refuses_empty)
  show "refuses d (cr_finalizeRetirement C i f)"
    unfolding cr_finalizeRetirement_def
    by (intro refuses_guard refuses_transaction refuses_read) (simp add: lost refuses_empty)
qed

lemma stale_deletion:
  assumes "\<forall>p \<in> set (db_operations d). op_id p = i \<longrightarrow> op_fence p \<noteq> f"
  shows "refuses d (run_deletion C i f t s)"
  by (cases s) (auto simp: attempt_methods intro!: refuses_guard stale_methods [OF assms])

lemma stale_refused:
  assumes "\<forall>p \<in> set (db_operations d). op_id p = i \<longrightarrow> op_fence p \<noteq> f" "fenced_by op = Some (i, f)"
  shows "refuses d (run_repository_op op)"
  using assms(2) by (cases op) (auto intro: stale_methods [OF assms(1)] refuses_first(2) [OF stale_methods(1) [OF assms(1)]]
    refuses_first(2) [OF stale_methods(2) [OF assms(1)]] refuses_first(2) [OF stale_methods(3) [OF assms(1)]]
    refuses_first(2) [OF stale_methods(4) [OF assms(1)]] refuses_first(2) [OF stale_deletion [OF assms(1)]]
    refuses_first(2) [OF stale_methods(7) [OF assms(1)]] refuses_first(2) [OF stale_methods(8) [OF assms(1)]]
    refuses_first(2) [OF stale_methods(9) [OF assms(1)]])

lemma claim_row:
  assumes "operations_ok (db_operations d)" "cr_claimNext B d = (Inr (Some v), d1)"
  shows "operations_ok (db_operations d1)" "\<exists>b \<in> set (db_operations d1). op_id b = o_id v \<and> op_fence b = o_fence v"
    "\<exists>a \<in> set (db_operations d). op_id a = o_id v \<and> o_fence v = op_fence a + 1 \<and> claimable (db_now d) a"
proof -
  let ?rows = "filter (claimable (db_now d)) (db_operations d)"
  from assms(2) obtain s rest where s: "sort_key (\<lambda>r. (op_createdAt r, op_id r)) ?rows = s # rest"
    unfolding cr_claimNext_def by (auto simp: db_Inr split: list.splits)
  let ?f = "\<lambda>r. r\<lparr>op_claimedBy := Some (cf_ownerId B), op_ownerPod := cf_ownerPodUid B,
             op_lease := Some (db_now d + cf_leaseMs B), op_fence := op_fence r + 1\<rparr>"
  have "s \<in> set ?rows" using s by (metis list.set_intros(1) set_sort)
  then have sd: "s \<in> set (db_operations d)" "claimable (db_now d) s" by simp_all
  have dist: "distinct (map op_id (db_operations d))" using assms(1) by (simp add: operations_ok_def)
  have only: "filter (\<lambda>r. op_id r = op_id s) (db_operations d) = [s]"
    using distinct_key_filter [OF dist sd(1) refl] .
  have v: "v = operation_of (?f s)" and d1: "d1 = db_operations_update (\<lambda>_. update_rows (\<lambda>r. op_id r = op_id s) ?f (db_operations d)) d"
    and ok: "operations_ok (update_rows (\<lambda>r. op_id r = op_id s) ?f (db_operations d))"
    using assms(2) s only unfolding cr_claimNext_def by (auto simp: db_Inr)
  show "operations_ok (db_operations d1)" using ok d1 by simp
  show "\<exists>b \<in> set (db_operations d1). op_id b = o_id v \<and> op_fence b = o_fence v"
    using sd(1) by (intro bexI [of _ "?f s"]) (auto simp: v d1 operation_of_def)
  show "\<exists>a \<in> set (db_operations d). op_id a = o_id v \<and> o_fence v = op_fence a + 1 \<and> claimable (db_now d) a"
    using sd by (intro bexI [of _ s]) (auto simp: v operation_of_def)
qed

section \<open>Properties\<close>

text \<open>C22: a worker that lost its operation can do no harm: once an operation has been claimed, every write
  that is conditional on an older fence fails and changes nothing, whatever any worker has done in
  between and however much time has passed.\<close>

theorem stale_worker_refused:
  assumes "operations_ok (db_operations d)" "cr_claimNext B d = (Inr (Some v), d1)"
    "fenced_by op = Some (o_id v, f)" "f < o_fence v"
  shows "\<exists>e. run_repository_op op (run_repository ops d1) =
    (Inl e, run_repository ops d1)"
proof -
  let ?d = "run_repository ops d1"
  note c = claim_row [OF assms(1,2)]
  have g: "fences_grow d1 ?d" by (rule fences.steps)
  with c(1) have ok: "operations_ok (db_operations ?d)" by (simp add: fences_grow_def)
  from c(2) g obtain b where b: "b \<in> set (db_operations ?d)" "op_id b = o_id v" "o_fence v \<le> op_fence b"
    unfolding fences_grow_def by metis
  have "op_fence p \<noteq> f" if "p \<in> set (db_operations ?d)" "op_id p = o_id v" for p
  proof -
    have "distinct (map op_id (db_operations ?d))" using ok by (simp add: operations_ok_def)
    then have "inj_on op_id (set (db_operations ?d))" by (simp add: distinct_map)
    with that b have "p = b" by (metis inj_onD)
    with b assms(4) show ?thesis by simp
  qed
  with stale_refused [of ?d "o_id v" f op] assms(3) show ?thesis by (simp add: refuses_def)
qed

section \<open>A run\<close>

definition worker :: coordinator_config where
  "worker = \<lparr>cf_ownerId = ''00000000-0000-4000-8000-00000000000a'', cf_ownerPodUid = None, cf_leaseMs = 15000\<rparr>"

definition op_uuid :: string where "op_uuid = ''00000000-0000-4000-8000-000000000001''"
definition token_uuid :: string where "token_uuid = ''00000000-0000-4000-8000-0000000000ff''"

text \<open>Generation \<open>gen-b\<close> serves, \<open>gen-a\<close> is retired, and its cleanup waits for a worker\<close>

definition cleanup_db :: control_db where
  "cleanup_db = empty_db\<lparr>db_now := 1000,
     db_uuid := (\<lambda>n. if n = 0 then token_uuid else ''00000000-0000-4000-8000-0000000001'' @ show_nat (10 + n)),
     db_generations := [(demo_generation ''gen-a'' ''RETIRED'' ''RETIREMENT_IN_PROGRESS'')\<lparr>gr_version := 3\<rparr>,
       demo_generation ''gen-b'' ''SERVING'' ''SERVING''],
     db_pointers := [(demo_pointer ''q'')\<lparr>pt_generation := ''gen-b'', pt_previous := None, pt_version := 5\<rparr>],
     db_operations := [(cleanup_operation op_uuid (cleanup_request ''cleanup-1'' ''jwb'' ''q'' ''gen-a'' ''oxigraph'') (Some 5) 0)\<lparr>op_state := ''CLEANING_UP''\<rparr>],
     db_retirements := [(new_retirement ''r1'' op_uuid ''jwb'' ''gen-a'' [])\<lparr>rt_state := ''LOGICALLY_RETIRED'',
       rt_expectedPointer := Some 5, rt_expectedVersion := Some 3\<rparr>]\<rparr>"

definition rival :: coordinator_config where
  "rival = worker\<lparr>cf_ownerId := ''00000000-0000-4000-8000-00000000000b''\<rparr>"

text \<open>The lease of the first worker runs out, another worker claims the operation\<close>

theorem stale_worker_refused_witness:
  "\<exists>e. run_repository_op (Authorize worker op_uuid 1)
      (run_repository [] (snd (cr_claimNext rival (run_repository [Claim worker, Time_passes 20000] cleanup_db)))) =
    (Inl e, run_repository [] (snd (cr_claimNext rival (run_repository [Claim worker, Time_passes 20000] cleanup_db))))"
proof -
  let ?d = "run_repository [Claim worker, Time_passes 20000] cleanup_db"
  have ok: "operations_ok (db_operations ?d)" by code_simp
  have c: "(case fst (cr_claimNext rival ?d) of Inr (Some v) \<Rightarrow> o_id v = op_uuid \<and> o_fence v = 2 | _ \<Rightarrow> False)" by code_simp
  then obtain v where v: "cr_claimNext rival ?d = (Inr (Some v), snd (cr_claimNext rival ?d))" "o_id v = op_uuid" "o_fence v = 2"
    by (cases "cr_claimNext rival ?d") (auto split: sum.splits option.splits)
  show ?thesis by (rule stale_worker_refused [OF ok v(1), of "Authorize worker op_uuid 1" 1 "[]"]) (simp_all add: v)
qed

end
