(* ===== verification/CoordinatorDeletion.thy ===== *)
theory CoordinatorDeletion
  imports CoordinatorSafety
begin

text \<open>
  Retirement and physical deletion of generations: what a deletion attempt has on record, when the
  authority to delete is given, and what becomes of the generation that a promotion replaces.
\<close>

section \<open>Deletion attempts\<close>

text \<open>What an attempt in a state has behind it\<close>

definition recorded :: "attempt_row \<Rightarrow> bool" where
  "recorded a \<longleftrightarrow> List.member ROLES (da_role a) \<and>
     (List.member [''DELETE_INTENT'', ''DELETE_ACCEPTED'', ''ABSENT_CONFIRMED''] (da_state a) \<longrightarrow> da_intentAt a \<noteq> None) \<and>
     (List.member [''DELETE_ACCEPTED'', ''ABSENT_CONFIRMED''] (da_state a) \<longrightarrow> da_acceptedAt a \<noteq> None) \<and>
     (da_state a = ''ABSENT_CONFIRMED'' \<longrightarrow> da_absentAt a \<noteq> None)"

definition attempts_recorded :: "control_db \<Rightarrow> bool" where
  "attempts_recorded d \<longleftrightarrow> attempts_ok (db_attempts d) \<and> list_all recorded (db_attempts d)"

lemma recorded_step:
  "recorded a \<Longrightarrow> recorded (set_attempt_state ''FENCE_MARKED'' n a)"
  "recorded a \<Longrightarrow> recorded (set_attempt_state ''DELETE_INTENT'' n a)"
  "recorded a \<Longrightarrow> List.member [''DELETE_INTENT'', ''DELETE_ACCEPTED''] (da_state a) \<Longrightarrow>
     recorded (set_attempt_state ''DELETE_ACCEPTED'' n a)"
  "recorded a \<Longrightarrow> List.member [''DELETE_ACCEPTED'', ''ABSENT_CONFIRMED''] (da_state a) \<Longrightarrow>
     recorded (set_attempt_state ''ABSENT_CONFIRMED'' n a)"
  by (auto simp: recorded_def set_attempt_state_def)

lemma attempt_state_moves:
  assumes "\<And>a n. recorded a \<Longrightarrow> List.member from' (da_state a) \<Longrightarrow> recorded (set_attempt_state to' n a)"
  shows "moves (\<lambda>d d'. attempts_recorded d \<longrightarrow> attempts_recorded d') (cr_deleteAttemptState C i f t kind uid from' to')"
proof (rule movesI, rule impI)
  fix d r d' assume *: "cr_deleteAttemptState C i f t kind uid from' to' d = (r, d')" "attempts_recorded d"
  let ?held = "list_ex (\<lambda>p. op_id p = i \<and> holds_lease C f (db_now d) p) (db_operations d)"
  let ?P = "\<lambda>a. ?held \<and> da_operation a = i \<and> da_fence a = f \<and> da_token a = t \<and> List.member from' (da_state a) \<and>
    (case kind of None \<Rightarrow> True | Some k \<Rightarrow> da_role a = k) \<and> (case uid of None \<Rightarrow> True | Some u \<Rightarrow> da_uid a = u)"
  let ?as = "update_rows ?P (set_attempt_state to' (db_now d)) (db_attempts d)"
  have "db_attempts d' = db_attempts d \<or> attempts_ok ?as \<and> db_attempts d' = ?as"
    using *(1) by (auto simp: cr_deleteAttemptState_def thenA_def bindA_def liftA_def now_db_def readA_def update_table_def
        requireR_def returnA_def split: sum.splits if_splits)
  moreover have "list_all recorded ?as" using *(2) assms by (auto simp: attempts_recorded_def list_all_iff)
  ultimately show "attempts_recorded d'" using *(2) by (auto simp: attempts_recorded_def)
qed

lemma guard_moves: "reflp R \<Longrightarrow> moves R m \<Longrightarrow> moves R (thenA (liftA r) m)"
  by (auto simp: moves_def thenA_def bindA_def liftA_def reflp_def split: sum.splits)

lemma deletion_recorded: "moves (\<lambda>d d'. attempts_recorded d \<longrightarrow> attempts_recorded d') (run_deletion C i f t s)"
  by (cases s) (auto simp: attempt_methods reflp_def intro!: guard_moves attempt_state_moves recorded_step)

lemma plan_recorded: "moves (\<lambda>d d'. attempts_recorded d \<longrightarrow> attempts_recorded d') (plan_resource i f t g v)"
proof (rule movesI, rule impI)
  fix d r d' assume *: "plan_resource i f t g v d = (r, d')" "attempts_recorded d"
  have "db_attempts d' = db_attempts d \<or> (\<exists>x. attempts_ok (db_attempts d @ [x]) \<and> recorded x \<and> db_attempts d' = db_attempts d @ [x])"
    using *(1) by (auto simp: plan_resource_def thenA_def bindA_def liftA_def require_resource_def requireR_def randomUUID_def
        readA_def modifyA_def returnA_def select_rows_def insert_row_def recorded_def split: if_splits)
  with *(2) show "attempts_recorded d'" by (auto simp: attempts_recorded_def)
qed

interpretation attempts: repository_frame "\<lambda>d d'. attempts_recorded d \<longrightarrow> attempts_recorded d'"
proof
  show "moves (\<lambda>d d'. attempts_recorded d \<longrightarrow> attempts_recorded d') (run_deletion C i f t s)" for C i f t s
    by (rule deletion_recorded)
  show "moves (\<lambda>d d'. attempts_recorded d \<longrightarrow> attempts_recorded d') (plan_resource i f t g v)" for i f t g v
    by (rule plan_recorded)
qed (auto simp: statement_defs attempts_recorded_def reflp_def transp_def)

text \<open>Three attempts of one deletion are one for each role\<close>

lemma three_roles:
  assumes "attempts_recorded d" "all_absent i f t d"
  shows "\<forall>role \<in> set ROLES. \<exists>a \<in> set (db_attempts d). da_operation a = i \<and> da_fence a = f \<and> da_token a = t \<and>
    da_role a = role \<and> da_state a = ''ABSENT_CONFIRMED''"
proof -
  let ?P = "\<lambda>a. da_operation a = i \<and> da_fence a = f \<and> da_token a = t"
  let ?as = "filter ?P (db_attempts d)"
  have as: "length ?as = 3" "list_all (\<lambda>a. da_state a = ''ABSENT_CONFIRMED'') ?as"
    using assms(2) by (simp_all add: all_absent_def Let_def)
  have "distinct (map attempt_key ?as)"
    using assms(1) by (simp add: attempts_recorded_def attempts_ok_def distinct_map_filter)
  then have inj: "inj_on attempt_key (set ?as)" "distinct ?as" by (simp_all add: distinct_map)
  have "inj_on da_role (set ?as)"
  proof (rule inj_onI)
    fix a b assume "a \<in> set ?as" "b \<in> set ?as" "da_role a = da_role b"
    then show "a = b" using inj_onD [OF inj(1), of a b] by (simp add: attempt_key_def)
  qed
  then have "card (da_role ` set ?as) = card (set ?as)" by (rule card_image)
  also have "\<dots> = 3" unfolding distinct_card [OF inj(2)] by (rule as(1))
  finally have "card (da_role ` set ?as) = 3" .
  moreover have "da_role ` set ?as \<subseteq> set ROLES"
    using assms(1) by (auto simp: attempts_recorded_def list_all_iff recorded_def)
  moreover have "card (set ROLES) = 3" by (simp add: ROLES_def)
  ultimately have "da_role ` set ?as = set ROLES" by (metis card_subset_eq List.finite_set)
  show ?thesis
  proof
    fix role assume "role \<in> set ROLES"
    with \<open>da_role ` set ?as = set ROLES\<close> have "role \<in> da_role ` set ?as" by (simp only:)
    then obtain a where a: "role = da_role a" "a \<in> set ?as" by (rule imageE)
    from a(2) as(2) have "da_state a = ''ABSENT_CONFIRMED''" unfolding list_all_iff by blast
    with a show "\<exists>a \<in> set (db_attempts d). da_operation a = i \<and> da_fence a = f \<and> da_token a = t \<and>
        da_role a = role \<and> da_state a = ''ABSENT_CONFIRMED''"
      by (intro bexI [of _ a]) simp_all
  qed
qed

section \<open>Retirement rows stay\<close>

definition retirements_kept :: "control_db \<Rightarrow> control_db \<Rightarrow> bool" where
  "retirements_kept d d' \<longleftrightarrow> (\<lambda>r. (rt_source r, rt_generation r)) ` set (db_retirements d) \<subseteq>
     (\<lambda>r. (rt_source r, rt_generation r)) ` set (db_retirements d')"

lemma kept_same: "db_retirements d' = db_retirements d \<Longrightarrow> retirements_kept d d'"
  by (simp add: retirements_kept_def)

lemma kept_update:
  assumes "\<And>r. rt_source (f r) = rt_source r" "\<And>r. rt_generation (f r) = rt_generation r"
  shows "moves retirements_kept (update_retirements P f)"
proof -
  have "(\<lambda>r. (rt_source r, rt_generation r)) ` set (update_rows P f rs) = (\<lambda>r. (rt_source r, rt_generation r)) ` set rs" for rs
    using arg_cong [OF map_update_rows [of "\<lambda>r. (rt_source r, rt_generation r)" f P rs], of set] assms by simp
  then show ?thesis by (simp add: moves_def update_table_def retirements_kept_def del: set_update_rows)
qed

interpretation retirement: repository_frame retirements_kept
proof
  show "reflp retirements_kept" "transp retirements_kept"
    unfolding reflp_def transp_def retirements_kept_def by (blast, meson subset_trans)
  show "moves retirements_kept (update_retirements P f)"
    if "\<And>r. rt_source (f r) = rt_source r" "\<And>r. rt_generation (f r) = rt_generation r" for P f
    using that by (rule kept_update)
  show "moves retirements_kept (run_deletion C i f t s)" "moves retirements_kept (plan_resource i f t g v)" for C i f t s g v
    using attempts_only by (auto simp: moves_def keeps_def intro!: kept_same)
qed (auto simp: statement_defs retirements_kept_def)

lemma begun_retirement:
  "cr_beginRetirement i source g d = (Inr v, d') \<Longrightarrow> \<exists>r \<in> set (db_retirements d'). rt_source r = source \<and> rt_generation r = g"
  unfolding cr_beginRetirement_def
  by (auto simp: db_Inr new_retirement_def filter_eq_Cons_iff split: list.splits)

lemma schedule_refused:
  assumes "\<exists>r \<in> set (db_retirements d). rt_source r = source \<and> rt_generation r = g" "\<forall>r \<in> set (db_operations d). op_key r \<noteq> key"
  shows "\<exists>e. cr_scheduleCleanup key source q g b d = (Inl e, d)"
proof (cases "cr_scheduleCleanup key source q g b d")
  case (Pair r d')
  show ?thesis
  proof (cases r)
    case (Inl e)
    with Pair show ?thesis
      by (auto simp: cr_scheduleCleanup_def thenA_def bindA_def liftA_def dest: transactionA_error split: sum.splits)
  next
    case (Inr v)
    have none: "filter (\<lambda>r. op_key r = key) (db_operations d) = []" using assms(2) by (simp add: filter_empty_conv)
    from Pair Inr obtain rr where "retirements_ok (db_retirements d @ [rr])" "rt_source rr = source" "rt_generation rr = g"
      unfolding cr_scheduleCleanup_def
      by (auto simp: db_Inr none new_retirement_def)
    moreover have "(source, g) \<in> (\<lambda>r. (rt_source r, rt_generation r)) ` set (db_retirements d)"
      using assms(1) by force
    ultimately show ?thesis by (auto simp: retirements_ok_def)
  qed
qed

section \<open>Properties\<close>

text \<open>C25: a deletion is confirmed only when it is complete: starting without deletion attempts, whatever the
  workers have done since, a confirmation that succeeds finds the workload, the service and the volume
  claim each with its own attempt of this operation, fence and token, and each of the three has its
  intent, its acceptance and its absence on record.\<close>

theorem confirmed_deletion_complete:
  assumes "db_attempts d = []" "cr_confirmPhysicalDeletion C i f t (run_repository ops d) = (Inr v, d')"
  shows "\<forall>role \<in> set ROLES. \<exists>a \<in> set (db_attempts (run_repository ops d)).
    da_operation a = i \<and> da_fence a = f \<and> da_token a = t \<and> da_role a = role \<and> da_state a = ''ABSENT_CONFIRMED'' \<and>
    da_intentAt a \<noteq> None \<and> da_acceptedAt a \<noteq> None \<and> da_absentAt a \<noteq> None"
proof -
  have rec: "attempts_recorded (run_repository ops d)"
    using attempts.steps [of d ops] assms(1) by (simp add: attempts_recorded_def attempts_ok_def)
  have "all_absent i f t (run_repository ops d)"
    using assms(2) unfolding cr_confirmPhysicalDeletion_def
    by (auto simp: db_Inr map_eq_Cons_conv filter_eq_Cons_iff)
  from three_roles [OF rec this] rec show ?thesis
    unfolding attempts_recorded_def list_all_iff recorded_def by fastforce
qed

text \<open>A generation that a promotion has replaced can never be cleaned up: once the promotion has begun
  its retirement, every later request to schedule its cleanup under a new key fails and changes
  nothing, whatever the workers have done in between.\<close>

theorem replaced_generation_never_cleaned:
  assumes "cr_beginRetirement i source g d = (Inr v, d1)"
    "\<forall>r \<in> set (db_operations (run_repository ops d1)). op_key r \<noteq> key"
  shows "\<exists>e. cr_scheduleCleanup key source q g b (run_repository ops d1) = (Inl e, run_repository ops d1)"
proof (rule schedule_refused [OF _ assms(2)])
  obtain r where "r \<in> set (db_retirements d1)" "rt_source r = source" "rt_generation r = g"
    using begun_retirement [OF assms(1)] by blast
  then have "(source, g) \<in> (\<lambda>r. (rt_source r, rt_generation r)) ` set (db_retirements d1)" by force
  with retirement.steps [of d1 ops] have "(source, g) \<in> (\<lambda>r. (rt_source r, rt_generation r)) ` set (db_retirements (run_repository ops d1))"
    unfolding retirements_kept_def by blast
  then show "\<exists>r \<in> set (db_retirements (run_repository ops d1)). rt_source r = source \<and> rt_generation r = g" by force
qed

text \<open>The rows an eligible generation is judged by\<close>

lemma eligible_unused:
  assumes "el_eligible (evaluateEligibility source q g (Some i) d)"
  shows "\<exists>r \<in> set (db_generations d). gr_source r = source \<and> gr_id r = g \<and>
      List.member [''RETIRING'', ''RETIRED'', ''FAILED''] (gr_state r) \<and>
      \<not> List.member [''ROLLBACK'', ''SERVING'', ''PROMOTION_IN_PROGRESS''] (gr_protection r)"
    "\<forall>p \<in> set (db_pointers d). pt_query p = q \<and> pt_source p = source \<longrightarrow> pt_generation p \<noteq> g \<and> pt_previous p \<noteq> Some g"
    "\<forall>p \<in> set (db_promotions d). \<not> involves source g p"
    "\<forall>x \<in> set (db_operations d). op_source x = source \<and> op_candidate x = g \<and> List.member ACTIVE (op_state x) \<longrightarrow> op_id x = i"
proof -
  obtain p r where p: "filter (\<lambda>p. pt_query p = q \<and> pt_source p = source) (db_pointers d) = [p]"
    and r: "filter (is_generation source g) (db_generations d) = [r]"
    using assms unfolding evaluateEligibility_def el_eligible_def
    by (auto simp: Let_def split: list.splits if_splits)
  note e = assms [unfolded evaluateEligibility_def Let_def p r el_eligible_def, simplified]
  have "r \<in> set (filter (is_generation source g) (db_generations d))" by (simp add: r)
  then have r1: "r \<in> set (db_generations d)" "gr_source r = source" "gr_id r = g" by (auto simp: is_generation_def)
  show "\<exists>r \<in> set (db_generations d). gr_source r = source \<and> gr_id r = g \<and>
      List.member [''RETIRING'', ''RETIRED'', ''FAILED''] (gr_state r) \<and>
      \<not> List.member [''ROLLBACK'', ''SERVING'', ''PROMOTION_IN_PROGRESS''] (gr_protection r)"
    using e r1 by (intro bexI [of _ r]) (auto simp: protection_reasons_def split: if_splits)
  show "\<forall>x \<in> set (db_pointers d). pt_query x = q \<and> pt_source x = source \<longrightarrow> pt_generation x \<noteq> g \<and> pt_previous x \<noteq> Some g"
  proof (intro ballI impI)
    fix x assume "x \<in> set (db_pointers d)" "pt_query x = q \<and> pt_source x = source"
    then have "x \<in> set (filter (\<lambda>p. pt_query p = q \<and> pt_source p = source) (db_pointers d))" by simp
    then have "x = p" by (simp only: p) simp
    with e show "pt_generation x \<noteq> g \<and> pt_previous x \<noteq> Some g" by (auto split: if_splits)
  qed
  show "\<forall>p \<in> set (db_promotions d). \<not> involves source g p" using e by (auto simp: list_ex_iff split: if_splits)
  show "\<forall>x \<in> set (db_operations d). op_source x = source \<and> op_candidate x = g \<and> List.member ACTIVE (op_state x) \<longrightarrow> op_id x = i"
    using e by (auto simp: list_ex_iff split: if_splits)
qed

text \<open>Running the statements of a method one after the other\<close>

lemma run_simps:
  "bindA now_db k0 d = k0 (db_now d) d"
  "bindA (readA h) k1 d = k1 (h d) d"
  "bindA (select_rows g P) k2 d = k2 (filter P (g d)) d"
  "bindA (one_row e rs) k3 d = (case rs of [r] \<Rightarrow> k3 r d | _ \<Rightarrow> (Inl e, d))"
  "bindA (returnA x) k4 d = k4 x d"
  "bindA (update_table get' put ok P' f) k5 d = (if ok (update_rows P' f (get' d))
      then k5 (map f (filter P' (get' d))) (put (\<lambda>_. update_rows P' f (get' d)) d) else (Inl CONSTRAINT_VIOLATION, d))"
  "bindA (bindA m f') k6 = bindA m (\<lambda>x. bindA (f' x) k6)"
  "bindA (if b then m1 else m2) k7 = (if b then bindA m1 k7 else bindA m2 k7)"
  "bindA randomUUID k8 d = k8 (db_uuid d (db_drawn d)) (d\<lparr>db_drawn := Suc (db_drawn d)\<rparr>)"
  "bindA (liftA q) k9 d = (case q of Inl e \<Rightarrow> (Inl e, d) | Inr x \<Rightarrow> k9 x d)"
  "requireR b' e' = (if b' then Inr () else Inl e')"
  by (auto simp: bindA_def now_db_def readA_def select_rows_def one_row_def returnA_def raiseA_def update_table_def
      randomUUID_def thenA_def modifyA_def liftA_def requireR_def fun_eq_iff split: list.splits sum.splits prod.splits)

lemma authorized_generation:
  assumes ok: "retirements_ok (update_rows (\<lambda>r. rt_id r = rt_id j \<and> Q r) (\<lambda>r. r\<lparr>rt_state := st, rt_token := tk, rt_fence := f,
      rt_attemptedAt := g r\<rparr>) rs)"
    and j: "filter R rs' = [j]"
    and x: "map (\<lambda>r. r\<lparr>rt_state := st, rt_token := tk, rt_fence := f, rt_attemptedAt := g r\<rparr>)
      (filter (\<lambda>r. rt_id r = rt_id j \<and> Q r) rs) = [x]"
    and v: "returnA (retirement_of x, token') s = (Inr (v, token), s')" and rs: "rs' = rs"
  shows "re_generationId v = rt_generation j" "s' = s"
proof -
  let ?F = "\<lambda>r. r\<lparr>rt_state := st, rt_token := tk, rt_fence := f, rt_attemptedAt := g r\<rparr>"
  have "map rt_id (update_rows (\<lambda>r. rt_id r = rt_id j \<and> Q r) ?F rs) = map rt_id rs"
    by (rule map_update_rows) simp
  with ok have "distinct (map rt_id rs)" unfolding retirements_ok_def by metis
  then have inj: "inj_on rt_id (set rs)" by (simp add: distinct_map)
  have "x \<in> set (map ?F (filter (\<lambda>r. rt_id r = rt_id j \<and> Q r) rs))" by (simp only: x) simp
  then obtain z where z: "z \<in> set rs" "rt_id z = rt_id j" "x = ?F z" unfolding set_map set_filter by blast
  have "j \<in> set (filter R rs')" by (simp only: j) simp
  then have "z = j" using inj_onD [OF inj z(2) z(1)] rs by simp
  with z(3) v show "re_generationId v = rt_generation j" "s' = s" by (auto simp: retirement_of_def)
qed

lemma authorize_Inr:
  assumes "cr_authorizePhysicalDeletion C i f d = (Inr (v, token), d')"
  shows "\<exists>oper d1.
    filter (\<lambda>r. op_id r = i \<and> holds_lease C f (db_now d) r \<and> op_state r = ''CLEANING_UP'') (db_operations d) = [oper] \<and>
    d1 = db_operations_update (\<lambda>_. update_rows (\<lambda>r. op_id r = i)
        (\<lambda>r. r\<lparr>op_lease := map_option (\<lambda>t. max t (db_now d + cf_leaseMs C)) (op_lease r)\<rparr>) (db_operations d)) d \<and>
    el_eligible (evaluateEligibility (op_source oper) (op_query oper) (re_generationId v) (Some i) d1) \<and>
    db_operations d' = db_operations d1"
  using assms unfolding cr_authorizePhysicalDeletion_def claimed_operation_def
  apply (simp only: run_simps thenA_def transactionA_ok split: sum.splits if_splits list.splits)
  apply (simp_all only: prod.inject sum.simps simp_thms)
   apply (frule authorized_generation(1), assumption, assumption, assumption, simp,
     frule authorized_generation(2), assumption, assumption, assumption, simp, simp)
  apply (frule authorized_generation(1), assumption, assumption, assumption, simp,
    frule authorized_generation(2), assumption, assumption, assumption, simp, simp)
  done

text \<open>C23: nothing that is used is deleted: when a worker gets the authority to delete a generation, the worker
  holds the lease of a cleanup operation, the generation is in a retired state and not protected, the
  pointer of the operation's query service neither serves it nor would return to it, no open
  promotion starts from it or leads to it, and no other active operation is building it.  (Of the
  pointers, the code reads the one of that service only: \<open>other_service_not_checked\<close>.)\<close>

theorem deletion_authorized_unused:
  assumes "cr_authorizePhysicalDeletion C i f d = (Inr (v, token), d')"
  shows "\<exists>oper \<in> set (db_operations d). op_id oper = i \<and> holds_lease C f (db_now d) oper \<and> op_state oper = ''CLEANING_UP'' \<and>
    (\<exists>r \<in> set (db_generations d). gr_source r = op_source oper \<and> gr_id r = re_generationId v \<and>
      List.member [''RETIRING'', ''RETIRED'', ''FAILED''] (gr_state r) \<and>
      \<not> List.member [''ROLLBACK'', ''SERVING'', ''PROMOTION_IN_PROGRESS''] (gr_protection r)) \<and>
    (\<forall>p \<in> set (db_pointers d). pt_query p = op_query oper \<and> pt_source p = op_source oper \<longrightarrow>
      pt_generation p \<noteq> re_generationId v \<and> pt_previous p \<noteq> Some (re_generationId v)) \<and>
    (\<forall>p \<in> set (db_promotions d). \<not> involves (op_source oper) (re_generationId v) p) \<and>
    (\<forall>x \<in> set (db_operations d'). op_source x = op_source oper \<and> op_candidate x = re_generationId v \<and>
      List.member ACTIVE (op_state x) \<longrightarrow> op_id x = i)"
proof -
  from authorize_Inr [OF assms] obtain oper d1 where oper:
    "filter (\<lambda>r. op_id r = i \<and> holds_lease C f (db_now d) r \<and> op_state r = ''CLEANING_UP'') (db_operations d) = [oper]"
    and d1: "d1 = db_operations_update (\<lambda>_. update_rows (\<lambda>r. op_id r = i)
        (\<lambda>r. r\<lparr>op_lease := map_option (\<lambda>t. max t (db_now d + cf_leaseMs C)) (op_lease r)\<rparr>) (db_operations d)) d"
    and e: "el_eligible (evaluateEligibility (op_source oper) (op_query oper) (re_generationId v) (Some i) d1)"
    and d': "db_operations d' = db_operations d1" by blast
  have "oper \<in> set (filter (\<lambda>r. op_id r = i \<and> holds_lease C f (db_now d) r \<and> op_state r = ''CLEANING_UP'') (db_operations d))"
    by (simp only: oper) simp
  then have o1: "oper \<in> set (db_operations d)" "op_id oper = i" "holds_lease C f (db_now d) oper" "op_state oper = ''CLEANING_UP''"
    by simp_all
  have same: "db_generations d1 = db_generations d" "db_pointers d1 = db_pointers d" "db_promotions d1 = db_promotions d"
    by (simp_all add: d1)
  note u = eligible_unused [OF e, unfolded same, folded d']
  show ?thesis using o1 u by (intro bexI [of _ oper] conjI) blast+
qed

section \<open>A run\<close>

definition resource :: "string \<Rightarrow> deletion_resource" where
  "resource k = \<lparr>dr_kind = k, dr_namespace = ''jwb-query-local'', dr_name = k, dr_uid = op_uuid, dr_resourceVersion = ''7'', dr_absent = False\<rparr>"

definition deletion_run :: "repository_op list" where
  "deletion_run = [Claim worker, Authorize worker op_uuid 1, Record_plan worker op_uuid 1 token_uuid (map resource ROLES),
     Deletion worker op_uuid 1 token_uuid Mark_fence] @
     concat (map (\<lambda>k. [Deletion worker op_uuid 1 token_uuid (Intent k op_uuid ''7''), Deletion worker op_uuid 1 token_uuid (Accepted k op_uuid),
       Deletion worker op_uuid 1 token_uuid (Absence k op_uuid)]) ROLES)"

lemma deletion_confirms: "is_ok (fst (cr_confirmPhysicalDeletion worker op_uuid 1 token_uuid (run_repository deletion_run cleanup_db)))"
  by code_simp

theorem confirmed_deletion_complete_witness:
  "length (db_attempts (run_repository deletion_run cleanup_db)) = 3 \<and>
   (\<exists>a \<in> set (db_attempts (run_repository deletion_run cleanup_db)). da_role a = ''pvc'' \<and> da_absentAt a \<noteq> None)"
proof -
  have three: "length (db_attempts (run_repository deletion_run cleanup_db)) = 3" by code_simp
  obtain v d' where "cr_confirmPhysicalDeletion worker op_uuid 1 token_uuid (run_repository deletion_run cleanup_db) = (Inr v, d')"
    using deletion_confirms by (auto simp: is_ok_iff prod_eq_iff)
  from confirmed_deletion_complete [OF _ this] have "\<exists>a \<in> set (db_attempts (run_repository deletion_run cleanup_db)).
    da_role a = ''pvc'' \<and> da_absentAt a \<noteq> None"
    by (auto simp: cleanup_db_def empty_db_def ROLES_def)
  with three show ?thesis by blast
qed

theorem deletion_authorized_unused_witness:
  "\<exists>oper \<in> set (db_operations (run_repository [Claim worker] cleanup_db)). op_id oper = op_uuid \<and> op_state oper = ''CLEANING_UP''"
proof -
  let ?d = "run_repository [Claim worker] cleanup_db"
  have "is_ok (fst (cr_authorizePhysicalDeletion worker op_uuid 1 ?d))" by code_simp
  then obtain v token d' where "cr_authorizePhysicalDeletion worker op_uuid 1 ?d = (Inr (v, token), d')"
    by (cases "cr_authorizePhysicalDeletion worker op_uuid 1 ?d") (auto simp: is_ok_iff)
  from deletion_authorized_unused [OF this] show ?thesis by blast
qed

text \<open>
  The pointers of the other query services of the source are not looked at: the authority is given
  although one of them serves the generation
\<close>

definition two_services_db :: control_db where
  "two_services_db = cleanup_db\<lparr>db_pointers := db_pointers cleanup_db @
     [(demo_pointer ''q2'')\<lparr>pt_generation := ''gen-a'', pt_previous := None, pt_version := 2\<rparr>]\<rparr>"

lemma other_service_not_checked:
  "\<exists>v token d'. cr_authorizePhysicalDeletion worker op_uuid 1 (run_repository [Claim worker] two_services_db) = (Inr (v, token), d') \<and>
     re_generationId v = ''gen-a'' \<and> (\<exists>p \<in> set (db_pointers d'). pt_generation p = ''gen-a'')"
proof -
  let ?r = "cr_authorizePhysicalDeletion worker op_uuid 1 (run_repository [Claim worker] two_services_db)"
  have "(case fst ?r of Inr (v, token) \<Rightarrow> re_generationId v = ''gen-a'' | Inl _ \<Rightarrow> False)" by code_simp
  moreover have "list_ex (\<lambda>p. pt_generation p = ''gen-a'') (db_pointers (snd ?r))" by code_simp
  ultimately show ?thesis by (cases ?r) (auto simp: list_ex_iff split: sum.splits)
qed
theorem replaced_generation_never_cleaned_witness:
  "\<exists>e. cr_scheduleCleanup ''cleanup-2'' ''jwb'' ''q'' ''gen-b'' ''oxigraph''
      (run_repository [] (snd (cr_beginRetirement op_uuid ''jwb'' ''gen-b'' cleanup_db))) =
    (Inl e, run_repository [] (snd (cr_beginRetirement op_uuid ''jwb'' ''gen-b'' cleanup_db)))"
proof -
  have "is_ok (fst (cr_beginRetirement op_uuid ''jwb'' ''gen-b'' cleanup_db))" by code_simp
  then obtain v where v: "cr_beginRetirement op_uuid ''jwb'' ''gen-b'' cleanup_db = (Inr v, snd (cr_beginRetirement op_uuid ''jwb'' ''gen-b'' cleanup_db))"
    by (auto simp: is_ok_iff prod_eq_iff)
  have "list_all (\<lambda>r. op_key r \<noteq> ''cleanup-2'') (db_operations (run_repository [] (snd (cr_beginRetirement op_uuid ''jwb'' ''gen-b'' cleanup_db))))"
    by code_simp
  with replaced_generation_never_cleaned [OF v, of "[]" "''cleanup-2''"] show ?thesis by (simp add: list_all_iff)
qed

end
