(* ===== verification/GenerationDriver.thy ===== *)
theory GenerationDriver
  imports CoordinatorRepository
begin

text \<open>
  What the coordinator asks of the driver that runs the generations: to create one, and to delete one
  by a plan that names the three resources with their identities.  The state \<open>'s\<close> is whatever the
  driver and its callbacks write to.
\<close>

text \<open>The evidence of an earlier deletion that the driver accepts, by kind of resource\<close>

record delete_evidence =
  ev_status :: string
  ev_uid :: string
  ev_resourceVersion :: string

text \<open>\<open>pl_trusted\<close>: the plan is an object that the driver has made (\<open>TRUSTED_DELETE_PLANS\<close>)\<close>

record delete_plan =
  pl_generation :: string
  pl_backend :: string
  pl_namespace :: string
  pl_operation :: "string option"
  pl_fence :: "int option"
  pl_token :: "string option"
  pl_resources :: "deletion_resource list"
  pl_trusted :: bool

record 's delete_callbacks =
  cb_authorize :: "('s, unit) action"
  cb_onIntent :: "string \<Rightarrow> string \<Rightarrow> string \<Rightarrow> ('s, unit) action"
  cb_onAccepted :: "string \<Rightarrow> string \<Rightarrow> ('s, unit) action"
  cb_onProgress :: "string \<Rightarrow> string \<Rightarrow> ('s, unit) action"

record 's generation_driver =
  gd_createGeneration :: "string \<Rightarrow> ('s, unit) action"
  gd_planDelete :: "string \<Rightarrow> (string \<times> delete_evidence) list \<Rightarrow> string option \<Rightarrow> int option \<Rightarrow> string option \<Rightarrow> ('s, delete_plan) action"
  gd_markAuthority :: "delete_plan \<Rightarrow> ('s, delete_plan) action"
  gd_executePlan :: "delete_plan \<Rightarrow> 's delete_callbacks \<Rightarrow> ('s, unit) action"

text \<open>
  The contract of a driver beside a part of the state that it does not own (\<open>own\<close> projects it): only
  the callbacks write to that part, so a relation they keep is kept by the deletion
\<close>

definition callbacks_move :: "('s \<Rightarrow> 's \<Rightarrow> bool) \<Rightarrow> 's delete_callbacks \<Rightarrow> bool" where
  "callbacks_move R cb \<longleftrightarrow> moves R (cb_authorize cb) \<and> (\<forall>k u v. moves R (cb_onIntent cb k u v)) \<and>
     (\<forall>k u. moves R (cb_onAccepted cb k u)) \<and> (\<forall>k u. moves R (cb_onProgress cb k u))"

locale driver_contract =
  fixes D :: "'s generation_driver" and own :: "'s \<Rightarrow> 'b"
  assumes create_keeps: "keeps own (gd_createGeneration D g)"
    and plan_keeps: "keeps own (gd_planDelete D g ev i f t)"
    and mark_keeps: "keeps own (gd_markAuthority D p)"
    and execute_moves: "reflp Q \<Longrightarrow> transp Q \<Longrightarrow> callbacks_move (\<lambda>s s'. Q (own s) (own s')) cb \<Longrightarrow>
      moves (\<lambda>s s'. Q (own s) (own s')) (gd_executePlan D p cb)"
begin

lemma driver_moves:
  assumes "reflp Q"
  shows "moves (\<lambda>s s'. Q (own s) (own s')) (gd_createGeneration D g)"
    "moves (\<lambda>s s'. Q (own s) (own s')) (gd_planDelete D g ev i f t)"
    "moves (\<lambda>s s'. Q (own s) (own s')) (gd_markAuthority D p)"
  using assms create_keeps plan_keeps mark_keeps by (auto simp: moves_def keeps_def reflp_def)

end

end
