(* ===== verification/StandalonePromotion.thy ===== *)
theory StandalonePromotion
  imports ServingPointer
begin

text \<open>
  \<open>services/rdf-sync/src/instance-identities.js\<close> and \<open>standalone-promotion-coordinator.js\<close>: the
  names of a deployment, and the journalled promotion between its two slots \<open>gen-a\<close> and \<open>gen-b\<close>,
  which a crash may interrupt after any of its transactions.  The two crash points of the source are
  arguments, and a death of the process cuts short the states an attempt goes through; the router
  observer is a parameter acting on a world of its own.
\<close>

section \<open>Names of a deployment\<close>

text \<open>\<open>/^custom-wikibase\.[0-9a-f-]{36}$/u\<close> and \<open>/^custom-wikibase-query-[0-9a-f-]{36}$/u\<close>\<close>

definition is_hex_dash :: "char \<Rightarrow> bool" where
  "is_hex_dash x \<longleftrightarrow> is_hex_lower x \<or> x = CHR ''-''"

definition INSTANCE_SOURCE :: rx where
  "INSTANCE_SOURCE = Cats [Lit ''custom-wikibase.'', Times 36 (Cls is_hex_dash)]"

definition INSTANCE_QUERY :: rx where
  "INSTANCE_QUERY = Cats [Lit ''custom-wikibase-query-'', Times 36 (Cls is_hex_dash)]"

record identities =
  id_instance :: string
  id_source :: string
  id_query :: string

text \<open>Missing values are \<open>None\<close>\<close>

definition instanceScopedIdentities ::
  "string option \<Rightarrow> string option \<Rightarrow> string option \<Rightarrow> identities result" where
  "instanceScopedIdentities instanceId sourceIdentity queryServiceId =
     (let i = (case instanceId of None \<Rightarrow> [] | Some s \<Rightarrow> s) in
      bindR (requireR (rx_test UUID i) ''INVALID_INSTANCE_IDENTITY'') (\<lambda>_.
      let source = (case sourceIdentity of None \<Rightarrow> ''custom-wikibase.'' @ i | Some s \<Rightarrow> s);
          query = (case queryServiceId of None \<Rightarrow> ''custom-wikibase-query-'' @ i | Some q \<Rightarrow> q) in
      bindR (requireR (rx_test INSTANCE_SOURCE source \<and> rx_test INSTANCE_QUERY query) ''INVALID_QUERY_IDENTITY'') (\<lambda>_.
      Inr \<lparr>id_instance = i, id_source = source, id_query = query\<rparr>)))"

text \<open>\<open>!value\<close> of a text that may be missing\<close>

definition falsy_text :: "string option \<Rightarrow> bool" where
  "falsy_text v \<longleftrightarrow> v = None \<or> v = Some []"

definition LEGACY_IDENTITIES :: identities where
  "LEGACY_IDENTITIES = \<lparr>id_instance = ''00000000-0000-4000-8000-000000000001'',
     id_source = ''jwb-standalone'', id_query = ''jwb-standalone-query''\<rparr>"

definition legacyOrInstanceIdentities ::
  "string option \<Rightarrow> string option \<Rightarrow> string option \<Rightarrow> identities result" where
  "legacyOrInstanceIdentities instanceId sourceIdentity queryServiceId =
     (if falsy_text instanceId \<and> falsy_text sourceIdentity \<and> falsy_text queryServiceId then Inr LEGACY_IDENTITIES
      else instanceScopedIdentities instanceId sourceIdentity queryServiceId)"

section \<open>The journal\<close>

definition SLOTS :: "string list" where
  "SLOTS = [''gen-a'', ''gen-b'']"

record journal =
  j_id :: string
  j_from :: "string option"
  j_to :: string
  j_state :: string
  j_phase :: string
  j_expected :: int
  j_resulting :: "int option"
  j_createdAt :: int
  j_completedAt :: "int option"

text \<open>\<open>promotion(row)\<close>: \<open>Number(null)\<close> is 0\<close>

definition journal_of :: "promotion_row \<Rightarrow> journal" where
  "journal_of r = \<lparr>j_id = pm_id r, j_from = pm_from r, j_to = pm_to r, j_state = pm_state r, j_phase = pm_phase r,
     j_expected = (case pm_expected r of None \<Rightarrow> 0 | Some v \<Rightarrow> v), j_resulting = pm_resulting r,
     j_createdAt = pm_createdAt r, j_completedAt = pm_completedAt r\<rparr>"

definition promotion_first :: "promotion_row list \<Rightarrow> journal db" where
  "promotion_first rows = (case rows of [] \<Rightarrow> raiseA ''PROMOTION_JOURNAL_MISSING'' | r # _ \<Rightarrow> returnA (journal_of r))"

text \<open>
  \<open>ORDER BY ... LIMIT 1\<close>, ascending and descending; of rows with the same key, which the server
  orders as it likes, the one stored first
\<close>

fun first_by :: "('r \<Rightarrow> int) \<Rightarrow> 'r list \<Rightarrow> 'r list" where
  "first_by key [] = []"
| "first_by key (r # rs) = (case first_by key rs of [] \<Rightarrow> [r] | s # _ \<Rightarrow> if key s < key r then [s] else [r])"

definition candidateLifecycleEligible :: "generation_row \<Rightarrow> string \<Rightarrow> bool" where
  "candidateLifecycleEligible row mode =
     (if mode = ''PROMOTE'' then gr_state row = ''READY'' \<and> gr_protection row = ''NONE''
      else (mode = ''ROLLBACK'' \<or> mode = ''RESTORE'') \<and> gr_state row = ''RETIRING'' \<and> gr_protection row = ''ROLLBACK'')"

text \<open>
  \<open>Date.parse\<close> of a \<open>Date\<close>, which is how the driver returns an instant: the printed form has no
  milliseconds.  \<open>Date.parse(null)\<close> is \<open>NaN\<close>, and so is every difference with it.
\<close>

definition reparsed :: "int \<Rightarrow> int" where
  "reparsed t = t div 1000 * 1000"

definition compare_cursors :: "(int \<times> int) option \<Rightarrow> (int \<times> int) option \<Rightarrow> int option" where
  "compare_cursors a b = (case (a, b) of
       (Some (at, ai), Some (bt, bi)) \<Rightarrow>
         Some (if reparsed at = reparsed bt then ai - bi else reparsed at - reparsed bt)
     | _ \<Rightarrow> None)"

definition is_negative :: "int option \<Rightarrow> bool" where
  "is_negative v \<longleftrightarrow> (case v of None \<Rightarrow> False | Some n \<Rightarrow> n < 0)"

section \<open>Reading\<close>

record slot_pointer =
  sl_generation :: string
  sl_previous :: "string option"
  sl_version :: int

definition slot_pointer_of :: "pointer_row \<Rightarrow> slot_pointer" where
  "slot_pointer_of p = \<lparr>sl_generation = pt_generation p, sl_previous = pt_previous p, sl_version = pt_version p\<rparr>"

definition sc_pointer :: "identities \<Rightarrow> slot_pointer db" where
  "sc_pointer ids = bindA (select_rows db_pointers (\<lambda>p. pt_query p = id_query ids \<and> pt_source p = id_source ids)) (\<lambda>rows.
     bindA (one_row ''SERVING_POINTER_MISSING'' rows) (\<lambda>r. returnA (slot_pointer_of r)))"

definition first_journal :: "promotion_row list \<Rightarrow> journal option" where
  "first_journal rows = (case rows of [] \<Rightarrow> None | r # _ \<Rightarrow> Some (journal_of r))"

definition is_pending :: "identities \<Rightarrow> promotion_row \<Rightarrow> bool" where
  "is_pending ids p \<longleftrightarrow> pm_source p = id_source ids \<and> pm_state p = ''PREPARING''"

definition sc_pending :: "identities \<Rightarrow> journal option db" where
  "sc_pending ids = bindA (select_rows db_promotions (is_pending ids)) (\<lambda>rows.
     returnA (first_journal (first_by pm_createdAt rows)))"

text \<open>\<open>ORDER BY completed_at DESC\<close> puts \<open>NULL\<close> first\<close>

definition sc_completed :: "identities \<Rightarrow> string \<Rightarrow> journal option db" where
  "sc_completed ids to' = bindA (select_rows db_promotions (\<lambda>p. pm_source p = id_source ids \<and> pm_to p = to' \<and>
       pm_state p = ''COMMITTED'')) (\<lambda>rows.
     returnA (first_journal (case filter (\<lambda>p. pm_completedAt p = None) rows of
        [] \<Rightarrow> first_by (\<lambda>p. - the (pm_completedAt p)) rows | p # _ \<Rightarrow> [p])))"

record slot_status =
  ss_generationId :: string
  ss_state :: string
  ss_protectionState :: string
  ss_validationStatus :: string
  ss_normalizationModel :: "string option"
  ss_partitionModel :: string
  ss_syncState :: string
  ss_schemaState :: string

definition slot_status_of :: "generation_row \<times> generation_sync_row \<Rightarrow> slot_status" where
  "slot_status_of x = (case x of (g, s) \<Rightarrow> \<lparr>ss_generationId = gr_id g, ss_state = gr_state g,
     ss_protectionState = gr_protection g, ss_validationStatus = gr_validation g,
     ss_normalizationModel = gr_normalization g, ss_partitionModel = gr_partition g,
     ss_syncState = gs_state s, ss_schemaState = gs_schema s\<rparr>)"

text \<open>\<open>rdf_generation g JOIN rdf_generation_sync s USING(source_identity,generation_id)\<close>\<close>

definition joined_generations :: "control_db \<Rightarrow> (generation_row \<times> generation_sync_row) list" where
  "joined_generations d = filter (\<lambda>(g, s). gr_source g = gs_source s \<and> gr_id g = gs_generation s)
     (List.product (db_generations d) (db_syncs d))"

definition sc_status :: "identities \<Rightarrow> (slot_pointer \<times> slot_status list \<times> journal option) db" where
  "sc_status ids =
     bindA (sc_pointer ids) (\<lambda>pointer.
     bindA (select_rows joined_generations (\<lambda>(g, s). gr_source g = id_source ids)) (\<lambda>generations.
     bindA (select_rows db_promotions (\<lambda>p. pm_source p = id_source ids)) (\<lambda>rows.
     returnA (pointer, map slot_status_of (sort_key (\<lambda>(g, s). gr_id g) generations),
       first_journal (first_by (\<lambda>p. - pm_createdAt p) rows)))))"

section \<open>Promoting\<close>

record slot_precondition =
  sp_from :: string
  sp_to :: string
  sp_version :: int

definition MODEL :: string where
  "MODEL = ''jwb-rdf-normalization-v1''"

definition PARTITION :: string where
  "PARTITION = ''jwb-partition-v1''"

definition checksum_ok :: "string option \<Rightarrow> bool" where
  "checksum_ok c \<longleftrightarrow> rx_test SHA256_HEX (text_or_empty c)"

definition candidate_validated :: "generation_row \<Rightarrow> string \<Rightarrow> bool" where
  "candidate_validated g mode \<longleftrightarrow> candidateLifecycleEligible g mode \<and> gr_validation g = ''VALID'' \<and>
     checksum_ok (gr_checksum g) \<and> gr_normalization g = Some MODEL \<and> gr_partition g = PARTITION \<and>
     gr_manifest g \<noteq> None"

definition candidate_current :: "generation_sync_row \<Rightarrow> source_row \<Rightarrow> bool" where
  "candidate_current s src \<longleftrightarrow> gs_state s = ''CURRENT'' \<and> gs_schema s = ''CURRENT'' \<and>
     \<not> is_negative (compare_cursors (gs_catchup s) (sr_ingestion src))"

text \<open>The row of the candidate joined with its synchronization state and its source\<close>

definition candidate_rows ::
  "string \<Rightarrow> string \<Rightarrow> control_db \<Rightarrow> ((generation_row \<times> generation_sync_row) \<times> source_row) list" where
  "candidate_rows source to' d = filter (\<lambda>((g, s), src). is_generation source to' g \<and> sr_source src = gr_source g)
     (List.product (joined_generations d) (db_sources d))"

definition other_slot :: "string \<Rightarrow> string" where
  "other_slot g = (if g = ''gen-a'' then ''gen-b'' else ''gen-a'')"

definition sc_precondition :: "identities \<Rightarrow> string \<Rightarrow> slot_precondition db" where
  "sc_precondition ids mode =
     bindA (sc_pointer ids) (\<lambda>pointer.
     thenA (ensureA (List.member SLOTS (sl_generation pointer)) ''SERVING_SLOT_INVALID'')
     (let to' = other_slot (sl_generation pointer) in
     thenA (ensureA (\<not> (mode = ''PROMOTE'' \<and> sl_generation pointer \<noteq> ''gen-a'')) ''PROMOTION_ALREADY_APPLIED'')
     (thenA (ensureA (\<not> (mode = ''RESTORE'' \<and> sl_generation pointer \<noteq> ''gen-a'')) ''RESTORE_REQUIRES_GEN_A_SERVING'')
     (thenA (ensureA (\<not> ((mode = ''ROLLBACK'' \<or> mode = ''RESTORE'') \<and> sl_previous pointer \<noteq> Some to'))
        ''ROLLBACK_SLOT_NOT_RETAINED'')
     (bindA (readA (candidate_rows (id_source ids) to')) (\<lambda>rows.
     thenA (ensureA (case rows of [((g, s), src)] \<Rightarrow> candidate_validated g mode | _ \<Rightarrow> False) ''CANDIDATE_NOT_VALIDATED'')
     (thenA (ensureA (case rows of [((g, s), src)] \<Rightarrow> candidate_current s src | _ \<Rightarrow> False) ''CANDIDATE_NOT_CURRENT'')
     (returnA \<lparr>sp_from = sl_generation pointer, sp_to = to', sp_version = sl_version pointer\<rparr>))))))))"

definition sc_insert :: "identities \<Rightarrow> slot_precondition \<Rightarrow> journal db" where
  "sc_insert ids pre = bindA randomUUID (\<lambda>uuid. bindA now_db (\<lambda>now.
     bindA (insert_promotion_checked \<lparr>pm_id = uuid, pm_operation = None, pm_source = id_source ids,
       pm_from = Some (sp_from pre), pm_to = sp_to pre, pm_state = ''PREPARING'', pm_phase = ''PREPARING'',
       pm_expected = Some (sp_version pre), pm_resulting = None, pm_createdAt = now, pm_verifiedAt = None,
       pm_completedAt = None\<rparr>) (\<lambda>r. returnA (journal_of r))))"

definition sc_cas :: "identities \<Rightarrow> journal \<Rightarrow> journal db" where
  "sc_cas ids value =
     (if j_phase value \<noteq> ''PREPARING'' then returnA value
      else transactionA (bindA now_db (\<lambda>now.
        bindA (select_rows db_promotions (\<lambda>p. pm_id p = j_id value)) (\<lambda>locked.
        bindA (promotion_first locked) (\<lambda>journal.
        if j_phase journal \<noteq> ''PREPARING'' then returnA journal
        else
          bindA (update_pointers (\<lambda>p. pt_query p = id_query ids \<and> pt_source p = id_source ids \<and>
              Some (pt_generation p) = j_from journal \<and> pt_version p = j_expected journal)
            (\<lambda>p. p\<lparr>pt_previous := Some (pt_generation p), pt_generation := j_to journal,
              pt_version := pt_version p + 1, pt_updatedAt := now\<rparr>)) (\<lambda>pointer.
          bindA (one_row ''STANDALONE_POINTER_CAS_CONFLICT'' pointer) (\<lambda>row.
          bindA (update_promotions (\<lambda>p. pm_id p = j_id journal)
            (\<lambda>p. p\<lparr>pm_phase := ''POINTER_UPDATED'', pm_resulting := Some (pt_version row)\<rparr>)) (\<lambda>updated.
          promotion_first updated))))))))"

definition sc_finalize :: "identities \<Rightarrow> journal \<Rightarrow> journal db" where
  "sc_finalize ids value =
     transactionA (bindA now_db (\<lambda>now.
       bindA (select_rows db_promotions (\<lambda>p. pm_id p = j_id value)) (\<lambda>locked.
       bindA (promotion_first locked) (\<lambda>journal.
       if j_phase journal = ''GENERATION_FINALIZED'' then returnA journal
       else
         thenA (ensureA (j_phase journal = ''ROUTER_VERIFIED'') ''PROMOTION_PHASE_CONFLICT'')
         (bindA (select_rows db_generations (is_generation (id_source ids) (j_to journal))) (\<lambda>target.
         thenA (ensureA (case target of
             [t] \<Rightarrow> candidateLifecycleEligible t ''PROMOTE'' \<or> candidateLifecycleEligible t ''ROLLBACK'' | _ \<Rightarrow> False)
           ''PROMOTION_GENERATION_CONFLICT'')
         (thenA (update_generations (serving_or_rollback (id_source ids)) unprotect)
         (bindA (update_generations (\<lambda>r. gr_source r = id_source ids \<and> Some (gr_id r) = j_from journal \<and>
             gr_state r = ''SERVING'') (demote_to ''RETIRING'')) (\<lambda>old.
         bindA (update_generations (\<lambda>r. is_generation (id_source ids) (j_to journal) r \<and>
             (gr_state r = ''READY'' \<or> gr_state r = ''RETIRING'')) (serve now)) (\<lambda>serving.
         thenA (ensureA (length old = 1 \<and> length serving = 1) ''PROMOTION_GENERATION_CONFLICT'')
         (bindA (update_promotions (\<lambda>p. pm_id p = j_id journal)
           (\<lambda>p. p\<lparr>pm_phase := ''GENERATION_FINALIZED'', pm_state := ''COMMITTED'', pm_completedAt := Some now\<rparr>))
           (\<lambda>updated. promotion_first updated))))))))))))"

definition sc_verified :: "journal \<Rightarrow> journal db" where
  "sc_verified value = bindA now_db (\<lambda>now.
     bindA (update_promotions (\<lambda>p. pm_id p = j_id value \<and> pm_phase p = ''POINTER_UPDATED'')
       (\<lambda>p. p\<lparr>pm_phase := ''ROUTER_VERIFIED'', pm_verifiedAt := Some now\<rparr>)) (\<lambda>row.
     thenA (ensureA (length row = 1) ''PROMOTION_PHASE_CONFLICT'') (promotion_first row)))"

text \<open>The answer: the journal entry, and whether the request had been carried out before\<close>

definition already_done :: "string \<Rightarrow> slot_pointer \<Rightarrow> bool" where
  "already_done mode p \<longleftrightarrow> mode = ''PROMOTE'' \<and> sl_generation p = ''gen-b'' \<or>
     mode = ''ROLLBACK'' \<and> sl_generation p = ''gen-a'' \<and> sl_previous p = Some ''gen-b''"

definition sc_begin :: "identities \<Rightarrow> string \<Rightarrow> (journal \<times> bool) db" where
  "sc_begin ids mode =
     bindA (sc_pointer ids) (\<lambda>initial.
     bindA (sc_pending ids) (\<lambda>pending.
     bindA (if pending = None \<and> already_done mode initial then sc_completed ids (sl_generation initial)
            else returnA None) (\<lambda>done.
     case (done, pending) of
       (Some j, _) \<Rightarrow> returnA (j, True)
     | (None, Some j) \<Rightarrow> returnA (j, False)
     | (None, None) \<Rightarrow> bindA (sc_precondition ids mode) (\<lambda>pre. bindA (sc_insert ids pre) (\<lambda>j. returnA (j, False))))))"

text \<open>From the pending entry on: the pointer, the router, the registry\<close>

definition sc_advance ::
  "identities \<Rightarrow> (string \<Rightarrow> int option \<Rightarrow> ('w, bool) action) \<Rightarrow> string option \<Rightarrow> journal \<Rightarrow>
   (control_db \<times> 'w, journal) action" where
  "sc_advance ids routerObserver crashAt pending =
     thenA (ensureA (\<not> (crashAt = Some ''BEFORE_POINTER_CAS'' \<and> j_phase pending = ''PREPARING''))
       ''QUALIFICATION_CRASH_BEFORE_POINTER_CAS'')
     (bindA (on_fst (sc_cas ids pending)) (\<lambda>switched.
     thenA (ensureA (\<not> (crashAt = Some ''AFTER_POINTER_CAS'' \<and> j_phase switched = ''POINTER_UPDATED''))
       ''QUALIFICATION_CRASH_AFTER_POINTER_CAS'')
     (bindA (if j_phase switched = ''POINTER_UPDATED''
             then bindA (on_snd (routerObserver (j_to switched) (j_resulting switched))) (\<lambda>observed.
               thenA (ensureA observed ''ROUTER_PROMOTION_NOT_OBSERVED'') (on_fst (sc_verified switched)))
             else returnA switched) (\<lambda>verified.
     if j_phase verified = ''ROUTER_VERIFIED'' then on_fst (sc_finalize ids verified) else returnA verified))))"

definition sc_promote ::
  "identities \<Rightarrow> (string \<Rightarrow> int option \<Rightarrow> ('w, bool) action) \<Rightarrow> string \<Rightarrow> string option \<Rightarrow>
   (control_db \<times> 'w, journal \<times> bool) action" where
  "sc_promote ids routerObserver mode crashAt =
     thenA (ensureA (List.member [''PROMOTE'', ''ROLLBACK'', ''RESTORE''] mode \<and>
         List.member [None, Some ''BEFORE_POINTER_CAS'', Some ''AFTER_POINTER_CAS''] crashAt)
       ''INVALID_STANDALONE_PROMOTION_REQUEST'')
     (bindA (on_fst (sc_begin ids mode)) (\<lambda>(pending, idempotent).
     if idempotent then returnA (pending, True)
     else bindA (sc_advance ids routerObserver crashAt pending) (\<lambda>final. returnA (final, False))))"

section \<open>The states an attempt goes through\<close>

text \<open>
  The process may also die by itself, at any moment.  Each effect of an attempt on the database is one
  statement or one transaction, so what a death leaves is the state before or after one of them: inside
  a transaction it is undone.  The lists give the states after the effects, in the order of the code:
  the new entry of the journal, the pointer, the router, the verified phase, the registry.
\<close>

definition finalize_states :: "identities \<Rightarrow> journal \<Rightarrow> control_db \<times> 'w \<Rightarrow> (control_db \<times> 'w) list" where
  "finalize_states ids verified s =
     (if j_phase verified = ''ROUTER_VERIFIED'' then [snd (on_fst (sc_finalize ids verified) s)] else [])"

definition verified_states ::
  "identities \<Rightarrow> (string \<Rightarrow> int option \<Rightarrow> ('w, bool) action) \<Rightarrow> journal \<Rightarrow> control_db \<times> 'w \<Rightarrow> (control_db \<times> 'w) list" where
  "verified_states ids routerObserver switched s =
     (case on_snd (routerObserver (j_to switched) (j_resulting switched)) s of (r1, s1) \<Rightarrow>
        s1 # (if r1 \<noteq> Inr True then []
          else (case on_fst (sc_verified switched) s1 of (r2, s2) \<Rightarrow>
            s2 # (case r2 of Inl _ \<Rightarrow> [] | Inr verified \<Rightarrow> finalize_states ids verified s2))))"

definition advance_states ::
  "identities \<Rightarrow> (string \<Rightarrow> int option \<Rightarrow> ('w, bool) action) \<Rightarrow> string option \<Rightarrow> journal \<Rightarrow> control_db \<times> 'w \<Rightarrow> (control_db \<times> 'w) list" where
  "advance_states ids routerObserver crashAt pending s =
     (if crashAt = Some ''BEFORE_POINTER_CAS'' \<and> j_phase pending = ''PREPARING'' then []
      else (case on_fst (sc_cas ids pending) s of (r1, s1) \<Rightarrow>
        s1 # (case r1 of Inl _ \<Rightarrow> [] | Inr switched \<Rightarrow>
          if crashAt = Some ''AFTER_POINTER_CAS'' \<and> j_phase switched = ''POINTER_UPDATED'' then []
          else if j_phase switched = ''POINTER_UPDATED'' then verified_states ids routerObserver switched s1
          else finalize_states ids switched s1)))"

definition attempt_states ::
  "identities \<Rightarrow> (string \<Rightarrow> int option \<Rightarrow> ('w, bool) action) \<Rightarrow> string \<Rightarrow> string option \<Rightarrow> control_db \<times> 'w \<Rightarrow> (control_db \<times> 'w) list" where
  "attempt_states ids routerObserver mode crashAt s =
     s # (if \<not> (List.member [''PROMOTE'', ''ROLLBACK'', ''RESTORE''] mode \<and>
             List.member [None, Some ''BEFORE_POINTER_CAS'', Some ''AFTER_POINTER_CAS''] crashAt) then []
          else (case on_fst (sc_begin ids mode) s of (r1, s1) \<Rightarrow>
            s1 # (case r1 of Inl _ \<Rightarrow> [] | Inr (pending, idempotent) \<Rightarrow>
              if idempotent then [] else advance_states ids routerObserver crashAt pending s1)))"

text \<open>An attempt that is not killed runs through all of them.\<close>

lemma advance_states_last:
  "last (s # advance_states ids observe crashAt pending s) = snd (sc_advance ids observe crashAt pending s)"
  by (auto simp: advance_states_def verified_states_def finalize_states_def sc_advance_def thenA_def bindA_def liftA_def
      returnA_def raiseA_def split: prod.splits sum.splits)

lemma snd_then_return: "snd (bindA m (\<lambda>x. returnA (f x)) s) = snd (m s)"
  by (simp add: bindA_def returnA_def split: prod.split sum.split)

lemma attempt_states_last:
  "last (attempt_states ids observe mode crashAt s) = snd (sc_promote ids observe mode crashAt s)"
proof (cases "List.member [''PROMOTE'', ''ROLLBACK'', ''RESTORE''] mode \<and>
    List.member [None, Some ''BEFORE_POINTER_CAS'', Some ''AFTER_POINTER_CAS''] crashAt")
  case True
  obtain r1 s1 where b: "on_fst (sc_begin ids mode) s = (r1, s1)" by (cases "on_fst (sc_begin ids mode) s")
  have p: "sc_promote ids observe mode crashAt s = (case r1 of Inl e \<Rightarrow> (Inl e, s1) | Inr (pending, idempotent) \<Rightarrow>
      (if idempotent then returnA (pending, True)
       else bindA (sc_advance ids observe crashAt pending) (\<lambda>final. returnA (final, False))) s1)"
    unfolding sc_promote_def thenA_def bindA_def [of "on_fst _"] bindA_def [of "liftA _"] using True b
    by (simp add: liftA_def split: sum.split)
  have t: "attempt_states ids observe mode crashAt s = s # s1 # (case r1 of Inl _ \<Rightarrow> [] | Inr (pending, idempotent) \<Rightarrow>
      if idempotent then [] else advance_states ids observe crashAt pending s1)"
    unfolding attempt_states_def using True b by simp
  show ?thesis
  proof (cases r1)
    case (Inl e)
    then show ?thesis unfolding p t by simp
  next
    case (Inr x)
    obtain j flag where x: "x = (j, flag)" by fastforce
    show ?thesis
      unfolding p t Inr x using advance_states_last [of s1 ids observe crashAt j]
      by (cases flag) (simp_all add: snd_then_return, simp add: returnA_def)
  qed
next
  case False
  then show ?thesis unfolding attempt_states_def sc_promote_def
    by (simp only: False if_True not_False_eq_True last.simps) (simp add: thenA_def bindA_def liftA_def raiseA_def requireR_def)
qed

section \<open>The invariant\<close>

definition registry_serves :: "string \<Rightarrow> string \<Rightarrow> generation_row list \<Rightarrow> bool" where
  "registry_serves source cur gs \<longleftrightarrow> list_ex (is_generation source cur) gs \<and>
     (\<forall>g \<in> set gs. gr_source g = source \<longrightarrow> (gr_state g = ''SERVING'' \<longleftrightarrow> gr_id g = cur) \<and>
       (gr_protection g = ''SERVING'' \<longleftrightarrow> gr_id g = cur))"

definition candidate_waits :: "string \<Rightarrow> string \<Rightarrow> generation_row list \<Rightarrow> bool" where
  "candidate_waits source to' gs \<longleftrightarrow> (case filter (is_generation source to') gs of
       [t] \<Rightarrow> (candidateLifecycleEligible t ''PROMOTE'' \<or> candidateLifecycleEligible t ''ROLLBACK'') \<and>
         gr_validation t = ''VALID''
     | _ \<Rightarrow> False)"

text \<open>What a pending entry of the journal says of the pointer and of the registry, in each phase\<close>

definition journal_agrees :: "identities \<Rightarrow> control_db \<Rightarrow> pointer_row \<Rightarrow> promotion_row \<Rightarrow> bool" where
  "journal_agrees ids d p r \<longleftrightarrow> candidate_waits (id_source ids) (pm_to r) (db_generations d) \<and>
     (if pm_phase r = ''PREPARING''
      then pm_from r = Some (pt_generation p) \<and> pm_expected r = Some (pt_version p) \<and>
        registry_serves (id_source ids) (pt_generation p) (db_generations d)
      else (pm_phase r = ''POINTER_UPDATED'' \<or> pm_phase r = ''ROUTER_VERIFIED'') \<and>
        pt_generation p = pm_to r \<and> pt_previous p = pm_from r \<and> pm_resulting r = Some (pt_version p) \<and>
        (case pm_from r of None \<Rightarrow> False | Some f \<Rightarrow> registry_serves (id_source ids) f (db_generations d)))"

definition slot_pointers :: "identities \<Rightarrow> control_db \<Rightarrow> pointer_row list" where
  "slot_pointers ids d = filter (\<lambda>p. pt_query p = id_query ids \<and> pt_source p = id_source ids) (db_pointers d)"

definition pending_rows :: "identities \<Rightarrow> control_db \<Rightarrow> promotion_row list" where
  "pending_rows ids d = filter (is_pending ids) (db_promotions d)"

definition standalone_inv :: "identities \<Rightarrow> control_db \<Rightarrow> bool" where
  "standalone_inv ids d \<longleftrightarrow>
     generations_ok (db_generations d) \<and> pointers_ok (db_pointers d) \<and> promotions_ok (db_promotions d) \<and>
     (case slot_pointers ids d of
        [p] \<Rightarrow> (case pending_rows ids d of
            [] \<Rightarrow> registry_serves (id_source ids) (pt_generation p) (db_generations d)
          | [r] \<Rightarrow> journal_agrees ids d p r
          | _ \<Rightarrow> False)
      | _ \<Rightarrow> False)"

text \<open>No promotion is under way, and \<open>g\<close> is served and pointed to\<close>

definition settled_on :: "identities \<Rightarrow> string \<Rightarrow> control_db \<Rightarrow> bool" where
  "settled_on ids g d \<longleftrightarrow> standalone_inv ids d \<and> pending_rows ids d = [] \<and>
     (\<exists>p. slot_pointers ids d = [p] \<and> pt_generation p = g)"

text \<open>
  The abstract machine: a source is settled on a generation, or switching from one to another; a
  request may begin a switch to the other slot, complete one, or do both.
\<close>

datatype serving_view = Settled string | Switching string string

definition serving_view :: "identities \<Rightarrow> control_db \<Rightarrow> serving_view" where
  "serving_view ids d = (case pending_rows ids d of
       [] \<Rightarrow> Settled (pt_generation (hd (slot_pointers ids d)))
     | r # _ \<Rightarrow> Switching (text_or_empty (pm_from r)) (pm_to r))"

fun view_step :: "serving_view \<Rightarrow> serving_view \<Rightarrow> bool" where
  "view_step (Settled g) v \<longleftrightarrow> v = Settled g \<or> v = Switching g (other_slot g) \<or> v = Settled (other_slot g)"
| "view_step (Switching f t) v \<longleftrightarrow> v = Switching f t \<or> v = Settled t"

definition view_begins :: "serving_view \<Rightarrow> serving_view \<Rightarrow> bool" where
  "view_begins v v' \<longleftrightarrow> v' = v \<or> (\<exists>g. v = Settled g \<and> v' = Switching g (other_slot g))"

lemma view_begins_step: "view_begins v v' \<Longrightarrow> v' = Switching f t \<Longrightarrow> view_step v' v'' \<Longrightarrow> view_step v v''"
  by (auto simp: view_begins_def)

lemma view_begins_only: "view_begins v v' \<Longrightarrow> view_step v v'"
  by (cases v) (auto simp: view_begins_def)

lemma view_pending: "pending_rows ids d = [r] \<Longrightarrow> serving_view ids d = Switching (text_or_empty (pm_from r)) (pm_to r)"
  by (simp add: serving_view_def)

lemma view_settled: "settled_on ids g d \<Longrightarrow> serving_view ids d = Settled g"
  by (auto simp: serving_view_def settled_on_def)

lemma standalone_invI:
  assumes "generations_ok (db_generations d)" "pointers_ok (db_pointers d)" "promotions_ok (db_promotions d)"
    "slot_pointers ids d = [p]" "pending_rows ids d = [r]" "journal_agrees ids d p r"
  shows "standalone_inv ids d"
  using assms by (simp add: standalone_inv_def)

lemma standalone_invE:
  assumes "standalone_inv ids d" "pending_rows ids d = [r]"
  obtains p where "generations_ok (db_generations d)" "pointers_ok (db_pointers d)" "promotions_ok (db_promotions d)"
    "slot_pointers ids d = [p]" "journal_agrees ids d p r"
  using assms unfolding standalone_inv_def by (auto split: list.splits)

lemma standalone_inv_pointer:
  assumes "standalone_inv ids d"
  obtains p where "slot_pointers ids d = [p]"
  using assms unfolding standalone_inv_def by (auto split: list.splits)

lemma pointer_query_single:
  "pointers_ok ps \<Longrightarrow> filter (\<lambda>p. pt_query p = q \<and> pt_source p = s) ps = [p] \<Longrightarrow> Q p \<Longrightarrow> (\<And>x. pt_query (f x) = pt_query x) \<Longrightarrow>
     (\<And>x. pt_source (f x) = pt_source x) \<Longrightarrow>
     filter (\<lambda>p. pt_query p = q \<and> pt_source p = s) (update_rows (\<lambda>p. pt_query p = q \<and> pt_source p = s \<and> Q p) f ps) = [f p] \<and>
     filter (\<lambda>p. pt_query p = q \<and> pt_source p = s \<and> Q p) ps = [p]"
proof -
  assume a: "pointers_ok ps" "filter (\<lambda>p. pt_query p = q \<and> pt_source p = s) ps = [p]" "Q p"
    "\<And>x. pt_query (f x) = pt_query x" "\<And>x. pt_source (f x) = pt_source x"
  have "p \<in> set (filter (\<lambda>p. pt_query p = q \<and> pt_source p = s) ps)" using a(2) by simp
  then have p: "pt_query p = q" "pt_source p = s" by simp_all
  from a(1) have dist: "distinct (map pt_query ps)" by (simp add: pointers_ok_def)
  show ?thesis
    using filter_update_key(1,3) [OF dist a(2), of "\<lambda>x. pt_source x = s \<and> Q x"] p a(3-5) by auto
qed

section \<open>The steps under the invariant\<close>

lemma journal_of_simps [simp]:
  "j_id (journal_of r) = pm_id r" "j_from (journal_of r) = pm_from r" "j_to (journal_of r) = pm_to r"
  "j_state (journal_of r) = pm_state r" "j_phase (journal_of r) = pm_phase r" "j_resulting (journal_of r) = pm_resulting r"
  "pm_expected r = Some v \<Longrightarrow> j_expected (journal_of r) = v"
  by (simp_all add: journal_of_def)

lemma open_journal_row:
  assumes "promotions_ok (db_promotions d)" "pending_rows ids d = [r]"
  shows "filter (\<lambda>p. pm_id p = pm_id r) (db_promotions d) = [r]" "pm_state r = ''PREPARING''" "pm_source r = id_source ids"
proof -
  have "r \<in> set (pending_rows ids d)" using assms(2) by simp
  then show "pm_state r = ''PREPARING''" "pm_source r = id_source ids" by (simp_all add: pending_rows_def is_pending_def)
  have dist: "distinct (map pm_id (db_promotions d))" using assms(1) by (simp add: promotions_ok_def)
  show "filter (\<lambda>p. pm_id p = pm_id r) (db_promotions d) = [r]"
    using filter_update_key(2) [OF dist assms(2) [unfolded pending_rows_def], of "\<lambda>_. True"] by simp
qed

text \<open>Updating the pending entry keeps it the pending one\<close>

lemma pending_update:
  assumes "promotions_ok (db_promotions d)" "pending_rows ids d = [r]" "Q r"
    "\<And>x. pm_id (f x) = pm_id x" "pm_source (f r) = pm_source r"
    "db_promotions d' = update_rows (\<lambda>p. pm_id p = pm_id r \<and> Q p) f (db_promotions d)"
  shows "pending_rows ids d' = (if pm_state (f r) = ''PREPARING'' then [f r] else [])"
    "promotions_ok (db_promotions d')"
    "filter (\<lambda>p. pm_id p = pm_id r \<and> Q p) (db_promotions d) = [r]"
proof -
  have dist: "distinct (map pm_id (db_promotions d))" using assms(1) by (simp add: promotions_ok_def)
  show "pending_rows ids d' = (if pm_state (f r) = ''PREPARING'' then [f r] else [])"
    using filter_update_key(1) [where Q = Q, OF dist assms(2) [unfolded pending_rows_def] assms(3), of f] assms(5,6)
      open_journal_row(3) [OF assms(1,2)] by (simp add: pending_rows_def is_pending_def)
  show "filter (\<lambda>p. pm_id p = pm_id r \<and> Q p) (db_promotions d) = [r]"
    using filter_update_key(3) [where Q = Q, OF dist assms(2) [unfolded pending_rows_def] assms(3)] .
  show "promotions_ok (db_promotions d')"
    using dist by (simp add: promotions_ok_def assms(6) map_update_rows assms(4))
qed

definition pending_step :: "identities \<Rightarrow> promotion_row \<Rightarrow> string set \<Rightarrow> journal result \<Rightarrow> control_db \<Rightarrow> bool" where
  "pending_step ids r phases res d' \<longleftrightarrow> (\<exists>r'. res = Inr (journal_of r') \<and> standalone_inv ids d' \<and>
     pending_rows ids d' = [r'] \<and> pm_phase r' \<in> phases \<and> pm_to r' = pm_to r \<and> pm_from r' = pm_from r \<and> pm_id r' = pm_id r)"

lemma cas_step:
  assumes inv: "standalone_inv ids d" and r: "pending_rows ids d = [r]"
  shows "wp (sc_cas ids (journal_of r)) (pending_step ids r {''POINTER_UPDATED'', ''ROUTER_VERIFIED''}) d"
proof -
  obtain p where ok: "generations_ok (db_generations d)" "pointers_ok (db_pointers d)" "promotions_ok (db_promotions d)"
    and p: "slot_pointers ids d = [p]" and agrees: "journal_agrees ids d p r"
    by (rule standalone_invE [OF inv r]) (rule that)
  show ?thesis
  proof (cases "pm_phase r = ''PREPARING''")
    case False
    then show ?thesis using agrees r inv
      by (auto simp: sc_cas_def wp_simps pending_step_def journal_agrees_def split: if_splits)
  next
    case True
    with agrees have a: "pm_from r = Some (pt_generation p)" "pm_expected r = Some (pt_version p)"
      "registry_serves (id_source ids) (pt_generation p) (db_generations d)"
      "candidate_waits (id_source ids) (pm_to r) (db_generations d)" by (simp_all add: journal_agrees_def)
    let ?f = "\<lambda>x. x\<lparr>pt_previous := Some (pt_generation x), pt_generation := pm_to r, pt_version := pt_version x + 1,
        pt_updatedAt := db_now d\<rparr>"
    let ?g = "\<lambda>x. x\<lparr>pm_phase := ''POINTER_UPDATED'', pm_resulting := Some (pt_version p + 1)\<rparr>"
    let ?P = "\<lambda>x. pt_query x = id_query ids \<and> pt_source x = id_source ids \<and> Some (pt_generation x) = pm_from r \<and>
        pt_version x = pt_version p"
    have ptr: "filter (\<lambda>p. pt_query p = id_query ids \<and> pt_source p = id_source ids) (update_rows ?P ?f (db_pointers d)) = [?f p]"
      "filter ?P (db_pointers d) = [p]"
      using pointer_query_single [OF ok(2) p [unfolded slot_pointers_def],
          of "\<lambda>x. Some (pt_generation x) = pm_from r \<and> pt_version x = pt_version p" ?f] a by simp_all
    have pok: "pointers_ok (update_rows ?P ?f (db_pointers d))"
      using ok(2) by (simp add: pointers_ok_def map_update_rows)
    let ?d' = "d\<lparr>db_pointers := update_rows ?P ?f (db_pointers d),
        db_promotions := update_rows (\<lambda>x. pm_id x = pm_id r) ?g (db_promotions d)\<rparr>"
    note pend = pending_update [OF ok(3) r, of "\<lambda>_. True" ?g ?d', simplified]
    have "standalone_inv ids ?d'"
    proof (rule standalone_invI)
      show "slot_pointers ids ?d' = [?f p]" using ptr(1) by (simp add: slot_pointers_def)
      show "pending_rows ids ?d' = [?g r]" using pend(1) open_journal_row(2) [OF ok(3) r] by simp
      show "journal_agrees ids ?d' (?f p) (?g r)" using a by (simp add: journal_agrees_def)
    qed (use ok(1) pok pend(2) in simp_all)
    then show ?thesis using True a(2) ptr(2) pok pend open_journal_row [OF ok(3) r]
      by (simp add: sc_cas_def wp_simps promotion_first_def pending_step_def)
  qed
qed

lemma verified_step:
  assumes inv: "standalone_inv ids d" and r: "pending_rows ids d = [r]" and phase: "pm_phase r = ''POINTER_UPDATED''"
  shows "wp (sc_verified (journal_of r)) (pending_step ids r {''ROUTER_VERIFIED''}) d"
proof -
  obtain p where ok: "generations_ok (db_generations d)" "pointers_ok (db_pointers d)" "promotions_ok (db_promotions d)"
    and p: "slot_pointers ids d = [p]" and agrees: "journal_agrees ids d p r"
    by (rule standalone_invE [OF inv r]) (rule that)
  let ?g = "\<lambda>x. x\<lparr>pm_phase := ''ROUTER_VERIFIED'', pm_verifiedAt := Some (db_now d)\<rparr>"
  let ?d' = "d\<lparr>db_promotions := update_rows (\<lambda>x. pm_id x = pm_id r \<and> pm_phase x = ''POINTER_UPDATED'') ?g (db_promotions d)\<rparr>"
  note pend = pending_update [OF ok(3) r, of "\<lambda>x. pm_phase x = ''POINTER_UPDATED''" ?g ?d', simplified, OF phase]
  have "standalone_inv ids ?d'"
  proof (rule standalone_invI)
    show "slot_pointers ids ?d' = [p]" using p by (simp add: slot_pointers_def)
    show "pending_rows ids ?d' = [?g r]" using pend(1) open_journal_row(2) [OF ok(3) r] by simp
    show "journal_agrees ids ?d' p (?g r)" using agrees phase
      by (auto simp: journal_agrees_def split: option.splits)
  qed (use ok pend(2) in simp_all)
  then show ?thesis using pend open_journal_row [OF ok(3) r]
    by (simp add: sc_verified_def wp_simps promotion_first_def pending_step_def)
qed

text \<open>The registry through the three statements of the last transaction, row by row\<close>

definition settled_row :: "string \<Rightarrow> string \<Rightarrow> string \<Rightarrow> int \<Rightarrow> generation_row \<Rightarrow> generation_row" where
  "settled_row source f t now r =
    (if gr_source r \<noteq> source then r
     else if gr_id r = t then serve now (if serving_or_rollback source r then unprotect r else r)
     else if gr_id r = f then demote_to ''RETIRING'' (if serving_or_rollback source r then unprotect r else r)
     else if serving_or_rollback source r then unprotect r else r)"

lemma row_statements [simp]:
  "gr_source (unprotect r) = gr_source r" "gr_id (unprotect r) = gr_id r" "gr_state (unprotect r) = gr_state r"
  "gr_validation (unprotect r) = gr_validation r" "gr_checksum (unprotect r) = gr_checksum r"
  "gr_protection (unprotect r) = ''NONE''" "gr_promotedAt (unprotect r) = gr_promotedAt r"
  "gr_source (demote_to st r) = gr_source r" "gr_id (demote_to st r) = gr_id r" "gr_state (demote_to st r) = st"
  "gr_validation (demote_to st r) = gr_validation r" "gr_checksum (demote_to st r) = gr_checksum r"
  "gr_protection (demote_to st r) = ''ROLLBACK''" "gr_promotedAt (demote_to st r) = gr_promotedAt r"
  "gr_source (serve t r) = gr_source r" "gr_id (serve t r) = gr_id r" "gr_state (serve t r) = ''SERVING''"
  "gr_validation (serve t r) = gr_validation r" "gr_checksum (serve t r) = gr_checksum r"
  "gr_protection (serve t r) = ''SERVING''" "gr_promotedAt (serve t r) = Some t"
  by (simp_all add: unprotect_def demote_to_def serve_def bump_def)

lemma registry_statements:
  fixes s f t :: string and now :: int and gs :: "generation_row list"
  assumes ok: "generations_ok gs" and serves: "registry_serves s f gs" and waits: "candidate_waits s t gs"
  defines "g1 \<equiv> update_rows (serving_or_rollback s) unprotect gs"
  defines "g2 \<equiv> update_rows (\<lambda>r. gr_source r = s \<and> gr_id r = f \<and> gr_state r = ''SERVING'') (demote_to ''RETIRING'') g1"
  defines "g3 \<equiv> update_rows (\<lambda>r. is_generation s t r \<and> (gr_state r = ''READY'' \<or> gr_state r = ''RETIRING'')) (serve now) g2"
  shows "generations_ok g1" "generations_ok g2" "generations_ok g3"
    "length (filter (\<lambda>r. gr_source r = s \<and> gr_id r = f \<and> gr_state r = ''SERVING'') g1) = 1"
    "length (filter (\<lambda>r. is_generation s t r \<and> (gr_state r = ''READY'' \<or> gr_state r = ''RETIRING'')) g2) = 1"
    "registry_serves s t g3" "\<forall>g \<in> set g3. gr_source g = s \<longrightarrow> (gr_protection g = ''ROLLBACK'' \<longleftrightarrow> gr_id g = f)"
proof -
  let ?F1 = "\<lambda>r. if serving_or_rollback s r then unprotect r else r"
  let ?F2 = "\<lambda>r. if gr_source r = s \<and> gr_id r = f then demote_to ''RETIRING'' (?F1 r) else ?F1 r"
  have dist: "distinct (map generation_key gs)" using ok by (simp add: generations_ok_iff)
  from serves obtain old where old: "old \<in> set gs" "gr_source old = s" "gr_id old = f"
    by (auto simp: registry_serves_def list_ex_iff is_generation_def)
  have st: "gr_state r = ''SERVING'' \<longleftrightarrow> gr_id r = f" "gr_protection r = ''SERVING'' \<longleftrightarrow> gr_id r = f"
    if "r \<in> set gs" "gr_source r = s" for r
    using serves that by (simp_all add: registry_serves_def)
  from waits obtain new where new: "filter (is_generation s t) gs = [new]" "gr_validation new = ''VALID''"
    "gr_state new = ''READY'' \<and> gr_protection new = ''NONE'' \<or> gr_state new = ''RETIRING'' \<and> gr_protection new = ''ROLLBACK''"
    by (auto simp: candidate_waits_def candidateLifecycleEligible_def split: list.splits)
  then have "new \<in> set (filter (is_generation s t) gs)" by simp
  then have new': "new \<in> set gs" "gr_source new = s" "gr_id new = t" by (simp_all add: is_generation_def)
  have tf: "t \<noteq> f" using st(1) [OF new'(1,2)] new(3) new'(3) by auto
  have only: "r = new" if "r \<in> set gs" "gr_source r = s" "gr_id r = t" for r
  proof -
    have "r \<in> set (filter (is_generation s t) gs)" using that by (simp add: is_generation_def)
    with new(1) show ?thesis by simp
  qed
  have u: "gr_id a = gr_id b" if "a \<in> set gs" "b \<in> set gs" "gr_source a = gr_source b" "gr_state a = ''SERVING''"
    "gr_state b = ''SERVING''" for a b using ok that unfolding generations_ok_iff by blast
  have v: "gr_id a = gr_id b" if "a \<in> set gs" "b \<in> set gs" "gr_source a = gr_source b" "gr_protection a = ''ROLLBACK''"
    "gr_protection b = ''ROLLBACK''" for a b using ok that unfolding generations_ok_iff by blast
  have w: "gr_validation a = ''VALID'' \<and> gr_promotedAt a \<noteq> None" if "a \<in> set gs" "gr_state a = ''SERVING''" for a
    using ok that unfolding generations_ok_iff by blast
  have g1: "g1 = map ?F1 gs" by (simp add: g1_def update_rows_def)
  have g2: "g2 = map ?F2 gs" unfolding g2_def g1 using st by (auto simp: update_rows_def)
  have g3: "g3 = map (settled_row s f t now) gs"
    unfolding g3_def g2 using st only new(3) tf
    by (auto simp: update_rows_def settled_row_def is_generation_def serving_or_rollback_def)
  show "generations_ok g1" unfolding g1
    by (rule generations_ok_map [OF ok]) (auto simp: serving_or_rollback_def split: if_splits dest: u v w)
  show "generations_ok g2" unfolding g2
    by (rule generations_ok_map [OF ok]) (auto simp: serving_or_rollback_def split: if_splits dest: u v w)
  have sr: "gr_state (settled_row s f t now a) = ''SERVING'' \<longleftrightarrow> gr_id a = t"
    "gr_protection (settled_row s f t now a) = ''SERVING'' \<longleftrightarrow> gr_id a = t"
    "gr_protection (settled_row s f t now a) = ''ROLLBACK'' \<longleftrightarrow> gr_id a = f"
    if "a \<in> set gs" "gr_source a = s" for a
    using st [OF that] that(2) tf by (auto simp: settled_row_def serving_or_rollback_def)
  have other: "settled_row s f t now a = a" if "gr_source a \<noteq> s" for a using that by (simp add: settled_row_def)
  have kept: "gr_source (settled_row s f t now r) = gr_source r" "gr_id (settled_row s f t now r) = gr_id r"
    "gr_validation (settled_row s f t now r) = gr_validation r" "gr_checksum (settled_row s f t now r) = gr_checksum r" for r
    by (simp_all add: settled_row_def)
  show "generations_ok g3" unfolding g3
  proof (rule generations_ok_map [OF ok kept])
    show "gr_id a = gr_id b" if "a \<in> set gs" "b \<in> set gs" "gr_source a = gr_source b"
      "gr_state (settled_row s f t now a) = ''SERVING''" "gr_state (settled_row s f t now b) = ''SERVING''" for a b
    proof (cases "gr_source b = s")
      case True
      with that sr(1) [of a] sr(1) [of b] show ?thesis by metis
    next
      case False
      with that other [of a] other [of b] show ?thesis by (intro u) simp_all
    qed
    show "gr_id a = gr_id b" if "a \<in> set gs" "b \<in> set gs" "gr_source a = gr_source b"
      "gr_protection (settled_row s f t now a) = ''ROLLBACK''" "gr_protection (settled_row s f t now b) = ''ROLLBACK''" for a b
    proof (cases "gr_source b = s")
      case True
      with that sr(3) [of a] sr(3) [of b] show ?thesis by metis
    next
      case False
      with that other [of a] other [of b] show ?thesis by (intro v) simp_all
    qed
    show "gr_validation a = ''VALID'' \<and> gr_promotedAt (settled_row s f t now a) \<noteq> None"
      if "a \<in> set gs" "gr_state (settled_row s f t now a) = ''SERVING''" for a
    proof (cases "gr_source a = s")
      case True
      with that sr(1) only have "a = new" "gr_id a = t" by blast+
      with True new(2) show ?thesis by (simp add: settled_row_def)
    qed (use that w [of a] other [of a] in simp)
  qed
  have "filter (\<lambda>r. gr_source r = gr_source (?F1 old) \<and> gr_id r = gr_id (?F1 old) \<and> gr_state r = ''SERVING'') g1 = [?F1 old]"
    by (rule filter_generation [OF generations_ok_keys [OF \<open>generations_ok g1\<close>]])
      (use old st(1) [OF old(1,2)] in \<open>auto simp: g1\<close>)
  then show "length (filter (\<lambda>r. gr_source r = s \<and> gr_id r = f \<and> gr_state r = ''SERVING'') g1) = 1"
    using old by (simp split: if_splits)
  have "filter (\<lambda>r. gr_source r = gr_source (?F2 new) \<and> gr_id r = gr_id (?F2 new) \<and>
      (gr_state r = ''READY'' \<or> gr_state r = ''RETIRING'')) g2 = [?F2 new]"
    by (rule filter_generation [OF generations_ok_keys [OF \<open>generations_ok g2\<close>]])
      (use new' new(3) tf in \<open>auto simp: g2\<close>)
  then show "length (filter (\<lambda>r. is_generation s t r \<and> (gr_state r = ''READY'' \<or> gr_state r = ''RETIRING'')) g2) = 1"
    using new' tf by (simp add: is_generation_def conj_assoc split: if_splits)
  show "registry_serves s t g3"
    unfolding g3 registry_serves_def using new' sr by (auto simp: kept is_generation_def list_ex_iff)
  show "\<forall>g \<in> set g3. gr_source g = s \<longrightarrow> (gr_protection g = ''ROLLBACK'' \<longleftrightarrow> gr_id g = f)"
    unfolding g3 using sr(3) by (auto simp: kept)
qed

text \<open>What is left when a promotion ends\<close>

definition promotion_done :: "identities \<Rightarrow> promotion_row \<Rightarrow> journal result \<Rightarrow> control_db \<Rightarrow> bool" where
  "promotion_done ids r res d' \<longleftrightarrow> settled_on ids (pm_to r) d' \<and>
     (\<exists>j. res = Inr j \<and> j_phase j = ''GENERATION_FINALIZED'' \<and> j_state j = ''COMMITTED'' \<and>
        j_id j = pm_id r \<and> j_from j = pm_from r \<and> j_to j = pm_to r) \<and>
     (\<forall>g \<in> set (db_generations d'). gr_source g = id_source ids \<longrightarrow>
        (gr_protection g = ''ROLLBACK'' \<longleftrightarrow> Some (gr_id g) = pm_from r))"

lemma finalize_step:
  assumes inv: "standalone_inv ids d" and r: "pending_rows ids d = [r]" and phase: "pm_phase r = ''ROUTER_VERIFIED''"
  shows "wp (sc_finalize ids (journal_of r)) (promotion_done ids r) d"
proof -
  obtain p where ok: "generations_ok (db_generations d)" "pointers_ok (db_pointers d)" "promotions_ok (db_promotions d)"
    and p: "slot_pointers ids d = [p]" and agrees: "journal_agrees ids d p r"
    by (rule standalone_invE [OF inv r]) (rule that)
  from agrees phase obtain f where a: "candidate_waits (id_source ids) (pm_to r) (db_generations d)"
      "pt_generation p = pm_to r" "pm_from r = Some f" "registry_serves (id_source ids) f (db_generations d)"
    by (auto simp: journal_agrees_def split: option.splits)
  obtain t where t: "filter (is_generation (id_source ids) (pm_to r)) (db_generations d) = [t]"
      "candidateLifecycleEligible t ''PROMOTE'' \<or> candidateLifecycleEligible t ''ROLLBACK''"
    using a(1) by (auto simp: candidate_waits_def split: list.splits)
  let ?g1 = "update_rows (serving_or_rollback (id_source ids)) unprotect (db_generations d)"
  let ?g2 = "update_rows (\<lambda>r. gr_source r = id_source ids \<and> gr_id r = f \<and> gr_state r = ''SERVING'') (demote_to ''RETIRING'') ?g1"
  let ?g3 = "update_rows (\<lambda>x. is_generation (id_source ids) (pm_to r) x \<and> (gr_state x = ''READY'' \<or> gr_state x = ''RETIRING''))
      (serve (db_now d)) ?g2"
  note reg = registry_statements(1,2,4,5) [OF ok(1) a(4,1)] registry_statements(3,6,7) [OF ok(1) a(4,1), of "db_now d"]
  let ?done = "\<lambda>x. x\<lparr>pm_phase := ''GENERATION_FINALIZED'', pm_state := ''COMMITTED'', pm_completedAt := Some (db_now d)\<rparr>"
  let ?d' = "d\<lparr>db_generations := ?g3, db_promotions := update_rows (\<lambda>p. pm_id p = pm_id r) ?done (db_promotions d)\<rparr>"
  note pend = pending_update [OF ok(3) r, of "\<lambda>_. True" ?done ?d', simplified]
  have sp: "slot_pointers ids ?d' = [p]" using p by (simp add: slot_pointers_def)
  have "standalone_inv ids ?d'"
    unfolding standalone_inv_def using reg(5,6) ok(2) pend a(2) sp by simp
  then have "settled_on ids (pm_to r) ?d'" using pend(1) sp a(2) by (simp add: settled_on_def)
  then have "promotion_done ids r (Inr (journal_of (?done r))) ?d'"
    using reg(7) a(3) by (auto simp: promotion_done_def journal_of_def)
  then show ?thesis
    using phase t reg(1-5) a(3) pend open_journal_row [OF ok(3) r]
    by (simp add: sc_finalize_def wp_simps promotion_first_def)
qed

text \<open>Beginning leaves the invariant, with the entry to work on as the pending one\<close>

lemma drawn_same [simp]:
  "pending_rows ids (d\<lparr>db_drawn := n\<rparr>) = pending_rows ids d" "slot_pointers ids (d\<lparr>db_drawn := n\<rparr>) = slot_pointers ids d"
  "journal_agrees ids (d\<lparr>db_drawn := n\<rparr>) = journal_agrees ids d"
  by (simp_all add: slot_pointers_def pending_rows_def journal_agrees_def fun_eq_iff split: option.split)

lemma drawn_view [simp]: "serving_view ids (d\<lparr>db_drawn := n\<rparr>) = serving_view ids d"
  unfolding serving_view_def drawn_same ..

lemma drawn_inv [simp]: "standalone_inv ids (d\<lparr>db_drawn := n\<rparr>) = standalone_inv ids d"
  unfolding standalone_inv_def drawn_same by (simp split: list.split)

lemma pending_read:
  assumes "standalone_inv ids d"
  shows "wp (sc_pending ids) (\<lambda>res d'. d' = d \<and> res = Inr (case pending_rows ids d of [r] \<Rightarrow> Some (journal_of r) | _ \<Rightarrow> None)) d"
  using assms unfolding standalone_inv_def
  by (auto simp: sc_pending_def wp_simps pending_rows_def first_journal_def split: list.splits)

definition begun :: "identities \<Rightarrow> control_db \<Rightarrow> (journal \<times> bool) result \<Rightarrow> control_db \<Rightarrow> bool" where
  "begun ids d res d' \<longleftrightarrow> standalone_inv ids d' \<and> view_begins (serving_view ids d) (serving_view ids d') \<and>
     (\<forall>j. res = Inr (j, False) \<longrightarrow> (\<exists>r. pending_rows ids d' = [r] \<and> j = journal_of r)) \<and>
     (\<forall>j. res = Inr (j, True) \<longrightarrow> pending_rows ids d' = [])"

lemma candidate_row:
  assumes "generations_ok (db_generations d)" "candidate_rows s t d = [((g, y), x)]"
  shows "filter (is_generation s t) (db_generations d) = [g]"
proof -
  have "((g, y), x) \<in> set (candidate_rows s t d)" using assms(2) by simp
  then have g: "g \<in> set (db_generations d)" "gr_source g = s" "gr_id g = t"
    by (auto simp: candidate_rows_def joined_generations_def is_generation_def)
  with filter_generation [OF generations_ok_keys [OF assms(1)], of g "\<lambda>_. True"] show ?thesis
    by (simp add: is_generation_def [abs_def])
qed

lemma precondition_reads:
  assumes "generations_ok (db_generations d)"
  shows "wp (sc_precondition ids mode) (\<lambda>res d'. d' = d \<and> (\<forall>pre. res = Inr pre \<longrightarrow>
     (\<exists>p. slot_pointers ids d = [p] \<and> sp_from pre = pt_generation p \<and> sp_version pre = pt_version p) \<and>
     sp_to pre = other_slot (sp_from pre) \<and> (\<exists>g. filter (is_generation (id_source ids) (sp_to pre)) (db_generations d) = [g] \<and> candidate_validated g mode))) d"
  using candidate_row [OF assms]
  by (auto simp: sc_precondition_def sc_pointer_def wp_simps slot_pointers_def slot_pointer_of_def Let_def
      split: list.splits sum.splits)

lemma begin_step:
  assumes inv: "standalone_inv ids d"
  shows "wp (sc_begin ids mode) (begun ids d) d"
proof -
  obtain p where p: "slot_pointers ids d = [p]" by (rule standalone_inv_pointer [OF inv])
  have ok: "generations_ok (db_generations d)" "pointers_ok (db_pointers d)" "promotions_ok (db_promotions d)"
    using inv by (simp_all add: standalone_inv_def)
  consider (none) "pending_rows ids d = []" | (one) r where "pending_rows ids d = [r]"
    using inv p unfolding standalone_inv_def by (auto split: list.splits)
  then show ?thesis
  proof cases
    case one
    then show ?thesis using p inv
      by (simp add: sc_begin_def sc_pointer_def sc_pending_def wp_simps slot_pointers_def pending_rows_def
          first_journal_def begun_def view_begins_def)
  next
    case none
    let ?new = "\<lambda>pre u. \<lparr>pm_id = u, pm_operation = None, pm_source = id_source ids,
       pm_from = Some (sp_from pre), pm_to = sp_to pre, pm_state = ''PREPARING'', pm_phase = ''PREPARING'',
       pm_expected = Some (sp_version pre), pm_resulting = None, pm_createdAt = db_now d, pm_verifiedAt = None,
       pm_completedAt = None\<rparr>"
    have new: "begun ids d (Inr (journal_of (?new pre u), False))
        (d\<lparr>db_drawn := n, db_promotions := db_promotions d @ [?new pre u]\<rparr>)"
      if "promotions_ok (db_promotions d @ [?new pre u])" "sp_from pre = pt_generation p" "sp_version pre = pt_version p"
        "filter (is_generation (id_source ids) (sp_to pre)) (db_generations d) = [g]" "candidate_validated g mode"
        "sp_to pre = other_slot (sp_from pre)"
      for pre u n g
    proof -
      let ?d' = "d\<lparr>db_drawn := n, db_promotions := db_promotions d @ [?new pre u]\<rparr>"
      have pend: "pending_rows ids ?d' = [?new pre u]" using none by (simp add: pending_rows_def is_pending_def)
      moreover have "standalone_inv ids ?d'"
      proof (rule standalone_invI [OF _ _ _ _ pend])
        show "slot_pointers ids ?d' = [p]" using p by (simp add: slot_pointers_def)
        have "registry_serves (id_source ids) (pt_generation p) (db_generations d)"
          using inv p none by (simp add: standalone_inv_def)
        moreover have "candidate_waits (id_source ids) (sp_to pre) (db_generations d)"
          using that(4,5) by (auto simp: candidate_waits_def candidate_validated_def candidateLifecycleEligible_def split: if_splits)
        ultimately show "journal_agrees ids ?d' p (?new pre u)" using that(2,3) by (simp add: journal_agrees_def)
      qed (use ok that(1) in simp_all)
      moreover have "serving_view ids d = Settled (pt_generation p)" using none p by (simp add: serving_view_def)
      then have "view_begins (serving_view ids d) (serving_view ids ?d')"
        unfolding view_pending [OF pend] using that(2,6) by (simp add: view_begins_def text_or_empty_def)
      ultimately show ?thesis by (simp add: begun_def)
    qed
    have fresh: "wp (bindA (sc_precondition ids mode) (\<lambda>pre. bindA (sc_insert ids pre) (\<lambda>j. returnA (j, False)))) (begun ids d) d"
      unfolding wp_bindA
    proof (rule wp_mono [OF precondition_reads [OF ok(1)]])
      fix res :: "slot_precondition result" and d' assume a: "d' = d \<and> (\<forall>pre. res = Inr pre \<longrightarrow>
         (\<exists>p. slot_pointers ids d = [p] \<and> sp_from pre = pt_generation p \<and> sp_version pre = pt_version p) \<and>
         sp_to pre = other_slot (sp_from pre) \<and> (\<exists>g. filter (is_generation (id_source ids) (sp_to pre)) (db_generations d) = [g] \<and> candidate_validated g mode))"
      show "case res of Inl e \<Rightarrow> begun ids d (Inl e) d' | Inr pre \<Rightarrow>
          wp (sc_insert ids pre) (\<lambda>r s'. case r of Inl e \<Rightarrow> begun ids d (Inl e) s' | Inr x \<Rightarrow> wp (returnA (x, False)) (begun ids d) s') d'"
      proof (cases res)
        case (Inl e)
        then show ?thesis using a inv by (simp add: begun_def view_begins_def)
      next
        case (Inr pre)
        with a p obtain g where "sp_from pre = pt_generation p" "sp_version pre = pt_version p"
          "filter (is_generation (id_source ids) (sp_to pre)) (db_generations d) = [g]" "candidate_validated g mode"
          "sp_to pre = other_slot (sp_from pre)" by auto
        note n = new [OF _ this]
        have e: "begun ids d (Inl err) (d\<lparr>db_drawn := m\<rparr>)" for err m using inv by (simp add: begun_def view_begins_def)
        show ?thesis using Inr a n e 
          by (auto simp: sc_insert_def insert_promotion_checked_def wp_simps generation_known_def split: sum.split)
      qed
    qed
    have again: "begun ids d (Inr (j, True)) d" for j using inv none by (simp add: begun_def view_begins_def)
    show ?thesis using p none fresh again
      by (simp add: sc_begin_def sc_pointer_def sc_pending_def sc_completed_def wp_simps slot_pointers_def pending_rows_def
          first_journal_def split: list.splits)
  qed
qed

definition advanced :: "identities \<Rightarrow> promotion_row \<Rightarrow> journal result \<Rightarrow> control_db \<Rightarrow> bool" where
  "advanced ids r res d' \<longleftrightarrow> standalone_inv ids d' \<and>
     view_step (Switching (text_or_empty (pm_from r)) (pm_to r)) (serving_view ids d') \<and> (\<forall>j. res = Inr j \<longrightarrow> promotion_done ids r (Inr j) d')"

lemma promotion_done_eq:
  "pm_to r' = pm_to r \<Longrightarrow> pm_from r' = pm_from r \<Longrightarrow> pm_id r' = pm_id r \<Longrightarrow>
     promotion_done ids r' res d = promotion_done ids r res d"
  by (simp add: promotion_done_def)

lemma finalize_advanced:
  assumes "standalone_inv ids d" "pending_rows ids d = [r]" "pm_phase r = ''ROUTER_VERIFIED''"
  shows "wp (sc_finalize ids (journal_of r)) (\<lambda>res d'. advanced ids r res d' \<and> is_ok res) d"
  by (rule wp_mono [OF finalize_step [OF assms]]) (auto simp: promotion_done_def advanced_def settled_on_def view_settled)

text \<open>The part after the pointer: an observer that answers \<open>True\<close> makes it succeed\<close>

lemma switched_step:
  assumes inv: "standalone_inv ids d" and r: "pending_rows ids d = [r]"
    and phase: "pm_phase r = ''POINTER_UPDATED'' \<or> pm_phase r = ''ROUTER_VERIFIED''"
  shows "wp (bindA (if j_phase (journal_of r) = ''POINTER_UPDATED''
             then bindA (on_snd (observe (j_to (journal_of r)) (j_resulting (journal_of r)))) (\<lambda>observed.
               thenA (ensureA observed ''ROUTER_PROMOTION_NOT_OBSERVED'') (on_fst (sc_verified (journal_of r))))
             else returnA (journal_of r)) (\<lambda>verified.
     if j_phase verified = ''ROUTER_VERIFIED'' then on_fst (sc_finalize ids verified) else returnA verified))
    (\<lambda>res s'. advanced ids r res (fst s') \<and> (is_ok res \<or> (\<exists>v w. fst (observe (pm_to r) v w) \<noteq> Inr True))) (d, w)"
proof (cases "pm_phase r = ''ROUTER_VERIFIED''")
  case True
  show ?thesis using wp_mono [OF finalize_advanced [OF inv r True]] True
    by (simp add: wp_simps)
next
  case False
  with phase have p: "pm_phase r = ''POINTER_UPDATED''" by simp
  obtain res w' where o: "observe (pm_to r) (pm_resulting r) w = (res, w')" by fastforce
  have err: "advanced ids r (Inl e) d" for e using inv view_pending [OF r] by (simp add: advanced_def)
  have v: "wp (sc_verified (journal_of r)) (\<lambda>r1 d1. case r1 of Inl e \<Rightarrow> advanced ids r (Inl e) d1 \<and> False
      | Inr j \<Rightarrow> wp (if j_phase j = ''ROUTER_VERIFIED'' then on_fst (sc_finalize ids j) else returnA j)
         (\<lambda>res s'. advanced ids r res (fst s') \<and> is_ok res) (d1, w')) d"
  proof (rule wp_mono [OF verified_step [OF inv r p]])
    fix r1 d1 assume "pending_step ids r {''ROUTER_VERIFIED''} r1 d1"
    then obtain r' where r': "r1 = Inr (journal_of r')" "standalone_inv ids d1" "pending_rows ids d1 = [r']"
        "pm_phase r' = ''ROUTER_VERIFIED''" "pm_to r' = pm_to r" "pm_from r' = pm_from r" "pm_id r' = pm_id r"
      by (auto simp: pending_step_def)
    have "advanced ids r' res x = advanced ids r res x" for res x
      using promotion_done_eq [OF r'(5-7)] r'(5,6) by (simp add: advanced_def)
    with finalize_advanced [OF r'(2-4)] r'(1,4)
    show "case r1 of Inl e \<Rightarrow> advanced ids r (Inl e) d1 \<and> False
      | Inr j \<Rightarrow> wp (if j_phase j = ''ROUTER_VERIFIED'' then on_fst (sc_finalize ids j) else returnA j)
         (\<lambda>res s'. advanced ids r res (fst s') \<and> is_ok res) (d1, w')"
      by (simp add: wp_simps)
  qed
  show ?thesis
  proof (cases "res = Inr True")
    case True
    show ?thesis using p o True
      by (simp add: wp_simps wp_def [of "observe _ _"]) (rule wp_mono [OF v], auto split: sum.splits elim: wp_mono)
  next
    case False
    have "advanced ids r (Inl e) (fst (d, w')) \<and> (\<exists>v w. fst (observe (pm_to r) v w) \<noteq> Inr True)" for e
      using err o False by (auto intro!: exI [of _ "pm_resulting r"] exI [of _ w])
    then show ?thesis using p o False
      by (simp add: wp_simps wp_def [of "observe _ _"] split: sum.splits)
  qed
qed

lemma advance_step:
  assumes inv: "standalone_inv ids d" and r: "pending_rows ids d = [r]"
  shows "wp (sc_advance ids observe crashAt (journal_of r))
    (\<lambda>res s'. advanced ids r res (fst s') \<and>
       (crashAt = None \<longrightarrow> is_ok res \<or> (\<exists>v w. fst (observe (pm_to r) v w) \<noteq> Inr True))) (d, w)"
proof -
  let ?Q = "\<lambda>res s'. advanced ids r res (fst s') \<and>
       (crashAt = None \<longrightarrow> is_ok res \<or> (\<exists>v w. fst (observe (pm_to r) v w) \<noteq> Inr True))"
  let ?crash = "\<lambda>switched. crashAt = Some ''AFTER_POINTER_CAS'' \<and> j_phase switched = ''POINTER_UPDATED''"
  let ?core = "\<lambda>switched. bindA (if j_phase switched = ''POINTER_UPDATED''
             then bindA (on_snd (observe (j_to switched) (j_resulting switched))) (\<lambda>observed.
               thenA (ensureA observed ''ROUTER_PROMOTION_NOT_OBSERVED'') (on_fst (sc_verified switched)))
             else returnA switched) (\<lambda>verified.
     if j_phase verified = ''ROUTER_VERIFIED'' then on_fst (sc_finalize ids verified) else returnA verified)"
  let ?rest = "\<lambda>switched. thenA (ensureA (\<not> ?crash switched) ''QUALIFICATION_CRASH_AFTER_POINTER_CAS'') (?core switched)"
  have err: "advanced ids r (Inl e) x" if "standalone_inv ids x" "pending_rows ids x = [r']" "pm_to r' = pm_to r"
    "pm_from r' = pm_from r" for e x r' using that view_pending [OF that(2)] by (simp add: advanced_def)
  have cas: "wp (sc_cas ids (journal_of r)) (\<lambda>r1 d1. case r1 of Inl e \<Rightarrow> ?Q (Inl e) (d1, w) | Inr j \<Rightarrow> wp (?rest j) ?Q (d1, w)) d"
  proof (rule wp_mono [OF cas_step [OF inv r]])
    fix r1 d1 assume "pending_step ids r {''POINTER_UPDATED'', ''ROUTER_VERIFIED''} r1 d1"
    then obtain r' where r': "r1 = Inr (journal_of r')" "standalone_inv ids d1" "pending_rows ids d1 = [r']"
        "pm_phase r' = ''POINTER_UPDATED'' \<or> pm_phase r' = ''ROUTER_VERIFIED''" "pm_to r' = pm_to r" "pm_from r' = pm_from r"
        "pm_id r' = pm_id r"
      by (auto simp: pending_step_def)
    have eq: "advanced ids r' res x = advanced ids r res x" for res x
      using promotion_done_eq [OF r'(5-7)] r'(5,6) by (simp add: advanced_def)
    have core: "wp (?core (journal_of r')) ?Q (d1, w)"
      by (rule wp_mono [OF switched_step [OF r'(2-4), of observe w, unfolded eq r'(5)]]) auto
    show "case r1 of Inl e \<Rightarrow> ?Q (Inl e) (d1, w) | Inr j \<Rightarrow> wp (?rest j) ?Q (d1, w)"
    proof (cases "?crash (journal_of r')")
      case True
      then show ?thesis using err [OF r'(2,3,5,6)] unfolding r'(1) sum.case wp_ensure by simp
    next
      case False
      show ?thesis unfolding r'(1) sum.case wp_ensure using core False by (simp only: if_True not_False_eq_True)
    qed
  qed
  have rest: "wp (bindA (on_fst (sc_cas ids (journal_of r))) ?rest) ?Q (d, w)"
    using cas by (simp only: wp_bindA wp_on_fst fst_conv snd_conv)
  show ?thesis
  proof (cases "crashAt = Some ''BEFORE_POINTER_CAS'' \<and> j_phase (journal_of r) = ''PREPARING''")
    case True
    then show ?thesis using err [OF inv r] unfolding sc_advance_def wp_ensure by simp
  next
    case False
    then show ?thesis using rest unfolding sc_advance_def wp_ensure by (simp only: if_True not_False_eq_True)
  qed
qed

lemma promote_step:
  assumes inv: "standalone_inv ids d"
  shows "wp (sc_promote ids observe mode crashAt) (\<lambda>res s'. standalone_inv ids (fst s') \<and>
    view_step (serving_view ids d) (serving_view ids (fst s')) \<and>
    (\<forall>j. res = Inr (j, False) \<longrightarrow> (\<exists>r. promotion_done ids r (Inr j) (fst s'))) \<and>
    (\<forall>j. res = Inr (j, True) \<longrightarrow> pending_rows ids (fst s') = [])) (d, w)"
    (is "wp _ ?Q _")
proof -
  have start: "wp (sc_begin ids mode) (\<lambda>r1 d1. case r1 of Inl e \<Rightarrow> ?Q (Inl e) (d1, w)
      | Inr (j, b) \<Rightarrow> wp (if b then returnA (j, True)
          else bindA (sc_advance ids observe crashAt j) (\<lambda>final. returnA (final, False))) ?Q (d1, w)) d"
  proof (rule wp_mono [OF begin_step [OF inv]])
    fix r1 d1 assume b: "begun ids d r1 d1"
    show "case r1 of Inl e \<Rightarrow> ?Q (Inl e) (d1, w)
      | Inr (j, b) \<Rightarrow> wp (if b then returnA (j, True)
          else bindA (sc_advance ids observe crashAt j) (\<lambda>final. returnA (final, False))) ?Q (d1, w)"
    proof (cases r1)
      case (Inl e)
      with b show ?thesis by (simp add: begun_def view_begins_only)
    next
      case (Inr x)
      obtain j flag where x: "x = (j, flag)" by fastforce
      show ?thesis
      proof (cases flag)
        case True
        with b Inr x show ?thesis by (simp add: begun_def view_begins_only wp_simps)
      next
        case False
        with b Inr x obtain r where r: "standalone_inv ids d1" "pending_rows ids d1 = [r]" "j = journal_of r"
          and v: "view_begins (serving_view ids d) (serving_view ids d1)" by (auto simp: begun_def)
        note v = view_begins_step [OF v view_pending [OF r(2)], unfolded view_pending [OF r(2)]]
        have "wp (bindA (sc_advance ids observe crashAt j) (\<lambda>final. returnA (final, False))) ?Q (d1, w)"
          unfolding r(3) wp_bindA wp_returnA
          by (rule wp_mono [OF advance_step [OF r(1,2)]]) (use v in \<open>auto simp: advanced_def split: sum.split\<close>)
        then show ?thesis using False Inr x by simp
      qed
    qed
  qed
  have "wp (bindA (on_fst (sc_begin ids mode)) (\<lambda>(pending, idempotent). if idempotent then returnA (pending, True)
     else bindA (sc_advance ids observe crashAt pending) (\<lambda>final. returnA (final, False)))) ?Q (d, w)"
    unfolding wp_bindA wp_on_fst fst_conv snd_conv by (rule wp_mono [OF start]) (auto split: sum.splits)
  moreover have "view_step v v" for v by (cases v) simp_all
  ultimately show ?thesis using inv by (simp add: sc_promote_def wp_ensure)
qed

section \<open>Properties\<close>

text \<open>
  Attempts in turn, each with an observer, a requested mode and a crash point of its own.  A crash
  of the source raises; the next attempt finds the database as the crash left it.
\<close>

fun run_attempts ::
  "identities \<Rightarrow> ((string \<Rightarrow> int option \<Rightarrow> ('w, bool) action) \<times> string \<times> string option) list \<Rightarrow>
   control_db \<times> 'w \<Rightarrow> control_db \<times> 'w" where
  "run_attempts ids [] s = s"
| "run_attempts ids ((observe, mode, crashAt) # as) s =
     run_attempts ids as (snd (sc_promote ids observe mode crashAt s))"

text \<open>
  Attempts that may also be killed: \<open>Some k\<close> is a death after \<open>k\<close> effects, or at the end when there are
  fewer.
\<close>

fun run_lives ::
  "identities \<Rightarrow> ((string \<Rightarrow> int option \<Rightarrow> ('w, bool) action) \<times> string \<times> string option \<times> nat option) list \<Rightarrow>
   control_db \<times> 'w \<Rightarrow> control_db \<times> 'w" where
  "run_lives ids [] s = s"
| "run_lives ids ((observe, mode, crashAt, killed) # as) s =
     run_lives ids as (case killed of
        None \<Rightarrow> snd (sc_promote ids observe mode crashAt s)
      | Some k \<Rightarrow> (let states = attempt_states ids observe mode crashAt s in states ! min k (length states - 1)))"

lemma finalize_states_inv:
  assumes "standalone_inv ids d" "pending_rows ids d = [r]"
  shows "\<forall>s \<in> set (finalize_states ids (journal_of r) (d, w)). standalone_inv ids (fst s)"
proof (cases "pm_phase r = ''ROUTER_VERIFIED''")
  case True
  from finalize_step [OF assms True] show ?thesis
    by (auto simp: finalize_states_def on_fst_def wp_def promotion_done_def settled_on_def split: prod.splits)
qed (simp add: finalize_states_def)

lemma verified_states_inv:
  assumes "standalone_inv ids d" "pending_rows ids d = [r]" "pm_phase r = ''POINTER_UPDATED''"
  shows "\<forall>s \<in> set (verified_states ids observe (journal_of r) (d, w)). standalone_inv ids (fst s)"
proof -
  obtain r1 w1 where o: "observe (pm_to r) (pm_resulting r) w = (r1, w1)" by fastforce
  obtain r2 d2 where v: "sc_verified (journal_of r) d = (r2, d2)" by fastforce
  from verified_step [OF assms] v have "pending_step ids r {''ROUTER_VERIFIED''} r2 d2" by (simp add: wp_def)
  then obtain r' where r': "r2 = Inr (journal_of r')" "standalone_inv ids d2" "pending_rows ids d2 = [r']"
    by (auto simp: pending_step_def)
  from finalize_states_inv [OF r'(2,3), of w1] show ?thesis
    using o v r'(1,2) assms(1) by (simp add: verified_states_def on_fst_def on_snd_def)
qed

lemma advance_states_inv:
  assumes "standalone_inv ids d" "pending_rows ids d = [r]"
  shows "\<forall>s \<in> set (advance_states ids observe crashAt (journal_of r) (d, w)). standalone_inv ids (fst s)"
proof -
  obtain r1 d1 where c: "sc_cas ids (journal_of r) d = (r1, d1)" by fastforce
  from cas_step [OF assms] c have "pending_step ids r {''POINTER_UPDATED'', ''ROUTER_VERIFIED''} r1 d1" by (simp add: wp_def)
  then obtain r' where r': "r1 = Inr (journal_of r')" "standalone_inv ids d1" "pending_rows ids d1 = [r']"
    by (auto simp: pending_step_def)
  show ?thesis
    using c r'(1,2) finalize_states_inv [OF r'(2,3), of w] verified_states_inv [OF r'(2,3), of observe w]
    by (auto simp: advance_states_def on_fst_def)
qed

lemma attempt_states_inv:
  assumes "standalone_inv ids d"
  shows "\<forall>s \<in> set (attempt_states ids observe mode crashAt (d, w)). standalone_inv ids (fst s)"
proof -
  obtain r1 d1 where b: "sc_begin ids mode d = (r1, d1)" by fastforce
  from begin_step [OF assms, of mode] b have begun: "begun ids d r1 d1" by (simp add: wp_def)
  show ?thesis
  proof (cases "\<exists>j. r1 = Inr (j, False)")
    case True
    then obtain j where j: "r1 = Inr (j, False)" by blast
    with begun obtain r where r: "standalone_inv ids d1" "pending_rows ids d1 = [r]" "j = journal_of r"
      by (auto simp: begun_def)
    from advance_states_inv [OF r(1,2), of observe crashAt w] show ?thesis
      using assms b j r by (simp add: attempt_states_def on_fst_def)
  next
    case False
    with begun assms b show ?thesis
      by (auto simp: attempt_states_def on_fst_def begun_def split: sum.splits)
  qed
qed

lemma lives_inv: "standalone_inv ids (fst s) \<Longrightarrow> standalone_inv ids (fst (run_lives ids as s))"
proof (induction as arbitrary: s)
  case (Cons a as)
  obtain observe mode crashAt killed where a: "a = (observe, mode, crashAt, killed)" by (cases a)
  note all = attempt_states_inv [OF Cons.prems, of observe mode crashAt "snd s", unfolded prod.collapse]
  have last: "snd (sc_promote ids observe mode crashAt s) \<in> set (attempt_states ids observe mode crashAt s)"
    unfolding attempt_states_last [symmetric] by (rule last_in_set) (simp add: attempt_states_def)
  have "min k (length (attempt_states ids observe mode crashAt s) - 1) < length (attempt_states ids observe mode crashAt s)" for k
    by (simp add: attempt_states_def)
  then have kth: "attempt_states ids observe mode crashAt s ! min k (length (attempt_states ids observe mode crashAt s) - 1)
      \<in> set (attempt_states ids observe mode crashAt s)" for k by (rule nth_mem)
  show ?case
  proof (cases killed)
    case None
    with Cons.IH [of "snd (sc_promote ids observe mode crashAt s)"] all last show ?thesis by (simp add: a)
  next
    case (Some k)
    with Cons.IH [OF bspec [OF all kth [of k]]] show ?thesis by (simp add: a Let_def)
  qed
qed simp

lemma promote_result:
  assumes "standalone_inv ids d"
  shows "standalone_inv ids (fst (snd (sc_promote ids observe mode crashAt (d, w))))"
    "view_step (serving_view ids d) (serving_view ids (fst (snd (sc_promote ids observe mode crashAt (d, w)))))"
  using promote_step [OF assms, of observe mode crashAt w] by (auto simp: wp_def split: prod.splits)

lemma attempts_inv: "standalone_inv ids (fst s) \<Longrightarrow> standalone_inv ids (fst (run_attempts ids as s))"
proof (induction as arbitrary: s)
  case (Cons a as)
  obtain observe mode crashAt where a: "a = (observe, mode, crashAt)" by (cases a)
  have "standalone_inv ids (fst (snd (sc_promote ids observe mode crashAt (fst s, snd s))))"
    using promote_result(1) [OF Cons.prems] .
  with Cons.IH show ?case by (simp add: a)
qed simp

lemma inv_registry:
  "standalone_inv ids d \<Longrightarrow> (\<exists>g. registry_serves (id_source ids) g (db_generations d) \<and>
     (serving_view ids d = Settled g \<or> (\<exists>t. serving_view ids d = Switching g t)))"
  unfolding standalone_inv_def serving_view_def
  by (auto simp: journal_agrees_def text_or_empty_def split: list.splits option.splits if_splits)

text \<open>C18: A promotion is safe against crashes.  After any sequence of promotion requests, each ended by itself,
  stopped at a crash point of the source or by any answer of the router, or killed before or after
  any of its statements and transactions (the entry of the journal, the pointer, the verified phase, the
  registry), the pointer, the journal and the registry still agree, at most one promotion is pending, and
  exactly one generation serves: the settled one, or the one being switched from.\<close>

theorem promotion_crash_safe:
  assumes "standalone_inv ids d"
  shows "standalone_inv ids (fst (run_lives ids as (d, w))) \<and>
    (\<exists>g. registry_serves (id_source ids) g (db_generations (fst (run_lives ids as (d, w)))) \<and>
      (serving_view ids (fst (run_lives ids as (d, w))) = Settled g \<or>
       (\<exists>t. serving_view ids (fst (run_lives ids as (d, w))) = Switching g t)))"
proof -
  have inv: "standalone_inv ids (fst (run_lives ids as (d, w)))" using lives_inv [of ids "(d, w)"] assms by simp
  with inv_registry [OF inv] show ?thesis by blast
qed

text \<open>C19: the journalled promotion refines an atomic switch between the two slots: seen from the abstract
  machine, a request either leaves the source as it is, begins a switch from the serving slot to the
  other one, or completes the switch under way; no crash, error or answer makes it do anything else.\<close>

theorem promotion_refines_switch:
  assumes "standalone_inv ids d"
  shows "view_step (serving_view ids d) (serving_view ids (fst (snd (sc_promote ids observe mode crashAt (d, w)))))"
  using promote_result(2) [OF assms] .

text \<open>C20: an interrupted promotion can always be finished: whatever a crash left behind, one more request,
  in whichever mode, with a router that observes the new pointer, returns the pending promotion as
  finalized, and leaves the source settled on its target with the generation it came from, and no
  other, protected for a rollback.\<close>

theorem promotion_recovers:
  assumes "standalone_inv ids d" "pending_rows ids d = [r]"
    "List.member [''PROMOTE'', ''ROLLBACK'', ''RESTORE''] mode" "\<And>v w. fst (observe (pm_to r) v w) = Inr True"
  shows "\<exists>j d' w'. sc_promote ids observe mode None (d, w) = (Inr (j, False), (d', w')) \<and>
    promotion_done ids r (Inr j) d' \<and> serving_view ids d' = Settled (pm_to r)"
proof -
  obtain p where p: "slot_pointers ids d = [p]" by (rule standalone_inv_pointer [OF assms(1)])
  have "sc_begin ids mode d = (Inr (journal_of r, False), d)"
    using p assms(2) by (simp add: sc_begin_def sc_pointer_def sc_pending_def bindA_def select_rows_def readA_def
        one_row_def returnA_def slot_pointers_def pending_rows_def first_journal_def)
  then have b: "on_fst (sc_begin ids mode) (d, w) = (Inr (journal_of r, False), (d, w))" by (simp add: on_fst_eq)
  from advance_step [OF assms(1,2), of observe None w] assms(4)
  obtain j s' where a: "sc_advance ids observe None (journal_of r) (d, w) = (Inr j, s')" "advanced ids r (Inr j) (fst s')"
    by (auto simp: wp_def is_ok_iff split: prod.splits)
  then have "promotion_done ids r (Inr j) (fst s')" by (simp add: advanced_def)
  moreover from this have "serving_view ids (fst s') = Settled (pm_to r)"
    by (simp add: promotion_done_def view_settled)
  moreover have "sc_promote ids observe mode None (d, w) = (Inr (j, False), s')"
    using a(1) b assms(3) by (simp add: sc_promote_def thenA_def bindA_def liftA_def returnA_def)
  ultimately show ?thesis by (metis prod.collapse)
qed

section \<open>A deployment\<close>

definition slot_row :: "string \<Rightarrow> string \<Rightarrow> string \<Rightarrow> generation_row" where
  "slot_row g state protection = (demo_generation g state protection)
     \<lparr>gr_source := ''jwb-standalone'', gr_checksum := Some (replicate 64 (CHR ''a''))\<rparr>"

definition slot_sync :: "string \<Rightarrow> (int \<times> int) option \<Rightarrow> generation_sync_row" where
  "slot_sync g catchup = \<lparr>gs_source = ''jwb-standalone'', gs_generation = g, gs_state = ''CURRENT'', gs_schema = ''CURRENT'',
     gs_snapshot = (0, 0), gs_catchup = catchup, gs_lastSuccess = None, gs_error = None\<rparr>"

definition slots_db :: "(int \<times> int) option \<Rightarrow> control_db" where
  "slots_db catchup = empty_db\<lparr>
     db_generations := [slot_row ''gen-a'' ''SERVING'' ''SERVING'', slot_row ''gen-b'' ''READY'' ''NONE''],
     db_pointers := [(demo_pointer ''jwb-standalone-query'')\<lparr>pt_source := ''jwb-standalone''\<rparr>],
     db_syncs := [slot_sync ''gen-a'' (Some (1000, 1)), slot_sync ''gen-b'' catchup],
     db_sources := [\<lparr>sr_source = ''jwb-standalone'', sr_ingestion = Some (1000, 1), sr_legacy = ''MIGRATED''\<rparr>]\<rparr>"

definition sees_all :: "string \<Rightarrow> int option \<Rightarrow> (unit, bool) action" where
  "sees_all g v = returnA True"

definition sees_nothing :: "string \<Rightarrow> int option \<Rightarrow> (unit, bool) action" where
  "sees_nothing g v = returnA False"

lemma slots_inv: "standalone_inv LEGACY_IDENTITIES (slots_db (Some (1000, 1)))"
  by code_simp

definition slot_attempts :: "((string \<Rightarrow> int option \<Rightarrow> (unit, bool) action) \<times> string \<times> string option) list" where
  "slot_attempts = [(sees_all, ''PROMOTE'', Some ''BEFORE_POINTER_CAS''), (sees_all, ''PROMOTE'', Some ''AFTER_POINTER_CAS''),
     (sees_nothing, ''PROMOTE'', None)]"

text \<open>A stop at a crash point, a router that sees nothing, a death right after the phase was verified, and one at the beginning\<close>

definition slot_lives :: "((string \<Rightarrow> int option \<Rightarrow> (unit, bool) action) \<times> string \<times> string option \<times> nat option) list" where
  "slot_lives = [(sees_all, ''PROMOTE'', Some ''AFTER_POINTER_CAS'', None), (sees_nothing, ''PROMOTE'', None, None),
     (sees_all, ''PROMOTE'', None, Some 4), (sees_all, ''ROLLBACK'', None, Some 1)]"

theorem promotion_crash_safe_witness:
  "standalone_inv LEGACY_IDENTITIES (fst (run_lives LEGACY_IDENTITIES slot_lives (slots_db (Some (1000, 1)), ()))) \<and>
   map pm_phase (pending_rows LEGACY_IDENTITIES (fst (run_lives LEGACY_IDENTITIES slot_lives (slots_db (Some (1000, 1)), ())))) =
     [''ROUTER_VERIFIED''] \<and>
   serving_view LEGACY_IDENTITIES (fst (run_lives LEGACY_IDENTITIES slot_lives (slots_db (Some (1000, 1)), ()))) =
     Switching ''gen-a'' ''gen-b''"
  by (rule conjI, rule promotion_crash_safe [OF slots_inv, THEN conjunct1]) code_simp

theorem promotion_refines_switch_witness:
  "serving_view LEGACY_IDENTITIES (slots_db (Some (1000, 1))) = Settled ''gen-a'' \<and>
   view_step (Settled ''gen-a'') (serving_view LEGACY_IDENTITIES
     (fst (snd (sc_promote LEGACY_IDENTITIES sees_all ''PROMOTE'' None (slots_db (Some (1000, 1)), ())))))"
proof -
  have s: "serving_view LEGACY_IDENTITIES (slots_db (Some (1000, 1))) = Settled ''gen-a''" by code_simp
  with promotion_refines_switch [OF slots_inv, of sees_all "''PROMOTE''" None "()"] show ?thesis by simp
qed

theorem promotion_recovers_witness:
  "\<exists>j d' w'. sc_promote LEGACY_IDENTITIES sees_all ''ROLLBACK'' None
      (fst (run_attempts LEGACY_IDENTITIES slot_attempts (slots_db (Some (1000, 1)), ())), ()) = (Inr (j, False), (d', w')) \<and>
    serving_view LEGACY_IDENTITIES d' = Settled ''gen-b''"
proof -
  let ?d = "fst (run_attempts LEGACY_IDENTITIES slot_attempts (slots_db (Some (1000, 1)), ()))"
  have inv: "standalone_inv LEGACY_IDENTITIES ?d" using attempts_inv [of _ "(slots_db (Some (1000, 1)), ())"] slots_inv by simp
  have "length (pending_rows LEGACY_IDENTITIES ?d) = 1 \<and> map pm_to (pending_rows LEGACY_IDENTITIES ?d) = [''gen-b'']" by code_simp
  then obtain r where r: "pending_rows LEGACY_IDENTITIES ?d = [r]" "pm_to r = ''gen-b''" by (auto simp: length_Suc_conv)
  have "List.member [''PROMOTE'', ''ROLLBACK'', ''RESTORE''] ''ROLLBACK''" by simp
  from promotion_recovers [OF inv r(1) this, of sees_all "()"] r(2) show ?thesis
    by (auto simp: sees_all_def returnA_def)
qed

text \<open>
  Comparing with a missing cursor gives \<open>NaN\<close>, and \<open>NaN < 0\<close> is false: a candidate that has never
  caught up with anything is taken for current.
\<close>

lemma missing_cursor_is_current: "\<not> is_negative (compare_cursors None b) \<and> \<not> is_negative (compare_cursors a None)"
  by (simp add: compare_cursors_def is_negative_def split: option.split)

text \<open>The freshness check of a candidate lets a missing cursor through: a candidate with no catch-up
  cursor at all is promoted, although the source has changes to catch up with.\<close>

theorem candidate_without_cursor_promoted:
  "map gs_catchup (db_syncs (slots_db None)) = [Some (1000, 1), None] \<and>
   map sr_ingestion (db_sources (slots_db None)) = [Some (1000, 1)] \<and>
   is_ok (fst (sc_promote LEGACY_IDENTITIES sees_all ''PROMOTE'' None (slots_db None, ()))) \<and>
   serving_view LEGACY_IDENTITIES (fst (snd (sc_promote LEGACY_IDENTITIES sees_all ''PROMOTE'' None (slots_db None, ())))) =
     Settled ''gen-b''"
  by code_simp

text \<open>The same candidate with a cursor before that of the source is refused.\<close>

lemma older_candidate_refused:
  "fst (sc_promote LEGACY_IDENTITIES sees_all ''PROMOTE'' None (slots_db (Some (0, 1)), ())) = Inl ''CANDIDATE_NOT_CURRENT''"
  by code_simp

end
