(* ===== verification/CoordinatorRuntime.thy ===== *)
theory CoordinatorRuntime
  imports GenerationDriver CoordinatorSafety StandalonePromotion
begin

text \<open>
  \<open>services/rdf-sync/src/generation-coordinator-runtime.js\<close>: the state machine that carries a rebuild
  from its request to the promotion of the new generation, and a retirement to the deletion of the old
  one.  Each call of \<open>reconcile\<close> looks at an operation that was claimed and moves it by one state.  The
  state is the database beside the environment \<open>'w\<close> of the drivers, the router observer, the metrics
  and the log, which are the parameters of the model; \<open>rt_crash\<close> is the hook of the fault injection.
  The clock readings of the log are left out.
\<close>

section \<open>The environment\<close>

record safe_fields =
  sf_operationId :: string
  sf_generationId :: string
  sf_lifecycleState :: string
  sf_result :: string

type_synonym 'w coordinator_world = "control_db \<times> 'w"

record 'w coordinator_env =
  rt_config :: coordinator_config
  rt_driver :: "string \<Rightarrow> 'w coordinator_world generation_driver option"
  rt_observes :: "string \<Rightarrow> int option \<Rightarrow> ('w, bool) action"
  rt_increment :: "string \<Rightarrow> ('w, unit) action"
  rt_log :: "string \<Rightarrow> safe_fields \<Rightarrow> ('w, unit) action"
  rt_logFailure :: "string \<Rightarrow> ('w, unit) action"
  rt_crash :: "string \<Rightarrow> ('w, unit) action"
  rt_sleep :: "('w, unit) action"

definition safe :: "operation \<Rightarrow> string \<Rightarrow> safe_fields" where
  "safe oper r = \<lparr>sf_operationId = o_id oper, sf_generationId = o_candidateGenerationId oper,
     sf_lifecycleState = o_state oper, sf_result = r\<rparr>"

text \<open>\<open>String(error?.message ?? ...).match(/[A-Z][A-Z0-9_]{2,63}/u)?.[0] ?? 'COORDINATOR_FAILED'\<close>\<close>

definition error_code :: "string \<Rightarrow> string" where
  "error_code message = (case rx_find ERROR_CODE message of None \<Rightarrow> ''COORDINATOR_FAILED'' | Some (c, _) \<Rightarrow> c)"

text \<open>
  The catch-up cursor comes from the driver of the database as a \<open>Date\<close>, whose printed form has no
  milliseconds; the target was read back as an ISO text
\<close>

definition target_reached :: "int \<times> int \<Rightarrow> int \<times> int \<Rightarrow> bool" where
  "target_reached catchup target \<longleftrightarrow>
     (let a = reparsed (fst catchup); b = fst target in 0 \<le> (if a = b then snd catchup - snd target else a - b))"

definition move_to :: "'w coordinator_env \<Rightarrow> operation \<Rightarrow> string \<Rightarrow> transition_fields \<Rightarrow> ('w coordinator_world, unit) action" where
  "move_to E oper to' v = thenA (on_fst (cr_transition (rt_config E) (o_id oper) (o_fence oper) (o_state oper) to' v)) (returnA ())"

definition crash_at :: "'w coordinator_env \<Rightarrow> string \<Rightarrow> ('w coordinator_world, unit) action" where
  "crash_at E point = on_snd (rt_crash E point)"

section \<open>The states of a rebuild\<close>

definition observeSnapshot :: "'w coordinator_env \<Rightarrow> operation \<Rightarrow> ('w coordinator_world, unit) action" where
  "observeSnapshot E oper =
     bindA (on_fst (cr_generationEvidence (o_sourceIdentity oper) (o_candidateGenerationId oper))) (\<lambda>evidence.
     case evidence of
       None \<Rightarrow> raiseA ''GENERATION_MISSING''
     | Some g \<Rightarrow>
         if gr_state (ge_row g) = ''FAILED''
         then move_to E oper ''FAILED'' (no_fields\<lparr>tf_errorCode :=
           Some (case gr_error (ge_row g) of None \<Rightarrow> ''SNAPSHOT_FAILED'' | Some e \<Rightarrow> e)\<rparr>)
         else if \<not> (ge_syncState g = Some ''CATCHING_UP'' \<or> ge_syncState g = Some ''CURRENT'')
         then move_to E oper ''LOADING_SNAPSHOT'' no_fields
         else
           thenA (whenA (gr_state (ge_row g) = ''LOADING'')
             (thenA (on_fst (cr_setGenerationState (o_sourceIdentity oper) (o_candidateGenerationId oper) ''LOADING'' ''CATCHING_UP'' None))
               (returnA ())))
           (move_to E oper ''WAITING_FOR_CATCHUP'' no_fields))"

definition observeCatchup :: "'w coordinator_env \<Rightarrow> operation \<Rightarrow> ('w coordinator_world, unit) action" where
  "observeCatchup E oper =
     bindA (on_fst (cr_generationEvidence (o_sourceIdentity oper) (o_candidateGenerationId oper))) (\<lambda>evidence.
     case evidence of
       None \<Rightarrow> move_to E oper ''WAITING_FOR_CATCHUP'' no_fields
     | Some g \<Rightarrow>
       (case ge_catchup g of
          None \<Rightarrow> move_to E oper ''WAITING_FOR_CATCHUP'' no_fields
        | Some catchup \<Rightarrow>
          (case o_targetCursor oper of
             None \<Rightarrow> raiseA ''TypeError''
           | Some target \<Rightarrow>
             if \<not> target_reached catchup target \<or> ge_schemaState g \<noteq> Some ''CURRENT'' \<or> ge_failedEntities g \<noteq> 0
             then move_to E oper ''WAITING_FOR_CATCHUP'' no_fields
             else
               thenA (whenA (gr_state (ge_row g) = ''CATCHING_UP'')
                 (thenA (on_fst (cr_setGenerationState (o_sourceIdentity oper) (o_candidateGenerationId oper) ''CATCHING_UP'' ''VALIDATING'' None))
                   (returnA ())))
               (move_to E oper ''VALIDATING'' no_fields))))"

definition candidate_valid :: "generation_row \<Rightarrow> bool" where
  "candidate_valid g \<longleftrightarrow> gr_state g = ''READY'' \<and> gr_validation g = ''VALID'' \<and>
     gr_normalization g = Some ''jwb-rdf-normalization-v1'' \<and> gr_partition g = ''jwb-partition-v1'' \<and> gr_manifest g \<noteq> None"

definition observeValidation :: "'w coordinator_env \<Rightarrow> operation \<Rightarrow> ('w coordinator_world, unit) action" where
  "observeValidation E oper =
     bindA (on_fst (cr_generationEvidence (o_sourceIdentity oper) (o_candidateGenerationId oper))) (\<lambda>evidence.
     if (case evidence of None \<Rightarrow> True | Some g \<Rightarrow> \<not> candidate_valid (ge_row g))
     then move_to E oper ''VALIDATING'' no_fields
     else thenA (crash_at E ''H_READY_BEFORE_PROMOTION'') (move_to E oper ''READY_TO_PROMOTE'' no_fields))"

text \<open>\<open>#preparePromotion\<close>\<close>

definition rt_preparePromotion :: "'w coordinator_env \<Rightarrow> operation \<Rightarrow> ('w coordinator_world, unit) action" where
  "rt_preparePromotion E oper =
     bindA (on_fst (cr_pointer (o_queryServiceId oper))) (\<lambda>current.
     if cp_generationId current = o_candidateGenerationId oper
     then move_to E oper ''PROMOTING'' (no_fields\<lparr>tf_expectedGenerationId := cp_previousGenerationId current,
       tf_expectedPointerVersion := Some (cp_version current - 1)\<rparr>)
     else
       bindA (on_fst (cr_operationPromotion (o_id oper))) (\<lambda>there.
       thenA (case there of
           Some p \<Rightarrow> returnA ()
         | None \<Rightarrow> thenA (on_fst (cr_preparePromotion (o_id oper) (o_sourceIdentity oper) (cp_generationId current)
             (o_candidateGenerationId oper) (cp_version current))) (returnA ()))
       (thenA (crash_at E ''I_BEFORE_CAS'')
       (move_to E oper ''PROMOTING'' (no_fields\<lparr>tf_expectedGenerationId := Some (cp_generationId current),
         tf_expectedPointerVersion := Some (cp_version current)\<rparr>)))))"

text \<open>\<open>#promote\<close>\<close>

definition rt_promote :: "'w coordinator_env \<Rightarrow> operation \<Rightarrow> ('w coordinator_world, unit) action" where
  "rt_promote E oper =
     bindA (on_fst (cr_operationPromotion (o_id oper))) (\<lambda>there.
     case there of
       None \<Rightarrow> raiseA ''PROMOTION_MISSING''
     | Some p0 \<Rightarrow>
       bindA (if pr_phase p0 = ''PREPARING''
              then bindA (on_fst (cr_casPointer (pr_id p0) (o_queryServiceId oper))) (\<lambda>p.
                thenA (crash_at E ''J_AFTER_POINTER_CAS'') (returnA p))
              else returnA p0) (\<lambda>p1.
       bindA (if pr_phase p1 = ''POINTER_UPDATED''
              then bindA (on_snd (rt_observes E (o_candidateGenerationId oper) (pr_resultingPointerVersion p1))) (\<lambda>observed.
                thenA (ensureA observed ''ROUTER_NOT_CONVERGED'')
                (bindA (on_fst (cr_markRouterVerified (pr_id p1))) (\<lambda>p.
                thenA (crash_at E ''K_BEFORE_METADATA_FINALIZATION'') (returnA p))))
              else returnA p1) (\<lambda>p2.
       bindA (if pr_phase p2 = ''ROUTER_VERIFIED'' then on_fst (cr_finalizePromotion (pr_id p2)) else returnA p2) (\<lambda>p3.
       thenA (ensureA (pr_phase p3 = ''GENERATION_FINALIZED'') ''PROMOTION_AMBIGUOUS'')
       (thenA (on_snd (rt_increment E ''promotions_total''))
       (move_to E oper ''PROMOTED'' no_fields))))))"

text \<open>\<open>#protectRollback\<close>\<close>

definition protectRollback :: "'w coordinator_env \<Rightarrow> operation \<Rightarrow> ('w coordinator_world, unit) action" where
  "protectRollback E oper =
     bindA (on_fst (cr_pointer (o_queryServiceId oper))) (\<lambda>pointer.
     thenA (ensureA (cp_generationId pointer = o_candidateGenerationId oper) ''POINTER_REGISTRY_MISMATCH'')
     (thenA (case cp_previousGenerationId pointer of
         None \<Rightarrow> returnA ()
       | Some previous \<Rightarrow> thenA (on_fst (cr_beginRetirement (o_id oper) (o_sourceIdentity oper) previous)) (returnA ()))
     (thenA (move_to E oper ''ROLLBACK_PROTECTED'' no_fields)
     (on_snd (rt_increment E ''rebuild_success_total'')))))"

section \<open>Cleanup\<close>

text \<open>The callbacks of the deletion write to the database under the fence and the token of the operation\<close>

definition deletion_callbacks ::
  "'w coordinator_env \<Rightarrow> operation \<Rightarrow> string \<Rightarrow> 'w coordinator_world delete_callbacks" where
  "deletion_callbacks E oper token = (let C = rt_config E; i = o_id oper; f = o_fence oper in
     \<lparr>cb_authorize = thenA (on_fst (cr_assertDeletionAuthority C i f token)) (returnA ()),
      cb_onIntent = (\<lambda>kind uid resourceVersion. thenA (on_fst (cr_recordDeletionIntent C i f token kind uid resourceVersion)) (returnA ())),
      cb_onAccepted = (\<lambda>kind uid. thenA (on_fst (cr_recordDeletionAccepted C i f token kind uid)) (returnA ())),
      cb_onProgress = (\<lambda>kind uid. thenA (on_fst (cr_recordAbsenceConfirmed C i f token kind uid)) (returnA ()))\<rparr>)"

text \<open>
  The evidence that the plan is made with is the column \<open>deletion_evidence\<close> of the retirement, which
  has the default \<open>{}\<close> and which no statement of the program writes
\<close>

definition NO_EVIDENCE :: "(string \<times> delete_evidence) list" where
  "NO_EVIDENCE = []"

definition physical_deletion ::
  "'w coordinator_env \<Rightarrow> 'w coordinator_world generation_driver \<Rightarrow> operation \<Rightarrow> string \<Rightarrow> string \<Rightarrow> ('w coordinator_world, unit) action" where
  "physical_deletion E driver oper g token = (let C = rt_config E; i = o_id oper; f = o_fence oper in
     catchA
       (bindA (gd_planDelete driver g NO_EVIDENCE (Some i) (Some f) (Some token)) (\<lambda>planned.
        bindA (gd_markAuthority driver planned) (\<lambda>plan.
        thenA (on_fst (cr_recordDeletionPlan C i f token (pl_resources plan)))
        (thenA (on_fst (cr_markDeletionFence C i f token))
        (thenA (crash_at E ''AFTER_DELETE_PREFLIGHT_BEFORE_FIRST_DELETE'')
        (gd_executePlan driver plan (deletion_callbacks E oper token)))))))
       (\<lambda>e. thenA (on_fst (cr_recordDeletionFailure C i f token (error_code e))) (raiseA e)))"

text \<open>\<open>#cleanup\<close>\<close>

definition rt_cleanup ::
  "'w coordinator_env \<Rightarrow> 'w coordinator_world generation_driver \<Rightarrow> operation \<Rightarrow> ('w coordinator_world, unit) action" where
  "rt_cleanup E driver oper = (let C = rt_config E; i = o_id oper; f = o_fence oper in
     bindA (on_fst (cr_operationRetirement i)) (\<lambda>there.
     case there of
       None \<Rightarrow> raiseA ''RETIREMENT_MISSING''
     | Some v0 \<Rightarrow>
       thenA (ensureA (re_state v0 \<noteq> ''WAITING_ELIGIBILITY'') ''RETIREMENT_WAITING_ELIGIBILITY'')
       (bindA (if re_state v0 = ''RETIRING''
               then thenA (crash_at E ''L_DURING_RETIREMENT'') (on_fst (cr_markGenerationRetired C i f))
               else returnA v0) (\<lambda>v1.
        bindA (if List.member [''RETIRED'', ''LOGICALLY_RETIRED'', ''PHYSICAL_DELETE_PENDING''] (re_state v1)
               then bindA (on_fst (cr_authorizePhysicalDeletion C i f)) (\<lambda>(_, token).
                 thenA (physical_deletion E driver oper (re_generationId v1) token)
                 (thenA (crash_at E ''M2_AFTER_PHYSICAL_DELETE'')
                 (on_fst (cr_confirmPhysicalDeletion C i f token))))
               else returnA v1) (\<lambda>v2.
        bindA (if re_state v2 = ''PHYSICALLY_DELETED'' then on_fst (cr_finalizeRetirement C i f) else returnA v2) (\<lambda>v3.
        whenA (re_state v3 = ''METADATA_FINALIZED'')
          (thenA (move_to E oper ''COMPLETED'' no_fields) (on_snd (rt_increment E ''cleanup_total'')))))))))"

section \<open>The loop\<close>

definition reconcile_state ::
  "'w coordinator_env \<Rightarrow> 'w coordinator_world generation_driver \<Rightarrow> operation \<Rightarrow> ('w coordinator_world, unit) action" where
  "reconcile_state E driver oper = (let s = o_state oper in
     if s = ''REBUILD_REQUESTED'' then
       thenA (on_fst (cr_ensureGeneration oper))
       (thenA (move_to E oper ''CREATING_GENERATION'' no_fields) (on_snd (rt_increment E ''rebuild_requests_total'')))
     else if s = ''CREATING_GENERATION'' then
       thenA (gd_createGeneration driver (o_candidateGenerationId oper))
       (thenA (crash_at E ''E_AFTER_CANDIDATE_CREATED'')
       (thenA (on_fst (cr_setGenerationState (o_sourceIdentity oper) (o_candidateGenerationId oper) ''CREATING'' ''LOADING'' None))
       (move_to E oper ''LOADING_SNAPSHOT'' no_fields)))
     else if s = ''LOADING_SNAPSHOT'' then thenA (crash_at E ''F_DURING_SNAPSHOT_LOAD'') (observeSnapshot E oper)
     else if s = ''WAITING_FOR_CATCHUP'' then thenA (crash_at E ''G_DURING_CATCHUP'') (observeCatchup E oper)
     else if s = ''VALIDATING'' then observeValidation E oper
     else if s = ''READY_TO_PROMOTE'' then rt_preparePromotion E oper
     else if s = ''PROMOTING'' then rt_promote E oper
     else if s = ''PROMOTED'' then protectRollback E oper
     else if s = ''CLEANING_UP'' then rt_cleanup E driver oper
     else if s = ''RETIREMENT_WAITING_ELIGIBILITY''
       then thenA (on_fst (cr_reevaluatePendingRetirement (rt_config E) (o_id oper) (o_fence oper))) (returnA ())
     else if s = ''ROLLBACK_PROTECTED'' then returnA ()
     else raiseA ''COORDINATOR_STATE_NOT_ACTIONABLE'')"

definition reconcile :: "'w coordinator_env \<Rightarrow> operation \<Rightarrow> ('w coordinator_world, unit) action" where
  "reconcile E oper =
     thenA (on_snd (rt_increment E ''reconciliation_total''))
     (case rt_driver E (o_backendType oper) of
        None \<Rightarrow> raiseA ''BACKEND_DRIVER_MISSING''
      | Some driver \<Rightarrow>
          thenA (on_snd (rt_log E ''coordinator_transition'' (safe oper ''started'')))
          (thenA (reconcile_state E driver oper)
          (on_snd (rt_log E ''coordinator_transition'' (safe oper ''completed'')))))"

text \<open>One round of \<open>run\<close>, and as many rounds as there are until \<open>stop\<close> is called\<close>

definition run_round :: "'w coordinator_env \<Rightarrow> ('w coordinator_world, unit) action" where
  "run_round E = catchA
     (bindA (on_fst (cr_claimNext (rt_config E))) (\<lambda>claimed.
      case claimed of None \<Rightarrow> on_snd (rt_sleep E) | Some oper \<Rightarrow> reconcile E oper))
     (\<lambda>e. thenA (on_snd (rt_increment E ''rebuild_failure_total''))
       (thenA (on_snd (rt_logFailure E (error_code e))) (on_snd (rt_sleep E))))"

definition run_coordinator :: "'w coordinator_env \<Rightarrow> bool \<Rightarrow> nat \<Rightarrow> ('w coordinator_world, unit) action" where
  "run_coordinator E schemaReady rounds =
     thenA (ensureA schemaReady ''SCHEMA_MIGRATION_REQUIRED'') (forA (replicate rounds ()) (\<lambda>_. run_round E))"

text \<open>\<open>ready\<close>: the database answers, the loop has started and the schema was verified\<close>

definition rt_ready :: "bool \<Rightarrow> bool \<Rightarrow> unit result \<Rightarrow> bool" where
  "rt_ready initialized schemaReady select1 \<longleftrightarrow> is_ok select1 \<and> initialized \<and> schemaReady"

text \<open>\<open>pollIntervalMs\<close> of the constructor\<close>

definition coordinator_poll_ok :: "int \<Rightarrow> bool" where
  "coordinator_poll_ok pollIntervalMs \<longleftrightarrow> 100 \<le> pollIntervalMs \<and> pollIntervalMs \<le> 5000"

section \<open>The lifecycle of an operation\<close>

inductive coordinator_edge :: "string \<Rightarrow> string \<Rightarrow> bool" where
  requested: "coordinator_edge ''REBUILD_REQUESTED'' ''CREATING_GENERATION''"
| created: "coordinator_edge ''CREATING_GENERATION'' ''LOADING_SNAPSHOT''"
| load_failed: "coordinator_edge ''LOADING_SNAPSHOT'' ''FAILED''"
| loaded: "coordinator_edge ''LOADING_SNAPSHOT'' ''WAITING_FOR_CATCHUP''"
| caught_up: "coordinator_edge ''WAITING_FOR_CATCHUP'' ''VALIDATING''"
| validated: "coordinator_edge ''VALIDATING'' ''READY_TO_PROMOTE''"
| promoting: "coordinator_edge ''READY_TO_PROMOTE'' ''PROMOTING''"
| promoted: "coordinator_edge ''PROMOTING'' ''PROMOTED''"
| protected: "coordinator_edge ''PROMOTED'' ''ROLLBACK_PROTECTED''"
| eligible: "coordinator_edge ''RETIREMENT_WAITING_ELIGIBILITY'' ''CLEANING_UP''"
| cleaned: "coordinator_edge ''CLEANING_UP'' ''COMPLETED''"

text \<open>
  Rows keep their place, and at most the operation with a given identifier, in a given state, has moved,
  along one edge
\<close>

definition row_follows :: "string \<times> string \<Rightarrow> operation_row \<Rightarrow> operation_row \<Rightarrow> bool" where
  "row_follows z a b \<longleftrightarrow> op_id b = op_id a \<and>
     (op_state b = op_state a \<or> (op_id a, op_state a) = z \<and> coordinator_edge (op_state a) (op_state b))"

definition operations_follow :: "string \<times> string \<Rightarrow> control_db \<Rightarrow> control_db \<Rightarrow> bool" where
  "operations_follow z d d' \<longleftrightarrow> (operations_ok (db_operations d) \<longrightarrow>
     operations_ok (db_operations d') \<and> list_all2 (row_follows z) (db_operations d) (db_operations d'))"

lemma row_follows_refl [simp, intro]: "row_follows z a a"
  by (simp add: row_follows_def)

lemma operations_follow_refl: "reflp (operations_follow z)"
  by (auto simp: reflp_def operations_follow_def intro: list_all2_refl)

lemma operations_follow_trans: "transp (operations_follow z)"
proof -
  have row: "row_follows z a b \<Longrightarrow> row_follows z b c \<Longrightarrow> row_follows z a c" for a b c by (auto simp: row_follows_def)
  show ?thesis unfolding transp_def operations_follow_def
    by (auto intro: list_all2_trans [of "row_follows z" "row_follows z" "row_follows z", OF row])
qed

lemma follow_same: "keeps db_operations m \<Longrightarrow> moves (operations_follow z) m"
  by (auto simp: moves_def keeps_def operations_follow_def intro: list_all2_refl)

lemma follow_update:
  assumes "\<And>r. r \<in> set (db_operations d) \<Longrightarrow> P r \<Longrightarrow> row_follows z r (f r)"
  shows "operations_follow z d (snd (update_operations P f d))"
  using assms by (auto simp: update_table_def operations_follow_def update_rows_def list_all2_conv_all_nth)

lemma follow_update_moves:
  assumes "\<And>r. P r \<Longrightarrow> row_follows z r (f r)"
  shows "moves (operations_follow z) (update_operations P f)"
  unfolding moves_def using assms by (auto intro: follow_update)

lemmas follow_intros = operations_follow_refl operations_follow_trans

lemma other_tables:
  "keeps db_operations (update_generations P1 f1)" "keeps db_operations (insert_generation r1)"
  "keeps db_operations (update_pointers P2 f2)" "keeps db_operations (update_promotions P3 f3)"
  "keeps db_operations (insert_promotion r3)" "keeps db_operations (update_retirements P4 f4)"
  "keeps db_operations (insert_retirement r4)" "keeps db_operations randomUUID" "keeps db_operations now_db"
  "keeps db_operations (select_rows g P)" "keeps db_operations (one_row e rs)"
  "keeps db_operations (modifyA (\<lambda>d. d\<lparr>db_audits := h d\<rparr>))"
  by (auto simp: keeps_def update_table_def insert_row_def randomUUID_def bindA_def thenA_def readA_def modifyA_def
      returnA_def raiseA_def now_db_def select_rows_def one_row_def split: list.splits)

lemma deletion_tables:
  "keeps db_operations (run_deletion C i f t s)" "keeps db_operations (plan_resource i f t g v)"
  using attempts_only by (auto simp: keeps_def)

lemma keeps_transactionA: "keeps f m \<Longrightarrow> keeps f (transactionA m)"
  by (simp add: keeps_moves moves_transactionA)

lemma keeps_case_list: "keeps f m \<Longrightarrow> (\<And>y ys. keeps f (n y ys)) \<Longrightarrow> keeps f (case xs of [] \<Rightarrow> m | y # ys \<Rightarrow> n y ys)"
  by (cases xs) auto

lemma keeps_case_pair: "(\<And>a b. keeps f (q a b)) \<Longrightarrow> keeps f (case p of (a, b) \<Rightarrow> q a b)"
  by (cases p) auto

lemmas same_operations = other_tables deletion_tables keeps_intros keeps_transactionA keeps_case_list keeps_case_pair

lemma quiet_methods:
  "keeps db_operations (cr_generationEvidence s1 g1)" "keeps db_operations (cr_ensureGeneration o2)"
  "keeps db_operations (cr_setGenerationState s3 g3 a3 b3 e3)" "keeps db_operations (cr_pointer q4)"
  "keeps db_operations (cr_operationPromotion i5)" "keeps db_operations (cr_preparePromotion i6 s6 f6 t6 v6)"
  "keeps db_operations (cr_casPointer i7 q7)" "keeps db_operations (cr_markRouterVerified i8)"
  "keeps db_operations (cr_finalizePromotion i9)" "keeps db_operations (cr_beginRetirement i10 s10 g10)"
  "keeps db_operations (cr_operationRetirement i11)" "keeps db_operations (cr_markGenerationRetired C i12 f12)"
  "keeps db_operations (cr_recordDeletionPlan C i13 f13 t13 rs)" "keeps db_operations (cr_confirmPhysicalDeletion C i14 f14 t14)"
  "keeps db_operations (cr_recordDeletionFailure C i15 f15 t15 e15)" "keeps db_operations (cr_finalizeRetirement C i16 f16)"
  "keeps db_operations (cr_assertDeletionAuthority C i17 f17 t17)"
  by (auto simp: repository_methods cr_generationEvidence_def cr_pointer_def cr_operationPromotion_def
      cr_operationRetirement_def cr_assertDeletionAuthority_def Let_def intro!: same_operations)

lemma quiet_deletion:
  "keeps db_operations (cr_markDeletionFence C i f t)" "keeps db_operations (cr_recordDeletionIntent C i f t k u v)"
  "keeps db_operations (cr_recordDeletionAccepted C i f t k u)" "keeps db_operations (cr_recordAbsenceConfirmed C i f t k u)"
  using deletion_tables(1) [of C i f t Mark_fence] deletion_tables(1) [of C i f t "Intent k u v"]
    deletion_tables(1) [of C i f t "Accepted k u"] deletion_tables(1) [of C i f t "Absence k u"] by auto

lemma follow_transition: "b = a \<or> coordinator_edge a b \<Longrightarrow> moves (operations_follow (i, a)) (cr_transition C i f a b v)"
  unfolding cr_transition_def
  by (intro moves_intros follow_intros follow_update_moves)
    (auto simp: row_follows_def intro: follow_same same_operations)

lemma follow_claim: "moves (operations_follow z) (cr_claimNext C)"
  unfolding cr_claimNext_def
  by (auto intro!: moves_intros follow_intros follow_update_moves follow_same [OF same_operations(9)]
      follow_same [OF same_operations(10)] split: list.split) (simp add: row_follows_def)

lemma follow_authorize: "moves (operations_follow z) (cr_authorizePhysicalDeletion C i f)"
proof -
  have "moves (operations_follow z) (update_operations (\<lambda>r. op_id r = i) (\<lambda>r. r\<lparr>op_lease := h r\<rparr>))" for h
    by (rule follow_update_moves) (simp add: row_follows_def)
  then show ?thesis
    unfolding cr_authorizePhysicalDeletion_def claimed_operation_def
    by (intro moves_intros follow_intros) (assumption | rule follow_same, auto intro!: same_operations)+
qed

text \<open>A step that relies on the operations it finds, after steps that leave them alone\<close>

definition follows_when :: "string \<times> string \<Rightarrow> (operation_row list \<Rightarrow> bool) \<Rightarrow> 'a db \<Rightarrow> bool" where
  "follows_when z Q m \<longleftrightarrow> (\<forall>d. Q (db_operations d) \<longrightarrow> operations_follow z d (snd (m d)))"

lemma when_quiet:
  assumes "keeps db_operations m" "\<And>x. follows_when z Q (k x)"
  shows "follows_when z Q (bindA m k)"
  unfolding follows_when_def
proof (intro allI impI)
  fix d :: control_db assume "Q (db_operations d)"
  obtain r d1 where m: "m d = (r, d1)" by fastforce
  with assms(1) have same: "db_operations d1 = db_operations d" by (rule keepsD)
  have "operations_follow z d1 (snd (k x d1))" for x
    using assms(2) \<open>Q (db_operations d)\<close> same by (simp add: follows_when_def)
  then show "operations_follow z d (snd (bindA m k d))"
    using m same by (auto simp: bindA_def operations_follow_def intro: list_all2_refl split: sum.split)
qed

lemma when_moves: "moves (operations_follow z) m \<Longrightarrow> follows_when z Q m"
  by (simp add: moves_def follows_when_def)

lemma when_update:
  assumes "\<And>rs r. operations_ok rs \<Longrightarrow> Q rs \<Longrightarrow> r \<in> set rs \<Longrightarrow> P r \<Longrightarrow> row_follows z r (f r)" "\<And>rs. keeps db_operations (k rs)"
  shows "follows_when z Q (bindA (update_operations P f) k)"
  unfolding follows_when_def
proof (intro allI impI)
  fix d :: control_db assume q: "Q (db_operations d)"
  obtain r d1 where u: "update_operations P f d = (r, d1)" by fastforce
  have 1: "operations_follow z d d1"
    using follow_update [of d P z f] assms(1) q u by (cases "operations_ok (db_operations d)") (auto simp: operations_follow_def)
  have "db_operations (snd (k x d1)) = db_operations d1" for x using assms(2) by (simp add: keeps_def)
  with 1 u show "operations_follow z d (snd (bindA (update_operations P f) k d))"
    by (auto simp: bindA_def operations_follow_def split: sum.split)
qed

lemma follow_claimed:
  assumes "\<And>x. follows_when z (\<lambda>rs. \<exists>r \<in> set rs. op_id r = i \<and> op_state r = st) (k x)"
  shows "moves (operations_follow z) (bindA (claimed_operation C i f st) k)"
proof (rule movesI)
  fix d r d' assume *: "bindA (claimed_operation C i f st) k d = (r, d')"
  let ?rs = "filter (\<lambda>r. op_id r = i \<and> holds_lease C f (db_now d) r \<and> op_state r = st) (db_operations d)"
  show "operations_follow z d d'"
  proof (cases "\<exists>x. ?rs = [x]")
    case True
    then obtain x where x: "?rs = [x]" by blast
    then have "x \<in> set ?rs" by simp
    then have "\<exists>r \<in> set (db_operations d). op_id r = i \<and> op_state r = st" by auto
    then have "operations_follow z d (snd (k x d))" using assms by (simp add: follows_when_def)
    with * x show ?thesis
      by (simp add: claimed_operation_def bindA_def now_db_def readA_def select_rows_def one_row_def returnA_def)
  next
    case False
    then have "d' = d" using *
      by (auto simp: claimed_operation_def bindA_def now_db_def readA_def select_rows_def one_row_def raiseA_def
          split: list.splits)
    then show ?thesis using operations_follow_refl by (simp add: reflp_def)
  qed
qed

lemma waiting_row_eligible:
  assumes "operations_ok rs" "\<exists>r \<in> set rs. op_id r = i \<and> op_state r = ''RETIREMENT_WAITING_ELIGIBILITY''" "r \<in> set rs" "op_id r = i"
  shows "row_follows (i, ''RETIREMENT_WAITING_ELIGIBILITY'') r (r\<lparr>op_state := ''CLEANING_UP'', op_error := None, op_claimedBy := None, op_lease := None\<rparr>)"
proof -
  have "distinct (map op_id rs)" using assms(1) by (simp add: operations_ok_def)
  with assms have "op_state r = ''RETIREMENT_WAITING_ELIGIBILITY''" by (metis distinct_map inj_onD)
  then show ?thesis using assms(4) by (auto simp: row_follows_def intro: eligible)
qed

lemma follow_reevaluate: "moves (operations_follow (i, ''RETIREMENT_WAITING_ELIGIBILITY'')) (cr_reevaluatePendingRetirement C i f)"
proof -
  let ?Q = "\<lambda>rs. \<exists>r \<in> set rs. op_id r = i \<and> op_state r = ''RETIREMENT_WAITING_ELIGIBILITY''"
  let ?z = "(i, ''RETIREMENT_WAITING_ELIGIBILITY'')"
  have waits: "moves (operations_follow ?z) (thenA (update_retirements P g) (thenA (update_operations (\<lambda>r. op_id r = i)
      (\<lambda>r. r\<lparr>op_claimedBy := None, op_lease := None, op_error := Some e\<rparr>)) (returnA x)))" for P g e and x :: reevaluation
    by (intro moves_intros follow_intros follow_update_moves) (auto simp: row_follows_def intro: follow_same same_operations)
  show ?thesis
    unfolding cr_reevaluatePendingRetirement_def
    apply (rule moves_thenA [OF operations_follow_trans moves_liftA [OF operations_follow_refl]])
    apply (rule moves_transactionA [OF operations_follow_refl])
    apply (rule moves_bindA [OF operations_follow_trans follow_same [OF other_tables(9)]])
    apply (rule follow_claimed)
    apply (rule when_quiet [OF keeps_readA])
    subgoal for now oper e
    proof (cases "el_eligible e")
      case False
      then show ?thesis using waits by (auto intro: when_moves)
    next
      case True
      have step: "follows_when ?z ?Q (bindA (update_operations (\<lambda>r. op_id r = i)
          (\<lambda>r. r\<lparr>op_state := ''CLEANING_UP'', op_error := None, op_claimedBy := None, op_lease := None\<rparr>)) k)"
        if "\<And>rs. keeps db_operations (k rs)" for k :: "operation_row list \<Rightarrow> reevaluation db"
        using that by (rule when_update [rotated]) (auto intro: waiting_row_eligible)
      show ?thesis
        unfolding thenA_def if_not_P [OF not_not [THEN iffD2, OF True]]
        by (intro when_quiet [OF other_tables(1)] when_quiet [OF other_tables(11)] when_quiet [OF other_tables(6)] step
            keeps_bindA other_tables(11) keeps_returnA)
    qed
    done
qed

section \<open>A reconciliation follows the edges\<close>

definition world_follows :: "string \<times> string \<Rightarrow> 'w coordinator_world \<Rightarrow> 'w coordinator_world \<Rightarrow> bool" where
  "world_follows z s s' \<longleftrightarrow> operations_follow z (fst s) (fst s')"

text \<open>The operation that a round works on\<close>

definition key_of :: "operation \<Rightarrow> string \<times> string" where
  "key_of oper = (o_id oper, o_state oper)"

lemma world_follows_rel: "reflp (world_follows z)" "transp (world_follows z)"
  using operations_follow_refl operations_follow_trans by (auto simp: reflp_def transp_def world_follows_def)

lemma world_on_fst: "moves (operations_follow z) m \<Longrightarrow> moves (world_follows z) (on_fst m)"
  by (auto simp: moves_def on_fst_def world_follows_def split: prod.split) (metis snd_conv)

lemma world_on_snd: "moves (world_follows z) (on_snd m)"
  using operations_follow_refl by (auto simp: moves_def on_snd_def world_follows_def reflp_def split: prod.split)

lemma world_quiet: "keeps db_operations m \<Longrightarrow> moves (world_follows z) (on_fst m)"
  by (rule world_on_fst [OF follow_same])

lemma world_move: "to' = o_state oper \<or> coordinator_edge (o_state oper) to' \<Longrightarrow> moves (world_follows (key_of oper)) (move_to E oper to' v)"
  unfolding move_to_def key_of_def by (intro moves_intros world_follows_rel world_on_fst follow_transition)

lemma world_crash: "moves (world_follows z) (crash_at E point)"
  by (simp add: crash_at_def world_on_snd)

lemmas world_intros = moves_intros world_follows_rel world_on_snd world_crash quiet_methods [THEN world_quiet]
  quiet_deletion [THEN world_quiet] follow_authorize [THEN world_on_fst] world_move

lemma world_reevaluate:
  "o_state oper = ''RETIREMENT_WAITING_ELIGIBILITY'' \<Longrightarrow>
     moves (world_follows (key_of oper)) (on_fst (cr_reevaluatePendingRetirement C (o_id oper) f))"
  using world_on_fst [OF follow_reevaluate] by (simp add: key_of_def)

lemmas edge_steps = coordinator_edge.intros

lemma follow_observe:
  "o_state o1 = ''LOADING_SNAPSHOT'' \<Longrightarrow> moves (world_follows (key_of o1)) (observeSnapshot E1 o1)"
  "o_state o2 = ''WAITING_FOR_CATCHUP'' \<Longrightarrow> moves (world_follows (key_of o2)) (observeCatchup E2 o2)"
  "o_state o3 = ''VALIDATING'' \<Longrightarrow> moves (world_follows (key_of o3)) (observeValidation E3 o3)"
  unfolding observeSnapshot_def observeCatchup_def observeValidation_def
  by (auto intro!: world_intros intro: edge_steps)

lemma follow_promotion:
  "o_state o1 = ''READY_TO_PROMOTE'' \<Longrightarrow> moves (world_follows (key_of o1)) (rt_preparePromotion E1 o1)"
  "o_state o2 = ''PROMOTING'' \<Longrightarrow> moves (world_follows (key_of o2)) (rt_promote E2 o2)"
  "o_state o3 = ''PROMOTED'' \<Longrightarrow> moves (world_follows (key_of o3)) (protectRollback E3 o3)"
  unfolding rt_preparePromotion_def rt_promote_def protectRollback_def
  by (auto intro!: world_intros intro: edge_steps)

lemma follow_callbacks: "callbacks_move (world_follows z) (deletion_callbacks E oper token)"
  by (auto simp: callbacks_move_def deletion_callbacks_def Let_def intro!: world_intros)

section \<open>A round of the loop\<close>

text \<open>What the coordinator relies on: the drivers write to the database through the callbacks alone\<close>

definition drivers_ok :: "'w coordinator_env \<Rightarrow> bool" where
  "drivers_ok E \<longleftrightarrow> (\<forall>b D. rt_driver E b = Some D \<longrightarrow> driver_contract D (fst :: 'w coordinator_world \<Rightarrow> control_db))"

lemma follow_driver:
  fixes D :: "'w coordinator_world generation_driver"
  assumes "driver_contract D (fst :: 'w coordinator_world \<Rightarrow> control_db)"
  shows "moves (world_follows z) (gd_createGeneration D g)" "moves (world_follows z) (gd_planDelete D g ev i f t)"
    "moves (world_follows z) (gd_markAuthority D p)" "callbacks_move (world_follows z) cb \<Longrightarrow> moves (world_follows z) (gd_executePlan D p cb)"
  using driver_contract.driver_moves [OF assms operations_follow_refl]
    driver_contract.execute_moves [OF assms operations_follow_refl operations_follow_trans]
  by (simp_all add: world_follows_def [abs_def])

lemma follow_cleanup:
  fixes D :: "'w coordinator_world generation_driver"
  assumes "driver_contract D (fst :: 'w coordinator_world \<Rightarrow> control_db)" "o_state oper = ''CLEANING_UP''"
  shows "moves (world_follows (key_of oper)) (rt_cleanup E D oper)"
  unfolding rt_cleanup_def physical_deletion_def Let_def
  using assms(2) by (auto intro!: world_intros follow_driver [OF assms(1)] follow_callbacks intro: edge_steps)

lemma follow_reconcile:
  fixes E :: "'w coordinator_env"
  assumes "drivers_ok E"
  shows "moves (world_follows (key_of oper)) (reconcile E oper)"
proof -
  have state: "moves (world_follows (key_of oper)) (reconcile_state E D oper)"
    if "driver_contract D (fst :: 'w coordinator_world \<Rightarrow> control_db)" for D :: "'w coordinator_world generation_driver"
    unfolding reconcile_state_def Let_def
    by (auto intro!: world_intros follow_driver [OF that] follow_observe follow_promotion follow_cleanup [OF that] world_reevaluate intro: edge_steps)
  show ?thesis
    unfolding reconcile_def using assms
    by (auto simp: drivers_ok_def intro!: world_intros state)
qed

text \<open>What a round does to the rows of the operations\<close>

definition operations_round :: "operation_row list \<Rightarrow> operation_row list \<Rightarrow> bool" where
  "operations_round xs ys \<longleftrightarrow> (\<exists>i. list_all2 (\<lambda>a b. op_id b = op_id a \<and>
     (op_state b = op_state a \<or> op_id a = i \<and> coordinator_edge (op_state a) (op_state b))) xs ys)"

lemma operations_round_refl: "operations_round xs xs"
  by (auto simp: operations_round_def intro: list_all2_refl)

lemma world_follows_round:
  "world_follows z s s' \<Longrightarrow> operations_ok (db_operations (fst s)) \<Longrightarrow>
     operations_ok (db_operations (fst s')) \<and> operations_round (db_operations (fst s)) (db_operations (fst s'))"
  unfolding world_follows_def operations_follow_def operations_round_def
  by (auto intro!: exI [of _ "fst z"] simp: row_follows_def elim!: list_all2_mono)

lemma follow_round:
  fixes E :: "'w coordinator_env"
  assumes "drivers_ok E" "run_round E s = (r, s')"
  shows "\<exists>z. world_follows z s s'"
proof -
  obtain r1 s1 where c: "on_fst (cr_claimNext (rt_config E)) s = (r1, s1)"
    by (cases "on_fst (cr_claimNext (rt_config E)) s")
  let ?body = "\<lambda>claimed. case claimed of None \<Rightarrow> on_snd (rt_sleep E) | Some oper \<Rightarrow> reconcile E oper"
  let ?handle = "\<lambda>e. thenA (on_snd (rt_increment E ''rebuild_failure_total''))
       (thenA (on_snd (rt_logFailure E (error_code e))) (on_snd (rt_sleep E)))"
  define z where "z = (case r1 of Inr (Some oper) \<Rightarrow> key_of oper | _ \<Rightarrow> ([], []))"
  have "moves (world_follows z) (on_fst (cr_claimNext (rt_config E)))" by (rule world_on_fst [OF follow_claim])
  from movesD [OF this c] have 1: "world_follows z s s1" .
  have body: "moves (world_follows z) (?body x)" if "r1 = Inr x" for x
    using that follow_reconcile [OF assms(1)] by (cases x) (auto simp: z_def intro!: world_intros)
  have handle: "moves (world_follows z) (?handle e)" for e by (intro world_intros)
  have "world_follows z s1 s'"
  proof (cases r1)
    case (Inl e)
    with assms(2) c have "?handle e s1 = (r, s')" by (simp add: run_round_def catchA_def bindA_def)
    then show ?thesis by (rule movesD [OF handle])
  next
    case (Inr x)
    obtain r2 s2 where b: "?body x s1 = (r2, s2)" by (cases "?body x s1")
    from movesD [OF body [OF Inr] b] have 2: "world_follows z s1 s2" .
    show ?thesis
    proof (cases r2)
      case (Inl e)
      with assms(2) c Inr b have "?handle e s2 = (r, s')" by (simp add: run_round_def catchA_def bindA_def)
      from movesD [OF handle this] 2 show ?thesis using world_follows_rel(2) by (blast dest: transpD)
    next
      case (Inr y)
      with assms(2) c b \<open>r1 = Inr x\<close> have "s' = s2" by (simp add: run_round_def catchA_def bindA_def)
      with 2 show ?thesis by simp
    qed
  qed
  with 1 have "world_follows z s s'" using world_follows_rel(2) by (blast dest: transpD)
  then show ?thesis by blast
qed

lemma follow_rounds:
  assumes "drivers_ok E" "forA (replicate n ()) (\<lambda>_. run_round E) s = (r, s')" "operations_ok (db_operations (fst s))"
  shows "(operations_round ^^ n) (db_operations (fst s)) (db_operations (fst s'))"
  using assms(2,3)
proof (induction n arbitrary: s)
  case (Suc n)
  obtain r1 s1 where 1: "run_round E s = (r1, s1)" by (cases "run_round E s")
  from follow_round [OF assms(1) 1] obtain z where "world_follows z s s1" by blast
  from world_follows_round [OF this Suc.prems(2)] have ok: "operations_ok (db_operations (fst s1))"
    and step: "operations_round (db_operations (fst s)) (db_operations (fst s1))" by simp_all
  have stay: "(operations_round ^^ n) xs xs" for xs
    by (induction n) (auto simp: operations_round_refl intro: relcomppI)
  have "(operations_round ^^ n) (db_operations (fst s1)) (db_operations (fst s'))"
  proof (cases r1)
    case (Inl e)
    with Suc.prems 1 show ?thesis using stay by (simp add: thenA_def bindA_def)
  next
    case (Inr u)
    with Suc.prems(1) 1 have "forA (replicate n ()) (\<lambda>_. run_round E) s1 = (r, s')" by (simp add: thenA_def bindA_def)
    from Suc.IH [OF this ok] show ?thesis .
  qed
  with step show ?case by (rule relpowp_Suc_I2)
qed simp

lemma run_rounds:
  assumes "drivers_ok E" "operations_ok (db_operations (fst s))" "run_coordinator E ready n s = (r, s')"
  shows "(operations_round ^^ n) (db_operations (fst s)) (db_operations (fst s'))"
proof (cases ready)
  case True
  with assms(3) have "forA (replicate n ()) (\<lambda>_. run_round E) s = (r, s')"
    by (simp add: run_coordinator_def thenA_def bindA_def liftA_def requireR_def)
  from follow_rounds [OF assms(1) this assms(2)] show ?thesis .
next
  case False
  with assms(3) have "s' = s" by (simp add: run_coordinator_def thenA_def bindA_def liftA_def requireR_def)
  then show ?thesis by (induction n arbitrary: s') (auto simp: operations_round_refl intro: relcomppI)
qed

section \<open>What the loop guarantees\<close>

lemma edge_in_states: "coordinator_edge a b \<Longrightarrow> b \<in> set STATES"
  by (cases rule: coordinator_edge.cases) (auto simp: STATES_def ACTIVE_def)

lemma follows_in_states: "coordinator_edge\<^sup>*\<^sup>* a b \<Longrightarrow> a \<in> set STATES \<Longrightarrow> b \<in> set STATES"
  by (induction rule: rtranclp_induct) (auto intro: edge_in_states)

definition SETTLED :: "string list" where
  "SETTLED = [''ROLLBACK_PROTECTED'', ''COMPLETED'', ''FAILED'', ''AMBIGUOUS'']"

lemma settled_no_edge: "coordinator_edge a b \<Longrightarrow> a \<notin> set SETTLED"
  by (cases rule: coordinator_edge.cases) (auto simp: SETTLED_def)

lemma settled_stays: "coordinator_edge\<^sup>*\<^sup>* a b \<Longrightarrow> a \<in> set SETTLED \<Longrightarrow> b = a"
  by (induction rule: converse_rtranclp_induct) (auto dest: settled_no_edge)

text \<open>Through any number of rounds\<close>

definition row_followed :: "operation_row \<Rightarrow> operation_row \<Rightarrow> bool" where
  "row_followed a b \<longleftrightarrow> op_id b = op_id a \<and> coordinator_edge\<^sup>*\<^sup>* (op_state a) (op_state b)"

lemma rounds_rows: "(operations_round ^^ n) xs ys \<Longrightarrow> list_all2 row_followed xs ys"
proof (induction n arbitrary: ys)
  case 0
  then show ?case by (auto simp: row_followed_def intro: list_all2_refl)
next
  case (Suc n)
  then obtain zs where zs: "list_all2 row_followed xs zs" "operations_round zs ys" by auto
  then have "list_all2 row_followed zs ys"
    by (auto simp: operations_round_def row_followed_def elim!: list_all2_mono)
  moreover have "row_followed a b \<Longrightarrow> row_followed b c \<Longrightarrow> row_followed a c" for a b c by (auto simp: row_followed_def)
  ultimately show ?case using zs(1) list_all2_trans [of row_followed row_followed row_followed] by blast
qed

lemma run_rows:
  assumes "drivers_ok E" "operations_ok (db_operations (fst s))" "run_coordinator E ready n s = (r, s')"
  shows "list_all2 row_followed (db_operations (fst s)) (db_operations (fst s'))"
  by (rule rounds_rows [OF run_rounds [OF assms]])

text \<open>C21: The lifecycle of a coordinator operation.  Whatever the drivers, the router and the injected faults
  answer, and wherever an exception ends a step, no operation is lost or invented, and each round of the
  loop moves at most one of them, by exactly one edge of the lifecycle from the state that it was in: no state
  of a rebuild is skipped, not even within a round, and no retirement is cleaned up before a round has
  found it eligible.\<close>

theorem coordinator_lifecycle:
  assumes "drivers_ok E" "operations_ok (db_operations (fst s))" "run_coordinator E ready n s = (r, s')"
  shows "(operations_round ^^ n) (db_operations (fst s)) (db_operations (fst s'))"
  using run_rounds [OF assms] .

text \<open>C30: The state of an operation is well typed.  If every operation is in one of the states of the
  schema, then after any run of the loop every operation still is; and an operation that was rolled
  back protected, completed, failed or ambiguous is in the same state.\<close>

theorem coordinator_states_typed:
  assumes "drivers_ok E" "operations_ok (db_operations (fst s))" "run_coordinator E ready n s = (r, s')"
    and "\<forall>p \<in> set (db_operations (fst s)). List.member STATES (op_state p)"
  shows "(\<forall>p \<in> set (db_operations (fst s')). List.member STATES (op_state p)) \<and>
    (\<forall>p \<in> set (db_operations (fst s)). List.member SETTLED (op_state p) \<longrightarrow>
      (\<exists>q \<in> set (db_operations (fst s')). op_id q = op_id p \<and> op_state q = op_state p))"
proof -
  note rows = run_rows [OF assms(1-3)]
  have "List.member STATES (op_state q)" if q: "q \<in> set (db_operations (fst s'))" for q
  proof -
    obtain p where "p \<in> set (db_operations (fst s))" "row_followed p q"
      using rows q by (metis list_all2_conv_all_nth in_set_conv_nth)
    with assms(4) show ?thesis by (auto simp: row_followed_def dest: follows_in_states)
  qed
  moreover have "\<exists>q \<in> set (db_operations (fst s')). op_id q = op_id p \<and> op_state q = op_state p"
    if p: "p \<in> set (db_operations (fst s))" "List.member SETTLED (op_state p)" for p
  proof -
    obtain q where "q \<in> set (db_operations (fst s'))" "row_followed p q"
      using rows p(1) by (metis list_all2_conv_all_nth in_set_conv_nth)
    with p(2) show ?thesis by (auto simp: row_followed_def dest: settled_stays)
  qed
  ultimately show ?thesis by blast
qed

text \<open>The steps of a promotion before the router has answered\<close>

definition same_registry :: "control_db \<Rightarrow> control_db \<Rightarrow> bool" where
  "same_registry d d' \<longleftrightarrow> db_generations d' = db_generations d \<and> db_operations d' = db_operations d"

lemma registry_rel: "reflp same_registry" "transp same_registry"
  by (auto simp: reflp_def transp_def same_registry_def)

lemma registry_reads:
  "moves same_registry (select_rows g P)" "moves same_registry now_db" "moves same_registry (one_row e rs)"
  "moves same_registry (update_pointers P1 f1)" "moves same_registry (update_promotions P2 f2)"
  by (auto simp: statement_defs same_registry_def select_rows_def now_db_def one_row_def raiseA_def split: list.splits)

lemma registry_quiet: "moves same_registry (cr_casPointer i q)" "moves same_registry (cr_operationPromotion i1)"
  unfolding cr_casPointer_def cr_operationPromotion_def by (auto intro!: moves_intros registry_rel registry_reads)

lemma cas_phase:
  assumes "cr_casPointer i q d = (Inr p, d')" "list_all (\<lambda>x. pm_phase x = ''PREPARING'') (filter (\<lambda>p. pm_id p = i) (db_promotions d))"
  shows "pr_phase p = ''POINTER_UPDATED''"
proof -
  have "\<not> (filter (\<lambda>p. pm_id p = i) (db_promotions d) = [x] \<and> pm_phase x \<noteq> ''PREPARING'')" for x
    using assms(2) by auto
  with assms(1) show ?thesis unfolding cr_casPointer_def
    by (auto simp: thenA_Inr bindA_Inr transactionA_ok update_table_Inr one_row_Inr promotion_of_def db_Inr split: if_splits)
qed

lemma latest_promotion_in: "latest_promotion ps = Some p \<Longrightarrow> p \<in> set ps"
  by (induction ps arbitrary: p) (auto split: option.splits if_splits)

lemma operation_promotion_row:
  assumes "cr_operationPromotion i d = (Inr there, d')"
  shows "d' = d" "there = Some v \<Longrightarrow> \<exists>x \<in> set (db_promotions d). pm_operation x = Some i \<and> v = promotion_of x"
proof -
  from assms have there: "d' = d" "there = map_option promotion_of (latest_promotion (filter (\<lambda>p. pm_operation p = Some i) (db_promotions d)))"
    by (auto simp: cr_operationPromotion_def thenA_Inr bindA_Inr select_rows_Inr)
  then show "d' = d" by simp
  assume "there = Some v"
  with there obtain x where x: "latest_promotion (filter (\<lambda>p. pm_operation p = Some i) (db_promotions d)) = Some x"
    and v: "v = promotion_of x"
    by (cases "latest_promotion (filter (\<lambda>p. pm_operation p = Some i) (db_promotions d))") auto
  from latest_promotion_in [OF x] have "x \<in> set (db_promotions d)" "pm_operation x = Some i" by auto
  with v show "\<exists>x \<in> set (db_promotions d). pm_operation x = Some i \<and> v = promotion_of x" by blast
qed

lemma wp_crash: "(\<And>r t'. fst t' = fst t \<Longrightarrow> Q r t') \<Longrightarrow> wp (crash_at E point) Q t"
  by (auto simp: crash_at_def wp_def on_snd_def split: prod.split)

lemma observe_refuses:
  assumes "\<And>g v w. fst (rt_observes E g v w) \<noteq> Inr True" "\<And>e' t. fst t = fst s \<Longrightarrow> Q (Inl e') t"
  shows "wp (bindA (on_snd (rt_observes E g v)) (\<lambda>observed. thenA (ensureA observed e) (k observed))) Q s"
proof -
  obtain r w where o: "rt_observes E g v (snd s) = (r, w)" by fastforce
  with assms(1) [of g v "snd s"] have "r \<noteq> Inr True" by simp
  then show ?thesis using o assms(2)
    by (cases r) (auto simp: wp_def bindA_def thenA_def liftA_def on_snd_def requireR_def split: prod.splits)
qed

text \<open>No promotion without the router.  As long as the router does not report the candidate, promoting
  an operation whose journals are not verified fails; the registry of the generations and the
  operations are as they were, so that the old generation still serves and nothing is retired.\<close>

theorem promotion_needs_router:
  fixes E :: "'w coordinator_env"
  assumes "\<And>g v w. fst (rt_observes E g v w) \<noteq> Inr True" "promotions_ok (db_promotions (fst s))"
    and "\<forall>p \<in> set (db_promotions (fst s)). pm_operation p = Some (o_id oper) \<longrightarrow>
      pm_phase p = ''PREPARING'' \<or> pm_phase p = ''POINTER_UPDATED''"
    and "rt_promote E oper s = (r, s')"
  shows "\<not> is_ok r \<and> db_generations (fst s') = db_generations (fst s) \<and> db_operations (fst s') = db_operations (fst s)"
proof -
  let ?Q = "\<lambda>r s'. \<not> is_ok r \<and> same_registry (fst s) (fst s')"
  have same: "same_registry (fst s) (fst s)" by (simp add: same_registry_def)
  have cas: "wp (cr_casPointer i q) (\<lambda>r d'. same_registry (fst s) d' \<and> (\<forall>p. r = Inr p \<longrightarrow> pr_phase p = ''POINTER_UPDATED'')) (fst s)"
    if x: "x \<in> set (db_promotions (fst s))" "pm_id x = i" "pm_phase x = ''PREPARING''" for x i q
  proof (rule wpI)
    fix r d' assume *: "cr_casPointer i q (fst s) = (r, d')"
    have "list_all (\<lambda>x. pm_phase x = ''PREPARING'') (filter (\<lambda>p. pm_id p = i) (db_promotions (fst s)))"
      using x assms(2) by (auto simp: promotions_ok_def list_all_iff distinct_map dest: inj_onD)
    with * movesD [OF registry_quiet(1) *] show "same_registry (fst s) d' \<and> (\<forall>p. r = Inr p \<longrightarrow> pr_phase p = ''POINTER_UPDATED'')"
      by (auto dest: cas_phase)
  qed
  have "wp (rt_promote E oper) ?Q s"
  proof (cases "fst (cr_operationPromotion (o_id oper) (fst s))")
    case (Inl e)
    moreover from movesD [OF registry_quiet(2)] have "same_registry (fst s) (snd (cr_operationPromotion (o_id oper) (fst s)))"
      by (metis surjective_pairing)
    ultimately show ?thesis
      by (auto simp: rt_promote_def wp_def bindA_def on_fst_def split: prod.splits)
  next
    case (Inr there)
    then obtain d' where d: "cr_operationPromotion (o_id oper) (fst s) = (Inr there, d')" by (metis surjective_pairing)
    note row = operation_promotion_row [OF d]
    have read: "wp (on_fst (cr_operationPromotion (o_id oper))) Q s \<longleftrightarrow> Q (Inr there) s" for Q
      using d row(1) by (cases s) (simp add: wp_def on_fst_def)
    show ?thesis
    proof (cases there)
      case None
      then show ?thesis unfolding rt_promote_def wp_bindA read using same by (simp add: wp_simps)
    next
      case (Some v)
      then obtain x where x: "x \<in> set (db_promotions (fst s))" "pm_operation x = Some (o_id oper)" "v = promotion_of x"
        using row(2) by blast
      then have phase: "pr_phase v = ''PREPARING'' \<or> pr_phase v = ''POINTER_UPDATED''" "pr_id v = pm_id x" "pr_phase v = pm_phase x"
        using assms(3) by (auto simp: promotion_of_def)
      have observed: "wp (bindA (on_snd (rt_observes E g n)) (\<lambda>observed. thenA (ensureA observed e) (k observed))) P t"
        if "same_registry (fst s) (fst t)" "\<And>e' t. same_registry (fst s) (fst t) \<Longrightarrow> P (Inl e') t" for g n e k P and t :: "'w coordinator_world"
        using that assms(1) by (intro observe_refuses) auto
      show ?thesis
      proof (cases "pr_phase v = ''PREPARING''")
        case True
        then have "pm_phase x = ''PREPARING''" using phase by simp
        note cas = cas [OF x(1) refl this]
        show ?thesis
          unfolding rt_promote_def wp_bindA [where m = "on_fst (cr_operationPromotion (o_id oper))"] read Some
          apply (simp add: True phase(2) wp_bindA [of "bindA m f" for m f] wp_bindA [of "on_fst m" for m] wp_on_fst)
          apply (rule wp_mono [OF cas])
          apply (auto simp: wp_thenA wp_bindA [of "bindA m f" for m f] wp_returnA wp_bindA [of "returnA v" for v] split: sum.split
              intro!: wp_crash observed)
          done
      next
        case False
        then show ?thesis
          unfolding rt_promote_def wp_bindA [where m = "on_fst (cr_operationPromotion (o_id oper))"] read Some
          using phase same by (simp add: wp_returnA wp_bindA [of "returnA v"] wp_bindA [of "bindA m f" for m f] observed)
      qed
    qed
  qed
  then show ?thesis using assms(4) by (auto simp: wp_def same_registry_def)
qed

section \<open>A run\<close>

definition idle_driver :: "unit coordinator_world generation_driver" where
  "idle_driver = \<lparr>gd_createGeneration = (\<lambda>_. returnA ()),
     gd_planDelete = (\<lambda>_ _ _ _ _. raiseA ''DELETE_UNAVAILABLE''), gd_markAuthority = returnA,
     gd_executePlan = (\<lambda>_ _. returnA ())\<rparr>"

definition idle_env :: "unit coordinator_env" where
  "idle_env = \<lparr>rt_config = worker, rt_driver = (\<lambda>_. Some idle_driver), rt_observes = (\<lambda>_ _. returnA False),
     rt_increment = (\<lambda>_. returnA ()), rt_log = (\<lambda>_ _. returnA ()), rt_logFailure = (\<lambda>_. returnA ()),
     rt_crash = (\<lambda>_. returnA ()), rt_sleep = returnA ()\<rparr>"

lemma idle_ok: "drivers_ok idle_env"
  unfolding drivers_ok_def
proof (intro allI impI)
  fix b D assume "rt_driver idle_env b = Some D"
  then have D: "D = idle_driver" by (simp add: idle_env_def)
  show "driver_contract D (fst :: unit coordinator_world \<Rightarrow> control_db)"
    unfolding D
    by unfold_locales (auto simp: idle_driver_def keeps_def moves_def raiseA_def returnA_def reflp_def)
qed

text \<open>A rebuild of \<open>gen-c\<close> is requested; in the second, its promotion waits for the router\<close>

definition rebuild_db :: "string \<Rightarrow> control_db" where
  "rebuild_db state = cleanup_db\<lparr>db_operations :=
     [(cleanup_operation op_uuid (cleanup_request ''rebuild-1'' ''jwb'' ''q'' ''gen-c'' ''oxigraph'') (Some 5) 0)\<lparr>op_state := state\<rparr>]\<rparr>"

definition promoting_db :: control_db where
  "promoting_db = (rebuild_db ''PROMOTING'')\<lparr>db_promotions := [new_promotion token_uuid op_uuid ''jwb'' ''gen-b'' ''gen-c'' 5 0]\<rparr>"

definition rebuilding :: "unit result \<times> unit coordinator_world" where
  "rebuilding = run_coordinator idle_env True 3 (rebuild_db ''REBUILD_REQUESTED'', ())"

lemma rebuilding_run: "run_coordinator idle_env True 3 (rebuild_db ''REBUILD_REQUESTED'', ()) = (fst rebuilding, snd rebuilding)"
  by (simp add: rebuilding_def)

lemma rebuild_ok: "operations_ok (db_operations (fst (rebuild_db ''REBUILD_REQUESTED'', ())))"
  by code_simp

theorem coordinator_lifecycle_witness:
  "(operations_round ^^ 3) (db_operations (rebuild_db ''REBUILD_REQUESTED'')) (db_operations (fst (snd rebuilding))) \<and>
   map op_state (db_operations (fst (snd rebuilding))) = [''LOADING_SNAPSHOT'']"
proof -
  have now: "map op_state (db_operations (fst (snd rebuilding))) = [''LOADING_SNAPSHOT'']" by code_simp
  from coordinator_lifecycle [OF idle_ok rebuild_ok rebuilding_run] now show ?thesis unfolding fst_conv by blast
qed

theorem coordinator_states_typed_witness:
  "list_all (\<lambda>p. List.member STATES (op_state p)) (db_operations (fst (snd rebuilding)))"
proof -
  have typed: "list_all (\<lambda>p. List.member STATES (op_state p)) (db_operations (fst (rebuild_db ''REBUILD_REQUESTED'', ())))" by code_simp
  from coordinator_states_typed [OF idle_ok rebuild_ok rebuilding_run typed [unfolded list_all_iff]] show ?thesis
    unfolding list_all_iff by blast
qed

theorem promotion_needs_router_witness:
  "fst (rt_promote idle_env (operation_of (hd (db_operations promoting_db))) (promoting_db, ())) = Inl ''ROUTER_NOT_CONVERGED'' \<and>
   db_generations (fst (snd (rt_promote idle_env (operation_of (hd (db_operations promoting_db))) (promoting_db, ())))) =
     db_generations promoting_db"
proof -
  let ?o = "operation_of (hd (db_operations promoting_db))" and ?s = "(promoting_db, ())"
  have r: "fst (rt_promote idle_env ?o ?s) = Inl ''ROUTER_NOT_CONVERGED''" by code_simp
  have ok: "promotions_ok (db_promotions (fst ?s))" by code_simp
  have open': "list_all (\<lambda>p. pm_operation p = Some (o_id ?o) \<longrightarrow> pm_phase p = ''PREPARING'' \<or> pm_phase p = ''POINTER_UPDATED'')
      (db_promotions (fst ?s))" by code_simp
  have unseen: "\<And>g v w. fst (rt_observes idle_env g v w) \<noteq> Inr True" by (simp add: idle_env_def returnA_def)
  have "rt_promote idle_env ?o ?s = (fst (rt_promote idle_env ?o ?s), snd (rt_promote idle_env ?o ?s))" by simp
  from promotion_needs_router [OF unseen ok open' [unfolded list_all_iff] this] r show ?thesis by simp
qed

end
