(* ===== verification/KubernetesDriver.thy ===== *)
theory KubernetesDriver
  imports GenerationDriver Generation
begin

text \<open>
  \<open>services/rdf-sync/src/kubernetes-generation-driver.js\<close>: a generation as a stateful set, its volume
  claim and its service, which the driver creates, scales, inspects and deletes.  The client of the
  Kubernetes API is a parameter: a record of its calls on an environment \<open>'w\<close>, each of which may fail
  with the status, the reason and the message of an \<open>api_error\<close>.  The answers are the objects
  themselves (\<open>unwrap\<close> has nothing to remove), and the optional fields that the code reads are options.
\<close>

section \<open>The interface of the cluster\<close>

record api_error =
  ae_status :: "int option"
  ae_reason :: "string option"
  ae_message :: string

record k8s_item =
  it_uid :: "string option"
  it_resourceVersion :: "string option"
  it_deleting :: bool
  it_name :: string
  it_labels :: "(string \<times> string) list"
  it_annotations :: "(string \<times> string) list"
  it_replicas :: "int option"
  it_readyReplicas :: "int option"
  it_phase :: "string option"

record container =
  ct_image :: string
  ct_pullPolicy :: string
  ct_port :: int
  ct_mount :: string
  ct_args :: "string list option"
  ct_secret :: bool

text \<open>The bodies of the \<open>create\<close> calls: the name, the labels and what differs between generations\<close>

datatype manifest =
    Pvc_body string "(string \<times> string) list" string
  | Service_body string "(string \<times> string) list" "(string \<times> string) list" int
  | Workload_body string "(string \<times> string) list" "(string \<times> string) list" container string

type_synonym ('w, 'a) api_call = "'w \<Rightarrow> (api_error + 'a) \<times> 'w"

record 'w k8s_client =
  kc_create :: "string \<Rightarrow> manifest \<Rightarrow> ('w, k8s_item) api_call"
  kc_read :: "string \<Rightarrow> string \<Rightarrow> ('w, k8s_item) api_call"
  kc_delete :: "string \<Rightarrow> string \<Rightarrow> string \<Rightarrow> string \<Rightarrow> ('w, unit) api_call"
  kc_annotate :: "string \<Rightarrow> string \<Rightarrow> (string \<times> string) list \<Rightarrow> ('w, unit) api_call"
  kc_scale :: "string \<Rightarrow> int \<Rightarrow> ('w, unit) api_call"
  kc_restart :: "string \<Rightarrow> ('w, unit) api_call"
  kc_list :: "string \<Rightarrow> ('w, k8s_item list) api_call"
  kc_wait :: "'w \<Rightarrow> 'w"

section \<open>Configuration\<close>

definition NAMESPACE :: string where "NAMESPACE = ''jwb-query-local''"
definition INSTANCE :: string where "INSTANCE = ''jwb-local-01''"
definition PREFIX :: string where "PREFIX = ''wikibase-federation.lodac.nii.ac.jp/''"
definition RETIREMENT_OPERATION :: string where "RETIREMENT_OPERATION = PREFIX @ ''retirement-operation''"
definition RETIREMENT_FENCE :: string where "RETIREMENT_FENCE = PREFIX @ ''retirement-fence''"
definition RETIREMENT_TOKEN :: string where "RETIREMENT_TOKEN = PREFIX @ ''deletion-token''"

record k8s_profile =
  kp_short :: string
  kp_image :: string
  kp_port :: int
  kp_mount :: string
  kp_queryPath :: string
  kp_updatePath :: string
  kp_args :: "string list option"
  kp_pullPolicy :: "string option"
  kp_secret :: bool

definition PROFILES :: "(string \<times> k8s_profile) list" where
  "PROFILES =
     [(''virtuoso'', \<lparr>kp_short = ''virtuoso'',
        kp_image = ''openlink/virtuoso-opensource-7:7.2.17@sha256:0dbe1ab4fa0cb7bbafc1f6c0c2b0a5d6f22d918dbd17672f2ddb24580aa6756a'',
        kp_port = 8890, kp_mount = ''/database'', kp_queryPath = ''/sparql'', kp_updatePath = ''/sparql-auth'',
        kp_args = None, kp_pullPolicy = None, kp_secret = True\<rparr>),
      (''oxigraph'', \<lparr>kp_short = ''oxigraph'',
        kp_image = ''oxigraph/oxigraph:0.5.7@sha256:fa3a660c0f5ec776472c0828309dec8a5410b7267e2dcac59ab7d7f29e10da28'',
        kp_port = 7878, kp_mount = ''/data'', kp_queryPath = ''/query'', kp_updatePath = ''/update'',
        kp_args = Some [''serve'', ''--location'', ''/data'', ''--bind'', ''0.0.0.0:7878''], kp_pullPolicy = None, kp_secret = False\<rparr>),
      (''fuseki-tdb2'', \<lparr>kp_short = ''fuseki'', kp_image = ''wfp/jwb-rdf-fuseki:6.1.0'', kp_port = 3030,
        kp_mount = ''/fuseki/databases'', kp_queryPath = ''/jwb/query'', kp_updatePath = ''/jwb/update'',
        kp_args = None, kp_pullPolicy = Some ''Never'', kp_secret = False\<rparr>)]"

text \<open>\<open>/^(?:[1-9][0-9]*Mi|[1-9][0-9]*Gi)$/u\<close>\<close>

definition STORAGE_SIZE :: rx where
  "STORAGE_SIZE = Cats [Cls is_digit19, Star (Cls is_digit), Alt (Lit ''Mi'') (Lit ''Gi'')]"

record 'w k8s_driver =
  kd_backendType :: string
  kd_profile :: k8s_profile
  kd_client :: "'w k8s_client"
  kd_namespace :: string
  kd_instanceId :: string
  kd_storageSize :: string

definition new_k8s_driver :: "string \<Rightarrow> 'w k8s_client \<Rightarrow> string \<Rightarrow> string \<Rightarrow> string \<Rightarrow> 'w k8s_driver result" where
  "new_k8s_driver backendType client namespace instanceId storageSize =
     (case map_of PROFILES backendType of
        None \<Rightarrow> Inl ''invalid Kubernetes generation driver configuration''
      | Some p \<Rightarrow>
          if namespace \<noteq> NAMESPACE \<or> instanceId \<noteq> INSTANCE \<or> \<not> rx_test STORAGE_SIZE storageSize
          then Inl ''invalid Kubernetes generation driver configuration''
          else Inr \<lparr>kd_backendType = backendType, kd_profile = p, kd_client = client, kd_namespace = namespace,
            kd_instanceId = instanceId, kd_storageSize = storageSize\<rparr>)"

record k8s_descriptor =
  ks_generationId :: string
  ks_backendType :: string
  ks_namespace :: string
  ks_workloadName :: string
  ks_serviceName :: string
  ks_queryEndpoint :: string
  ks_internalUpdateEndpoint :: string
  ks_storageIdentity :: string
  ks_normalizationModel :: string
  ks_partitionModel :: string

definition k8s_descriptor_of :: "string \<Rightarrow> k8s_profile \<Rightarrow> string \<Rightarrow> string \<Rightarrow> k8s_descriptor" where
  "k8s_descriptor_of backendType p namespace g =
     (let name = ''rdf-'' @ kp_short p @ ''-'' @ g;
          base = ''http://'' @ name @ ''.'' @ namespace @ ''.svc.cluster.local:'' @ show_int (kp_port p) in
      \<lparr>ks_generationId = g, ks_backendType = backendType, ks_namespace = namespace, ks_workloadName = name,
        ks_serviceName = name, ks_queryEndpoint = base @ kp_queryPath p,
        ks_internalUpdateEndpoint = base @ kp_updatePath p, ks_storageIdentity = namespace @ ''/'' @ name @ ''-data'',
        ks_normalizationModel = ''jwb-rdf-normalization-v1'', ks_partitionModel = ''jwb-partition-v1''\<rparr>)"

definition k8s_descriptor :: "'w k8s_driver \<Rightarrow> string \<Rightarrow> k8s_descriptor result" where
  "k8s_descriptor K g = bindR (validateGenerationId g) (\<lambda>_.
     Inr (k8s_descriptor_of (kd_backendType K) (kd_profile K) (kd_namespace K) g))"

definition ownership :: "string \<Rightarrow> string \<Rightarrow> string \<Rightarrow> (string \<times> string) list result" where
  "ownership instanceId g backendType =
     bindR (validateGenerationId g) (\<lambda>_.
     bindR (requireR (map_of PROFILES backendType \<noteq> None) ''unsupported generation backend'') (\<lambda>_.
     Inr [(''app.kubernetes.io/managed-by'', ''jwb-generation-coordinator''), (PREFIX @ ''managed'', ''true''),
       (PREFIX @ ''instance-id'', instanceId), (PREFIX @ ''generation-id'', g), (PREFIX @ ''backend-type'', backendType),
       (PREFIX @ ''normalization-model'', ''jwb-rdf-normalization-v1''), (PREFIX @ ''partition-model'', ''jwb-partition-v1''),
       (PREFIX @ ''environment'', ''local''), (PREFIX @ ''lifecycle-role'', ''generation'')]))"

section \<open>Manifests\<close>

definition pvc :: "k8s_descriptor \<Rightarrow> (string \<times> string) list \<Rightarrow> string \<Rightarrow> manifest" where
  "pvc d labels size' = Pvc_body (ks_workloadName d @ ''-data'') labels size'"

definition selector :: "k8s_descriptor \<Rightarrow> (string \<times> string) list" where
  "selector d = [(PREFIX @ ''generation-id'', ks_generationId d), (PREFIX @ ''backend-type'', ks_backendType d)]"

definition service :: "k8s_descriptor \<Rightarrow> (string \<times> string) list \<Rightarrow> int \<Rightarrow> manifest" where
  "service d labels port = Service_body (ks_serviceName d) labels (selector d) port"

definition workload :: "k8s_descriptor \<Rightarrow> (string \<times> string) list \<Rightarrow> k8s_profile \<Rightarrow> manifest" where
  "workload d labels p = Workload_body (ks_workloadName d) labels (selector d)
     \<lparr>ct_image = kp_image p, ct_pullPolicy = (case kp_pullPolicy p of None \<Rightarrow> ''IfNotPresent'' | Some v \<Rightarrow> v),
      ct_port = kp_port p, ct_mount = kp_mount p, ct_args = kp_args p, ct_secret = kp_secret p\<rparr>
     (ks_workloadName d @ ''-data'')"

section \<open>Calls\<close>

text \<open>The driver writes to the environment beside a state \<open>'d\<close> that only the callbacks write to\<close>

type_synonym ('d, 'w, 'a) k8s = "('d \<times> 'w, 'a) action"

definition api :: "('w, 'a) api_call \<Rightarrow> ('d, 'w, api_error + 'a) k8s" where
  "api call = on_snd (\<lambda>w. case call w of (r, w') \<Rightarrow> (Inr r, w'))"

definition throws :: "(api_error + 'a) \<Rightarrow> 'a result" where
  "throws r = (case r of Inl e \<Rightarrow> Inl (ae_message e) | Inr x \<Rightarrow> Inr x)"

definition call :: "('w, 'a) api_call \<Rightarrow> ('d, 'w, 'a) k8s" where
  "call c = bindA (api c) (\<lambda>r. liftA (throws r))"

text \<open>\<open>optional\<close>: a resource that is not there is no error\<close>

definition optional :: "('w, 'a) api_call \<Rightarrow> ('d, 'w, 'a option) k8s" where
  "optional c = bindA (api c) (\<lambda>r. case r of
       Inl e \<Rightarrow> if ae_status e = Some 404 then returnA None else raiseA (ae_message e)
     | Inr x \<Rightarrow> returnA (Some x))"

definition owned_by :: "(string \<times> string) list \<Rightarrow> k8s_item \<Rightarrow> bool" where
  "owned_by labels v \<longleftrightarrow> list_all (\<lambda>(key, expected). map_of (it_labels v) key = Some expected) labels"

definition verify :: "k8s_item \<Rightarrow> (string \<times> string) list \<Rightarrow> string \<Rightarrow> unit result" where
  "verify v labels kind = requireR (owned_by labels v) (''KUBERNETES_OWNERSHIP_MISMATCH:'' @ kind)"

definition createOrVerify ::
  "('w, k8s_item) api_call \<Rightarrow> ('w, k8s_item) api_call \<Rightarrow> (string \<times> string) list \<Rightarrow> ('d, 'w, k8s_item) k8s" where
  "createOrVerify create read labels = bindA (api create) (\<lambda>r. case r of
       Inr v \<Rightarrow> returnA v
     | Inl e \<Rightarrow>
         if ae_status e \<noteq> Some 409 then raiseA (ae_message e)
         else bindA (call read) (\<lambda>item. thenA (liftA (verify item labels ''existing resource'')) (returnA item)))"

definition normalizeDeleteError :: "api_error \<Rightarrow> string \<Rightarrow> string" where
  "normalizeDeleteError e kind =
     (if ae_status e = Some 409 \<or> ae_reason e = Some ''Conflict'' then ''RESOURCE_UID_OR_VERSION_MISMATCH:'' @ kind
      else if ae_status e = Some 404 then ''RESOURCE_MISSING_UNEXPECTED:'' @ kind
      else ae_message e)"

text \<open>\<open>waitForExpectedUidAbsence\<close>: at most 20 reads, 25 ms apart\<close>

primrec wait_for_absence :: "nat \<Rightarrow> ('w \<Rightarrow> 'w) \<Rightarrow> ('w, k8s_item) api_call \<Rightarrow> string \<Rightarrow> ('d, 'w, bool) k8s" where
  "wait_for_absence 0 pause read uid = returnA False"
| "wait_for_absence (Suc n) pause read uid =
     bindA (optional read) (\<lambda>v.
     if (case v of None \<Rightarrow> True | Some x \<Rightarrow> it_uid x \<noteq> Some uid) then returnA True
     else thenA (on_snd (modifyA pause)) (wait_for_absence n pause read uid))"

definition waitForExpectedUidAbsence :: "('w \<Rightarrow> 'w) \<Rightarrow> ('w, k8s_item) api_call \<Rightarrow> string \<Rightarrow> ('d, 'w, bool) k8s" where
  "waitForExpectedUidAbsence = wait_for_absence 20"

section \<open>Creating and running a generation\<close>

definition k8s_create :: "'w k8s_driver \<Rightarrow> string \<Rightarrow> ('d, 'w, k8s_descriptor) k8s" where
  "k8s_create K g = (let kc = kd_client K in
     bindA (liftA (k8s_descriptor K g)) (\<lambda>d.
     bindA (liftA (ownership (kd_instanceId K) g (kd_backendType K))) (\<lambda>labels.
     bindA (createOrVerify (kc_create kc ''pvc'' (pvc d labels (kd_storageSize K))) (kc_read kc ''pvc'' (ks_workloadName d @ ''-data'')) labels) (\<lambda>_.
     bindA (createOrVerify (kc_create kc ''service'' (service d labels (kp_port (kd_profile K)))) (kc_read kc ''service'' (ks_serviceName d)) labels) (\<lambda>_.
     bindA (createOrVerify (kc_create kc ''workload'' (workload d labels (kd_profile K))) (kc_read kc ''workload'' (ks_workloadName d)) labels) (\<lambda>_.
     returnA d))))))"

text \<open>\<open>#owned\<close>\<close>

definition k8s_owned :: "'w k8s_driver \<Rightarrow> string \<Rightarrow> k8s_descriptor \<Rightarrow> ('d, 'w, k8s_item) k8s" where
  "k8s_owned K kind d =
     bindA (optional (kc_read (kd_client K) kind (if kind = ''workload'' then ks_workloadName d else ks_serviceName d))) (\<lambda>item.
     case item of
       None \<Rightarrow> raiseA ''KUBERNETES_GENERATION_MISSING''
     | Some v \<Rightarrow> bindA (liftA (ownership (kd_instanceId K) (ks_generationId d) (kd_backendType K))) (\<lambda>labels.
         thenA (liftA (verify v labels kind)) (returnA v)))"

definition k8s_scale :: "'w k8s_driver \<Rightarrow> int \<Rightarrow> string \<Rightarrow> ('d, 'w, k8s_descriptor) k8s" where
  "k8s_scale K n g = bindA (liftA (k8s_descriptor K g)) (\<lambda>d.
     bindA (k8s_owned K ''workload'' d) (\<lambda>_.
     thenA (call (kc_scale (kd_client K) (ks_workloadName d) n)) (returnA d)))"

definition k8s_start :: "'w k8s_driver \<Rightarrow> string \<Rightarrow> ('d, 'w, k8s_descriptor) k8s" where
  "k8s_start K g = k8s_scale K 1 g"

definition k8s_stop :: "'w k8s_driver \<Rightarrow> string \<Rightarrow> ('d, 'w, unit) k8s" where
  "k8s_stop K g = thenA (k8s_scale K 0 g) (returnA ())"

definition k8s_restart :: "'w k8s_driver \<Rightarrow> string \<Rightarrow> ('d, 'w, k8s_descriptor) k8s" where
  "k8s_restart K g = bindA (liftA (k8s_descriptor K g)) (\<lambda>d.
     bindA (k8s_owned K ''workload'' d) (\<lambda>_.
     thenA (call (kc_restart (kd_client K) (ks_workloadName d))) (returnA d)))"

definition k8s_retire :: "'w k8s_driver \<Rightarrow> string \<Rightarrow> ('d, 'w, unit) k8s" where
  "k8s_retire K g = k8s_stop K g"

section \<open>Deleting a generation\<close>

text \<open>\<open>deletionResources\<close>: what is deleted, in this order\<close>

definition deletionResources :: "k8s_descriptor \<Rightarrow> (string \<times> string) list" where
  "deletionResources d = [(''workload'', ks_workloadName d), (''pvc'', ks_workloadName d @ ''-data''), (''service'', ks_serviceName d)]"

definition evidence_ok :: "delete_evidence \<Rightarrow> bool" where
  "evidence_ok e \<longleftrightarrow> List.member [''DELETE_INTENT'', ''DELETED''] (ev_status e)"

definition validateDeletionEvidence :: "(string \<times> delete_evidence) list \<Rightarrow> unit result" where
  "validateDeletionEvidence ev = requireR (list_all (\<lambda>(key, e). List.member [''workload'', ''service'', ''pvc''] key \<and>
     evidence_ok e \<and> ev_uid e \<noteq> []) ev) ''KUBERNETES_DELETE_EVIDENCE_INVALID''"

definition already_deleted :: "string \<Rightarrow> string \<Rightarrow> string \<Rightarrow> delete_evidence \<Rightarrow> deletion_resource" where
  "already_deleted namespace kind name e = \<lparr>dr_kind = kind, dr_namespace = namespace, dr_name = name, dr_uid = ev_uid e,
     dr_resourceVersion = ev_resourceVersion e, dr_absent = True\<rparr>"

text \<open>The plan for one resource, from what the cluster and the evidence say of it\<close>

definition planned_resource ::
  "string \<Rightarrow> (string \<times> string) list \<Rightarrow> string \<times> string \<Rightarrow> delete_evidence option \<Rightarrow> k8s_item option \<Rightarrow> deletion_resource result" where
  "planned_resource namespace labels spec evidence item = (case spec of (kind, name) \<Rightarrow>
     (case item of
        None \<Rightarrow> (case evidence of
            None \<Rightarrow> Inl (''RESOURCE_MISSING_UNEXPECTED:'' @ kind)
          | Some e \<Rightarrow> if evidence_ok e then Inr (already_deleted namespace kind name e)
              else Inl (''RESOURCE_MISSING_UNEXPECTED:'' @ kind))
      | Some v \<Rightarrow>
          bindR (verify v labels kind) (\<lambda>_.
          case (it_uid v, it_resourceVersion v) of
            (Some uid, Some resourceVersion) \<Rightarrow>
              if uid = [] \<or> resourceVersion = [] then Inl (''KUBERNETES_DELETE_IDENTITY_MISSING:'' @ kind)
              else (case evidence of
                  Some e \<Rightarrow>
                    if it_deleting v \<and> ev_uid e = uid \<and> evidence_ok e then Inr (already_deleted namespace kind name e)
                    else Inr \<lparr>dr_kind = kind, dr_namespace = namespace, dr_name = name, dr_uid = uid,
                      dr_resourceVersion = resourceVersion, dr_absent = False\<rparr>
                | None \<Rightarrow> Inr \<lparr>dr_kind = kind, dr_namespace = namespace, dr_name = name, dr_uid = uid,
                      dr_resourceVersion = resourceVersion, dr_absent = False\<rparr>)
          | _ \<Rightarrow> Inl (''KUBERNETES_DELETE_IDENTITY_MISSING:'' @ kind))))"

fun plan_resources ::
  "'w k8s_driver \<Rightarrow> (string \<times> string) list \<Rightarrow> (string \<times> delete_evidence) list \<Rightarrow> (string \<times> string) list \<Rightarrow> ('d, 'w, deletion_resource list) k8s" where
  "plan_resources K labels ev [] = returnA []"
| "plan_resources K labels ev (spec # specs) =
     bindA (optional (kc_read (kd_client K) (fst spec) (snd spec))) (\<lambda>item.
     bindA (liftA (planned_resource (kd_namespace K) labels spec (map_of ev (fst spec)) item)) (\<lambda>r.
     bindA (plan_resources K labels ev specs) (\<lambda>rs. returnA (r # rs))))"

definition planDeleteGeneration ::
  "'w k8s_driver \<Rightarrow> string \<Rightarrow> (string \<times> delete_evidence) list \<Rightarrow> string option \<Rightarrow> int option \<Rightarrow> string option \<Rightarrow> ('d, 'w, delete_plan) k8s" where
  "planDeleteGeneration K g ev operationId operationFence deletionToken =
     thenA (liftA (validateDeletionEvidence ev))
     (bindA (liftA (k8s_descriptor K g)) (\<lambda>d.
      bindA (liftA (ownership (kd_instanceId K) g (kd_backendType K))) (\<lambda>labels.
      bindA (plan_resources K labels ev (deletionResources d)) (\<lambda>resources.
      returnA \<lparr>pl_generation = g, pl_backend = kd_backendType K, pl_namespace = kd_namespace K, pl_operation = operationId,
        pl_fence = operationFence, pl_token = deletionToken, pl_resources = resources, pl_trusted = True\<rparr>))))"

text \<open>The last check of the loop is vacuous for names and for the absence, which are typed\<close>

definition validateDeletionPlan :: "'w k8s_driver \<Rightarrow> delete_plan \<Rightarrow> unit result" where
  "validateDeletionPlan K plan =
     bindR (requireR (pl_trusted plan \<and> pl_backend plan = kd_backendType K \<and> pl_namespace plan = kd_namespace K \<and>
       length (pl_resources plan) = 3) ''KUBERNETES_DELETE_PLAN_INVALID'') (\<lambda>_.
     bindR (k8s_descriptor K (pl_generation plan)) (\<lambda>_.
     requireR (map dr_kind (pl_resources plan) = [''workload'', ''pvc'', ''service''] \<and>
       list_all (\<lambda>r. dr_namespace r = kd_namespace K \<and> (dr_absent r \<or> dr_uid r \<noteq> [] \<and> dr_resourceVersion r \<noteq> []))
         (pl_resources plan)) ''KUBERNETES_DELETE_PLAN_INVALID''))"

definition destructiveIdentity :: "delete_plan \<Rightarrow> unit result" where
  "destructiveIdentity plan = requireR
     ((case pl_operation plan of None \<Rightarrow> False | Some i \<Rightarrow> rx_test UUID_I i) \<and>
      (case pl_fence plan of None \<Rightarrow> False | Some f \<Rightarrow> 1 \<le> f) \<and>
      (case pl_token plan of None \<Rightarrow> False | Some t \<Rightarrow> rx_test UUID_I t)) ''KUBERNETES_DELETE_AUTHORITY_INVALID''"

definition js_string :: "int option \<Rightarrow> string" where
  "js_string v = (case v of None \<Rightarrow> ''null'' | Some i \<Rightarrow> show_int i)"

text \<open>The annotations of the service carry the operation, the fence and the token of the plan\<close>

definition carries_authority :: "k8s_item \<Rightarrow> delete_plan \<Rightarrow> bool" where
  "carries_authority v plan \<longleftrightarrow>
     (case pl_operation plan of None \<Rightarrow> False | Some i \<Rightarrow> map_of (it_annotations v) RETIREMENT_OPERATION = Some i) \<and>
     map_of (it_annotations v) RETIREMENT_FENCE = Some (js_string (pl_fence plan)) \<and>
     (case pl_token plan of None \<Rightarrow> False | Some t \<Rightarrow> map_of (it_annotations v) RETIREMENT_TOKEN = Some t)"

definition verifyAuthority :: "k8s_item option \<Rightarrow> delete_plan \<Rightarrow> (string \<times> string) list \<Rightarrow> k8s_item result" where
  "verifyAuthority v plan labels = (case v of
       None \<Rightarrow> Inl ''RESOURCE_MISSING_UNEXPECTED:service''
     | Some x \<Rightarrow> bindR (verify x labels ''service'') (\<lambda>_.
         bindR (requireR (carries_authority x plan) ''STALE_COORDINATOR_FENCE'') (\<lambda>_. Inr x)))"

definition or_empty :: "string option \<Rightarrow> string" where
  "or_empty v = (case v of None \<Rightarrow> [] | Some t \<Rightarrow> t)"

definition authority_annotations :: "delete_plan \<Rightarrow> (string \<times> string) list" where
  "authority_annotations plan = [(RETIREMENT_OPERATION, or_empty (pl_operation plan)),
     (RETIREMENT_FENCE, js_string (pl_fence plan)), (RETIREMENT_TOKEN, or_empty (pl_token plan))]"

text \<open>The properties of the later object win\<close>

definition merged :: "(string \<times> string) list \<Rightarrow> (string \<times> string) list \<Rightarrow> (string \<times> string) list" where
  "merged old new = filter (\<lambda>(k, _). map_of new k = None) old @ new"

definition markDeletionAuthority :: "'w k8s_driver \<Rightarrow> delete_plan \<Rightarrow> ('d, 'w, delete_plan) k8s" where
  "markDeletionAuthority K plan = (let kc = kd_client K in
     thenA (liftA (validateDeletionPlan K plan)) (thenA (liftA (destructiveIdentity plan))
     (case List.find (\<lambda>r. dr_kind r = ''service'') (pl_resources plan) of
        None \<Rightarrow> raiseA ''RESOURCE_MISSING_UNEXPECTED:service''
      | Some authority \<Rightarrow>
        thenA (ensureA (\<not> dr_absent authority) ''RESOURCE_MISSING_UNEXPECTED:service'')
        (bindA (liftA (k8s_descriptor K (pl_generation plan))) (\<lambda>d.
         bindA (liftA (ownership (kd_instanceId K) (pl_generation plan) (kd_backendType K))) (\<lambda>labels.
         bindA (optional (kc_read kc ''service'' (ks_serviceName d))) (\<lambda>there.
         case there of
           None \<Rightarrow> raiseA ''RESOURCE_MISSING_UNEXPECTED:service''
         | Some current \<Rightarrow>
           thenA (liftA (verify current labels ''service''))
           (thenA (ensureA (it_uid current = Some (dr_uid authority) \<and> it_resourceVersion current = Some (dr_resourceVersion authority))
             ''RESOURCE_IDENTITY_MISMATCH:service'')
           (bindA (if carries_authority current plan then returnA (Some current)
                   else thenA (call (kc_annotate kc (ks_serviceName d) (dr_resourceVersion authority)
                       (merged (it_annotations current) (authority_annotations plan))))
                     (optional (kc_read kc ''service'' (ks_serviceName d)))) (\<lambda>marked.
            bindA (liftA (verifyAuthority marked plan labels)) (\<lambda>next.
            returnA (plan\<lparr>pl_resources := map (\<lambda>r. if dr_kind r = ''service''
              then r\<lparr>dr_resourceVersion := or_empty (it_resourceVersion next)\<rparr> else r) (pl_resources plan)\<rparr>))))))))))))"

text \<open>\<open>#verifyDeletionAuthority\<close>\<close>

definition verifyDeletionAuthority :: "'w k8s_driver \<Rightarrow> delete_plan \<Rightarrow> ('d, 'w, unit) k8s" where
  "verifyDeletionAuthority K plan =
     bindA (liftA (k8s_descriptor K (pl_generation plan))) (\<lambda>d.
     bindA (optional (kc_read (kd_client K) ''service'' (ks_serviceName d))) (\<lambda>v.
     bindA (liftA (ownership (kd_instanceId K) (pl_generation plan) (kd_backendType K))) (\<lambda>labels.
     thenA (liftA (verifyAuthority v plan labels)) (returnA ()))))"

text \<open>The second pass over the resources, before the first deletion\<close>

definition still_planned :: "(string \<times> string) list \<Rightarrow> deletion_resource \<Rightarrow> k8s_item option \<Rightarrow> unit result" where
  "still_planned labels r item = (case item of
       None \<Rightarrow> Inl (''RESOURCE_MISSING_UNEXPECTED:'' @ dr_kind r)
     | Some v \<Rightarrow> bindR (verify v labels (dr_kind r)) (\<lambda>_.
         bindR (requireR (it_uid v = Some (dr_uid r)) (''RESOURCE_UID_MISMATCH:'' @ dr_kind r)) (\<lambda>_.
         requireR (it_resourceVersion v = Some (dr_resourceVersion r)) (''RESOURCE_VERSION_MISMATCH:'' @ dr_kind r))))"

definition spec_name :: "k8s_descriptor \<Rightarrow> string \<Rightarrow> string" where
  "spec_name d kind = or_empty (map_of (deletionResources d) kind)"

definition identity_pass :: "'w k8s_driver \<Rightarrow> k8s_descriptor \<Rightarrow> (string \<times> string) list \<Rightarrow> deletion_resource list \<Rightarrow> ('d, 'w, unit) k8s" where
  "identity_pass K d labels resources = forA resources (\<lambda>r. whenA (\<not> dr_absent r)
     (bindA (optional (kc_read (kd_client K) (dr_kind r) (spec_name d (dr_kind r)))) (\<lambda>item. liftA (still_planned labels r item))))"

text \<open>\<open>if (plan.operationId)\<close>\<close>

definition has_operation :: "delete_plan \<Rightarrow> bool" where
  "has_operation plan \<longleftrightarrow> or_empty (pl_operation plan) \<noteq> []"

definition delete_resource ::
  "'w k8s_driver \<Rightarrow> delete_plan \<Rightarrow> k8s_descriptor \<Rightarrow> ('d \<times> 'w) delete_callbacks \<Rightarrow> deletion_resource \<Rightarrow> ('d, 'w, unit) k8s" where
  "delete_resource K plan d cb r = (let kc = kd_client K; kind = dr_kind r; name = spec_name d kind in
     if dr_absent r then cb_onProgress cb kind (dr_uid r)
     else
       thenA (whenA (kind = ''pvc'' \<and> has_operation plan) (thenA (cb_authorize cb) (verifyDeletionAuthority K plan)))
       (thenA (cb_onIntent cb kind (dr_uid r) (dr_resourceVersion r))
       (bindA (api (kc_delete kc kind name (dr_uid r) (dr_resourceVersion r))) (\<lambda>answer.
        thenA (case answer of Inl e \<Rightarrow> raiseA (normalizeDeleteError e kind) | Inr _ \<Rightarrow> returnA ())
        (thenA (cb_onAccepted cb kind (dr_uid r))
        (bindA (waitForExpectedUidAbsence (kc_wait kc) (kc_read kc kind name) (dr_uid r)) (\<lambda>absent.
         thenA (ensureA absent (''ABSENCE_TIMEOUT:'' @ kind)) (cb_onProgress cb kind (dr_uid r)))))))))"

definition executeDeletePlan :: "'w k8s_driver \<Rightarrow> delete_plan \<Rightarrow> ('d \<times> 'w) delete_callbacks \<Rightarrow> ('d, 'w, unit) k8s" where
  "executeDeletePlan K plan cb =
     thenA (liftA (validateDeletionPlan K plan))
     (thenA (whenA (has_operation plan)
       (thenA (liftA (destructiveIdentity plan)) (thenA (cb_authorize cb) (verifyDeletionAuthority K plan))))
     (bindA (liftA (k8s_descriptor K (pl_generation plan))) (\<lambda>d.
      bindA (liftA (ownership (kd_instanceId K) (pl_generation plan) (kd_backendType K))) (\<lambda>labels.
      thenA (identity_pass K d labels (pl_resources plan)) (forA (pl_resources plan) (delete_resource K plan d cb))))))"

text \<open>\<open>deleteGeneration\<close>: no authority, and the callbacks default to nothing\<close>

definition k8s_delete ::
  "'w k8s_driver \<Rightarrow> string \<Rightarrow> (string \<times> delete_evidence) list \<Rightarrow> (string \<Rightarrow> string \<Rightarrow> string \<Rightarrow> ('d, 'w, unit) k8s) \<Rightarrow>
   (string \<Rightarrow> string \<Rightarrow> ('d, 'w, unit) k8s) \<Rightarrow> ('d, 'w, unit) k8s" where
  "k8s_delete K g ev onIntent onProgress =
     bindA (planDeleteGeneration K g ev None None None) (\<lambda>plan.
     executeDeletePlan K plan \<lparr>cb_authorize = returnA (), cb_onIntent = onIntent, cb_onAccepted = (\<lambda>_ _. returnA ()),
       cb_onProgress = onProgress\<rparr>)"

section \<open>Inspection\<close>

definition k8s_exists :: "'w k8s_driver \<Rightarrow> string \<Rightarrow> ('d, 'w, bool) k8s" where
  "k8s_exists K g = bindA (liftA (k8s_descriptor K g)) (\<lambda>d.
     bindA (optional (kc_read (kd_client K) ''workload'' (ks_workloadName d))) (\<lambda>item.
     case item of
       None \<Rightarrow> returnA False
     | Some v \<Rightarrow> bindA (liftA (ownership (kd_instanceId K) g (kd_backendType K))) (\<lambda>labels.
         thenA (liftA (verify v labels ''workload'')) (returnA True))))"

definition k8s_getDescriptor :: "'w k8s_driver \<Rightarrow> string \<Rightarrow> ('d, 'w, k8s_descriptor) k8s" where
  "k8s_getDescriptor K g = bindA (liftA (k8s_descriptor K g)) (\<lambda>d. thenA (k8s_owned K ''workload'' d) (returnA d))"

record k8s_health =
  kh_status :: string
  kh_generationId :: string
  kh_desiredReplicas :: int
  kh_readyReplicas :: int
  kh_pvcPhase :: string
  kh_service :: bool

definition or_zero :: "int option \<Rightarrow> int" where
  "or_zero v = (case v of None \<Rightarrow> 0 | Some i \<Rightarrow> i)"

definition verify_optional :: "k8s_item option \<Rightarrow> (string \<times> string) list \<Rightarrow> string \<Rightarrow> unit result" where
  "verify_optional v labels kind = (case v of None \<Rightarrow> Inr () | Some x \<Rightarrow> verify x labels kind)"

text \<open>
  The three reads run side by side in the code and one after the other here.  \<open>None\<close> is the short
  answer \<open>{status: 'missing', generationId}\<close>.
\<close>

definition health_of :: "string \<Rightarrow> k8s_item \<Rightarrow> k8s_item option \<Rightarrow> k8s_item option \<Rightarrow> k8s_health" where
  "health_of g set' claim svc = (let phase = (case claim of None \<Rightarrow> None | Some x \<Rightarrow> it_phase x) in
     \<lparr>kh_status = (if it_replicas set' = Some 1 \<and> it_readyReplicas set' = Some 1 \<and> phase = Some ''Bound'' \<and> svc \<noteq> None
        then ''healthy'' else ''unavailable''),
      kh_generationId = g, kh_desiredReplicas = or_zero (it_replicas set'), kh_readyReplicas = or_zero (it_readyReplicas set'),
      kh_pvcPhase = (case phase of None \<Rightarrow> ''Missing'' | Some x \<Rightarrow> x), kh_service = (svc \<noteq> None)\<rparr>)"

definition k8s_health :: "'w k8s_driver \<Rightarrow> string \<Rightarrow> ('d, 'w, k8s_health option) k8s" where
  "k8s_health K g = (let kc = kd_client K in
     bindA (liftA (k8s_descriptor K g)) (\<lambda>d.
     bindA (optional (kc_read kc ''workload'' (ks_workloadName d))) (\<lambda>set'.
     bindA (optional (kc_read kc ''pvc'' (ks_workloadName d @ ''-data''))) (\<lambda>claim.
     bindA (optional (kc_read kc ''service'' (ks_serviceName d))) (\<lambda>svc.
     case set' of
       None \<Rightarrow> returnA None
     | Some v \<Rightarrow> bindA (liftA (ownership (kd_instanceId K) g (kd_backendType K))) (\<lambda>labels.
         thenA (liftA (verify v labels ''workload'')) (thenA (liftA (verify_optional claim labels ''pvc''))
         (thenA (liftA (verify_optional svc labels ''service'')) (returnA (Some (health_of g v claim svc)))))))))))"

text \<open>A stateful set without the labels has neither a generation nor a backend: \<open>ownership\<close> rejects it\<close>

definition managed_generation :: "'w k8s_driver \<Rightarrow> k8s_item \<Rightarrow> (string \<times> string \<times> string) result" where
  "managed_generation K v =
     (let g = or_empty (map_of (it_labels v) (PREFIX @ ''generation-id''));
          backend = or_empty (map_of (it_labels v) (PREFIX @ ''backend-type'')) in
      bindR (ownership (kd_instanceId K) g backend) (\<lambda>labels.
      bindR (verify v labels ''workload'') (\<lambda>_. Inr (g, backend, it_name v))))"

fun mapR :: "('a \<Rightarrow> 'b result) \<Rightarrow> 'a list \<Rightarrow> 'b list result" where
  "mapR f [] = Inr []"
| "mapR f (x # xs) = bindR (f x) (\<lambda>y. bindR (mapR f xs) (\<lambda>ys. Inr (y # ys)))"

definition k8s_list :: "'w k8s_driver \<Rightarrow> ('d, 'w, (string \<times> string \<times> string) list) k8s" where
  "k8s_list K = bindA (call (kc_list (kd_client K) (PREFIX @ ''managed=true,'' @ PREFIX @ ''instance-id='' @ kd_instanceId K)))
     (\<lambda>items. liftA (mapR (managed_generation K) items))"

section \<open>The data plane\<close>

text \<open>\<open>s.replace(p, r)\<close> with a text: the first occurrence\<close>

fun replace_first :: "string \<Rightarrow> string \<Rightarrow> string \<Rightarrow> string" where
  "replace_first p r [] = (if p = [] then r else [])"
| "replace_first p r (c # s) = (if starts_with p (c # s) then r @ drop (length p) (c # s) else c # replace_first p r s)"

record endpoints =
  en_queryUrl :: string
  en_updateUrl :: string
  en_graphStoreUrl :: string
  en_digestAuth :: "(string \<times> string) option"

text \<open>\<open>kubernetesGenerationBackend\<close>: the endpoints of a descriptor whose runtime is \<open>kubernetes\<close>\<close>

definition kubernetesGenerationBackend :: "string \<Rightarrow> k8s_descriptor \<Rightarrow> string option \<Rightarrow> endpoints result" where
  "kubernetesGenerationBackend runtimeType d adminPassword =
     (case map_of PROFILES (ks_backendType d) of
        None \<Rightarrow> Inl ''untrusted Kubernetes generation descriptor''
      | Some p \<Rightarrow>
        bindR (requireR (runtimeType = ''kubernetes'' \<and> ks_namespace d = NAMESPACE) ''untrusted Kubernetes generation descriptor'') (\<lambda>_.
        bindR (validateGenerationId (ks_generationId d)) (\<lambda>_.
        let expected = k8s_descriptor_of (ks_backendType d) p NAMESPACE (ks_generationId d); update = ks_internalUpdateEndpoint d in
        bindR (requireR (ks_serviceName d = ks_serviceName expected \<and> ks_queryEndpoint d = ks_queryEndpoint expected \<and>
            update = ks_internalUpdateEndpoint expected \<and> ks_storageIdentity d = ks_storageIdentity expected)
          ''untrusted Kubernetes generation descriptor'') (\<lambda>_.
        if ks_backendType d = ''virtuoso'' then
          (case adminPassword of
             None \<Rightarrow> Inl ''Virtuoso credential is required''
           | Some password \<Rightarrow> bindR (requireR (16 \<le> length password) ''Virtuoso credential is required'') (\<lambda>_.
               Inr \<lparr>en_queryUrl = ks_queryEndpoint d, en_updateUrl = update,
                 en_graphStoreUrl = replace_first ''/sparql-auth'' ''/sparql-graph-crud-auth'' update,
                 en_digestAuth = Some (''dba'', password)\<rparr>))
        else Inr \<lparr>en_queryUrl = ks_queryEndpoint d, en_updateUrl = update,
          en_graphStoreUrl = (if ks_backendType d = ''oxigraph'' then replace_first ''/update'' ''/store'' update
            else replace_first ''/update'' ''/data'' update), en_digestAuth = None\<rparr>))))"

definition k8s_backend :: "'w k8s_driver \<Rightarrow> string \<Rightarrow> string option \<Rightarrow> endpoints result" where
  "k8s_backend K g adminPassword = bindR (k8s_descriptor K g) (\<lambda>d. kubernetesGenerationBackend ''kubernetes'' d adminPassword)"

text \<open>\<open>createKubeconfigGenerationDriver\<close>: only the local cluster, before the client is made\<close>

definition kubeconfig_ok :: "string \<Rightarrow> string \<Rightarrow> unit result" where
  "kubeconfig_ok kubeconfigPath context' = requireR
     (kubeconfigPath = ''/tmp/wfp-jwb-m10-kubeconfig.yaml'' \<and> context' = ''k3d-wfp-jwb-m10'') ''non-local Kubernetes target rejected''"

section \<open>The driver of the coordinator\<close>

definition kubernetes_driver :: "'w k8s_driver \<Rightarrow> ('d \<times> 'w) generation_driver" where
  "kubernetes_driver K = \<lparr>gd_createGeneration = (\<lambda>g. thenA (k8s_create K g) (returnA ())),
     gd_planDelete = planDeleteGeneration K, gd_markAuthority = markDeletionAuthority K,
     gd_executePlan = executeDeletePlan K\<rparr>"

section \<open>What the driver leaves alone\<close>

lemma keeps_api [keeps_intros]: "keeps fst (api c :: ('d, 'w, api_error + 'a) k8s)"
  unfolding api_def by (rule keeps_fst_on_snd)

lemma keeps_case_sum [keeps_intros]:
  "(\<And>e. keeps f (m e)) \<Longrightarrow> (\<And>x. keeps f (n x)) \<Longrightarrow> keeps f (case r of Inl e \<Rightarrow> m e | Inr x \<Rightarrow> n x)"
  by (cases r) auto

lemma keeps_calls [keeps_intros]:
  "keeps fst (call c :: ('d, 'w, 'a) k8s)" "keeps fst (optional c1 :: ('d, 'w, 'a1 option) k8s)"
  unfolding call_def optional_def by (intro keeps_intros)+

lemma keeps_createOrVerify [keeps_intros]: "keeps fst (createOrVerify c r labels :: ('d, 'w, k8s_item) k8s)"
  unfolding createOrVerify_def by (intro keeps_intros)

lemma keeps_wait: "keeps fst (wait_for_absence n pause read uid :: ('d, 'w, bool) k8s)"
  by (induction n) (auto intro!: keeps_intros)

lemma keeps_plan: "keeps fst (plan_resources K labels ev specs :: ('d, 'w, deletion_resource list) k8s)"
  by (induction specs) (auto intro!: keeps_intros)

lemma keeps_verify: "keeps fst (verifyDeletionAuthority K plan :: ('d, 'w, unit) k8s)"
  unfolding verifyDeletionAuthority_def by (intro keeps_intros)

lemma keeps_pass: "keeps fst (identity_pass K d labels rs :: ('d, 'w, unit) k8s)"
  unfolding identity_pass_def by (intro keeps_intros)

lemma quiet_moves: "keeps f m \<Longrightarrow> reflp Q \<Longrightarrow> moves (\<lambda>s s'. Q (f s) (f s')) m"
  by (auto simp: moves_def keeps_def reflp_def)

interpretation kubernetes: driver_contract "kubernetes_driver K :: ('d \<times> 'w) generation_driver" fst
proof
  show "keeps fst (gd_createGeneration (kubernetes_driver K :: ('d \<times> 'w) generation_driver) g)" for g
    by (auto simp: kubernetes_driver_def k8s_create_def Let_def intro!: keeps_intros)
  show "keeps fst (gd_planDelete (kubernetes_driver K :: ('d \<times> 'w) generation_driver) g ev i f t)" for g ev i f t
    by (auto simp: kubernetes_driver_def planDeleteGeneration_def intro!: keeps_intros keeps_plan)
  show "keeps fst (gd_markAuthority (kubernetes_driver K :: ('d \<times> 'w) generation_driver) p)" for p
    by (auto simp: kubernetes_driver_def markDeletionAuthority_def Let_def intro!: keeps_intros)
  fix Q :: "'d \<Rightarrow> 'd \<Rightarrow> bool" and cb :: "('d \<times> 'w) delete_callbacks" and p
  assume Q: "reflp Q" "transp Q" and cb: "callbacks_move (\<lambda>s s'. Q (fst s) (fst s')) cb"
  let ?R = "\<lambda>s s'. Q (fst s) (fst s')"
  have R: "reflp ?R" "transp ?R" using Q by (auto simp: reflp_def transp_def)
  have calls: "moves ?R (api c :: ('d, 'w, api_error + unit) k8s)" "moves ?R (verifyDeletionAuthority K p)"
    "moves ?R (identity_pass K d labels rs)" "moves ?R (waitForExpectedUidAbsence pause read uid)" for c d labels rs pause read uid
    unfolding waitForExpectedUidAbsence_def
    by (intro quiet_moves Q keeps_api keeps_verify keeps_pass keeps_wait)+
  have case_sum: "moves ?R (case a of Inl e \<Rightarrow> raiseA (h e) | Inr _ \<Rightarrow> returnA ())" for a :: "api_error + unit" and h
    using R by (auto intro!: moves_intros split: sum.split)
  have resource: "moves ?R (delete_resource K p d cb r)" for d r
    unfolding delete_resource_def Let_def using cb
    by (auto simp: callbacks_move_def intro!: moves_intros R calls case_sum)
  show "moves ?R (gd_executePlan (kubernetes_driver K) p cb)"
    unfolding kubernetes_driver_def executeDeletePlan_def using cb
    by (auto simp: callbacks_move_def intro!: moves_intros R calls resource)
qed

section \<open>The identity pass\<close>

definition reads_only :: "'w k8s_client \<Rightarrow> bool" where
  "reads_only kc \<longleftrightarrow> (\<forall>kind name w. snd (kc_read kc kind name w) = w)"

lemma keeps_read: "reads_only kc \<Longrightarrow> keeps snd (optional (kc_read kc kind name) :: ('d, 'w, k8s_item option) k8s)"
  unfolding optional_def
  by (intro keeps_intros) (auto simp: keeps_def api_def on_snd_def reads_only_def split: prod.splits, metis snd_conv)

lemma keeps_reads:
  assumes "reads_only (kd_client K)"
  shows "keeps snd (verifyDeletionAuthority K plan :: ('d, 'w, unit) k8s)" "keeps snd (identity_pass K d labels rs :: ('d, 'w, unit) k8s)"
  unfolding verifyDeletionAuthority_def identity_pass_def by (intro keeps_intros keeps_read assms)+

lemma optional_Inr: "optional c s = (Inr (Some v), s') \<longleftrightarrow> c (snd s) = (Inr v, snd s') \<and> fst s' = fst s"
  by (cases s'; cases s) (auto simp: optional_def bindA_Inr api_def on_snd_eq split: prod.splits sum.splits if_splits)

lemma forA_ok: "forA xs body s = (Inr u, s') \<Longrightarrow> x \<in> set xs \<Longrightarrow> (\<And>y. keeps snd (body y)) \<Longrightarrow> \<exists>s1 s2. body x s1 = (Inr (), s2) \<and> snd s1 = snd s"
proof (induction xs arbitrary: s)
  case (Cons y ys)
  from Cons.prems(1) obtain s1 where y: "body y s = (Inr (), s1)" "forA ys body s1 = (Inr u, s')" by (auto simp: thenA_Inr)
  have "snd s1 = snd s" using Cons.prems(3) y(1) by (metis keepsD)
  then show ?case using Cons.IH [OF y(2)] Cons.prems y(1) by fastforce
qed simp

lemma identity_pass_ok:
  fixes s :: "'d \<times> 'w"
  assumes "reads_only (kd_client K)" "identity_pass K d labels rs s = (Inr u, s')" "r \<in> set rs" "\<not> dr_absent r"
    and "fst (kc_read (kd_client K) (dr_kind r) (spec_name d (dr_kind r)) (snd s)) = Inr v"
  shows "still_planned labels r (Some v) = Inr ()"
proof -
  let ?body = "\<lambda>r. whenA (\<not> dr_absent r)
     (bindA (optional (kc_read (kd_client K) (dr_kind r) (spec_name d (dr_kind r)))) (\<lambda>item. liftA (still_planned labels r item)))
     :: ('d, 'w, unit) k8s"
  have "keeps snd (?body y)" for y by (intro keeps_intros keeps_read assms)
  from forA_ok [OF assms(2) [unfolded identity_pass_def] assms(3) this] obtain s1 s2
    where s1: "?body r s1 = (Inr (), s2)" "snd s1 = snd s" by blast
  then obtain item s3 where o: "optional (kc_read (kd_client K) (dr_kind r) (spec_name d (dr_kind r))) s1 = (Inr item, s3)"
    and ok: "still_planned labels r item = Inr ()"
    using assms(4) by (auto simp: whenA_def bindA_Inr)
  have "item \<noteq> None" using ok by (cases item) (auto simp: still_planned_def)
  with o s1(2) assms(5) have "item = Some v" by (auto simp: optional_Inr)
  with ok show ?thesis by simp
qed

text \<open>C24: What changed since the plan is not deleted.  If a resource of the plan is not there with the
  labels, the identity and the version that the plan has for it, because another owner made it or
  somebody wrote to it, then executing the plan fails before its first deletion, and the cluster is as
  it was, whatever the other two resources look like.\<close>

theorem changed_resource_never_deleted:
  fixes K :: "'w k8s_driver" and cb :: "('d \<times> 'w) delete_callbacks" and s s' :: "'d \<times> 'w"
  assumes "reads_only (kd_client K)" "keeps snd (cb_authorize cb)"
    and "r \<in> set (pl_resources plan)" "\<not> dr_absent r" "k8s_descriptor K (pl_generation plan) = Inr d"
    and "ownership (kd_instanceId K) (pl_generation plan) (kd_backendType K) = Inr labels"
    and "fst (kc_read (kd_client K) (dr_kind r) (spec_name d (dr_kind r)) (snd s)) = Inr v"
    and "\<not> (owned_by labels v \<and> it_uid v = Some (dr_uid r) \<and> it_resourceVersion v = Some (dr_resourceVersion r))"
    and "executeDeletePlan K plan cb s = (res, s')"
  shows "\<not> is_ok res \<and> snd s' = snd s"
proof -
  let ?first = "thenA (liftA (validateDeletionPlan K plan)) (whenA (has_operation plan)
       (thenA (liftA (destructiveIdentity plan)) (thenA (cb_authorize cb) (verifyDeletionAuthority K plan)))) :: ('d, 'w, unit) k8s"
  have quiet: "keeps snd ?first" by (intro keeps_intros keeps_reads assms(1,2))
  obtain r1 s1 where 1: "?first s = (r1, s1)" by (cases "?first s")
  have s1: "snd s1 = snd s" using quiet 1 by (rule keepsD)
  have run: "executeDeletePlan K plan cb s = (case r1 of Inl e \<Rightarrow> (Inl e, s1)
      | Inr _ \<Rightarrow> thenA (identity_pass K d labels (pl_resources plan)) (forA (pl_resources plan) (delete_resource K plan d cb)) s1)"
    using 1 assms(5,6) by (auto simp: executeDeletePlan_def thenA_def bindA_def liftA_def split: sum.splits prod.splits)
  obtain r2 s2 where 2: "identity_pass K d labels (pl_resources plan) s1 = (r2, s2)"
    by (cases "identity_pass K d labels (pl_resources plan) s1")
  have s2: "snd s2 = snd s" using keepsD [OF keeps_reads(2) [OF assms(1)] 2] s1 by simp
  have "\<not> is_ok r2"
    using identity_pass_ok [OF assms(1) _ assms(3,4), of d labels s1 _ s2 v] 2 s1 assms(7,8)
    by (cases r2) (auto simp: still_planned_def verify_def bindR_eq_Inr)
  then obtain e where "r2 = Inl e" by (cases r2) auto
  with run 2 s1 s2 assms(9) show ?thesis by (auto simp: thenA_def bindA_def split: sum.splits)
qed

section \<open>A cluster\<close>

text \<open>Printing a port by binary arithmetic\<close>

function show_pos :: "int \<Rightarrow> string" where
  "show_pos i = (if i < 10 then [digit_char (nat i)] else show_pos (i div 10) @ [digit_char (nat (i mod 10))])"
  by auto
termination by (relation "measure nat") auto

declare show_pos.simps [simp del]

lemma show_pos_nat: "show_pos (int n) = show_nat n"
proof (induction n rule: less_induct)
  case (less n)
  show ?case
  proof (cases "n < 10")
    case True
    then show ?thesis by (simp add: show_pos.simps [of "int n"] show_nat.simps [of n])
  next
    case False
    then have "show_pos (int n div 10) = show_nat (n div 10)" using less [of "n div 10"] by (simp add: zdiv_int)
    moreover have "nat (int n mod 10) = n mod 10" by (simp add: nat_mod_distrib)
    ultimately show ?thesis using False by (simp add: show_pos.simps [of "int n"] show_nat.simps [of n])
  qed
qed

lemma show_int_binary [code]: "show_int i = (if i < 0 then ''-'' @ show_pos (- i) else show_pos i)"
proof (cases "i < 0")
  case True
  then show ?thesis using show_pos_nat [of "nat (- i)"] by (simp add: show_int_def)
next
  case False
  then show ?thesis using show_pos_nat [of "nat i"] by (simp add: show_int_def)
qed

text \<open>A cluster that keeps its objects in a list, for the runs\<close>

type_synonym cluster = "((string \<times> string) \<times> k8s_item) list"

definition failed :: "int \<Rightarrow> string \<Rightarrow> api_error + 'a" where
  "failed status' message = Inl \<lparr>ae_status = Some status', ae_reason = None, ae_message = message\<rparr>"

fun named :: "manifest \<Rightarrow> string \<times> (string \<times> string) list" where
  "named (Pvc_body name labels _) = (name, labels)"
| "named (Service_body name labels _ _) = (name, labels)"
| "named (Workload_body name labels _ _ _) = (name, labels)"

definition new_item :: "string \<Rightarrow> string \<Rightarrow> (string \<times> string) list \<Rightarrow> k8s_item" where
  "new_item kind name labels = \<lparr>it_uid = Some (''00000000-0000-4000-8000-0000000000'' @
       (if kind = ''workload'' then ''d1'' else if kind = ''pvc'' then ''d2'' else ''d3'')), it_resourceVersion = Some ''1'', it_deleting = False, it_name = name,
     it_labels = labels, it_annotations = [], it_replicas = Some 1, it_readyReplicas = Some 1, it_phase = Some ''Bound''\<rparr>"

definition cluster_client :: "cluster k8s_client" where
  "cluster_client = \<lparr>
     kc_create = (\<lambda>kind body w. case named body of (name, labels) \<Rightarrow>
       if map_of w (kind, name) = None then (Inr (new_item kind name labels), ((kind, name), new_item kind name labels) # w)
       else (failed 409 ''AlreadyExists'', w)),
     kc_read = (\<lambda>kind name w. (case map_of w (kind, name) of None \<Rightarrow> failed 404 ''NotFound'' | Some v \<Rightarrow> Inr v, w)),
     kc_delete = (\<lambda>kind name uid v w. case map_of w (kind, name) of
         None \<Rightarrow> (failed 404 ''NotFound'', w)
       | Some x \<Rightarrow> if it_uid x = Some uid \<and> it_resourceVersion x = Some v then (Inr (), filter (\<lambda>(k, _). k \<noteq> (kind, name)) w)
           else (failed 409 ''Conflict'', w)),
     kc_annotate = (\<lambda>name v annotations w. (Inr (), map (\<lambda>(k, x). if k = (''service'', name)
         then (k, x\<lparr>it_annotations := annotations, it_resourceVersion := Some (v @ ''1'')\<rparr>) else (k, x)) w)),
     kc_scale = (\<lambda>name n w. (Inr (), map (\<lambda>(k, x). if k = (''workload'', name) then (k, x\<lparr>it_replicas := Some n\<rparr>) else (k, x)) w)),
     kc_restart = (\<lambda>name w. (Inr (), w)),
     kc_list = (\<lambda>_ w. (Inr (map snd (filter (\<lambda>((kind, _), _). kind = ''workload'') w)), w)),
     kc_wait = (\<lambda>w. w)\<rparr>"

definition local_driver :: "cluster k8s_driver" where
  "local_driver = \<lparr>kd_backendType = ''oxigraph'', kd_profile = the (map_of PROFILES ''oxigraph''), kd_client = cluster_client,
     kd_namespace = NAMESPACE, kd_instanceId = INSTANCE, kd_storageSize = ''512Mi''\<rparr>"

definition no_callbacks :: "(unit \<times> cluster) delete_callbacks" where
  "no_callbacks = \<lparr>cb_authorize = returnA (), cb_onIntent = (\<lambda>_ _ _. returnA ()), cb_onAccepted = (\<lambda>_ _. returnA ()),
     cb_onProgress = (\<lambda>_ _. returnA ())\<rparr>"

definition run_cluster :: "(unit, cluster, 'a) k8s \<Rightarrow> cluster \<Rightarrow> cluster" where
  "run_cluster m w = snd (snd (m ((), w)))"

definition with_generation :: cluster where
  "with_generation = run_cluster (k8s_create local_driver ''gen-a'') []"

text \<open>Somebody writes to the volume claim after the plan was made\<close>

definition claim_touched :: cluster where
  "claim_touched = map (\<lambda>(k, x). if fst k = ''pvc'' then (k, x\<lparr>it_resourceVersion := Some ''2''\<rparr>) else (k, x)) with_generation"

definition demo_plan :: delete_plan where
  "demo_plan = (case fst (planDeleteGeneration local_driver ''gen-a'' [] None None None ((), with_generation)) of
     Inr p \<Rightarrow> p | Inl _ \<Rightarrow> undefined)"

lemma cluster_reads: "reads_only (kd_client local_driver)"
  by (simp add: reads_only_def local_driver_def cluster_client_def)

lemma untouched_deleted:
  "executeDeletePlan local_driver demo_plan no_callbacks ((), with_generation) = (Inr (), ((), []))"
  by code_simp

theorem changed_resource_never_deleted_witness:
  "executeDeletePlan local_driver demo_plan no_callbacks ((), claim_touched) =
     (Inl ''RESOURCE_VERSION_MISMATCH:pvc'', ((), claim_touched))"
proof -
  let ?r = "pl_resources demo_plan ! 1" and ?d = "k8s_descriptor_of ''oxigraph'' (the (map_of PROFILES ''oxigraph'')) NAMESPACE ''gen-a''"
  let ?run = "executeDeletePlan local_driver demo_plan no_callbacks ((), claim_touched)"
  obtain labels where labels: "ownership (kd_instanceId local_driver) (pl_generation demo_plan) (kd_backendType local_driver) = Inr labels"
  proof -
    have "is_ok (ownership (kd_instanceId local_driver) (pl_generation demo_plan) (kd_backendType local_driver))" by code_simp
    then show ?thesis using that by (auto simp: is_ok_iff)
  qed
  have d: "k8s_descriptor local_driver (pl_generation demo_plan) = Inr ?d" by code_simp
  have three: "length (pl_resources demo_plan) = 3" by code_simp
  have r: "?r \<in> set (pl_resources demo_plan)" using three by simp
  have there: "\<not> dr_absent ?r" by code_simp
  have v: "(case fst (kc_read (kd_client local_driver) (dr_kind ?r) (spec_name ?d (dr_kind ?r)) claim_touched) of
      Inr v \<Rightarrow> it_resourceVersion v \<noteq> Some (dr_resourceVersion ?r) | Inl _ \<Rightarrow> False)" by code_simp
  then obtain v where v: "fst (kc_read (kd_client local_driver) (dr_kind ?r) (spec_name ?d (dr_kind ?r)) claim_touched) = Inr v"
      "it_resourceVersion v \<noteq> Some (dr_resourceVersion ?r)" by (auto split: sum.splits)
  have "keeps snd (cb_authorize no_callbacks)" by (simp add: no_callbacks_def keeps_returnA)
  from changed_resource_never_deleted [OF cluster_reads this r there d labels, of "((), claim_touched)" v "fst ?run" "snd ?run"] v
  have "snd (snd ?run) = claim_touched" by simp
  moreover have "fst ?run = Inl ''RESOURCE_VERSION_MISMATCH:pvc''" by code_simp
  ultimately show ?thesis by (simp add: prod_eq_iff)
qed

end
