(* ===== verification/CoordinatorRecovery.thy ===== *)
theory CoordinatorRecovery
  imports CoordinatorRuntime KubernetesDriver
begin

text \<open>
  The coordinator with the Kubernetes driver: what a cleanup does that is taken up again after the
  workload is gone, because the worker that deleted it lost its lease or died before the deletion was
  confirmed.
\<close>

abbreviation op_states :: "'w coordinator_world \<Rightarrow> string list" where
  "op_states s \<equiv> map op_state (db_operations (fst s))"

lemma op_states_fst: "keeps (\<lambda>d. map op_state (db_operations d)) m \<Longrightarrow> keeps op_states (on_fst m)"
  by (auto simp: keeps_def on_fst_def split: prod.split) (metis snd_conv)

lemma states_quiet: "keeps db_operations m \<Longrightarrow> keeps (\<lambda>d. map op_state (db_operations d)) m"
  by (simp add: keeps_def)

lemma op_states_quiet: "keeps db_operations m \<Longrightarrow> keeps op_states (on_fst m)"
  by (rule op_states_fst) (simp add: keeps_def)

lemma op_states_driver: "keeps fst m \<Longrightarrow> keeps op_states (m :: ('w coordinator_world, 'a) action)"
  by (simp add: keeps_def)

lemma op_states_crash: "keeps op_states (crash_at E point)"
  unfolding crash_at_def by (rule op_states_driver) (rule keeps_fst_on_snd)

lemma op_states_authorize: "keeps (\<lambda>d. map op_state (db_operations d)) (cr_authorizePhysicalDeletion C i f)"
proof -
  have lease: "keeps (\<lambda>d. map op_state (db_operations d)) (update_operations P (\<lambda>r. r\<lparr>op_lease := h r\<rparr>))" for P h
    by (auto simp: keeps_def update_table_def intro: map_update_rows)
  show ?thesis
    unfolding cr_authorizePhysicalDeletion_def claimed_operation_def
    by (intro keeps_intros keeps_transactionA) (rule lease | rule states_quiet, rule other_tables)+
qed

lemma plan_needs_workload:
  assumes "\<And>name w. \<exists>e. fst (kc_read (kd_client K) ''workload'' name w) = Inl e \<and> ae_status e = Some 404"
  shows "\<not> is_ok (fst (planDeleteGeneration K g NO_EVIDENCE i f t s))"
proof
  assume "is_ok (fst (planDeleteGeneration K g NO_EVIDENCE i f t s))"
  then obtain p s' where "planDeleteGeneration K g NO_EVIDENCE i f t s = (Inr p, s')" by (auto simp: is_ok_iff prod_eq_iff)
  then obtain d labels rs s1 where "plan_resources K labels NO_EVIDENCE (deletionResources d) s = (Inr rs, s1)"
    by (auto simp: planDeleteGeneration_def thenA_Inr bindA_Inr)
  then obtain item s2 v where o: "optional (kc_read (kd_client K) ''workload'' (ks_workloadName d)) s = (Inr item, s2)"
    and "planned_resource (kd_namespace K) labels (''workload'', ks_workloadName d) None item = Inr v"
    by (auto simp: deletionResources_def bindA_Inr NO_EVIDENCE_def)
  then have "item \<noteq> None" by (cases item) (auto simp: planned_resource_def)
  with o obtain x where "fst (kc_read (kd_client K) ''workload'' (ks_workloadName d) (snd s)) = Inr x"
    by (auto simp: optional_Inr)
  with assms [of "ks_workloadName d" "snd s"] show False by auto
qed

lemma deletion_fails:
  fixes E :: "'w coordinator_env"
  assumes "\<And>name w. \<exists>e. fst (kc_read (kd_client K) ''workload'' name w) = Inl e \<and> ae_status e = Some 404"
  shows "wp (physical_deletion E (kubernetes_driver K) oper g token) (\<lambda>r s'. \<not> is_ok r \<and> op_states s' = op_states s) s"
proof -
  obtain r s1 where p: "planDeleteGeneration K g NO_EVIDENCE (Some (o_id oper)) (Some (o_fence oper)) (Some token) s = (r, s1)"
    by (cases "planDeleteGeneration K g NO_EVIDENCE (Some (o_id oper)) (Some (o_fence oper)) (Some token) s")
  then obtain e where r: "r = Inl e" using plan_needs_workload [OF assms, where s = s] by (cases r) (metis fst_conv is_ok_simps(1))+
  have "fst s1 = fst s" using keepsD [OF kubernetes.plan_keeps [of K, unfolded kubernetes_driver_def, simplified] p] .
  obtain r2 s2 where f: "on_fst (cr_recordDeletionFailure (rt_config E) (o_id oper) (o_fence oper) token (error_code e)) s1 = (r2, s2)"
    by (cases "on_fst (cr_recordDeletionFailure (rt_config E) (o_id oper) (o_fence oper) token (error_code e)) s1")
  have "op_states s2 = op_states s" using keepsD [OF op_states_quiet [OF quiet_methods(15)] f] \<open>fst s1 = fst s\<close> by simp
  with p r f show ?thesis
    by (auto simp: physical_deletion_def wp_def catchA_def bindA_def thenA_def raiseA_def kubernetes_driver_def Let_def
        split: sum.splits prod.splits)
qed

text \<open>C40: A deletion that was interrupted after the workload is never finished.  When the retirement of the
  operation is pending physical deletion and the stateful set is not there any more, a cleanup by the
  Kubernetes driver fails whatever else is in the cluster, and the operation stays as it was; the
  volume claim and the service are never reached.\<close>

theorem interrupted_deletion_not_resumed:
  fixes E :: "'w coordinator_env"
  assumes "\<And>name w. \<exists>e. fst (kc_read (kd_client K) ''workload'' name w) = Inl e \<and> ae_status e = Some 404"
    and "\<forall>v \<in> set (db_retirements (fst s)). rt_operation v = o_id oper \<longrightarrow> rt_state v = ''PHYSICAL_DELETE_PENDING''"
    and "rt_cleanup E (kubernetes_driver K) oper s = (r, s')"
  shows "\<not> is_ok r \<and> op_states s' = op_states s"
proof -
  let ?Q = "\<lambda>r s'. \<not> is_ok r \<and> op_states s' = op_states s"
  obtain r0 s0 where o: "cr_operationRetirement (o_id oper) (fst s) = (r0, s0)" by (cases "cr_operationRetirement (o_id oper) (fst s)")
  have s0: "s0 = fst s" "r0 = Inr (Some v) \<Longrightarrow> re_state v = ''PHYSICAL_DELETE_PENDING''" for v
    using o assms(2) by (auto simp: cr_operationRetirement_def thenA_def bindA_def liftA_def select_rows_def readA_def returnA_def
        retirement_of_def filter_eq_Cons_iff split: sum.splits list.splits)
  have authorize: "wp (on_fst (cr_authorizePhysicalDeletion C i f)) (\<lambda>r s'. op_states s' = op_states s) s" for C i f
    by (rule keeps_wp [OF op_states_fst [OF op_states_authorize]]) simp
  have deletion: "wp (physical_deletion E (kubernetes_driver K) oper g token) ?Q t" if "op_states t = op_states s" for g token t
    using deletion_fails [OF assms(1), of E oper g token t] that by simp
  have read: "wp (on_fst (cr_operationRetirement (o_id oper))) Q s \<longleftrightarrow> Q r0 s" for Q
    using o s0(1) by (cases s) (simp add: wp_def on_fst_def)
  have "wp (rt_cleanup E (kubernetes_driver K) oper) ?Q s"
  proof (cases "\<exists>v. r0 = Inr (Some v)")
    case False
    then show ?thesis
      unfolding rt_cleanup_def Let_def wp_bindA [where m = "on_fst (cr_operationRetirement (o_id oper))"] read
      by (auto simp: wp_raiseA split: sum.split option.split)
  next
    case True
    then obtain v where v: "r0 = Inr (Some v)" by blast
    show ?thesis
      unfolding rt_cleanup_def Let_def wp_bindA [where m = "on_fst (cr_operationRetirement (o_id oper))"] read v
      apply (simp add: s0(2) [OF v] wp_thenA wp_liftA wp_bindA [of "returnA v" for v] wp_returnA wp_bindA [of "bindA m f" for m f]
          wp_bindA [of "on_fst m" for m])
      apply (rule wp_mono [OF authorize])
      apply (auto simp: wp_thenA split: sum.split prod.split intro!: wp_mono [OF deletion])
      done
  qed
  then show ?thesis using assms(3) by (auto simp: wp_def)
qed

section \<open>A run\<close>

text \<open>The workload is gone, the volume claim and the service are there\<close>

definition lost_driver :: "cluster k8s_driver" where
  "lost_driver = local_driver\<lparr>kd_client := cluster_client\<lparr>kc_read := (\<lambda>kind name w.
     if kind = ''workload'' then (failed 404 ''NotFound'', w) else kc_read cluster_client kind name w)\<rparr>\<rparr>"

definition cluster_env :: "cluster coordinator_env" where
  "cluster_env = \<lparr>rt_config = worker, rt_driver = (\<lambda>_. Some (kubernetes_driver lost_driver)), rt_observes = (\<lambda>_ _. returnA True),
     rt_increment = (\<lambda>_. returnA ()), rt_log = (\<lambda>_ _. returnA ()), rt_logFailure = (\<lambda>_. returnA ()),
     rt_crash = (\<lambda>_. returnA ()), rt_sleep = returnA ()\<rparr>"

text \<open>The first worker was authorized and lost its lease; another one has taken the operation\<close>

definition interrupted_db :: control_db where
  "interrupted_db = run_repository [Claim rival, Authorize rival op_uuid 1, Time_passes 20000, Claim worker] cleanup_db"

theorem interrupted_deletion_not_resumed_witness:
  "fst (rt_cleanup cluster_env (kubernetes_driver lost_driver) (operation_of (hd (db_operations interrupted_db))) (interrupted_db, with_generation)) =
     Inl ''RESOURCE_MISSING_UNEXPECTED:workload'' \<and>
   op_states (snd (rt_cleanup cluster_env (kubernetes_driver lost_driver) (operation_of (hd (db_operations interrupted_db))) (interrupted_db, with_generation))) =
     [''CLEANING_UP'']"
proof -
  let ?o = "operation_of (hd (db_operations interrupted_db))" and ?s = "(interrupted_db, with_generation)"
  let ?run = "rt_cleanup cluster_env (kubernetes_driver lost_driver) ?o ?s"
  have gone: "\<exists>e. fst (kc_read (kd_client lost_driver) ''workload'' name w) = Inl e \<and> ae_status e = Some 404" for name w
    by (simp add: lost_driver_def failed_def)
  have pending: "list_all (\<lambda>v. rt_operation v = o_id ?o \<longrightarrow> rt_state v = ''PHYSICAL_DELETE_PENDING'') (db_retirements (fst ?s))"
    by code_simp
  have "op_states (snd ?run) = op_states ?s"
    using interrupted_deletion_not_resumed [OF gone pending [unfolded list_all_iff], of cluster_env "fst ?run" "snd ?run"] by simp
  moreover have "op_states ?s = [''CLEANING_UP'']" by code_simp
  moreover have "fst ?run = Inl ''RESOURCE_MISSING_UNEXPECTED:workload''" by code_simp
  ultimately show ?thesis by simp
qed

text \<open>With the workload still there, the same cleanup completes\<close>

definition local_env :: "cluster coordinator_env" where
  "local_env = cluster_env\<lparr>rt_driver := (\<lambda>_. Some (kubernetes_driver local_driver))\<rparr>"

lemma uninterrupted_cleanup:
  "(case rt_cleanup local_env (kubernetes_driver local_driver) (operation_of (hd (db_operations interrupted_db))) (interrupted_db, with_generation) of
      (Inr _, (d, w)) \<Rightarrow> map op_state (db_operations d) = [''COMPLETED''] \<and> w = []
    | (Inl _, _) \<Rightarrow> False)"
  by code_simp

end
