(* ===== verification/ServingReconciler.thy ===== *)
theory ServingReconciler
  imports Prelude "HOL-Library.Sublist"
begin

text \<open>
  \<open>services/rdf-sync/src/serving-reconciler.js\<close> and \<open>generation-retirement-coordinator.js\<close>: what
  durable evidence says of the serving state, which generations may be deleted, and the cleanup that
  deletes them.  The repository and the driver of the cleanup are parameters.
\<close>

section \<open>Evidence\<close>

record evidence_pointer =
  ev_generationId :: string
  ev_previousGenerationId :: "string option"

record evidence_generation =
  eg_id :: string
  eg_state :: string
  eg_createdAt :: string

record evidence_promotion =
  ep_id :: string
  ep_state :: string
  ep_from :: "string option"
  ep_to :: "string option"

record reconciliation =
  rc_classification :: string
  rc_ready :: bool
  rc_related :: "string list"

definition active_promotion :: "evidence_promotion \<Rightarrow> bool" where
  "active_promotion p \<longleftrightarrow> ep_state p = ''PREPARING''"

text \<open>\<open>result\<close> drops what is falsy and duplicates\<close>

definition reconciled :: "string \<Rightarrow> bool \<Rightarrow> string list \<Rightarrow> reconciliation" where
  "reconciled c ready related = \<lparr>rc_classification = c, rc_ready = ready,
     rc_related = uniq (filter (\<lambda>g. g \<noteq> []) related)\<rparr>"

definition reconcileServingEvidence ::
  "evidence_pointer option \<Rightarrow> evidence_generation list \<Rightarrow> evidence_promotion list \<Rightarrow> (string \<rightharpoonup> string) \<Rightarrow> reconciliation" where
  "reconcileServingEvidence pointer generations promotions healthByGeneration =
     (let serving = filter (\<lambda>g. eg_state g = ''SERVING'') generations;
          activePromotions = filter active_promotion promotions in
      if activePromotions \<noteq> [] then reconciled ''AMBIGUOUS_PROMOTION'' False (map ep_id activePromotions)
      else case pointer of None \<Rightarrow> reconciled ''POINTER_MISSING'' False []
      | Some p \<Rightarrow>
        if List.find (\<lambda>g. eg_id g = ev_generationId p) generations = None
        then reconciled ''POINTER_TARGET_MISSING'' False [ev_generationId p]
        else if length serving \<noteq> 1 \<or> eg_id (hd serving) \<noteq> ev_generationId p
        then reconciled ''POINTER_REGISTRY_MISMATCH'' False (ev_generationId p # map eg_id serving)
        else if healthByGeneration (ev_generationId p) \<noteq> Some ''healthy''
        then reconciled ''SERVING_GENERATION_UNAVAILABLE'' False [ev_generationId p]
        else let abandonedReady = map eg_id (filter (\<lambda>g. eg_state g = ''READY'' \<and>
               Some (eg_id g) \<noteq> ev_previousGenerationId p) generations)
          in reconciled (if abandonedReady \<noteq> [] then ''CONSISTENT_WITH_READY_CANDIDATE'' else ''CONSISTENT'') True abandonedReady)"

text \<open>
  \<open>sort(newestFirst)\<close>: descending and stable; the creation times are ISO stamps, on which
  \<open>localeCompare\<close> is the order of the texts
\<close>

definition newest_first :: "evidence_generation list \<Rightarrow> evidence_generation list" where
  "newest_first gs = rev (sort_key eg_createdAt (rev gs))"

definition protected_ids ::
  "evidence_pointer \<Rightarrow> evidence_promotion list \<Rightarrow> string list" where
  "protected_ids pointer promotions =
     filter (\<lambda>g. g \<noteq> []) (ev_generationId pointer # (case ev_previousGenerationId pointer of None \<Rightarrow> [] | Some g \<Rightarrow> [g])) @
     concat (map (\<lambda>p. (case ep_from p of None \<Rightarrow> [] | Some g \<Rightarrow> [g]) @ (case ep_to p of None \<Rightarrow> [] | Some g \<Rightarrow> [g]))
       (filter active_promotion promotions))"

definition selectGenerationCleanupCandidates ::
  "evidence_generation list \<Rightarrow> evidence_pointer \<Rightarrow> evidence_promotion list \<Rightarrow> int \<Rightarrow> string list result" where
  "selectGenerationCleanupCandidates generations pointer promotions retainFailed =
     bindR (requireR (0 \<le> retainFailed \<and> retainFailed \<le> 1) ''invalid failed-generation retention'') (\<lambda>_.
     let failed = newest_first (filter (\<lambda>g. eg_state g = ''FAILED'') generations);
         protectedIds = protected_ids pointer promotions @ map eg_id (take (nat retainFailed) failed)
     in Inr (map eg_id (filter (\<lambda>g. (eg_state g = ''RETIRED'' \<or> eg_state g = ''FAILED'') \<and>
          eg_id g \<notin> set protectedIds) generations)))"

section \<open>Cleanup\<close>

record serving_evidence =
  se_generations :: "evidence_generation list"
  se_pointer :: evidence_pointer
  se_promotions :: "evidence_promotion list"

record 'w cleanup_env =
  cl_loadServingEvidence :: "('w, serving_evidence) action"
  cl_driverDelete :: "string \<Rightarrow> ('w, unit) action"
  cl_deleteRetired :: "string \<Rightarrow> ('w, unit) action"
  cl_retainFailed :: int

text \<open>The generations deleted so far are the answer; an exception ends the loop without one\<close>

definition cleanup :: "'w cleanup_env \<Rightarrow> ('w, string list) action" where
  "cleanup E = bindA (cl_loadServingEvidence E) (\<lambda>e.
     bindA (liftA (selectGenerationCleanupCandidates (se_generations e) (se_pointer e) (se_promotions e) (cl_retainFailed E)))
       (\<lambda>candidates.
     thenA (forA candidates (\<lambda>g. thenA (cl_driverDelete E g) (cl_deleteRetired E g))) (returnA candidates)))"

section \<open>Properties\<close>

lemma ready_reconciled [simp]: "rc_ready (reconciled c r l) = r"
  by (simp add: reconciled_def)

text \<open>The service is called ready on consistent evidence only, and on all of it: no promotion is under
  way, a pointer exists, its generation is the one generation that serves, and that generation is
  healthy.\<close>

theorem ready_iff_consistent:
  "rc_ready (reconcileServingEvidence pointer generations promotions health) \<longleftrightarrow>
     filter (\<lambda>p. ep_state p = ''PREPARING'') promotions = [] \<and>
     (\<exists>p g. pointer = Some p \<and> filter (\<lambda>g. eg_state g = ''SERVING'') generations = [g] \<and>
        eg_id g = ev_generationId p \<and> health (ev_generationId p) = Some ''healthy'')"
proof -
  have found: "List.find (\<lambda>g. eg_id g = x) generations \<noteq> None"
    if "filter (\<lambda>g. eg_state g = ''SERVING'') generations = [g]" "eg_id g = x" for g x
  proof -
    have "g \<in> set (filter (\<lambda>g. eg_state g = ''SERVING'') generations)" using that(1) by simp
    with that(2) show ?thesis by (auto simp: find_None_iff)
  qed
  let ?serving = "filter (\<lambda>g. eg_state g = ''SERVING'') generations"
  have active: "filter active_promotion promotions = [] \<longleftrightarrow> filter (\<lambda>p. ep_state p = ''PREPARING'') promotions = []"
    by (simp add: active_promotion_def [abs_def])
  show ?thesis
  proof (cases "length ?serving = 1 \<and> filter active_promotion promotions = [] \<and> pointer \<noteq> None")
    case True
    then obtain p g where p: "pointer = Some p" "?serving = [g]" "filter active_promotion promotions = []"
      by (auto simp: length_Suc_conv)
    show ?thesis
      using p(1,3) found [OF p(2)] unfolding active [symmetric] reconcileServingEvidence_def Let_def p(2) by auto
  next
    case False
    then have "\<not> (\<exists>p g. pointer = Some p \<and> ?serving = [g] \<and> eg_id g = ev_generationId p \<and>
        health (ev_generationId p) = Some ''healthy'') \<or> filter active_promotion promotions \<noteq> []" by auto
    moreover have "\<not> rc_ready (reconcileServingEvidence pointer generations promotions health)"
      using False by (auto simp: reconcileServingEvidence_def Let_def split: option.split)
    ultimately show ?thesis unfolding active [symmetric] by blast
  qed
qed

lemma set_newest_first [simp]: "set (newest_first gs) = set gs"
  by (simp add: newest_first_def)

lemma newest_first_empty [simp]: "newest_first gs = [] \<longleftrightarrow> gs = []"
  by (simp flip: set_empty)

lemma newest_first_max:
  assumes "gs \<noteq> []"
  shows "hd (newest_first gs) \<in> set gs \<and> (\<forall>g \<in> set gs. eg_createdAt g \<le> eg_createdAt (hd (newest_first gs)))"
proof -
  let ?s = "sort_key eg_createdAt (rev gs)"
  have ne: "?s \<noteq> []" using assms by (metis length_0_conv length_rev length_sort)
  have hd: "hd (newest_first gs) = last ?s" by (simp add: newest_first_def hd_rev)
  have srt: "sorted (map eg_createdAt ?s)" by simp
  have "eg_createdAt g \<le> eg_createdAt (last ?s)" if "g \<in> set ?s" for g
  proof -
    from that obtain i where i: "i < length ?s" "g = ?s ! i" by (metis in_set_conv_nth)
    have "map eg_createdAt ?s ! i \<le> map eg_createdAt ?s ! (length ?s - 1)"
      using srt i ne by (intro sorted_nth_mono) auto
    with i ne show ?thesis by (simp add: last_conv_nth)
  qed
  with ne hd show ?thesis by (metis last_in_set set_rev set_sort)
qed

text \<open>C33: cleanup spares everything that may still be needed: a selected generation is retired or failed, it
  is not the one pointed to or its predecessor, it takes part in no promotion under way, and when one
  failed generation is retained, the newest one is.\<close>

theorem cleanup_spares_protected:
  assumes "selectGenerationCleanupCandidates generations pointer promotions retainFailed = Inr cs" "[] \<notin> eg_id ` set generations"
  shows "subseq cs (map eg_id generations) \<and>
    (\<forall>g \<in> set cs. (\<exists>r \<in> set generations. eg_id r = g \<and> (eg_state r = ''RETIRED'' \<or> eg_state r = ''FAILED'')) \<and>
       g \<noteq> ev_generationId pointer \<and> Some g \<noteq> ev_previousGenerationId pointer \<and>
       (\<forall>p \<in> set promotions. ep_state p = ''PREPARING'' \<longrightarrow> ep_from p \<noteq> Some g \<and> ep_to p \<noteq> Some g)) \<and>
    (retainFailed = 1 \<and> (\<exists>r \<in> set generations. eg_state r = ''FAILED'') \<longrightarrow>
       (\<exists>r \<in> set generations. eg_state r = ''FAILED'' \<and> eg_id r \<notin> set cs \<and>
          (\<forall>f \<in> set generations. eg_state f = ''FAILED'' \<longrightarrow> eg_createdAt f \<le> eg_createdAt r)))"
proof -
  let ?failed = "filter (\<lambda>g. eg_state g = ''FAILED'') generations"
  from assms(1) have cs: "cs = map eg_id (filter (\<lambda>g. (eg_state g = ''RETIRED'' \<or> eg_state g = ''FAILED'') \<and>
      eg_id g \<notin> set (protected_ids pointer promotions @ map eg_id (take (nat retainFailed) (newest_first ?failed)))) generations)"
    by (auto simp: selectGenerationCleanupCandidates_def Let_def bindR_eq_Inr)
  have sub: "subseq cs (map eg_id generations)" unfolding cs by (intro subseq_map subseq_filter_left)
  have prot: "ev_generationId pointer \<noteq> [] \<Longrightarrow> ev_generationId pointer \<in> set (protected_ids pointer promotions)"
    "ev_previousGenerationId pointer = Some g \<Longrightarrow> g \<noteq> [] \<Longrightarrow> g \<in> set (protected_ids pointer promotions)"
    "p \<in> set promotions \<Longrightarrow> ep_state p = ''PREPARING'' \<Longrightarrow> ep_from p = Some g \<or> ep_to p = Some g \<Longrightarrow>
       g \<in> set (protected_ids pointer promotions)" for p g
    by (simp_all add: protected_ids_def active_promotion_def) force
  then have not: "g \<noteq> ev_generationId pointer \<and> Some g \<noteq> ev_previousGenerationId pointer \<and>
       (\<forall>p \<in> set promotions. ep_state p = ''PREPARING'' \<longrightarrow> ep_from p \<noteq> Some g \<and> ep_to p \<noteq> Some g)"
    if "g \<notin> set (protected_ids pointer promotions)" "g \<noteq> []" for g
    using that by metis
  have newest: "\<exists>r \<in> set generations. eg_state r = ''FAILED'' \<and> eg_id r \<notin> set cs \<and>
          (\<forall>f \<in> set generations. eg_state f = ''FAILED'' \<longrightarrow> eg_createdAt f \<le> eg_createdAt r)"
    if "retainFailed = 1" "\<exists>r \<in> set generations. eg_state r = ''FAILED''"
  proof -
    have ne: "?failed \<noteq> []" using that(2) by (auto simp: filter_empty_conv)
    note m = newest_first_max [OF ne]
    have "newest_first ?failed \<noteq> []" using ne by (simp only: newest_first_empty not_False_eq_True)
    then have "take (nat retainFailed) (newest_first ?failed) = [hd (newest_first ?failed)]"
      using that(1) by (cases "newest_first ?failed") simp_all
    then have "eg_id (hd (newest_first ?failed)) \<notin> set cs" unfolding cs by auto
    with m show ?thesis by (intro bexI [of _ "hd (newest_first ?failed)"]) auto
  qed
  have "\<forall>g \<in> set cs. (\<exists>r \<in> set generations. eg_id r = g \<and> (eg_state r = ''RETIRED'' \<or> eg_state r = ''FAILED'')) \<and>
       g \<notin> set (protected_ids pointer promotions) \<and> g \<noteq> []"
    unfolding cs using assms(2) by (auto simp: image_iff)
  with sub not newest show ?thesis by blast
qed

definition demo_evidence :: "evidence_generation list" where
  "demo_evidence = [\<lparr>eg_id = ''gen-a'', eg_state = ''RETIRING'', eg_createdAt = ''2026-01-01''\<rparr>,
     \<lparr>eg_id = ''gen-b'', eg_state = ''SERVING'', eg_createdAt = ''2026-01-02''\<rparr>,
     \<lparr>eg_id = ''gen-c'', eg_state = ''RETIRED'', eg_createdAt = ''2026-01-03''\<rparr>,
     \<lparr>eg_id = ''gen-d'', eg_state = ''FAILED'', eg_createdAt = ''2026-01-04''\<rparr>,
     \<lparr>eg_id = ''gen-e'', eg_state = ''FAILED'', eg_createdAt = ''2026-01-05''\<rparr>]"

definition demo_evidence_pointer :: evidence_pointer where
  "demo_evidence_pointer = \<lparr>ev_generationId = ''gen-b'', ev_previousGenerationId = Some ''gen-a''\<rparr>"

theorem cleanup_spares_protected_witness:
  "selectGenerationCleanupCandidates demo_evidence demo_evidence_pointer [] 1 = Inr [''gen-c'', ''gen-d''] \<and>
   subseq [''gen-c'', ''gen-d''] (map eg_id demo_evidence) \<and>
   (\<exists>r \<in> set demo_evidence. eg_state r = ''FAILED'' \<and> eg_id r \<notin> {''gen-c'', ''gen-d''})"
proof -
  have s: "selectGenerationCleanupCandidates demo_evidence demo_evidence_pointer [] 1 = Inr [''gen-c'', ''gen-d'']"
    by code_simp
  have n: "[] \<notin> eg_id ` set demo_evidence" by (simp add: demo_evidence_def)
  have f: "\<exists>r \<in> set demo_evidence. eg_state r = ''FAILED''" by (simp add: demo_evidence_def)
  from cleanup_spares_protected [OF s n] f s show ?thesis by auto
qed

end
