(* ===== verification/JsNumber.thy ===== *)
theory JsNumber
  imports JsRegex
begin

text \<open>
  \<open>Number(text)\<close> as far as the configuration needs it: the integer that the text stands for, and
  \<open>None\<close> for a text that is no number, is infinite, or has a fraction.  The decimal value is exact
  here and rounded to a double in the code, which makes no difference below \<open>2^53\<close> unless the text
  writes more than 15 digits.  \<open>number_above\<close> compares any such text with a limit, also one with a
  fraction.
\<close>

definition digit_value :: "char \<Rightarrow> nat" where
  "digit_value c = (if is_digit c then of_char c - 48 else if is_lower c then of_char c - 87 else of_char c - 55)"

definition from_base :: "nat \<Rightarrow> string \<Rightarrow> int" where
  "from_base b s = foldl (\<lambda>n c. n * int b + int (digit_value c)) 0 s"

definition is_letter :: "char \<Rightarrow> bool" where
  "is_letter c \<longleftrightarrow> is_lower c \<or> is_upper c"

definition base_digits :: "nat \<Rightarrow> string \<Rightarrow> bool" where
  "base_digits b s \<longleftrightarrow> s \<noteq> [] \<and> list_all (\<lambda>c. (is_digit c \<or> is_letter c) \<and> digit_value c < b) s"

definition radix_prefix :: "string \<Rightarrow> (nat \<times> string) option" where
  "radix_prefix s = (case s of
       z # x # t \<Rightarrow>
         if z \<noteq> CHR ''0'' then None
         else if x = CHR ''x'' \<or> x = CHR ''X'' then Some (16, t)
         else if x = CHR ''o'' \<or> x = CHR ''O'' then Some (8, t)
         else if x = CHR ''b'' \<or> x = CHR ''B'' then Some (2, t)
         else None
     | _ \<Rightarrow> None)"

definition signed :: "string \<Rightarrow> bool \<times> string" where
  "signed s = (case s of
       c # t \<Rightarrow> if c = CHR ''-'' then (True, t) else if c = CHR ''+'' then (False, t) else (False, s)
     | [] \<Rightarrow> (False, s))"

definition negated :: "bool \<Rightarrow> int \<Rightarrow> int" where
  "negated neg i = (if neg then - i else i)"

definition exponent :: "string \<Rightarrow> int option" where
  "exponent s = (case s of
       [] \<Rightarrow> Some 0
     | c # t \<Rightarrow>
         if c = CHR ''e'' \<or> c = CHR ''E''
         then (case signed t of (neg, u) \<Rightarrow> if base_digits 10 u then Some (negated neg (from_base 10 u)) else None)
         else None)"

text \<open>\<open>m * 10 ^ e\<close> when it is an integer\<close>

definition scaled :: "int \<Rightarrow> int \<Rightarrow> int option" where
  "scaled m e = (if 0 \<le> e then Some (m * 10 ^ nat e)
     else if m mod 10 ^ nat (- e) = 0 then Some (m div 10 ^ nat (- e)) else None)"

text \<open>A decimal literal as \<open>m * 10 ^ e\<close>\<close>

definition decimal_parts :: "string \<Rightarrow> (int \<times> int) option" where
  "decimal_parts s = (case signed s of (neg, u) \<Rightarrow>
     let a = takeWhile is_digit u; r = dropWhile is_digit u in
     case (case r of c # t \<Rightarrow> if c = CHR ''.'' then (takeWhile is_digit t, dropWhile is_digit t) else ([], r) | [] \<Rightarrow> ([], r)) of
       (b, rest) \<Rightarrow>
         if a = [] \<and> b = [] then None
         else (case exponent rest of
             None \<Rightarrow> None
           | Some e \<Rightarrow> Some (negated neg (from_base 10 (a @ b)), e - int (length b))))"

definition decimal :: "string \<Rightarrow> int option" where
  "decimal s = (case decimal_parts s of None \<Rightarrow> None | Some (m, e) \<Rightarrow> scaled m e)"

definition number_integer :: "string \<Rightarrow> int option" where
  "number_integer s = (let t = trim s in
     if t = [] then Some 0
     else (case radix_prefix t of
         Some (b, u) \<Rightarrow> if base_digits b u then Some (from_base b u) else None
       | None \<Rightarrow> decimal t))"

text \<open>\<open>Number(text) > limit\<close>, for every text: a fraction is compared too, infinity is above, what is no number is not.\<close>

definition number_above :: "int \<Rightarrow> string \<Rightarrow> bool" where
  "number_above limit s = (let t = trim s in
     if List.member [''Infinity'', ''+Infinity''] t then True
     else (case number_integer t of
         Some n \<Rightarrow> n > limit
       | None \<Rightarrow> (case (case radix_prefix t of None \<Rightarrow> decimal_parts t | Some _ \<Rightarrow> None) of
             None \<Rightarrow> False
           | Some (m, e) \<Rightarrow> m > limit * 10 ^ nat (- e))))"

text \<open>
  \<open>bounded\<close> of the configuration modules: \<open>Number(value)\<close>, or the fallback when the variable is not
  set, as an integer between the bounds
\<close>

definition bounded :: "string \<Rightarrow> string option \<Rightarrow> int \<Rightarrow> int \<Rightarrow> int \<Rightarrow> int result" where
  "bounded message value lo hi fallback =
     (case (case value of None \<Rightarrow> Some fallback | Some s \<Rightarrow> number_integer s) of
        None \<Rightarrow> Inl message
      | Some n \<Rightarrow> if n < lo \<or> hi < n then Inl message else Inr n)"

lemma bounded_range: "bounded message value lo hi fallback = Inr n \<Longrightarrow> lo \<le> n \<and> n \<le> hi"
  by (auto simp: bounded_def split: option.splits if_splits)

lemma bounded_fallback: "lo \<le> fallback \<Longrightarrow> fallback \<le> hi \<Longrightarrow> bounded message None lo hi fallback = Inr fallback"
  by (simp add: bounded_def)

end
