(* ===== verification/DateText.thy ===== *)
theory DateText
  imports JsDate
begin

text \<open>
  \<open>Date.prototype.toISOString\<close>: the text of an instant, by the calendar computed from the number of
  days since the epoch.  Years outside 0 to 9999 have a sign and six digits.
\<close>

definition civil :: "int \<Rightarrow> int \<times> int \<times> int" where
  "civil days =
     (let z = days + 719468; era = z div 146097; doe = z mod 146097;
          yoe = (doe - doe div 1460 + doe div 36524 - doe div 146096) div 365;
          doy = doe - (365 * yoe + yoe div 4 - yoe div 100); mp = (5 * doy + 2) div 153;
          day = doy - (153 * mp + 2) div 5 + 1; month = (if mp < 10 then mp + 3 else mp - 9)
      in (yoe + era * 400 + (if month \<le> 2 then 1 else 0), month, day))"

fun padded :: "nat \<Rightarrow> int \<Rightarrow> string" where
  "padded 0 i = []"
| "padded (Suc n) i = padded n (i div 10) @ [char_of (48 + nat (i mod 10))]"

definition year_text :: "int \<Rightarrow> string" where
  "year_text y = (if 0 \<le> y \<and> y \<le> 9999 then padded 4 y else if y < 0 then ''-'' @ padded 6 (- y) else ''+'' @ padded 6 y)"

definition toISOString :: "int \<Rightarrow> string" where
  "toISOString t =
     (let days = t div 86400000; ms = t mod 86400000 in
      case civil days of (y, m, d) \<Rightarrow>
        year_text y @ ''-'' @ padded 2 m @ ''-'' @ padded 2 d @ ''T'' @ padded 2 (ms div 3600000) @ '':'' @
        padded 2 (ms div 60000 mod 60) @ '':'' @ padded 2 (ms div 1000 mod 60) @ ''.'' @ padded 3 (ms mod 1000) @ ''Z'')"

text \<open>\<open>new Date(t).toISOString().replace('.000Z', 'Z')\<close>\<close>

definition second_text :: "int \<Rightarrow> string" where
  "second_text t = (let s = toISOString t in
     if ends_with ''.000Z'' s then take (length s - 5) s @ ''Z'' else s)"

lemma text_samples:
  "toISOString 0 = ''1970-01-01T00:00:00.000Z''"
  "toISOString 951782400123 = ''2000-02-29T00:00:00.123Z''"
  "second_text 1721908799000 = ''2024-07-25T11:59:59Z''"
  "date_parse (second_text 1721908799000) = Some 1721908799000"
  by code_simp+

end
