(* ===== verification/GenerationSync.thy ===== *)
theory GenerationSync
  imports SyncInterface StandalonePromotion DateText
begin

text \<open>
  \<open>services/rdf-sync/src/postgres-generation-sync-repository.js\<close>: the state of synchronization of one
  generation in the database, its cursor, its entity rows and its graphs, and the ingestion cursor of
  a source.  Rows are the tables \<open>rdf_generation_sync\<close>, \<open>rdf_generation_entity_revision\<close>,
  \<open>rdf_generation_graph\<close> and \<open>rdf_sync_source\<close> of \<open>ControlDb\<close>; the columns \<open>updated_at\<close> are left
  out, and the instant of the last success of an entity is kept as the text it was given as.
\<close>

definition GENERATION_SYNC_STATES :: "string list" where
  "GENERATION_SYNC_STATES = [''BOOTSTRAPPING'', ''CATCHING_UP'', ''CURRENT'', ''STALE'', ''GAP_DETECTED'', ''ERROR'']"

definition SCHEMA_STATES :: "string list" where
  "SCHEMA_STATES = [''PENDING'', ''CURRENT'', ''STALE'', ''ERROR'']"

section \<open>Validation\<close>

definition sync_requireCursor :: "cursor \<Rightarrow> (int \<times> int) result" where
  "sync_requireCursor c = (case date_parse (cur_timestamp c) of
       None \<Rightarrow> Inl ''invalid synchronization cursor''
     | Some t \<Rightarrow> if 0 \<le> cur_rcid c then Inr (t, cur_rcid c) else Inl ''invalid synchronization cursor'')"

definition sync_requireEntity :: "string \<Rightarrow> unit result" where
  "sync_requireEntity v = requireR (entity_id v) ''invalid entity ID''"

definition sync_safeCode :: "string option \<Rightarrow> string option result" where
  "sync_safeCode v = (case v of None \<Rightarrow> Inr None
     | Some e \<Rightarrow> bindR (requireR (rx_test ERROR_CODE e) ''invalid error code'') (\<lambda>_. Inr v))"

definition mapped_status :: "string \<Rightarrow> string" where
  "mapped_status v = (case map_of [(''BOOTSTRAPPING'', ''BOOTSTRAPPING''), (''HEALTHY'', ''CURRENT''), (''CATCHING_UP'', ''CATCHING_UP''),
     (''STALE'', ''STALE''), (''GAP_DETECTED'', ''GAP_DETECTED''), (''REBUILD_REQUIRED'', ''STALE''), (''REBUILDING'', ''CATCHING_UP''),
     (''ERROR'', ''ERROR'')] v of None \<Rightarrow> v | Some s \<Rightarrow> s)"

definition mapSourceState :: "string \<Rightarrow> string result" where
  "mapSourceState v = bindR (requireR (List.member GENERATION_SYNC_STATES (mapped_status v)) ''invalid generation synchronization state'')
     (\<lambda>_. Inr (mapped_status v))"

definition requireGraph :: "string \<Rightarrow> string \<Rightarrow> string option \<Rightarrow> unit result" where
  "requireGraph iri kind entity =
     (let expected =
        (case entity of
           None \<Rightarrow> if kind = ''GLOBAL'' then Some ''urn:jwb:global'' else None
         | Some e \<Rightarrow>
             if kind = ''ENTITY'' \<and> entity_id e then Some (''urn:jwb:entity:'' @ e)
             else if kind = ''PROPERTY_SCHEMA'' \<and> property_id e then Some (''urn:jwb:schema:'' @ e)
             else None)
      in requireR (expected = Some iri) ''invalid generation graph descriptor'')"

text \<open>\<open>/^urn:jwb:(?:entity:[QP]|schema:P)[1-9][0-9]*$/u\<close>\<close>

definition MANAGED_GRAPH :: rx where
  "MANAGED_GRAPH = Cats [Lit ''urn:jwb:'', Alt (Cat (Lit ''entity:'') (OneOf ''QP'')) (Lit ''schema:P''),
     Cls is_digit19, Star (Cls is_digit)]"

definition requireManagedGraphIri :: "string \<Rightarrow> unit result" where
  "requireManagedGraphIri v = requireR (v = ''urn:jwb:global'' \<or> rx_test MANAGED_GRAPH v) ''invalid managed graph IRI''"

definition new_generation_repository :: "string \<Rightarrow> string \<Rightarrow> unit result" where
  "new_generation_repository source g =
     bindR (requireR (source_identity source) ''invalid source identity'') (\<lambda>_.
     requireR (generation_id g) ''invalid generation ID'')"

section \<open>Rows\<close>

definition is_sync :: "string \<Rightarrow> string \<Rightarrow> generation_sync_row \<Rightarrow> bool" where
  "is_sync source g r \<longleftrightarrow> gs_source r = source \<and> gs_generation r = g"

definition is_revision :: "string \<Rightarrow> string \<Rightarrow> revision_row \<Rightarrow> bool" where
  "is_revision source g r \<longleftrightarrow> rv_source r = source \<and> rv_generation r = g"

abbreviation update_syncs where
  "update_syncs \<equiv> update_table db_syncs db_syncs_update (\<lambda>_. True)"

text \<open>The checks of the table\<close>

definition revisions_ok :: "revision_row list \<Rightarrow> bool" where
  "revisions_ok rs \<longleftrightarrow> list_all (\<lambda>r. 0 \<le> rv_indexed r \<and> rv_indexed r \<le> rv_latest r \<and> length (rv_entity r) \<le> 32) rs"

definition sync_cursor :: "string \<Rightarrow> int \<times> int \<Rightarrow> cursor" where
  "sync_cursor source c = \<lparr>cur_source = source, cur_timestamp = second_text (fst c), cur_rcid = snd c\<rparr>"

definition sync_entity :: "revision_row \<Rightarrow> entity_row" where
  "sync_entity r = \<lparr>row_entity = rv_entity r, row_indexed = rv_indexed r, row_latestSeen = rv_latest r, row_status = rv_state r,
     row_checksum = rv_checksum r, row_lastSuccessAt = rv_lastSuccess r, row_errorCode = rv_error r\<rparr>"

definition revision_of :: "string \<Rightarrow> string \<Rightarrow> entity_row \<Rightarrow> revision_row" where
  "revision_of source g v = \<lparr>rv_source = source, rv_generation = g, rv_entity = row_entity v, rv_indexed = row_indexed v,
     rv_latest = row_latestSeen v, rv_state = row_status v, rv_checksum = row_checksum v, rv_lastSuccess = row_lastSuccessAt v,
     rv_error = row_errorCode v\<rparr>"

section \<open>The repository of a generation\<close>

definition gs_initialize :: "string \<Rightarrow> string \<Rightarrow> cursor \<Rightarrow> unit db" where
  "gs_initialize source g snapshotCursor =
     bindA (liftA (sync_requireCursor snapshotCursor)) (\<lambda>c.
     bindA (select_rows db_syncs (is_sync source g)) (\<lambda>there.
     if there \<noteq> [] then returnA ()
     else modifyA (\<lambda>d. d\<lparr>db_syncs := db_syncs d @ [\<lparr>gs_source = source, gs_generation = g, gs_state = ''BOOTSTRAPPING'',
       gs_schema = ''PENDING'', gs_snapshot = c, gs_catchup = Some c, gs_lastSuccess = None, gs_error = None\<rparr>]\<rparr>)))"

definition sync_source_of :: "string \<Rightarrow> generation_sync_row \<Rightarrow> sync_source" where
  "sync_source_of source r = \<lparr>src_identity = source, src_cursor = map_option (sync_cursor source) (gs_catchup r),
     src_status = gs_state r, src_schemaState = Some (gs_schema r), src_lastPollAt = None,
     src_lastSuccessAt = map_option toISOString (gs_lastSuccess r), src_errorCode = gs_error r\<rparr>"

definition gs_loadSource :: "string \<Rightarrow> string \<Rightarrow> sync_source db" where
  "gs_loadSource source g =
     bindA (select_rows db_syncs (is_sync source g)) (\<lambda>rows.
     bindA (one_row ''GENERATION_SYNC_NOT_REGISTERED'' rows) (\<lambda>r. returnA (sync_source_of source r)))"

text \<open>The time of the poll goes to \<open>updated_at\<close> alone\<close>

definition gs_recordPoll :: "string \<Rightarrow> string \<Rightarrow> string \<Rightarrow> unit db" where
  "gs_recordPoll source g at = returnA ()"

definition gs_setSourceStatus :: "string \<Rightarrow> string \<Rightarrow> string \<Rightarrow> string option \<Rightarrow> unit db" where
  "gs_setSourceStatus source g status errorCode =
     bindA (liftA (mapSourceState status)) (\<lambda>state.
     bindA (liftA (sync_safeCode errorCode)) (\<lambda>e.
     thenA (update_syncs (is_sync source g) (\<lambda>r. r\<lparr>gs_state := state, gs_error := e\<rparr>)) (returnA ())))"

definition gs_setSchemaState :: "string \<Rightarrow> string \<Rightarrow> string \<Rightarrow> string option \<Rightarrow> unit db" where
  "gs_setSchemaState source g state errorCode =
     thenA (ensureA (List.member SCHEMA_STATES state) ''invalid generation schema state'')
     (bindA (liftA (sync_safeCode errorCode)) (\<lambda>e.
      thenA (update_syncs (is_sync source g) (\<lambda>r. r\<lparr>gs_schema := state, gs_error := e\<rparr>)) (returnA ())))"

definition gs_loadEntity :: "string \<Rightarrow> string \<Rightarrow> string \<Rightarrow> entity_row db" where
  "gs_loadEntity source g i =
     thenA (liftA (sync_requireEntity i))
     (bindA (select_rows db_revisions (\<lambda>r. is_revision source g r \<and> rv_entity r = i)) (\<lambda>rows.
      returnA (case rows of [] \<Rightarrow> pending_row i | r # _ \<Rightarrow> sync_entity r)))"

text \<open>\<open>#save\<close>: an upsert\<close>

definition gs_saveEntity :: "string \<Rightarrow> string \<Rightarrow> entity_row \<Rightarrow> unit db" where
  "gs_saveEntity source g v =
     thenA (liftA (sync_requireEntity (row_entity v)))
     (thenA (liftA (sync_safeCode (row_errorCode v)))
     (bindA (select_rows db_revisions (\<lambda>r. is_revision source g r \<and> rv_entity r = row_entity v)) (\<lambda>there.
      if there = [] then thenA (insert_row db_revisions db_revisions_update revisions_ok (revision_of source g v)) (returnA ())
      else thenA (update_table db_revisions db_revisions_update revisions_ok
          (\<lambda>r. is_revision source g r \<and> rv_entity r = row_entity v) (\<lambda>_. revision_of source g v)) (returnA ()))))"

definition assertAdvances :: "generation_sync_row \<Rightarrow> int \<times> int \<Rightarrow> unit result" where
  "assertAdvances r next' = (case gs_catchup r of
       None \<Rightarrow> Inr ()
     | Some old \<Rightarrow> requireR (\<not> (fst next' < reparsed (fst old) \<or> fst next' = reparsed (fst old) \<and> snd next' \<le> snd old)) ''CURSOR_REGRESSION'')"

definition gs_commitEvent :: "string \<Rightarrow> string \<Rightarrow> cursor \<Rightarrow> entity_row option \<Rightarrow> unit db" where
  "gs_commitEvent source g nextCursor nextEntity =
     bindA (liftA (sync_requireCursor nextCursor)) (\<lambda>next'.
     transactionA (
      bindA (select_rows db_syncs (is_sync source g)) (\<lambda>locked.
      bindA (one_row ''GENERATION_SYNC_NOT_REGISTERED'' locked) (\<lambda>row.
      thenA (liftA (assertAdvances row next'))
      (thenA (case nextEntity of None \<Rightarrow> returnA () | Some v \<Rightarrow> gs_saveEntity source g v)
      (bindA now_db (\<lambda>now.
       thenA (update_syncs (is_sync source g) (\<lambda>r. r\<lparr>gs_catchup := Some next',
         gs_state := (if gs_state r = ''BOOTSTRAPPING'' then ''CATCHING_UP'' else gs_state r),
         gs_lastSuccess := Some now, gs_error := None\<rparr>)) (returnA ()))))))))"

definition gs_advanceCursor :: "string \<Rightarrow> string \<Rightarrow> cursor \<Rightarrow> unit db" where
  "gs_advanceCursor source g nextCursor = gs_commitEvent source g nextCursor None"

definition gs_counts :: "string \<Rightarrow> string \<Rightarrow> (nat \<times> nat) db" where
  "gs_counts source g = bindA (select_rows db_revisions (is_revision source g)) (\<lambda>rs.
     returnA (length (filter (\<lambda>r. rv_state r = ''CURRENT'') rs),
       length (filter (\<lambda>r. rv_state r = ''FAILED'' \<or> rv_state r = ''GAP'') rs)))"

definition is_graph :: "string \<Rightarrow> string \<Rightarrow> string \<Rightarrow> graph_row \<Rightarrow> bool" where
  "is_graph source g iri r \<longleftrightarrow> gg_source r = source \<and> gg_generation r = g \<and> gg_iri r = iri"

definition gs_registerGraph :: "string \<Rightarrow> string \<Rightarrow> string \<Rightarrow> string \<Rightarrow> string option \<Rightarrow> unit db" where
  "gs_registerGraph source g iri kind entity =
     thenA (liftA (requireGraph iri kind entity))
     (bindA (select_rows db_graphs (is_graph source g iri)) (\<lambda>there.
      if there = [] then modifyA (\<lambda>d. d\<lparr>db_graphs := db_graphs d @ [\<lparr>gg_source = source, gg_generation = g, gg_iri = iri,
        gg_kind = kind, gg_entity = entity\<rparr>]\<rparr>)
      else thenA (update_table db_graphs db_graphs_update (\<lambda>_. True) (is_graph source g iri) (\<lambda>r. r\<lparr>gg_kind := kind, gg_entity := entity\<rparr>))
        (returnA ())))"

definition gs_unregisterGraph :: "string \<Rightarrow> string \<Rightarrow> string \<Rightarrow> unit db" where
  "gs_unregisterGraph source g iri = thenA (liftA (requireManagedGraphIri iri))
     (modifyA (\<lambda>d. d\<lparr>db_graphs := filter (\<lambda>r. \<not> is_graph source g iri r) (db_graphs d)\<rparr>))"

text \<open>\<open>ORDER BY graph_iri\<close>, in the order of the code units\<close>

definition gs_listGraphIris :: "string \<Rightarrow> string \<Rightarrow> string list db" where
  "gs_listGraphIris source g = readA (\<lambda>d. sort (map gg_iri (filter (\<lambda>r. gg_source r = source \<and> gg_generation r = g) (db_graphs d))))"

definition gs_markCurrent :: "string \<Rightarrow> string \<Rightarrow> unit db" where
  "gs_markCurrent source g =
     bindA (gs_loadSource source g) (\<lambda>current.
     thenA (ensureA (src_schemaState current = Some ''CURRENT'') ''GENERATION_SCHEMA_NOT_CURRENT'')
     (bindA now_db (\<lambda>now.
      thenA (update_syncs (is_sync source g) (\<lambda>r. r\<lparr>gs_state := ''CURRENT'', gs_error := None, gs_lastSuccess := Some now\<rparr>)) (returnA ()))))"

record sync_manifest =
  sm_version :: int
  sm_normalizationModel :: string
  sm_partitionModel :: string
  sm_text :: string

definition gs_saveGenerationManifest :: "string \<Rightarrow> string \<Rightarrow> sync_manifest option \<Rightarrow> unit db" where
  "gs_saveGenerationManifest source g value = (case value of
       None \<Rightarrow> raiseA ''invalid generation manifest''
     | Some v \<Rightarrow>
       thenA (ensureA (sm_version v = 1 \<and> sm_normalizationModel v = ''jwb-rdf-normalization-v1'' \<and>
         sm_partitionModel v = ''jwb-partition-v1'') ''invalid generation manifest'')
       (thenA (update_generations (is_generation source g) (\<lambda>r. r\<lparr>gr_manifest := Some (sm_text v)\<rparr>)) (returnA ())))"

section \<open>The ingestion cursor of a source\<close>

definition si_loadCursor :: "string \<Rightarrow> cursor option db" where
  "si_loadCursor source =
     bindA (select_rows db_sources (\<lambda>r. sr_source r = source)) (\<lambda>rows.
     bindA (one_row ''SYNC_SOURCE_NOT_REGISTERED'' rows) (\<lambda>r.
     thenA (ensureA (sr_legacy r \<noteq> ''UNREVIEWED'') ''LEGACY_SYNC_STATE_AMBIGUOUS'')
     (returnA (map_option (sync_cursor source) (sr_ingestion r)))))"

definition cursor_before :: "int \<times> int \<Rightarrow> int \<times> int \<Rightarrow> bool" where
  "cursor_before a b \<longleftrightarrow> fst a < fst b \<or> fst a = fst b \<and> snd a < snd b"

definition si_advanceCursor :: "string \<Rightarrow> cursor \<Rightarrow> unit db" where
  "si_advanceCursor source nextCursor =
     bindA (liftA (sync_requireCursor nextCursor)) (\<lambda>next'.
     bindA (update_table db_sources db_sources_update (\<lambda>_. True)
       (\<lambda>r. sr_source r = source \<and> sr_legacy r \<noteq> ''UNREVIEWED'' \<and>
         (case sr_ingestion r of None \<Rightarrow> True | Some old \<Rightarrow> cursor_before old next'))
       (\<lambda>r. r\<lparr>sr_ingestion := Some next'\<rparr>)) (\<lambda>rows.
     thenA (ensureA (length rows = 1) ''INGESTION_CURSOR_CONFLICT'') (returnA ())))"

section \<open>The contract of the engine\<close>

text \<open>
  A generation is registered when it has one row, whose cursor is one that the services store: it
  prints and parses to itself.  A worker starts by loading its row and stops when there is none, so
  the operations are stated on registered states: \<open>registered\<close> leaves those as they are.
\<close>

definition cursor_kept :: "int \<times> int \<Rightarrow> bool" where
  "cursor_kept c \<longleftrightarrow> date_parse (second_text (fst c)) = Some (fst c)"

definition sync_kept :: "generation_sync_row \<Rightarrow> bool" where
  "sync_kept r \<longleftrightarrow> (case gs_catchup r of None \<Rightarrow> True | Some c \<Rightarrow> cursor_kept c)"

definition blank_sync :: "string \<Rightarrow> string \<Rightarrow> generation_sync_row" where
  "blank_sync source g = \<lparr>gs_source = source, gs_generation = g, gs_state = ''BOOTSTRAPPING'', gs_schema = ''PENDING'',
     gs_snapshot = (0, 0), gs_catchup = None, gs_lastSuccess = None, gs_error = None\<rparr>"

definition sync_rows :: "string \<Rightarrow> string \<Rightarrow> control_db \<Rightarrow> generation_sync_row list" where
  "sync_rows source g d = filter (is_sync source g) (db_syncs d)"

definition is_registered :: "string \<Rightarrow> string \<Rightarrow> control_db \<Rightarrow> bool" where
  "is_registered source g d \<longleftrightarrow> (case sync_rows source g d of [r] \<Rightarrow> sync_kept r | _ \<Rightarrow> False)"

definition registered :: "string \<Rightarrow> string \<Rightarrow> control_db \<Rightarrow> control_db" where
  "registered source g d = (if is_registered source g d then d
     else d\<lparr>db_syncs := blank_sync source g # filter (\<lambda>r. \<not> is_sync source g r) (db_syncs d)\<rparr>)"

definition sync_row :: "string \<Rightarrow> string \<Rightarrow> control_db \<Rightarrow> generation_sync_row" where
  "sync_row source g d = hd (sync_rows source g d)"

lemma registered_ok: "is_registered source g (registered source g d)"
  by (auto simp: registered_def is_registered_def sync_rows_def blank_sync_def is_sync_def sync_kept_def filter_empty_conv)

lemma registered_id [simp]: "is_registered source g d \<Longrightarrow> registered source g d = d"
  by (simp add: registered_def)

lemma is_registered_row:
  "is_registered source g d \<longleftrightarrow> sync_rows source g d = [sync_row source g d] \<and> sync_kept (sync_row source g d)"
  by (auto simp: is_registered_def sync_row_def split: list.splits)

definition shown :: "string \<Rightarrow> string" where
  "shown s = (if s = ''BOOTSTRAPPING'' then ''CATCHING_UP'' else s)"

definition entity_rows :: "string \<Rightarrow> string \<Rightarrow> revision_row list \<Rightarrow> string \<Rightarrow> entity_row" where
  "entity_rows source g rs i = (case filter (\<lambda>r. is_revision source g r \<and> rv_entity r = i) rs of
     [] \<Rightarrow> pending_row i | r # _ \<Rightarrow> sync_entity r)"

text \<open>Bootstrapping and catching up are one status to the engine: the first commit leaves the former\<close>

definition sync_view :: "string \<Rightarrow> string \<Rightarrow> control_db \<Rightarrow> repo_view" where
  "sync_view source g d = \<lparr>v_cursor = map_option (sync_cursor source) (gs_catchup (sync_row source g d)),
     v_rows = entity_rows source g (db_revisions d), v_status = shown (gs_state (sync_row source g d))\<rparr>"

definition postgres_view :: "string \<Rightarrow> string \<Rightarrow> control_db \<Rightarrow> repo_view" where
  "postgres_view source g d = sync_view source g (registered source g d)"

definition on_registered :: "string \<Rightarrow> string \<Rightarrow> 'a db \<Rightarrow> 'a db" where
  "on_registered source g m = (\<lambda>d. m (registered source g d))"

definition postgres_ops :: "string \<Rightarrow> string \<Rightarrow> control_db repository_ops" where
  "postgres_ops source g =
     \<lparr>r_loadSource = on_registered source g (gs_loadSource source g),
      r_recordPoll = (\<lambda>t. on_registered source g (gs_recordPoll source g t)),
      r_setSourceStatus = (\<lambda>s e. on_registered source g (gs_setSourceStatus source g s e)),
      r_loadEntity = (\<lambda>i. on_registered source g (gs_loadEntity source g i)),
      r_saveEntity = (\<lambda>v. on_registered source g (gs_saveEntity source g v)),
      r_commitEvent = (\<lambda>c v. on_registered source g (gs_commitEvent source g c v)),
      r_advanceCursor = (\<lambda>c. on_registered source g (gs_advanceCursor source g c)),
      r_startRebuild = (\<lambda>_. raiseA ''TypeError''), r_finishRebuild = (\<lambda>_ _. raiseA ''TypeError''),
      r_registerGraph = Some (\<lambda>iri kind e. on_registered source g (gs_registerGraph source g iri kind (Some e))),
      r_unregisterGraph = Some (\<lambda>iri. on_registered source g (gs_unregisterGraph source g iri)),
      r_setSchemaState = Some (\<lambda>s. on_registered source g (gs_setSchemaState source g s None))\<rparr>"

text \<open>The order of the cursors that the database takes: by whole seconds\<close>

definition second_less :: "cursor \<Rightarrow> cursor \<Rightarrow> bool" where
  "second_less a b = (case (date_parse (cur_timestamp a), date_parse (cur_timestamp b)) of
       (Some x, Some y) \<Rightarrow> x div 1000 < y div 1000 \<or> x div 1000 = y div 1000 \<and> cur_rcid a < cur_rcid b
     | _ \<Rightarrow> False)"

text \<open>The cursors of MediaWiki: whole seconds, in the printed form\<close>

definition source_cursor :: "string \<Rightarrow> cursor \<Rightarrow> bool" where
  "source_cursor source c \<longleftrightarrow> (case date_parse (cur_timestamp c) of
       None \<Rightarrow> False | Some t \<Rightarrow> t mod 1000 = 0 \<and> second_text t = cur_timestamp c \<and> cur_source c = source)"

lemma registered_effect:
  assumes "\<And>d r d'. is_registered source g d \<Longrightarrow> m d = (r, d') \<Longrightarrow>
    is_registered source g d' \<and> sync_view source g d' = (if is_ok r then f (sync_view source g d) else sync_view source g d)"
  shows "effect (postgres_view source g) f (on_registered source g m)"
proof (rule effectI)
  fix w r w' assume "on_registered source g m w = (r, w')"
  then have m: "m (registered source g w) = (r, w')" by (simp add: on_registered_def)
  from assms [OF registered_ok m] show "postgres_view source g w' =
      (if is_ok r then f (postgres_view source g w) else postgres_view source g w)"
    by (simp add: postgres_view_def)
qed

lemma registered_keeps:
  assumes "\<And>d r d'. is_registered source g d \<Longrightarrow> m d = (r, d') \<Longrightarrow>
    is_registered source g d' \<and> sync_view source g d' = sync_view source g d"
  shows "keeps (postgres_view source g) (on_registered source g m)"
  using registered_effect [of source g m id] assms by (simp add: effect_id)

lemma other_rows [simp]:
  "is_registered source g (d\<lparr>db_revisions := x\<rparr>) = is_registered source g d"
  "is_registered source g (d\<lparr>db_graphs := y\<rparr>) = is_registered source g d"
  "sync_row source g (d\<lparr>db_revisions := x\<rparr>) = sync_row source g d"
  "sync_view source g (d\<lparr>db_graphs := y\<rparr>) = sync_view source g d"
  by (simp_all add: is_registered_def sync_row_def sync_rows_def sync_view_def)

lemma update_sync_rows:
  assumes "is_registered source g d" "\<And>r. is_sync source g (f r) = is_sync source g r" "sync_kept (f (sync_row source g d))"
  shows "is_registered source g (d\<lparr>db_syncs := update_rows (is_sync source g) f (db_syncs d)\<rparr>)"
    "sync_row source g (d\<lparr>db_syncs := update_rows (is_sync source g) f (db_syncs d)\<rparr>) = f (sync_row source g d)"
proof -
  have "filter (is_sync source g) (update_rows (is_sync source g) f rs) = map f (filter (is_sync source g) rs)" for rs
    using assms(2) by (induction rs) auto
  moreover obtain r where "filter (is_sync source g) (db_syncs d) = [r]"
    using assms(1) by (auto simp: is_registered_row sync_rows_def)
  ultimately show "is_registered source g (d\<lparr>db_syncs := update_rows (is_sync source g) f (db_syncs d)\<rparr>)"
    "sync_row source g (d\<lparr>db_syncs := update_rows (is_sync source g) f (db_syncs d)\<rparr>) = f (sync_row source g d)"
    using assms(3) by (auto simp: is_registered_row sync_rows_def sync_row_def)
qed

lemma sync_revision [simp]: "sync_entity (revision_of source g v) = v"
  by (simp add: sync_entity_def revision_of_def)

lemma is_revision_of [simp]: "is_revision source g (revision_of source g v)" "rv_entity (revision_of source g v) = row_entity v"
  by (simp_all add: is_revision_def revision_of_def)

lemma entity_rows_insert:
  assumes "filter (\<lambda>r. is_revision source g r \<and> rv_entity r = row_entity v) rs = []"
  shows "entity_rows source g (rs @ [revision_of source g v]) = (entity_rows source g rs)(row_entity v := v)"
proof
  fix i
  show "entity_rows source g (rs @ [revision_of source g v]) i = ((entity_rows source g rs)(row_entity v := v)) i"
    using assms by (cases "i = row_entity v") (auto simp: entity_rows_def)
qed

lemma entity_rows_update:
  assumes "filter (\<lambda>r. is_revision source g r \<and> rv_entity r = row_entity v) rs \<noteq> []"
  shows "entity_rows source g (update_rows (\<lambda>r. is_revision source g r \<and> rv_entity r = row_entity v) (\<lambda>_. revision_of source g v) rs) =
    (entity_rows source g rs)(row_entity v := v)"
proof
  fix i
  let ?up = "update_rows (\<lambda>r. is_revision source g r \<and> rv_entity r = row_entity v) (\<lambda>_. revision_of source g v)"
  have same: "filter (\<lambda>r. is_revision source g r \<and> rv_entity r = i) (?up rs) = filter (\<lambda>r. is_revision source g r \<and> rv_entity r = i) rs"
    if "i \<noteq> row_entity v" for rs
    using that by (induction rs) auto
  have own: "filter (\<lambda>r. is_revision source g r \<and> rv_entity r = row_entity v) (?up rs) =
      map (\<lambda>_. revision_of source g v) (filter (\<lambda>r. is_revision source g r \<and> rv_entity r = row_entity v) rs)" for rs
    by (induction rs) auto
  show "entity_rows source g (?up rs) i = ((entity_rows source g rs)(row_entity v := v)) i"
  proof (cases "i = row_entity v")
    case True
    with assms show ?thesis by (cases "filter (\<lambda>r. is_revision source g r \<and> rv_entity r = row_entity v) rs")
        (auto simp: entity_rows_def own)
  next
    case False
    then show ?thesis by (simp add: entity_rows_def same)
  qed
qed

lemma save_step:
  assumes "is_registered source g d" "gs_saveEntity source g v d = (r, d')"
  shows "is_registered source g d' \<and> db_syncs d' = db_syncs d \<and>
    db_revisions d' = (if is_ok r then db_revisions d' else db_revisions d) \<and>
    entity_rows source g (db_revisions d') =
      (if is_ok r then (entity_rows source g (db_revisions d))(row_entity v := v) else entity_rows source g (db_revisions d))"
  using assms unfolding gs_saveEntity_def sync_requireEntity_def requireR_def
  by (cases "entity_id (row_entity v)"; cases "sync_safeCode (row_errorCode v)") (auto simp: thenA_def bindA_def liftA_def select_rows_def readA_def insert_row_def update_table_def returnA_def
      entity_rows_insert entity_rows_update split: sum.splits if_splits)

lemma status_step:
  assumes "is_registered source g d" "gs_setSourceStatus source g st e d = (r, d')"
  shows "is_registered source g d' \<and> sync_view source g d' =
    (if is_ok r then put_status (shown (mapped_status st)) (sync_view source g d) else sync_view source g d)"
proof -
  have "sync_kept (sync_row source g d)" using assms(1) by (simp add: is_registered_row)
  then have "sync_kept (r\<lparr>gs_state := a, gs_error := b\<rparr>)" if "r = sync_row source g d" for r a b
    using that by (simp add: sync_kept_def)
  note up = update_sync_rows [OF assms(1), of "\<lambda>r. r\<lparr>gs_state := a, gs_error := b\<rparr>" for a b, OF _ this [OF refl]]
  show ?thesis using assms up unfolding gs_setSourceStatus_def mapSourceState_def
    by (auto simp: thenA_def bindA_def liftA_def update_table_def returnA_def requireR_def sync_view_def put_status_def is_sync_def
        split: sum.splits if_splits)
qed

lemma schema_step:
  assumes "is_registered source g d" "gs_setSchemaState source g st e d = (r, d')"
  shows "is_registered source g d' \<and> sync_view source g d' = sync_view source g d"
proof -
  have "sync_kept (sync_row source g d)" using assms(1) by (simp add: is_registered_row)
  then have "sync_kept (r\<lparr>gs_schema := a, gs_error := b\<rparr>)" if "r = sync_row source g d" for r a b
    using that by (simp add: sync_kept_def)
  note up = update_sync_rows [OF assms(1), of "\<lambda>r. r\<lparr>gs_schema := a, gs_error := b\<rparr>" for a b, OF _ this [OF refl]]
  show ?thesis using assms up unfolding gs_setSchemaState_def
    by (auto simp: thenA_def bindA_def liftA_def update_table_def returnA_def requireR_def sync_view_def is_sync_def
        split: sum.splits if_splits)
qed

definition committed_row :: "int \<times> int \<Rightarrow> int \<Rightarrow> generation_sync_row \<Rightarrow> generation_sync_row" where
  "committed_row next' now r = r\<lparr>gs_catchup := Some next', gs_state := (if gs_state r = ''BOOTSTRAPPING'' then ''CATCHING_UP'' else gs_state r),
     gs_lastSuccess := Some now, gs_error := None\<rparr>"

lemma committed_simps [simp]:
  "is_sync source g (committed_row n now r) = is_sync source g r" "gs_catchup (committed_row n now r) = Some n"
  "shown (gs_state (committed_row n now r)) = shown (gs_state r)"
  by (simp_all add: committed_row_def is_sync_def shown_def)

text \<open>What a commit is: one row, a cursor that advances, and both writes or none\<close>

lemma commit_step:
  assumes "is_registered source g d" "gs_commitEvent source g c ro d = (r, d')"
  shows "(\<not> is_ok r \<and> d' = d) \<or>
    (\<exists>next' d1. r = Inr () \<and> sync_requireCursor c = Inr next' \<and> assertAdvances (sync_row source g d) next' = Inr () \<and>
      (case ro of None \<Rightarrow> d1 = d | Some v \<Rightarrow> gs_saveEntity source g v d = (Inr (), d1)) \<and>
      d' = d1\<lparr>db_syncs := update_rows (is_sync source g) (committed_row next' (db_now d1)) (db_syncs d1)\<rparr>)"
proof (cases r)
  case (Inl e)
  then have "d' = d" using assms(2) unfolding gs_commitEvent_def
    by (auto simp: bindA_def liftA_def split: sum.splits dest: transactionA_error)
  with Inl show ?thesis by simp
next
  case (Inr u)
  have one: "filter (is_sync source g) (db_syncs d) = [sync_row source g d]"
    using assms(1) by (simp add: is_registered_row sync_rows_def)
  from assms(2) Inr obtain next' d1 where n: "sync_requireCursor c = Inr next'" "assertAdvances (sync_row source g d) next' = Inr ()"
    and saved: "(case ro of None \<Rightarrow> returnA () | Some v \<Rightarrow> gs_saveEntity source g v) d = (Inr (), d1)"
    and d': "d' = d1\<lparr>db_syncs := update_rows (is_sync source g) (committed_row next' (db_now d1)) (db_syncs d1)\<rparr>"
    unfolding gs_commitEvent_def committed_row_def [abs_def]
    by (auto simp: bindA_Inr thenA_Inr transactionA_ok select_rows_Inr one_row_Inr one now_db_Inr update_table_Inr)
  from saved have "case ro of None \<Rightarrow> d1 = d | Some v \<Rightarrow> gs_saveEntity source g v d = (Inr (), d1)" by (cases ro) auto
  with n d' Inr show ?thesis by auto
qed

lemma saved_option:
  assumes "is_registered source g d" "case ro of None \<Rightarrow> d1 = d | Some v \<Rightarrow> gs_saveEntity source g v d = (Inr (), d1)"
  shows "is_registered source g d1" "db_syncs d1 = db_syncs d"
    "entity_rows source g (db_revisions d1) = v_rows (put_row_option ro (sync_view source g d))"
proof -
  have "is_registered source g d1 \<and> db_syncs d1 = db_syncs d \<and>
      entity_rows source g (db_revisions d1) = v_rows (put_row_option ro (sync_view source g d))"
  proof (cases ro)
    case None
    with assms show ?thesis by (simp add: sync_view_def)
  next
    case (Some v)
    with assms(2) save_step [OF assms(1), of v "Inr ()" d1] show ?thesis by (simp add: sync_view_def)
  qed
  then show "is_registered source g d1" "db_syncs d1 = db_syncs d"
    "entity_rows source g (db_revisions d1) = v_rows (put_row_option ro (sync_view source g d))" by simp_all
qed

lemma commit_view:
  assumes "is_registered source g d" "source_cursor source c" "gs_commitEvent source g c ro d = (r, d')"
  shows "is_registered source g d' \<and> sync_view source g d' =
    (if is_ok r then (put_cursor c \<circ> put_row_option ro) (sync_view source g d) else sync_view source g d)"
  using commit_step [OF assms(1,3)]
proof
  assume "\<not> is_ok r \<and> d' = d"
  then show ?thesis using assms(1) by simp
next
  assume "\<exists>next' d1. r = Inr () \<and> sync_requireCursor c = Inr next' \<and> assertAdvances (sync_row source g d) next' = Inr () \<and>
      (case ro of None \<Rightarrow> d1 = d | Some v \<Rightarrow> gs_saveEntity source g v d = (Inr (), d1)) \<and>
      d' = d1\<lparr>db_syncs := update_rows (is_sync source g) (committed_row next' (db_now d1)) (db_syncs d1)\<rparr>"
  then obtain next' d1 where r: "r = Inr ()" and n: "sync_requireCursor c = Inr next'"
    and ro: "case ro of None \<Rightarrow> d1 = d | Some v \<Rightarrow> gs_saveEntity source g v d = (Inr (), d1)"
    and d': "d' = d1\<lparr>db_syncs := update_rows (is_sync source g) (committed_row next' (db_now d1)) (db_syncs d1)\<rparr>" by blast
  note saved = saved_option [OF assms(1) ro]
  have printed: "sync_cursor source next' = c" "cursor_kept next'"
    using assms(2) n by (auto simp: source_cursor_def sync_requireCursor_def sync_cursor_def cursor_kept_def split: option.splits if_splits)
  then have kept: "sync_kept (committed_row next' now x)" for now x by (simp add: sync_kept_def)
  note up = update_sync_rows [OF saved(1), of "committed_row next' (db_now d1)", OF committed_simps(1) kept, folded d']
  have "sync_row source g d1 = sync_row source g d" using saved(2) by (simp add: sync_row_def sync_rows_def)
  moreover have "db_revisions d' = db_revisions d1" by (simp add: d')
  ultimately have "sync_view source g d' = (put_cursor c \<circ> put_row_option ro) (sync_view source g d)"
    using up(2) saved(3) printed(1) by (simp add: sync_view_def put_cursor_def put_row_option_def put_row_def split: option.splits)
  with up(1) r show ?thesis by simp
qed

lemma commit_forward:
  assumes "is_registered source g d" "source_cursor source c" "gs_commitEvent source g c ro d = (Inr u, d')"
  shows "follows second_less (v_cursor (sync_view source g d)) c"
proof -
  from commit_step [OF assms(1,3)] obtain next' where n: "sync_requireCursor c = Inr next'" "assertAdvances (sync_row source g d) next' = Inr ()"
    by auto
  from n(1) have t: "date_parse (cur_timestamp c) = Some (fst next')" "snd next' = cur_rcid c"
    by (auto simp: sync_requireCursor_def split: option.splits if_splits)
  with assms(2) have sec: "fst next' mod 1000 = 0" by (simp add: source_cursor_def)
  show ?thesis
  proof (cases "gs_catchup (sync_row source g d)")
    case None
    then show ?thesis by (simp add: follows_def sync_view_def)
  next
    case (Some old)
    with assms(1) have old: "date_parse (second_text (fst old)) = Some (fst old)"
      by (simp add: is_registered_row sync_kept_def cursor_kept_def)
    have "\<not> (fst next' < reparsed (fst old) \<or> fst next' = reparsed (fst old) \<and> snd next' \<le> snd old)"
      using n(2) Some by (simp add: assertAdvances_def)
    moreover have "fst next' = fst next' div 1000 * 1000" using sec div_mult_mod_eq [of "fst next'" 1000] by simp
    ultimately have "fst old div 1000 < fst next' div 1000 \<or> fst old div 1000 = fst next' div 1000 \<and> snd old < snd next'"
      unfolding reparsed_def by linarith
    then show ?thesis using Some old t by (simp add: follows_def sync_view_def second_less_def sync_cursor_def)
  qed
qed

interpretation postgres: sync_repository "postgres_ops source g" "postgres_view source g" second_less "source_cursor source"
    "\<lambda>st. shown (mapped_status st)"
  for source g
proof
  show "second_less a c" if "second_less a b" "second_less b c" for a b c
    using that by (auto simp: second_less_def split: option.splits)
  show "\<not> second_less a a" for a by (simp add: second_less_def split: option.split)
  show "keeps (postgres_view source g) (r_loadSource (postgres_ops source g))"
    unfolding postgres_ops_def repository_ops.simps
    by (rule registered_keeps) (auto simp: gs_loadSource_def bindA_def select_rows_def readA_def one_row_def returnA_def raiseA_def
        split: list.splits)
  show "src_cursor s = v_cursor (postgres_view source g w)" if "r_loadSource (postgres_ops source g) w = (Inr s, w')" for s w w'
    using that by (auto simp: postgres_ops_def on_registered_def gs_loadSource_def bindA_Inr select_rows_Inr one_row_Inr
        postgres_view_def sync_view_def sync_source_of_def sync_row_def sync_rows_def)
  show "keeps (postgres_view source g) (r_recordPoll (postgres_ops source g) t)" for t
    unfolding postgres_ops_def repository_ops.simps by (rule registered_keeps) (auto simp: gs_recordPoll_def)
  show "effect (postgres_view source g) (put_status (shown (mapped_status st))) (r_setSourceStatus (postgres_ops source g) st e)" for st e
    unfolding postgres_ops_def repository_ops.simps by (rule registered_effect) (rule status_step)
  show "keeps (postgres_view source g) (r_loadEntity (postgres_ops source g) i)" for i
    unfolding postgres_ops_def repository_ops.simps
    by (rule registered_keeps) (auto simp: gs_loadEntity_def thenA_def bindA_def liftA_def select_rows_def readA_def returnA_def split: sum.splits)
  show "row = v_rows (postgres_view source g w) i" if "r_loadEntity (postgres_ops source g) i w = (Inr row, w')" for i row w w'
    using that by (auto simp: postgres_ops_def on_registered_def gs_loadEntity_def thenA_Inr bindA_Inr select_rows_Inr
        postgres_view_def sync_view_def entity_rows_def)
  show "effect (postgres_view source g) (put_row v) (r_saveEntity (postgres_ops source g) v)" for v
    unfolding postgres_ops_def repository_ops.simps
  proof (rule registered_effect)
    fix d r d' assume "is_registered source g d" "gs_saveEntity source g v d = (r, d')"
    from save_step [OF this] show "is_registered source g d' \<and>
        sync_view source g d' = (if is_ok r then put_row v (sync_view source g d) else sync_view source g d)"
      by (auto simp: sync_view_def put_row_def sync_row_def sync_rows_def)
  qed
  show "effect (postgres_view source g) (put_cursor c \<circ> put_row_option ro) (r_commitEvent (postgres_ops source g) c ro)"
    if "source_cursor source c" for c ro
    unfolding postgres_ops_def repository_ops.simps by (rule registered_effect) (rule commit_view [OF _ that])
  show "follows second_less (v_cursor (postgres_view source g w)) c"
    if "source_cursor source c" "r_commitEvent (postgres_ops source g) c ro w = (Inr u, w')" for c ro w u w'
    using commit_forward [OF registered_ok that(1)] that(2) by (simp add: postgres_ops_def on_registered_def postgres_view_def)
  show "r_advanceCursor (postgres_ops source g) c = r_commitEvent (postgres_ops source g) c None" for c
    by (simp add: postgres_ops_def gs_advanceCursor_def)
  show "keeps (postgres_view source g) (reg iri k e)" if "r_registerGraph (postgres_ops source g) = Some reg" for reg iri k e
    using that unfolding postgres_ops_def repository_ops.simps option.inject
    by (auto intro!: registered_keeps simp: gs_registerGraph_def thenA_def bindA_def liftA_def select_rows_def readA_def modifyA_def
        update_table_def returnA_def split: sum.splits if_splits)
  show "keeps (postgres_view source g) (unreg iri)" if "r_unregisterGraph (postgres_ops source g) = Some unreg" for unreg iri
    using that unfolding postgres_ops_def repository_ops.simps option.inject
    by (auto intro!: registered_keeps simp: gs_unregisterGraph_def thenA_def bindA_def liftA_def modifyA_def split: sum.splits)
  show "keeps (postgres_view source g) (sch st)" if "r_setSchemaState (postgres_ops source g) = Some sch" for sch st
    using that unfolding postgres_ops_def repository_ops.simps option.inject
    by (auto intro!: registered_keeps dest: schema_step)
qed

section \<open>Commits\<close>

text \<open>C11: An event is committed as a whole and forwards.  A commit on a registered generation either fails
  and leaves the whole database as it was, or it stores the row of the entity and moves the cursor to
  the cursor of the event, which is later than the one that was stored; the rows of the other entities
  are as they were.\<close>

theorem generation_commit_forward:
  assumes "is_registered source g d" "source_cursor source c" "gs_commitEvent source g c ro d = (r, d')"
  shows "(\<not> is_ok r \<and> d' = d) \<or>
    (is_ok r \<and> is_registered source g d' \<and> v_cursor (sync_view source g d') = Some c \<and>
     follows second_less (v_cursor (sync_view source g d)) c \<and>
     (\<forall>i. v_rows (sync_view source g d') i =
       (case ro of None \<Rightarrow> v_rows (sync_view source g d) i
        | Some v \<Rightarrow> if i = row_entity v then v else v_rows (sync_view source g d) i)))"
proof (cases r)
  case (Inl e)
  with commit_step [OF assms(1,3)] show ?thesis by auto
next
  case (Inr u)
  have "follows second_less (v_cursor (sync_view source g d)) c"
    using assms(3) unfolding Inr by (rule commit_forward [OF assms(1,2)])
  with commit_view [OF assms] Inr show ?thesis by (auto split: option.split)
qed

lemma ingestion_forward:
  assumes "si_advanceCursor source c d = (Inr u, d')"
  shows "\<exists>r n. filter (\<lambda>r. sr_source r = source \<and> sr_legacy r \<noteq> ''UNREVIEWED'' \<and>
         (case sr_ingestion r of None \<Rightarrow> True | Some old \<Rightarrow> cursor_before old n)) (db_sources d) = [r] \<and>
      sync_requireCursor c = Inr n"
  using assms unfolding si_advanceCursor_def
  by (auto simp: bindA_Inr thenA_Inr update_table_Inr length_Suc_conv)

text \<open>A generation at one second, a commit at the next\<close>

definition sync_db :: control_db where
  "sync_db = empty_db\<lparr>db_syncs := [(blank_sync ''jwb'' ''gen-a'')\<lparr>gs_catchup := Some (1721908799000, 7)\<rparr>]\<rparr>"

definition next_cursor :: cursor where
  "next_cursor = \<lparr>cur_source = ''jwb'', cur_timestamp = ''2024-07-25T12:00:00Z'', cur_rcid = 8\<rparr>"

definition q1_row :: entity_row where
  "q1_row = (pending_row ''Q1'')\<lparr>row_indexed := 3, row_latestSeen := 3, row_status := ''CURRENT''\<rparr>"

theorem generation_commit_forward_witness:
  "v_cursor (sync_view ''jwb'' ''gen-a'' (snd (gs_commitEvent ''jwb'' ''gen-a'' next_cursor (Some q1_row) sync_db))) = Some next_cursor \<and>
   v_rows (sync_view ''jwb'' ''gen-a'' (snd (gs_commitEvent ''jwb'' ''gen-a'' next_cursor (Some q1_row) sync_db))) ''Q1'' = q1_row"
proof -
  have reg: "is_registered ''jwb'' ''gen-a'' sync_db" by code_simp
  have cur: "source_cursor ''jwb'' next_cursor" by code_simp
  have ok: "is_ok (fst (gs_commitEvent ''jwb'' ''gen-a'' next_cursor (Some q1_row) sync_db))" by code_simp
  obtain r d' where run: "gs_commitEvent ''jwb'' ''gen-a'' next_cursor (Some q1_row) sync_db = (r, d')"
    by (cases "gs_commitEvent ''jwb'' ''gen-a'' next_cursor (Some q1_row) sync_db")
  have "row_entity q1_row = ''Q1''" by (simp add: q1_row_def pending_row_def)
  with generation_commit_forward [OF reg cur run] ok run show ?thesis by auto
qed

lemma same_cursor_refused:
  "fst (gs_commitEvent ''jwb'' ''gen-a'' (next_cursor\<lparr>cur_timestamp := ''2024-07-25T11:59:59Z'', cur_rcid := 7\<rparr>) None sync_db) =
     Inl ''CURSOR_REGRESSION''"
  by code_simp

end
