(* ===== verification/UrlParams.thy ===== *)
theory UrlParams
  imports RuntimeConfig
begin

text \<open>
  What the HTTP clients of the program use of the platform's URLs and headers: the search
  parameters of a URL (\<open>url.searchParams.append\<close> and \<open>.set\<close>, with the
  \<open>application/x-www-form-urlencoded\<close> text they read and write), the length of a text in bytes and
  the merging of header objects (\<open>{...a, ...b}\<close>).  Texts are lists of 8-bit characters and go to
  their UTF-8 bytes; the query of a configured address is taken to hold valid UTF-8.
\<close>

section \<open>Bytes\<close>

definition utf8_char :: "char \<Rightarrow> string" where
  "utf8_char c = (let n = of_char c :: nat in
     if n < 128 then [c] else [char_of (192 + n div 64), char_of (128 + n mod 64)])"

definition utf8 :: "string \<Rightarrow> string" where
  "utf8 s = concat (map utf8_char s)"

definition byteLength :: "string \<Rightarrow> nat" where
  "byteLength s = length (utf8 s)"

lemma byteLength_bounds: "length s \<le> byteLength s \<and> byteLength s \<le> 2 * length s"
  by (induction s) (auto simp: byteLength_def utf8_def utf8_char_def Let_def)

section \<open>Form encoding\<close>

definition form_plain :: "char \<Rightarrow> bool" where
  "form_plain c \<longleftrightarrow> is_digit c \<or> is_lower c \<or> is_upper c \<or> List.member ''*-._'' c"

definition upper_hex :: "nat \<Rightarrow> char" where
  "upper_hex n = (if n < 10 then char_of (48 + n) else char_of (55 + n))"

definition form_byte :: "char \<Rightarrow> string" where
  "form_byte c =
     (if c = CHR '' '' then ''+''
      else if form_plain c then [c]
      else (let n = of_char c :: nat in [CHR ''%'', upper_hex (n div 16), upper_hex (n mod 16)]))"

definition form_encode :: "string \<Rightarrow> string" where
  "form_encode bytes = concat (map form_byte bytes)"

definition hex_value :: "char \<Rightarrow> nat option" where
  "hex_value c = (let n = of_char c :: nat in
     if 48 \<le> n \<and> n \<le> 57 then Some (n - 48)
     else if 65 \<le> n \<and> n \<le> 70 then Some (n - 55)
     else if 97 \<le> n \<and> n \<le> 102 then Some (n - 87)
     else None)"

fun form_decode :: "string \<Rightarrow> string" where
  "form_decode [] = []"
| "form_decode (c # s) =
     (if c = CHR ''+'' then CHR '' '' # form_decode s
      else if c = CHR ''%'' then
        (case s of
           a # b # rest \<Rightarrow>
             (case (hex_value a, hex_value b) of
                (Some x, Some y) \<Rightarrow> char_of (16 * x + y) # form_decode rest
              | _ \<Rightarrow> c # form_decode s)
         | _ \<Rightarrow> c # form_decode s)
      else c # form_decode s)"

text \<open>The list of parameters behind a query text, and back\<close>

definition read_pair :: "string \<Rightarrow> string \<times> string" where
  "read_pair piece =
     (form_decode (takeWhile (\<lambda>c. c \<noteq> CHR ''='') piece),
      form_decode (tl (dropWhile (\<lambda>c. c \<noteq> CHR ''='') piece)))"

definition read_params :: "string \<Rightarrow> (string \<times> string) list" where
  "read_params query = map read_pair (filter (\<lambda>p. p \<noteq> []) (split_on CHR ''&'' query))"

definition write_pair :: "string \<times> string \<Rightarrow> string" where
  "write_pair p = form_encode (fst p) @ ''='' @ form_encode (snd p)"

definition write_params :: "(string \<times> string) list \<Rightarrow> string" where
  "write_params ps = join ''&'' (map write_pair ps)"

section \<open>The parameters of a URL\<close>

text \<open>The parts of the text of a URL: before the query, the query, and the fragment with its \<open>#\<close>\<close>

definition href_base :: "string \<Rightarrow> string" where
  "href_base href = takeWhile (\<lambda>c. c \<noteq> CHR ''?'' \<and> c \<noteq> CHR ''#'') href"

definition href_hash :: "string \<Rightarrow> string" where
  "href_hash href = dropWhile (\<lambda>c. c \<noteq> CHR ''#'') href"

definition href_query :: "string \<Rightarrow> string" where
  "href_query href =
     tl (dropWhile (\<lambda>c. c \<noteq> CHR ''?'') (takeWhile (\<lambda>c. c \<noteq> CHR ''#'') href))"

definition with_params :: "string \<Rightarrow> (string \<times> string) list \<Rightarrow> string" where
  "with_params href ps =
     href_base href @ (if ps = [] then [] else ''?'' @ write_params ps) @ href_hash href"

definition append_param :: "string \<Rightarrow> string \<Rightarrow> string \<Rightarrow> string" where
  "append_param name v href =
     with_params href (read_params (href_query href) @ [(utf8 name, utf8 v)])"

text \<open>\<open>set\<close> replaces the first parameter of the name and drops the others.\<close>

fun set_pair :: "string \<Rightarrow> string \<Rightarrow> (string \<times> string) list \<Rightarrow> (string \<times> string) list" where
  "set_pair n v [] = [(n, v)]"
| "set_pair n v (p # ps) =
     (if fst p = n then (n, v) # filter (\<lambda>q. fst q \<noteq> n) ps else p # set_pair n v ps)"

definition set_param :: "string \<Rightarrow> string \<Rightarrow> string \<Rightarrow> string" where
  "set_param name v href =
     with_params href (set_pair (utf8 name) (utf8 v) (read_params (href_query href)))"

section \<open>Header objects\<close>

text \<open>\<open>{...a, ...b}\<close>: a property of both keeps its place and takes the value of \<open>b\<close>.\<close>

definition spread :: "(string \<times> 'v) list \<Rightarrow> (string \<times> 'v) list \<Rightarrow> (string \<times> 'v) list" where
  "spread a b =
     map (\<lambda>(k, v). (k, case map_of b k of None \<Rightarrow> v | Some w \<Rightarrow> w)) a @
     filter (\<lambda>(k, _). map_of a k = None) b"

lemma map_of_spread: "map_of (spread a b) k = (case map_of b k of None \<Rightarrow> map_of a k | Some v \<Rightarrow> Some v)"
proof -
  have 1: "map_of (map (\<lambda>(k, v). (k, case map_of b k of None \<Rightarrow> v | Some w \<Rightarrow> w)) a) k =
      map_option (\<lambda>v. case map_of b k of None \<Rightarrow> v | Some w \<Rightarrow> w) (map_of a k)"
    by (induction a) (auto split: option.splits)
  have 2: "map_of (filter (\<lambda>(k, _). map_of a k = None) b) k = (if map_of a k = None then map_of b k else None)"
    by (induction b) auto
  show ?thesis by (cases "map_of a k") (auto simp: spread_def map_add_def 1 2 split: option.splits)
qed

section \<open>What was written is read back\<close>

lemma code_unit_bound: "(of_char c :: nat) < 256"
proof -
  have "of_char c = of_char c mod (256 :: nat)" by (rule of_char_mod_256 [symmetric])
  then show ?thesis by (metis mod_less_divisor zero_less_numeral)
qed

lemma code_unit_div: "(of_char c :: nat) div 16 < 16"
  using code_unit_bound [of c] by (intro less_mult_imp_div_less) simp

lemma hex_upper: "n < 16 \<Longrightarrow> hex_value (upper_hex n) = Some n"
  by (auto simp: hex_value_def upper_hex_def Let_def)

lemma form_byte_decode: "form_decode (form_byte c @ s) = c # form_decode s"
proof -
  have 1: "form_plain c \<Longrightarrow> c \<noteq> CHR ''+'' \<and> c \<noteq> CHR ''%''"
    by (auto simp: form_plain_def is_digit_def is_lower_def is_upper_def between_def)
  have 2: "hex_value (upper_hex (of_char c div 16)) = Some (of_char c div 16)"
    "hex_value (upper_hex (of_char c mod 16)) = Some (of_char c mod 16)"
    by (simp_all add: hex_upper code_unit_div)
  show ?thesis
    using 1 2 by (auto simp: form_byte_def Let_def)
qed

lemma form_roundtrip [simp]: "form_decode (form_encode s) = s"
  by (induction s) (simp_all add: form_encode_def form_byte_decode)

lemma form_byte_chars: "x \<in> set (form_byte c) \<Longrightarrow> form_plain x \<or> x = CHR ''+'' \<or> x = CHR ''%''"
proof -
  have h: "n < 16 \<Longrightarrow> form_plain (upper_hex n)" for n
  proof -
    assume "n < 16"
    then have "n \<in> {0..<16}" by simp
    moreover have "\<forall>n \<in> {0..<16}. form_plain (upper_hex n)" by code_simp
    ultimately show ?thesis by blast
  qed
  then have "form_plain (upper_hex (of_char c div 16))" "form_plain (upper_hex (of_char c mod 16))"
    by (simp_all add: h code_unit_div)
  then show "x \<in> set (form_byte c) \<Longrightarrow> form_plain x \<or> x = CHR ''+'' \<or> x = CHR ''%''"
    by (auto simp: form_byte_def Let_def split: if_splits)
qed

lemma form_encode_chars:
  "x \<in> set (form_encode s) \<Longrightarrow> x \<noteq> CHR ''='' \<and> x \<noteq> CHR ''&'' \<and> x \<noteq> CHR ''#'' \<and> x \<noteq> CHR ''?''"
proof -
  assume "x \<in> set (form_encode s)"
  then have "form_plain x \<or> x = CHR ''+'' \<or> x = CHR ''%''"
    by (auto simp: form_encode_def dest: form_byte_chars)
  then show ?thesis
    by (auto simp: form_plain_def is_digit_def is_lower_def is_upper_def between_def)
qed

lemma pair_roundtrip: "read_pair (write_pair p) = p"
proof -
  have "CHR ''='' \<notin> set (form_encode (fst p))" using form_encode_chars by blast
  then have "takeWhile (\<lambda>c. c \<noteq> CHR ''='') (write_pair p) = form_encode (fst p)"
    "dropWhile (\<lambda>c. c \<noteq> CHR ''='') (write_pair p) = CHR ''='' # form_encode (snd p)"
    unfolding write_pair_def by (subst takeWhile_append2 dropWhile_append2; auto)+
  then show ?thesis by (simp add: read_pair_def)
qed

lemma write_pair_chars: "CHR ''&'' \<notin> set (write_pair p) \<and> CHR ''#'' \<notin> set (write_pair p)"
  using form_encode_chars by (fastforce simp: write_pair_def)

lemma params_roundtrip [simp]: "read_params (write_params ps) = ps"
proof (cases "ps = []")
  case False
  have "split_on CHR ''&'' (write_params ps) = map write_pair ps"
    unfolding write_params_def using False write_pair_chars by (intro split_on_join) auto
  moreover have "filter (\<lambda>p. p \<noteq> []) (map write_pair ps) = map write_pair ps"
    by (auto simp: write_pair_def intro!: filter_True)
  ultimately show ?thesis by (simp add: read_params_def o_def pair_roundtrip)
qed (simp add: write_params_def read_params_def)

end
