(* ===== verification/QueryPolicy.thy ===== *)
theory QueryPolicy
  imports UrlParams
begin

text \<open>
  \<open>apps/query-router/src/query-policy.js\<close>: what a public query may contain.  The text is stripped of
  comments, strings and IRIs by an automaton over its characters, and the words of what remains are
  compared with the words of the update and federation keywords.
\<close>

definition QUERY_FORMS :: "string list" where
  "QUERY_FORMS = [''SELECT'', ''ASK'', ''CONSTRUCT'', ''DESCRIBE'']"

definition FORBIDDEN :: "string list" where
  "FORBIDDEN = [''INSERT'', ''DELETE'', ''LOAD'', ''CLEAR'', ''CREATE'', ''DROP'', ''COPY'', ''MOVE'', ''ADD'',
     ''WITH'', ''SERVICE'']"

datatype strip_mode = Code | Comment | Quoted | Iri

text \<open>A backslash in a string skips the next character; after two single quotes the second is skipped.\<close>

fun strip_from :: "strip_mode \<Rightarrow> string \<Rightarrow> string" where
  "strip_from mode [] = []"
| "strip_from Comment (c # s) = (if c = LF then LF # strip_from Code s else strip_from Comment s)"
| "strip_from Quoted (c # s) =
     (if c = CHR 0x5C then (case s of [] \<Rightarrow> [] | _ # t \<Rightarrow> strip_from Quoted t)
      else if c = CHR 0x22 then strip_from Code s else strip_from Quoted s)"
| "strip_from Iri (c # s) = (if c = CHR ''>'' then strip_from Code s else strip_from Iri s)"
| "strip_from Code (c # s) =
     (if c = CHR ''#'' then strip_from Comment s
      else if c = CHR 0x22 then strip_from Quoted s
      else if c = CHR ''<'' then strip_from Iri s
      else c # (case s of
          n # t \<Rightarrow> if c = CHR 0x27 \<and> n = CHR 0x27 then strip_from Code t else strip_from Code s
        | [] \<Rightarrow> []))"

definition strip :: "string \<Rightarrow> string" where
  "strip s = strip_from Code s"

text \<open>\<open>toUpperCase\<close>: the two code units whose capital is not an 8-bit one stay, which changes no word.\<close>

definition latin_lower :: "nat \<Rightarrow> bool" where
  "latin_lower n \<longleftrightarrow> 97 \<le> n \<and> n \<le> 122 \<or> 224 \<le> n \<and> n \<le> 254 \<and> n \<noteq> 247"

definition upper_of :: "char \<Rightarrow> string" where
  "upper_of c = (let n = of_char c :: nat in
     if n = 223 then ''SS'' else if latin_lower n then [char_of (n - 32)] else [c])"

definition toUpperCase :: "string \<Rightarrow> string" where
  "toUpperCase s = concat (map upper_of s)"

text \<open>\<open>match(/[A-Z_]+/gu)\<close>: the longest runs of such characters\<close>

definition word_char :: "char \<Rightarrow> bool" where
  "word_char c \<longleftrightarrow> is_upper c \<or> c = CHR ''_''"

function words :: "string \<Rightarrow> string list" where
  "words [] = []"
| "words (c # s) =
     (if word_char c then (c # takeWhile word_char s) # words (dropWhile word_char s) else words s)"
  by pat_completeness auto
termination
  by (relation "measure length") (auto intro: le_imp_less_Suc length_dropWhile_le)

definition query_tokens :: "string \<Rightarrow> string list" where
  "query_tokens sparql = words (toUpperCase (strip sparql))"

text \<open>The loop over a leading prologue moves an index that nothing reads; it is left out.\<close>

definition validateReadOnlySparql :: "string \<Rightarrow> int \<Rightarrow> string result" where
  "validateReadOnlySparql sparql maxBytes =
     (if int (byteLength sparql) > maxBytes \<or> trim sparql = [] then Inl ''QUERY_SIZE_INVALID''
      else let tokens = query_tokens sparql in
      if list_ex (List.member FORBIDDEN) tokens then Inl ''QUERY_OPERATION_FORBIDDEN''
      else if \<not> list_ex (List.member QUERY_FORMS) tokens then Inl ''QUERY_FORM_INVALID''
      else Inr sparql)"

definition plain_char :: "char \<Rightarrow> bool" where
  "plain_char c \<longleftrightarrow> c \<noteq> CHR ''#'' \<and> c \<noteq> CHR 0x22 \<and> c \<noteq> CHR ''<'' \<and> c \<noteq> CHR 0x27"

lemma strip_plain: "list_all plain_char s \<Longrightarrow> strip_from Code s = s"
proof (induction s)
  case (Cons c s)
  then have "strip_from Code s = s" "plain_char c" by auto
  then show ?case by (cases s) (auto simp: plain_char_def)
qed simp

text \<open>A text without comments, quotes and IRIs is judged by all of its words: the policy accepts it only
  when none of them, in whatever case, is one of the forbidden ones.\<close>

lemma plain_query_policy:
  assumes "validateReadOnlySparql s n = Inr t"
    "list_all plain_char s"
  shows "t = s \<and> int (byteLength s) \<le> n \<and> (\<forall>w \<in> set (words (toUpperCase s)). \<not> List.member FORBIDDEN w) \<and>
    (\<exists>w \<in> set (words (toUpperCase s)). List.member QUERY_FORMS w)"
  using assms(1) strip_plain [OF assms(2)]
  by (auto simp: validateReadOnlySparql_def Let_def query_tokens_def strip_def list_ex_iff split: if_splits)

text \<open>The sign of a comparison is taken for the start of an IRI, so what follows it up to the next
  \<open>>\<close> is not looked at: the keyword of a federated query passes.  A keyword in a string between single
  quotes, on the other hand, is refused.\<close>

definition comparison_query :: string where
  "comparison_query = ''SELECT * { ?s ?p ?x FILTER(?x < 5) SERVICE <http://h/> { ?a ?b ?c } }''"

lemma comparison_hides_service: "validateReadOnlySparql comparison_query 65536 = Inr comparison_query"
  by code_simp

lemma service_refused:
  "validateReadOnlySparql ''SELECT * { SERVICE <http://h/> { ?a ?b ?c } }'' 65536 = Inl ''QUERY_OPERATION_FORBIDDEN''"
  by code_simp

lemma single_quoted_word_refused:
  "validateReadOnlySparql (''ASK { ?s ?p '' @ [CHR 0x27] @ ''load'' @ [CHR 0x27] @ '' }'') 65536 =
     Inl ''QUERY_OPERATION_FORBIDDEN''"
  by code_simp

lemma form_anywhere_accepted: "validateReadOnlySparql ''HELLO ASK'' 65536 = Inr ''HELLO ASK''"
  by code_simp

end
