(* ===== verification/GenerationResolver.thy ===== *)
theory GenerationResolver
  imports UrlParams JsValue ServingPointer Normalizer
begin

text \<open>
  \<open>apps/query-router/src/generation-resolver.js\<close>: from a serving pointer, through the row of the
  generation registry, to the address of the data plane; and
  \<open>packages/rdf-sync/src/generation-descriptor.js\<close>, the check of a descriptor that comes with its
  endpoints.  Both read untyped objects.
\<close>

section \<open>The registry's descriptor\<close>

definition RESOLVER_BACKENDS :: "string list" where
  "RESOLVER_BACKENDS = [''virtuoso'', ''oxigraph'', ''fuseki-tdb2'']"

definition RESOLVER_RUNTIMES :: "string list" where
  "RESOLVER_RUNTIMES = [''kubernetes'', ''compose'', ''standalone-compose'']"

record data_plane =
  dp_queryUrl :: string
  dp_healthUrl :: string
  dp_allowedHostname :: string

record registry_descriptor =
  rd_sourceIdentity :: jsval
  rd_generationId :: jsval
  rd_backendType :: jsval
  rd_state :: jsval
  rd_protectionState :: jsval
  rd_normalizationModel :: jsval
  rd_partitionModel :: jsval
  rd_runtimeType :: jsval
  rd_namespace :: jsval

text \<open>\<open>v.a ?? v.b\<close>\<close>

definition either_prop :: "jsval \<Rightarrow> string \<Rightarrow> string \<Rightarrow> jsval" where
  "either_prop v a b = (if is_nullish (js_prop v a) then js_prop v b else js_prop v a)"

definition registry_normalize :: "jsval \<Rightarrow> registry_descriptor option" where
  "registry_normalize v =
     (if \<not> js_truthy v then None
      else Some \<lparr>rd_sourceIdentity = either_prop v ''sourceIdentity'' ''source_identity'',
        rd_generationId = either_prop v ''generationId'' ''generation_id'',
        rd_backendType = either_prop v ''backendType'' ''backend_type'',
        rd_state = js_prop v ''state'',
        rd_protectionState = either_prop v ''protectionState'' ''protection_state'',
        rd_normalizationModel = either_prop v ''normalizationModel'' ''normalization_model'',
        rd_partitionModel = either_prop v ''partitionModel'' ''partition_model'',
        rd_runtimeType = either_prop v ''runtimeType'' ''runtime_type'',
        rd_namespace = either_prop v ''namespace'' ''runtime_namespace''\<rparr>)"

definition routableLifecycle :: "registry_descriptor \<Rightarrow> bool" where
  "routableLifecycle d \<longleftrightarrow>
     rd_state d = JStr ''READY'' \<and> rd_protectionState d = JStr ''NONE'' \<or>
     rd_state d = JStr ''SERVING'' \<and> rd_protectionState d = JStr ''SERVING'' \<or>
     rd_state d = JStr ''RETIRING'' \<and> rd_protectionState d = JStr ''ROLLBACK''"

text \<open>\<open>Set.has\<close> of a set of strings\<close>

definition set_has :: "string list \<Rightarrow> jsval \<Rightarrow> bool" where
  "set_has names v = (case v of JStr s \<Rightarrow> List.member names s | _ \<Rightarrow> False)"

definition acceptable :: "registry_descriptor \<Rightarrow> string \<Rightarrow> string \<Rightarrow> bool" where
  "acceptable d expectedSourceIdentity runtimeType \<longleftrightarrow>
     (let storedRuntime = (if runtimeType = ''standalone-compose'' then ''compose'' else runtimeType) in
      rd_sourceIdentity d = JStr expectedSourceIdentity \<and>
      source_identity (js_string (rd_sourceIdentity d)) \<and>
      generation_id (js_string (rd_generationId d)) \<and>
      set_has RESOLVER_BACKENDS (rd_backendType d) \<and>
      rd_runtimeType d = JStr storedRuntime \<and>
      rd_normalizationModel d = JStr ''jwb-rdf-normalization-v1'' \<and>
      rd_partitionModel d = JStr ''jwb-partition-v1'' \<and>
      routableLifecycle d)"

section \<open>The address\<close>

definition UNRESOLVABLE :: string where
  "UNRESOLVABLE = ''ROUTER_TARGET_UNRESOLVABLE''"

text \<open>The profile of a backend type: short name, port, path\<close>

definition resolver_profile :: "string \<Rightarrow> string \<times> string \<times> string" where
  "resolver_profile backend =
     (if backend = ''virtuoso'' then (''virtuoso'', ''8890'', ''/sparql'')
      else if backend = ''oxigraph'' then (''oxigraph'', ''7878'', ''/query'')
      else (''fuseki'', ''3030'', ''/jwb/query''))"

definition standalone_plane :: "string \<Rightarrow> string \<Rightarrow> data_plane" where
  "standalone_plane generationId backendType =
     (case resolver_profile backendType of (_, port, path) \<Rightarrow>
      let service = (if generationId = ''gen-a'' then ''backend-a'' else ''backend-b'');
          u = ''http://'' @ service @ '':'' @ port @ path
      in \<lparr>dp_queryUrl = u, dp_healthUrl = u, dp_allowedHostname = service\<rparr>)"

definition kubernetes_host :: "string \<Rightarrow> string \<Rightarrow> string" where
  "kubernetes_host generationId backendType =
     ''rdf-'' @ fst (resolver_profile backendType) @ ''-'' @ generationId @ ''.jwb-query-local.svc.cluster.local''"

definition kubernetes_plane :: "string \<Rightarrow> string \<Rightarrow> data_plane" where
  "kubernetes_plane generationId backendType =
     (case resolver_profile backendType of (_, port, path) \<Rightarrow>
      let host = kubernetes_host generationId backendType;
          u = ''http://'' @ host @ '':'' @ port @ path
      in \<lparr>dp_queryUrl = u, dp_healthUrl = u, dp_allowedHostname = host\<rparr>)"

definition deriveTarget :: "jsval \<Rightarrow> string \<Rightarrow> string \<Rightarrow> data_plane result" where
  "deriveTarget v expectedSourceIdentity runtimeType =
     (case registry_normalize v of
        None \<Rightarrow> Inl UNRESOLVABLE
      | Some d \<Rightarrow>
          let id = js_string (rd_generationId d); backend = js_string (rd_backendType d) in
          if \<not> acceptable d expectedSourceIdentity runtimeType then Inl UNRESOLVABLE
          else if runtimeType = ''standalone-compose'' then
            (if rd_runtimeType d \<noteq> JStr ''compose'' \<or> \<not> set_has [''gen-a'', ''gen-b''] (rd_generationId d)
             then Inl UNRESOLVABLE else Inr (standalone_plane id backend))
          else if runtimeType \<noteq> ''kubernetes'' then Inl UNRESOLVABLE
          else if rd_namespace d \<noteq> JStr ''jwb-query-local'' then Inl UNRESOLVABLE
          else Inr (kubernetes_plane id backend))"

section \<open>The resolver and its cache\<close>

definition validatePointer :: "pointer_value \<Rightarrow> unit result" where
  "validatePointer p = requireR
     (source_identity (pv_sourceIdentity p) \<and> generation_id (pv_generationId p) \<and> pv_version p \<ge> 1) UNRESOLVABLE"

text \<open>The constructor's check; \<open>present\<close> is the truth of the repository that is passed.\<close>

definition new_resolver :: "bool \<Rightarrow> string \<Rightarrow> unit result" where
  "new_resolver present runtimeType =
     requireR (present \<and> List.member RESOLVER_RUNTIMES runtimeType) ''invalid generation resolver configuration''"

record resolver_cache =
  rc_pointerVersion :: int
  rc_generationId :: string
  rc_target :: data_plane

text \<open>The state is the world of the repository and the cache; \<open>lookup\<close> is \<open>getDescriptor\<close>.\<close>

type_synonym 'w descriptor_lookup = "string \<Rightarrow> string \<Rightarrow> ('w, jsval) action"

definition resolver_hit :: "pointer_value \<Rightarrow> resolver_cache option \<Rightarrow> data_plane option" where
  "resolver_hit p c = (case c of
     Some e \<Rightarrow> if rc_pointerVersion e = pv_version p \<and> rc_generationId e = pv_generationId p
       then Some (rc_target e) else None
   | None \<Rightarrow> None)"

definition resolve :: "'w descriptor_lookup \<Rightarrow> string \<Rightarrow> pointer_value \<Rightarrow> ('w \<times> resolver_cache option, data_plane) action" where
  "resolve lookup runtimeType p =
     bindA (liftA (validatePointer p)) (\<lambda>_.
     bindA (readA snd) (\<lambda>cache.
     case resolver_hit p cache of
       Some t \<Rightarrow> returnA t
     | None \<Rightarrow>
       bindA (on_fst (lookup (pv_sourceIdentity p) (pv_generationId p))) (\<lambda>descriptor.
       bindA (liftA (deriveTarget descriptor (pv_sourceIdentity p) runtimeType)) (\<lambda>target.
       thenA (modifyA (\<lambda>s. (fst s, Some \<lparr>rc_pointerVersion = pv_version p, rc_generationId = pv_generationId p, rc_target = target\<rparr>)))
         (returnA target)))))"

text \<open>A column of the result row; \<open>NULL\<close> is \<open>null\<close>.\<close>

definition column_of :: "string option \<Rightarrow> jsval" where
  "column_of v = (case v of None \<Rightarrow> JNull | Some s \<Rightarrow> JStr s)"

definition descriptor_row :: "generation_row \<Rightarrow> jsval" where
  "descriptor_row g = JObj [(''source_identity'', JStr (gr_source g)), (''generation_id'', JStr (gr_id g)),
     (''backend_type'', JStr (gr_backend g)), (''state'', JStr (gr_state g)), (''protection_state'', JStr (gr_protection g)),
     (''normalization_model'', column_of (gr_normalization g)), (''partition_model'', JStr (gr_partition g)),
     (''runtime_type'', column_of (gr_runtime g)), (''runtime_namespace'', column_of (gr_namespace g))]"

definition getDescriptor :: "control_db descriptor_lookup" where
  "getDescriptor source g =
     bindA (liftA (requireR (source_identity source \<and> generation_id g) UNRESOLVABLE)) (\<lambda>_.
     bindA (select_rows db_generations (\<lambda>r. gr_source r = source \<and> gr_id r = g)) (\<lambda>rows.
     bindA (one_row UNRESOLVABLE rows) (\<lambda>r. returnA (descriptor_row r))))"

section \<open>Descriptors with endpoints\<close>

record generation_endpoint =
  ge_url :: string
  ge_access :: string

record generation_descriptor =
  gd_generationId :: string
  gd_sourceIdentity :: string
  gd_backendType :: string
  gd_normalizationModel :: string
  gd_partitionModel :: string
  gd_queryEndpoint :: generation_endpoint
  gd_internalUpdateEndpoint :: generation_endpoint

text \<open>\<open>/^rdf-(?:virtuoso|oxigraph|fuseki)-gen-(?:a|b)\.jwb-query-local\.svc\.cluster\.local$/u\<close>\<close>

definition FIXED_KUBERNETES_HOST :: rx where
  "FIXED_KUBERNETES_HOST = Cats [Lit ''rdf-'', Alts [Lit ''virtuoso'', Lit ''oxigraph'', Lit ''fuseki''], Lit ''-gen-'',
     OneOf ''ab'', Lit ''.jwb-query-local.svc.cluster.local'']"

definition endpoint_host_ok :: "string \<Rightarrow> bool" where
  "endpoint_host_ok host \<longleftrightarrow> host = ''127.0.0.1'' \<or> rx_test FIXED_KUBERNETES_HOST host \<or>
     List.member [''backend-a'', ''backend-b''] host"

text \<open>\<open>typeof v === 'object'\<close> of a value that is not null\<close>

definition js_is_object :: "jsval \<Rightarrow> bool" where
  "js_is_object v = (case v of JObj _ \<Rightarrow> True | JArr _ \<Rightarrow> True | _ \<Rightarrow> False)"

definition generation_endpoint_of :: "url_parser \<Rightarrow> jsval \<Rightarrow> string \<Rightarrow> generation_endpoint result" where
  "generation_endpoint_of parse v access =
     (if \<not> js_is_object v \<or> js_prop v ''access'' \<noteq> JStr access then Inl ''invalid generation endpoint descriptor''
      else bindR (new_URL parse (js_string (js_prop v ''url''))) (\<lambda>u.
        if ul_protocol u \<noteq> ''http:'' \<or> \<not> endpoint_host_ok (ul_hostname u) \<or> ul_username u \<noteq> [] \<or> ul_password u \<noteq> []
        then Inl ''generation endpoint must be local''
        else Inr \<lparr>ge_url = ul_href u, ge_access = access\<rparr>))"

definition validateGenerationDescriptor :: "url_parser \<Rightarrow> jsval \<Rightarrow> generation_descriptor result" where
  "validateGenerationDescriptor parse v =
     (case v of JObj _ \<Rightarrow>
        if \<not> generation_id (js_string (js_prop v ''generationId'')) then Inl ''invalid generation ID''
        else if \<not> source_identity (js_string (js_prop v ''sourceIdentity'')) then Inl ''invalid source identity''
        else if \<not> List.member RESOLVER_BACKENDS (js_string (js_prop v ''backendType'')) then Inl ''invalid generation backend''
        else if js_prop v ''partitionModel'' \<noteq> JStr ''jwb-partition-v1'' then Inl ''unsupported RDF partition model''
        else if js_prop v ''normalizationModel'' \<noteq> JStr JWB_RDF_NORMALIZATION_MODEL
        then Inl ''unsupported RDF normalization model''
        else bindR (generation_endpoint_of parse (js_prop v ''queryEndpoint'') ''internal-read'') (\<lambda>queryEndpoint.
          bindR (generation_endpoint_of parse (js_prop v ''internalUpdateEndpoint'') ''internal-write'') (\<lambda>updateEndpoint.
          Inr \<lparr>gd_generationId = js_string (js_prop v ''generationId''),
            gd_sourceIdentity = js_string (js_prop v ''sourceIdentity''),
            gd_backendType = js_string (js_prop v ''backendType''),
            gd_normalizationModel = JWB_RDF_NORMALIZATION_MODEL, gd_partitionModel = ''jwb-partition-v1'',
            gd_queryEndpoint = queryEndpoint, gd_internalUpdateEndpoint = updateEndpoint\<rparr>))
      | _ \<Rightarrow> Inl ''generation descriptor must be an object'')"


section \<open>Where a pointer can lead\<close>

lemma set_has_JStr: "set_has names v \<Longrightarrow> \<exists>s. v = JStr s \<and> List.member names s"
  by (cases v) (auto simp: set_has_def)

text \<open>What an accepted descriptor says: the serving registry row it stands for\<close>

lemma derived_descriptor:
  assumes "deriveTarget v source runtimeType = Inr t"
  shows "\<exists>d b. registry_normalize v = Some d \<and> routableLifecycle d \<and> rd_sourceIdentity d = JStr source \<and>
    rd_backendType d = JStr b \<and> List.member RESOLVER_BACKENDS b \<and> generation_id (js_string (rd_generationId d)) \<and>
    t = (if runtimeType = ''standalone-compose'' then standalone_plane (js_string (rd_generationId d)) b
         else kubernetes_plane (js_string (rd_generationId d)) b)"
proof (cases "registry_normalize v")
  case (Some d)
  with assms have a: "acceptable d source runtimeType"
    by (auto simp: deriveTarget_def Let_def split: if_splits)
  then obtain b where b: "rd_backendType d = JStr b" "List.member RESOLVER_BACKENDS b"
    by (auto simp: acceptable_def Let_def dest: set_has_JStr)
  from assms Some a have
    "t = (if runtimeType = ''standalone-compose'' then standalone_plane (js_string (rd_generationId d)) b
         else kubernetes_plane (js_string (rd_generationId d)) b)"
    by (auto simp: deriveTarget_def Let_def b(1) split: if_splits)
  with Some a b show ?thesis by (auto simp: acceptable_def Let_def)
qed (use assms in \<open>simp add: deriveTarget_def\<close>)

lemma profile_names: "fst (resolver_profile b) = ''virtuoso'' \<or> fst (resolver_profile b) = ''oxigraph'' \<or> fst (resolver_profile b) = ''fuseki''"
  by (simp add: resolver_profile_def)

text \<open>Two generations never share a service of the cluster: the host name determines the generation.\<close>

lemma kubernetes_host_inject:
  assumes "generation_id g" "generation_id g'" "kubernetes_host g b = kubernetes_host g' b'"
  shows "g = g'"
proof -
  obtain x y where "g = ''gen-'' @ x" "g' = ''gen-'' @ y"
    using assms(1,2) by (auto simp: generation_id_iff)
  with assms(3) profile_names [of b] profile_names [of b'] show ?thesis
    unfolding kubernetes_host_def by (elim disjE) auto
qed

text \<open>A pointer leads to the data plane of its own generation, and only there.  Whatever objects the
  registry returns, two targets derived for the same runtime have the same host only when they stand
  for the same generation; the addresses for queries and for health are plain HTTP on that host, and
  the generation is in a state in which it may be queried.\<close>

theorem targets_separate_generations:
  assumes "deriveTarget v source runtimeType = Inr t" "deriveTarget v' source' runtimeType = Inr t'"
  shows "\<exists>d d'. registry_normalize v = Some d \<and> registry_normalize v' = Some d' \<and> routableLifecycle d \<and> routableLifecycle d' \<and>
    dp_healthUrl t = dp_queryUrl t \<and> starts_with (''http://'' @ dp_allowedHostname t @ '':'') (dp_queryUrl t) \<and>
    (dp_allowedHostname t = dp_allowedHostname t' \<longrightarrow> js_string (rd_generationId d) = js_string (rd_generationId d'))"
proof -
  obtain d b where d: "registry_normalize v = Some d" "routableLifecycle d" "List.member RESOLVER_BACKENDS b"
    "generation_id (js_string (rd_generationId d))"
    "t = (if runtimeType = ''standalone-compose'' then standalone_plane (js_string (rd_generationId d)) b
         else kubernetes_plane (js_string (rd_generationId d)) b)"
    using derived_descriptor [OF assms(1)] by blast
  obtain d' b' where d': "registry_normalize v' = Some d'" "routableLifecycle d'" "List.member RESOLVER_BACKENDS b'"
    "generation_id (js_string (rd_generationId d'))"
    "t' = (if runtimeType = ''standalone-compose'' then standalone_plane (js_string (rd_generationId d')) b'
         else kubernetes_plane (js_string (rd_generationId d')) b')"
    using derived_descriptor [OF assms(2)] by blast
  have slots: "runtimeType = ''standalone-compose'' \<Longrightarrow>
      js_string (rd_generationId d) \<in> {''gen-a'', ''gen-b''} \<and> js_string (rd_generationId d') \<in> {''gen-a'', ''gen-b''}"
    using assms d(1) d'(1) by (auto simp: deriveTarget_def Let_def dest!: set_has_JStr split: if_splits)
  have "js_string (rd_generationId d) = js_string (rd_generationId d')" if "dp_allowedHostname t = dp_allowedHostname t'"
  proof (cases "runtimeType = ''standalone-compose''")
    case True
    with that slots d(5) d'(5) show ?thesis
      by (auto simp: standalone_plane_def Let_def split: prod.splits if_splits)
  next
    case False
    with that d(5) d'(5) have "kubernetes_host (js_string (rd_generationId d)) b = kubernetes_host (js_string (rd_generationId d')) b'"
      by (auto simp: kubernetes_plane_def Let_def split: prod.splits)
    with d(4) d'(4) show ?thesis by (rule kubernetes_host_inject)
  qed
  moreover have "dp_healthUrl t = dp_queryUrl t \<and> starts_with (''http://'' @ dp_allowedHostname t @ '':'') (dp_queryUrl t)"
    by (auto simp: d(5) standalone_plane_def kubernetes_plane_def Let_def starts_with_iff split: prod.splits)
  ultimately show ?thesis using d(1,2) d'(1,2) by blast
qed

definition demo_descriptor :: "string \<Rightarrow> string \<Rightarrow> jsval" where
  "demo_descriptor g backend = JObj [(''source_identity'', JStr ''jwb-local''), (''generation_id'', JStr g),
     (''backend_type'', JStr backend), (''state'', JStr ''SERVING''), (''protection_state'', JStr ''SERVING''),
     (''normalization_model'', JStr ''jwb-rdf-normalization-v1''), (''partition_model'', JStr ''jwb-partition-v1''),
     (''runtime_type'', JStr ''kubernetes''), (''runtime_namespace'', JStr ''jwb-query-local'')]"

theorem targets_separate_generations_witness:
  "\<exists>t t'. deriveTarget (demo_descriptor ''gen-a'' ''virtuoso'') ''jwb-local'' ''kubernetes'' = Inr t \<and>
    deriveTarget (demo_descriptor ''gen-b'' ''fuseki-tdb2'') ''jwb-local'' ''kubernetes'' = Inr t' \<and>
    dp_allowedHostname t = ''rdf-virtuoso-gen-a.jwb-query-local.svc.cluster.local'' \<and>
    dp_allowedHostname t \<noteq> dp_allowedHostname t' \<and> dp_healthUrl t' = dp_queryUrl t'"
proof -
  let ?a = "kubernetes_plane ''gen-a'' ''virtuoso''"
  let ?b = "kubernetes_plane ''gen-b'' ''fuseki-tdb2''"
  have a: "deriveTarget (demo_descriptor ''gen-a'' ''virtuoso'') ''jwb-local'' ''kubernetes'' = Inr ?a" by code_simp
  have b: "deriveTarget (demo_descriptor ''gen-b'' ''fuseki-tdb2'') ''jwb-local'' ''kubernetes'' = Inr ?b" by code_simp
  have n: "registry_normalize (demo_descriptor ''gen-a'' ''virtuoso'') = Some x \<Longrightarrow> rd_generationId x = JStr ''gen-a''"
    "registry_normalize (demo_descriptor ''gen-b'' ''fuseki-tdb2'') = Some x \<Longrightarrow> rd_generationId x = JStr ''gen-b''" for x
    by (auto simp: registry_normalize_def demo_descriptor_def either_prop_def)
  have h: "dp_allowedHostname ?a = ''rdf-virtuoso-gen-a.jwb-query-local.svc.cluster.local''" by code_simp
  from targets_separate_generations [OF a b] have "dp_allowedHostname ?a \<noteq> dp_allowedHostname ?b"
    by (auto dest!: n)
  moreover from targets_separate_generations [OF b a] have "dp_healthUrl ?b = dp_queryUrl ?b" by blast
  ultimately show ?thesis using a b h by blast
qed

text \<open>The registry admits generation names that the check of a descriptor with endpoints refuses: its hosts
  are fixed to the generations a and b.\<close>

lemma third_generation_has_no_endpoint:
  "endpoint_host_ok (kubernetes_host ''gen-b'' ''oxigraph'') \<and> \<not> endpoint_host_ok (kubernetes_host ''gen-c'' ''oxigraph'')"
  by code_simp

text \<open>An accepted descriptor names local plain HTTP endpoints without credentials.\<close>

lemma descriptor_endpoints:
  assumes "validateGenerationDescriptor parse v = Inr d"
  shows "generation_id (gd_generationId d) \<and> source_identity (gd_sourceIdentity d) \<and>
    ge_access (gd_queryEndpoint d) = ''internal-read'' \<and> ge_access (gd_internalUpdateEndpoint d) = ''internal-write'' \<and>
    (\<forall>e \<in> {gd_queryEndpoint d, gd_internalUpdateEndpoint d}. \<exists>text u. parse text = Some u \<and> ge_url e = ul_href u \<and>
       ul_protocol u = ''http:'' \<and> endpoint_host_ok (ul_hostname u) \<and> ul_username u = [] \<and> ul_password u = [])"
proof -
  have e: "generation_endpoint_of parse x access = Inr e \<Longrightarrow> ge_access e = access \<and>
      (\<exists>text u. parse text = Some u \<and> ge_url e = ul_href u \<and> ul_protocol u = ''http:'' \<and>
        endpoint_host_ok (ul_hostname u) \<and> ul_username u = [] \<and> ul_password u = [])" for x access e
    by (fastforce simp: generation_endpoint_of_def bindR_eq_Inr new_URL_def split: if_splits option.splits)
  from assms obtain q u where "generation_endpoint_of parse (js_prop v ''queryEndpoint'') ''internal-read'' = Inr q"
    "generation_endpoint_of parse (js_prop v ''internalUpdateEndpoint'') ''internal-write'' = Inr u"
    "gd_queryEndpoint d = q" "gd_internalUpdateEndpoint d = u"
    "generation_id (gd_generationId d)" "source_identity (gd_sourceIdentity d)"
    by (auto simp: validateGenerationDescriptor_def bindR_eq_Inr split: jsval.splits if_splits)
  with e show ?thesis by blast
qed

end
