(* ===== verification/SparqlBackend.thy ===== *)
theory SparqlBackend
  imports UrlParams RdfBackendContract
begin

text \<open>
  \<open>services/rdf-backends/src/sparql-http-backend.js\<close>: the backend that speaks SPARQL 1.1 protocol
  and graph store protocol to a triple store, with HTTP Digest authentication for its writes.  The
  network, the files, the random bytes and the hash functions are parameters; their state is the
  world the actions run in.  The deadline of a request is an error of the network.
\<close>

section \<open>The platform\<close>

record http_init =
  hi_method :: string
  hi_headers :: "(string \<times> string) list"
  hi_body :: "string option"

text \<open>An answer: \<open>text()\<close> and \<open>json()\<close> fail when the body cannot be read.\<close>

record http_response =
  rp_status :: int
  rp_headers :: "string \<Rightarrow> string option"
  rp_text :: "string result"
  rp_json :: "jsval result"

record 'w http_platform =
  hp_parse :: url_parser
  hp_fetch :: "string \<Rightarrow> http_init \<Rightarrow> ('w, http_response) action"
  hp_readFile :: "string \<Rightarrow> ('w, string) action"
  hp_writeFile :: "string \<Rightarrow> string \<Rightarrow> ('w, unit) action"
  hp_randomHex :: "('w, string) action"
  hp_md5 :: "string \<Rightarrow> string"
  hp_sha256 :: "string \<Rightarrow> string"

definition rp_ok :: "http_response \<Rightarrow> bool" where
  "rp_ok r \<longleftrightarrow> 200 \<le> rp_status r \<and> rp_status r \<le> 299"

section \<open>Checks on addresses and capabilities\<close>

definition checkedUrl :: "url_parser \<Rightarrow> string \<Rightarrow> string result" where
  "checkedUrl parse v = bindR (new_URL parse v) (\<lambda>u.
     if \<not> List.member [''http:'', ''https:''] (ul_protocol u) \<or> ul_username u \<noteq> [] \<or> ul_password u \<noteq> []
     then Inl ''invalid RDF endpoint URL'' else Inr (ul_href u))"

definition requireCapability :: "backend_metadata \<Rightarrow> string \<Rightarrow> unit result" where
  "requireCapability m name = requireR (map_of (bm_capabilities m) name = Some True)
     (bm_backendType m @ '' does not support required capability '' @ name)"

definition requireGraphIri :: "url_parser \<Rightarrow> string \<Rightarrow> unit result" where
  "requireGraphIri parse v = bindR (new_URL parse v) (\<lambda>u.
     requireR (List.member [''http:'', ''https:'', ''urn:''] (ul_protocol u)) ''invalid named graph IRI'')"

definition nonempty_text :: "string option \<Rightarrow> string option" where
  "nonempty_text v = (case v of Some (c # s) \<Rightarrow> Some (c # s) | _ \<Rightarrow> None)"

definition graphUrl :: "url_parser \<Rightarrow> string option \<Rightarrow> string option \<Rightarrow> string result" where
  "graphUrl parse base graphIri = (case nonempty_text base of
     None \<Rightarrow> Inl ''graph store endpoint is unavailable''
   | Some b \<Rightarrow> bindR (new_URL parse b) (\<lambda>u. Inr (case nonempty_text graphIri of
       Some g \<Rightarrow> set_param ''graph'' g (ul_href u)
     | None \<Rightarrow> set_param ''default'' [] (ul_href u))))"

fun append_graphs :: "url_parser \<Rightarrow> string list \<Rightarrow> string \<Rightarrow> string result" where
  "append_graphs parse [] href = Inr href"
| "append_graphs parse (g # gs) href = bindR (requireGraphIri parse g) (\<lambda>_.
     if \<not> starts_with ''urn:jwb:'' g then Inl ''logical dataset graph is not managed''
     else append_graphs parse gs (append_param ''default-graph-uri'' g href))"

definition MAX_GRAPHS :: int where
  "MAX_GRAPHS = 10000"

definition logicalDatasetUrl :: "url_parser \<Rightarrow> string \<Rightarrow> string list \<Rightarrow> string result" where
  "logicalDatasetUrl parse base graphIris =
     (if int (length graphIris) > MAX_GRAPHS then Inl ''invalid logical dataset graph list''
      else bindR (new_URL parse base) (\<lambda>u. append_graphs parse graphIris (ul_href u)))"

section \<open>Digest authentication\<close>

text \<open>\<open>/([a-z]+)=(?:"([^"]*)"|([^,\s]+))/giu\<close>\<close>

definition ascii_letter :: "char \<Rightarrow> bool" where
  "ascii_letter c \<longleftrightarrow> is_lower c \<or> is_upper c"

definition QUOTED :: rx where
  "QUOTED = Cat (Chr (CHR 0x22)) (Cat (Grp 2 (Star (Cls (\<lambda>c. c \<noteq> CHR 0x22)))) (Chr (CHR 0x22)))"

definition UNQUOTED :: rx where
  "UNQUOTED = Grp 3 (Plus1 (Cls (\<lambda>c. c \<noteq> CHR '','' \<and> \<not> is_space c)))"

definition DIGEST_PAIR :: rx where
  "DIGEST_PAIR = Cat (Grp 1 (Plus1 (Cls ascii_letter))) (Cat (Chr (CHR ''='')) (Alt QUOTED UNQUOTED))"

text \<open>\<open>matchAll\<close> with the captures of every match; the expression matches no empty text.\<close>

fun match_captures :: "nat \<Rightarrow> rx \<Rightarrow> string \<Rightarrow> captures list" where
  "match_captures 0 r s = []"
| "match_captures (Suc n) r s = (case s of
     [] \<Rightarrow> []
   | _ # xs \<Rightarrow> (case runs r s [] of
       (rest, c) # _ \<Rightarrow> c # match_captures n r rest
     | [] \<Rightarrow> match_captures n r xs))"

definition lower_char :: "char \<Rightarrow> char" where
  "lower_char c = (if is_upper c then char_of (of_char c + 32 :: nat) else c)"

definition pair_of :: "captures \<Rightarrow> string \<times> string" where
  "pair_of c = (map lower_char (or_else (group c 1) []),
     (case group c 2 of Some v \<Rightarrow> v | None \<Rightarrow> or_else (group c 3) []))"

type_synonym challenge = "(string \<times> string) list"

text \<open>A later parameter of the same name replaces an earlier one; an empty value is no value.\<close>

definition challenge_value :: "challenge \<Rightarrow> string \<Rightarrow> string option" where
  "challenge_value ps name = nonempty_text (map_of (rev ps) name)"

definition qop_ok :: "challenge \<Rightarrow> bool" where
  "qop_ok ps = (case challenge_value ps ''qop'' of
     None \<Rightarrow> True | Some q \<Rightarrow> List.member (map trim (split_on CHR '','' q)) ''auth'')"

definition parseDigestChallenge :: "string \<Rightarrow> challenge result" where
  "parseDigestChallenge v =
     (let ps = map pair_of (match_captures (length v) DIGEST_PAIR v) in
      if challenge_value ps ''realm'' = None \<or> challenge_value ps ''nonce'' = None \<or> \<not> qop_ok ps
      then Inl ''unsupported HTTP Digest challenge'' else Inr ps)"

record digest_auth =
  da_username :: string
  da_password :: string

definition NONCE_COUNT :: string where
  "NONCE_COUNT = ''00000001''"

definition quoted :: "string \<Rightarrow> string \<Rightarrow> string" where
  "quoted name v = name @ ''='' @ [CHR 0x22] @ v @ [CHR 0x22]"

definition digest_response :: "(string \<Rightarrow> string) \<Rightarrow> digest_auth \<Rightarrow> challenge \<Rightarrow> string \<Rightarrow> string \<Rightarrow> string \<Rightarrow> string" where
  "digest_response md5 auth ps method uri cnonce =
     (let realm = or_else (challenge_value ps ''realm'') [];
          nonce = or_else (challenge_value ps ''nonce'') [];
          ha1 = md5 (join '':'' [da_username auth, realm, da_password auth]);
          ha2 = md5 (join '':'' [method, uri])
      in md5 (join '':'' [ha1, nonce, NONCE_COUNT, cnonce, ''auth'', ha2]))"

definition authorization :: "(string \<Rightarrow> string) \<Rightarrow> digest_auth \<Rightarrow> challenge \<Rightarrow> string \<Rightarrow> string \<Rightarrow> string \<Rightarrow> string" where
  "authorization md5 auth ps method uri cnonce = join '', '' (
     [''Digest '' @ quoted ''username'' (da_username auth),
      quoted ''realm'' (or_else (challenge_value ps ''realm'') []),
      quoted ''nonce'' (or_else (challenge_value ps ''nonce'') []),
      quoted ''uri'' uri,
      quoted ''response'' (digest_response md5 auth ps method uri cnonce),
      ''qop=auth'', ''nc='' @ NONCE_COUNT, quoted ''cnonce'' cnonce] @
     (case challenge_value ps ''opaque'' of None \<Rightarrow> [] | Some v \<Rightarrow> [quoted ''opaque'' v]))"

section \<open>The backend\<close>

record sparql_options =
  so_metadata :: jsval
  so_queryUrl :: string
  so_updateUrl :: "string option"
  so_graphStoreUrl :: "string option"
  so_datasetGraphIri :: "string option"
  so_headers :: "(string \<times> string) list"
  so_digestAuth :: "digest_auth option"

text \<open>The fields the constructor sets; \<open>instanceId\<close> is the one that changes later.\<close>

record sparql_backend =
  sb_metadata :: backend_metadata
  sb_queryUrl :: string
  sb_updateUrl :: "string option"
  sb_graphStoreUrl :: "string option"
  sb_datasetGraphIri :: "string option"
  sb_headers :: "(string \<times> string) list"
  sb_digestAuth :: "digest_auth option"

definition optional_url :: "url_parser \<Rightarrow> string option \<Rightarrow> string option result" where
  "optional_url parse v = (case nonempty_text v of
     None \<Rightarrow> Inr None | Some s \<Rightarrow> bindR (checkedUrl parse s) (\<lambda>u. Inr (Some u)))"

definition new_sparql_backend :: "url_parser \<Rightarrow> sparql_options \<Rightarrow> sparql_backend result" where
  "new_sparql_backend parse op =
     bindR (validateRdfBackendMetadata (so_metadata op)) (\<lambda>m.
     bindR (checkedUrl parse (so_queryUrl op)) (\<lambda>queryUrl.
     bindR (optional_url parse (so_updateUrl op)) (\<lambda>updateUrl.
     bindR (optional_url parse (so_graphStoreUrl op)) (\<lambda>graphStoreUrl.
     bindR (case nonempty_text (so_datasetGraphIri op) of
              None \<Rightarrow> Inr () | Some g \<Rightarrow> requireGraphIri parse g) (\<lambda>_.
     Inr \<lparr>sb_metadata = m, sb_queryUrl = queryUrl, sb_updateUrl = updateUrl,
       sb_graphStoreUrl = graphStoreUrl, sb_datasetGraphIri = so_datasetGraphIri op,
       sb_headers = so_headers op, sb_digestAuth = so_digestAuth op\<rparr>)))))"

text \<open>The state of the actions: the world and the instance identifier.\<close>

type_synonym 'w sparql_state = "'w \<times> string option"

definition SPARQL_INSTANCE :: rx where
  "SPARQL_INSTANCE = Cat (Cls is_lower_digit) (AtMost 62 (Cls (\<lambda>c. is_lower_digit c \<or> c = CHR ''-'')))"

definition boundedFetch :: "'w http_platform \<Rightarrow> string \<Rightarrow> http_init \<Rightarrow> ('w sparql_state, http_response) action" where
  "boundedFetch P url init = on_fst (hp_fetch P url init)"

definition digest_challenge :: "http_response \<Rightarrow> string option" where
  "digest_challenge r = (case rp_headers r ''www-authenticate'' of
     Some v \<Rightarrow> if starts_with ''Digest '' v then Some (drop 7 v) else None | None \<Rightarrow> None)"

definition request :: "'w http_platform \<Rightarrow> sparql_backend \<Rightarrow> string \<Rightarrow> http_init \<Rightarrow> bool \<Rightarrow>
    ('w sparql_state, http_response) action" where
  "request P b url init authenticate =
     (case (if authenticate then sb_digestAuth b else None) of
        None \<Rightarrow> boundedFetch P url init
      | Some auth \<Rightarrow>
        bindA (boundedFetch P url init) (\<lambda>first.
        if rp_status first \<noteq> 401 then returnA first
        else (case digest_challenge first of
          None \<Rightarrow> returnA first
        | Some text \<Rightarrow>
          bindA (liftA (parseDigestChallenge text)) (\<lambda>values.
          bindA (liftA (new_URL (hp_parse P) url)) (\<lambda>target.
          bindA (on_fst (hp_randomHex P)) (\<lambda>cnonce.
          boundedFetch P url (init\<lparr>hi_headers := spread (hi_headers init)
            [(''authorization'', authorization (hp_md5 P) auth values (hi_method init)
               (ul_pathname target @ ul_search target) cnonce)]\<rparr>)))))))"

definition resetToken :: "('w sparql_state, string) action" where
  "resetToken = (\<lambda>s. case nonempty_text (snd s) of
     None \<Rightarrow> (Inl ''backend is not initialized'', s)
   | Some i \<Rightarrow> (Inr (''reset:'' @ i), s))"

text \<open>The message of a refused request, with the first 300 characters of the answer\<close>

definition refused :: "string \<Rightarrow> http_response \<Rightarrow> ('w sparql_state, 'a) action" where
  "refused what r = bindA (liftA (rp_text r)) (\<lambda>t.
     raiseA (what @ '' failed with HTTP '' @ show_int (rp_status r) @ '': '' @ take 300 t))"

definition sb_query :: "'w http_platform \<Rightarrow> sparql_backend \<Rightarrow> string \<Rightarrow> ('w sparql_state, jsval) action" where
  "sb_query P b sparql =
     (if sparql = [] then raiseA ''SPARQL query must be non-empty''
      else bindA (request P b (sb_queryUrl b)
        \<lparr>hi_method = ''POST'', hi_headers = spread [(''accept'', ''application/sparql-results+json''),
           (''content-type'', ''application/sparql-query'')] (sb_headers b), hi_body = Some sparql\<rparr> False) (\<lambda>r.
        if \<not> rp_ok r then refused ''SPARQL query'' r else liftA (rp_json r)))"

datatype sparql_health = Healthy bool | Unhealthy string

definition sb_health :: "'w http_platform \<Rightarrow> sparql_backend \<Rightarrow> ('w sparql_state, sparql_health) action" where
  "sb_health P b =
     catchA
       (bindA (sb_query P b ''ASK { ?s ?p ?o }'') (\<lambda>result.
        bindA (liftA (js_get result ''boolean'')) (\<lambda>v. returnA (Healthy (js_bool v \<noteq> None)))))
       (\<lambda>e. returnA (Unhealthy e))"

definition sb_initialize :: "'w http_platform \<Rightarrow> sparql_backend \<Rightarrow> string \<Rightarrow> ('w sparql_state, sparql_health) action" where
  "sb_initialize P b instanceId =
     (if \<not> rx_test SPARQL_INSTANCE instanceId then raiseA ''invalid RDF instance identifier''
      else thenA (modifyA (\<lambda>s. (fst s, Some instanceId))) (sb_health P b))"

record snapshot_file =
  sf_source :: string
  sf_mediaType :: string

definition N_TRIPLES :: string where
  "N_TRIPLES = ''application/n-triples''"

definition put_init :: "sparql_backend \<Rightarrow> snapshot_file \<Rightarrow> string \<Rightarrow> http_init" where
  "put_init b snapshot body = \<lparr>hi_method = ''PUT'',
     hi_headers = spread [(''content-type'', sf_mediaType snapshot)] (sb_headers b), hi_body = Some body\<rparr>"

text \<open>\<open>putGraph\<close> returns the number of bytes that were sent.\<close>

definition putGraph :: "'w http_platform \<Rightarrow> sparql_backend \<Rightarrow> snapshot_file \<Rightarrow> string option \<Rightarrow> ('w sparql_state, nat) action" where
  "putGraph P b snapshot graphIri =
     (if nonempty_text (sb_graphStoreUrl b) = None then raiseA ''graph store endpoint is unavailable''
      else if sf_mediaType snapshot \<noteq> N_TRIPLES then raiseA ''M2 snapshot must use application/n-triples''
      else bindA (on_fst (hp_readFile P (sf_source snapshot))) (\<lambda>body.
        bindA (liftA (graphUrl (hp_parse P) (sb_graphStoreUrl b) graphIri)) (\<lambda>url.
        bindA (request P b url (put_init b snapshot body) True) (\<lambda>r.
        if \<not> rp_ok r then refused ''graph load'' r else returnA (byteLength body)))))"

definition deleteNamedGraph :: "'w http_platform \<Rightarrow> sparql_backend \<Rightarrow> string \<Rightarrow> ('w sparql_state, unit) action" where
  "deleteNamedGraph P b graphIri =
     bindA (liftA (requireCapability (sb_metadata b) ''graphStoreProtocol'')) (\<lambda>_.
     bindA (liftA (requireGraphIri (hp_parse P) graphIri)) (\<lambda>_.
     bindA (liftA (graphUrl (hp_parse P) (sb_graphStoreUrl b) (Some graphIri))) (\<lambda>url.
     bindA (request P b url \<lparr>hi_method = ''DELETE'', hi_headers = sb_headers b, hi_body = None\<rparr> True) (\<lambda>r.
     if \<not> rp_ok r \<and> rp_status r \<noteq> 404
     then raiseA (''graph delete failed with HTTP '' @ show_int (rp_status r)) else returnA ()))))"

definition reset :: "'w http_platform \<Rightarrow> sparql_backend \<Rightarrow> string \<Rightarrow> ('w sparql_state, unit) action" where
  "reset P b confirmationToken = bindA (readA (\<lambda>s. nonempty_text (snd s))) (\<lambda>i.
     if (case i of None \<Rightarrow> True | Some name \<Rightarrow> confirmationToken \<noteq> ''reset:'' @ name)
     then raiseA ''invalid reset confirmation token''
     else (case (nonempty_text (sb_datasetGraphIri b), nonempty_text (sb_graphStoreUrl b)) of
        (Some g, Some _) \<Rightarrow> deleteNamedGraph P b g
      | _ \<Rightarrow>
        bindA (liftA (requireCapability (sb_metadata b) ''sparql11Update'')) (\<lambda>_.
        case nonempty_text (sb_updateUrl b) of
          None \<Rightarrow> raiseA ''internal update endpoint is unavailable''
        | Some url \<Rightarrow>
          bindA (request P b url \<lparr>hi_method = ''POST'',
            hi_headers = spread [(''content-type'', ''application/sparql-update'')] (sb_headers b),
            hi_body = Some ''CLEAR ALL''\<rparr> True) (\<lambda>r.
          if \<not> rp_ok r then refused ''dataset reset'' r else returnA ()))))"

definition replaceDataset :: "'w http_platform \<Rightarrow> sparql_backend \<Rightarrow> snapshot_file \<Rightarrow> ('w sparql_state, nat) action" where
  "replaceDataset P b snapshot =
     bindA (liftA (requireCapability (sb_metadata b) ''graphStoreProtocol'')) (\<lambda>_.
     bindA resetToken (\<lambda>token.
     bindA (reset P b token) (\<lambda>_.
     putGraph P b snapshot (sb_datasetGraphIri b))))"

definition loadSnapshot :: "'w http_platform \<Rightarrow> sparql_backend \<Rightarrow> snapshot_file \<Rightarrow> ('w sparql_state, nat) action" where
  "loadSnapshot P b snapshot = replaceDataset P b snapshot"

definition replaceNamedGraph :: "'w http_platform \<Rightarrow> sparql_backend \<Rightarrow> snapshot_file \<Rightarrow> string \<Rightarrow> ('w sparql_state, nat) action" where
  "replaceNamedGraph P b graph graphIri =
     bindA (liftA (requireCapability (sb_metadata b) ''graphStoreProtocol'')) (\<lambda>_.
     bindA (liftA (requireGraphIri (hp_parse P) graphIri)) (\<lambda>_.
     putGraph P b graph (Some graphIri)))"

definition applyEntityChange :: "'w http_platform \<Rightarrow> sparql_backend \<Rightarrow> snapshot_file \<Rightarrow> string \<Rightarrow> ('w sparql_state, nat) action" where
  "applyEntityChange P b change graphIri =
     bindA (liftA (requireCapability (sb_metadata b) ''namedGraphs'')) (\<lambda>_.
     replaceNamedGraph P b change graphIri)"

definition sb_rebuild :: "'w http_platform \<Rightarrow> sparql_backend \<Rightarrow> snapshot_file option \<Rightarrow> ('w sparql_state, nat) action" where
  "sb_rebuild P b snapshot = (case snapshot of
     None \<Rightarrow> raiseA ''rebuild requires a canonical snapshot'' | Some s \<Rightarrow> replaceDataset P b s)"

definition sparqlQueryEndpoint :: "sparql_backend \<Rightarrow> string \<times> string" where
  "sparqlQueryEndpoint b = (sb_queryUrl b, ''public-read'')"

definition internalUpdateEndpoint :: "sparql_backend \<Rightarrow> (string \<times> string) option" where
  "internalUpdateEndpoint b = map_option (\<lambda>u. (u, ''internal-write'')) (nonempty_text (sb_updateUrl b))"

definition exportDataset :: "'w http_platform \<Rightarrow> sparql_backend \<Rightarrow> string \<Rightarrow> string \<Rightarrow> string list \<Rightarrow>
    ('w sparql_state, nat \<times> string) action" where
  "exportDataset P b destination mediaType graphIris =
     (if mediaType \<noteq> N_TRIPLES then raiseA ''M2 export supports application/n-triples only''
      else bindA (liftA (logicalDatasetUrl (hp_parse P) (sb_queryUrl b) graphIris)) (\<lambda>url.
        bindA (request P b url \<lparr>hi_method = ''POST'', hi_headers = spread [(''accept'', mediaType),
           (''content-type'', ''application/sparql-query'')] (sb_headers b),
           hi_body = Some ''CONSTRUCT { ?s ?p ?o } WHERE { ?s ?p ?o }''\<rparr> False) (\<lambda>r.
        if \<not> rp_ok r then raiseA (''RDF export failed with HTTP '' @ show_int (rp_status r))
        else bindA (liftA (rp_text r)) (\<lambda>body.
          bindA (on_fst (hp_writeFile P destination body)) (\<lambda>_.
          returnA (byteLength body, hp_sha256 P body))))))"


section \<open>What a write leaves in the store\<close>

text \<open>
  The promise of the graph store protocol as the backend relies on it (SPARQL 1.1 Graph Store HTTP
  Protocol, 5.3 and 5.4): \<open>view\<close> is the text stored at each graph address.  A PUT to an address
  touches no other graph, and when it is answered with success the body is what is stored there; a
  DELETE touches no other graph, and after success or 404 there is no graph.  Reading files and
  drawing random bytes touch no graph.
\<close>

definition only_at :: "('w \<Rightarrow> string \<Rightarrow> string option) \<Rightarrow> string \<Rightarrow> 'w \<Rightarrow> 'w \<Rightarrow> bool" where
  "only_at view url w w' \<longleftrightarrow> (\<forall>u. u \<noteq> url \<longrightarrow> view w' u = view w u)"

definition graph_store_protocol :: "'w http_platform \<Rightarrow> ('w \<Rightarrow> string \<Rightarrow> string option) \<Rightarrow> bool" where
  "graph_store_protocol P view \<longleftrightarrow>
     (\<forall>url init w r w'. hp_fetch P url init w = (r, w') \<longrightarrow> hi_method init = ''PUT'' \<longrightarrow>
        only_at view url w w' \<and> (\<forall>a. r = Inr a \<longrightarrow> rp_ok a \<longrightarrow> view w' url = hi_body init)) \<and>
     (\<forall>url init w r w'. hp_fetch P url init w = (r, w') \<longrightarrow> hi_method init = ''DELETE'' \<longrightarrow>
        only_at view url w w' \<and> (\<forall>a. r = Inr a \<longrightarrow> rp_ok a \<or> rp_status a = 404 \<longrightarrow> view w' url = None)) \<and>
     (\<forall>f. keeps view (hp_readFile P f)) \<and> keeps view (hp_randomHex P)"

lemma only_at_refl [simp]: "only_at view url w w"
  by (simp add: only_at_def)

lemma only_at_rel [simp, intro]:
  "reflp (\<lambda>s s'. only_at view url (fst s) (fst s') \<and> snd s' = snd s)"
  "transp (\<lambda>s s'. only_at view url (fst s) (fst s') \<and> snd s' = snd s)"
  by (auto simp: reflp_def transp_def only_at_def)

definition writes_at :: "('w \<Rightarrow> string \<Rightarrow> string option) \<Rightarrow> string \<Rightarrow> ('w sparql_state, 'a) action \<Rightarrow> bool" where
  "writes_at view url m \<longleftrightarrow> moves (\<lambda>s s'. only_at view url (fst s) (fst s') \<and> snd s' = snd s) m"

named_theorems writes_intros \<open>actions that write at one address only\<close>

lemma writes_bindA [writes_intros]: "writes_at view url m \<Longrightarrow> (\<And>x. writes_at view url (f x)) \<Longrightarrow> writes_at view url (bindA m f)"
  by (simp add: writes_at_def moves_bindA)

lemma writes_pure [writes_intros]:
  "writes_at view url (returnA x)" "writes_at view url (raiseA e)" "writes_at view url (liftA q)"
  by (simp_all add: writes_at_def moves_intros)

lemma writes_if [writes_intros]:
  "writes_at view url m \<Longrightarrow> writes_at view url n \<Longrightarrow> writes_at view url (if b then m else n)"
  by simp

lemma writes_option [writes_intros]:
  "writes_at view url m \<Longrightarrow> (\<And>x. writes_at view url (n x)) \<Longrightarrow>
   writes_at view url (case c of None \<Rightarrow> m | Some x \<Rightarrow> n x)"
  by (cases c) auto

lemma writes_refused [writes_intros]: "writes_at view url (refused what r)"
  unfolding refused_def by (intro writes_intros)

lemma writes_on_fst: "keeps view m \<Longrightarrow> writes_at view url (on_fst m)"
  unfolding writes_at_def by (rule movesI) (auto simp: on_fst_eq only_at_def dest: keepsD)

lemma writes_fetch [writes_intros]:
  "graph_store_protocol P view \<Longrightarrow> hi_method init = ''PUT'' \<or> hi_method init = ''DELETE'' \<Longrightarrow>
   writes_at view url (boundedFetch P url init)"
  unfolding writes_at_def boundedFetch_def
  by (rule movesI) (auto simp: on_fst_eq graph_store_protocol_def)

lemma writes_request [writes_intros]:
  assumes "graph_store_protocol P view" "hi_method init = ''PUT'' \<or> hi_method init = ''DELETE''"
  shows "writes_at view url (request P b url init authenticate)"
proof -
  have "keeps view (hp_randomHex P)" using assms(1) by (simp add: graph_store_protocol_def)
  then show ?thesis
    unfolding request_def using assms by (intro writes_intros writes_on_fst) auto
qed

text \<open>The answer of a request that is not a plain 401 is the answer of its last exchange.\<close>

lemma request_answer:
  assumes "request P b url init authenticate s = (Inr r, s')"
  shows "\<exists>init' w. hp_fetch P url init' w = (Inr r, fst s') \<and> hi_method init' = hi_method init \<and>
    hi_body init' = hi_body init"
proof -
  have fetch: "boundedFetch P url i t = (Inr r, s') \<Longrightarrow> hp_fetch P url i (fst t) = (Inr r, fst s')" for i t
    by (simp add: boundedFetch_def on_fst_eq)
  show ?thesis
  proof (cases "if authenticate then sb_digestAuth b else None")
    case None
    with assms show ?thesis by (auto simp: request_def dest: fetch)
  next
    case (Some auth)
    with assms obtain first t where 1: "boundedFetch P url init s = (Inr first, t)"
      and 2: "(if rp_status first \<noteq> 401 then returnA first
        else (case digest_challenge first of
          None \<Rightarrow> returnA first
        | Some text \<Rightarrow>
          bindA (liftA (parseDigestChallenge text)) (\<lambda>values.
          bindA (liftA (new_URL (hp_parse P) url)) (\<lambda>target.
          bindA (on_fst (hp_randomHex P)) (\<lambda>cnonce.
          boundedFetch P url (init\<lparr>hi_headers := spread (hi_headers init)
            [(''authorization'', authorization (hp_md5 P) auth values (hi_method init)
               (ul_pathname target @ ul_search target) cnonce)]\<rparr>)))))) t = (Inr r, s')"
      by (auto simp: request_def bindA_Inr)
    show ?thesis
    proof (cases "rp_status first \<noteq> 401 \<or> digest_challenge first = None")
      case True
      with 2 have "first = r \<and> t = s'" by (auto split: if_splits)
      with 1 show ?thesis by (auto dest: fetch)
    next
      case False
      with 2 obtain i t' where "boundedFetch P url i t' = (Inr r, s')"
        "hi_method i = hi_method init \<and> hi_body i = hi_body init"
        by (fastforce simp: bindA_Inr)
      then show ?thesis by (blast dest: fetch)
    qed
  qed
qed

lemma liftA_bind: "bindA (liftA (Inr x)) f = f x" "bindA (liftA (Inl e)) f = raiseA e"
  by (simp_all add: bindA_def liftA_def raiseA_def fun_eq_iff)

lemma putGraph_writes:
  assumes "graph_store_protocol P view" "graphUrl (hp_parse P) (sb_graphStoreUrl b) g = Inr url"
  shows "writes_at view url (putGraph P b snapshot g)"
proof -
  have "keeps view (hp_readFile P f)" for f using assms(1) by (simp add: graph_store_protocol_def)
  then have "writes_at view url (on_fst (hp_readFile P f))" for f by (rule writes_on_fst)
  then show ?thesis
    unfolding putGraph_def assms(2) liftA_bind
    by (intro writes_intros) (simp_all add: put_init_def assms(1))
qed


lemma putGraph_ok:
  assumes "graph_store_protocol P view" "graphUrl (hp_parse P) (sb_graphStoreUrl b) g = Inr url"
    "putGraph P b snapshot g s = (Inr n, s')"
  shows "\<exists>body w. hp_readFile P (sf_source snapshot) (fst s) = (Inr body, w) \<and> view (fst s') url = Some body \<and>
    n = byteLength body \<and> sf_mediaType snapshot = N_TRIPLES"
proof -
  from assms(2,3) obtain body t r where f: "on_fst (hp_readFile P (sf_source snapshot)) s = (Inr body, t)"
    and m: "sf_mediaType snapshot = N_TRIPLES"
    and r: "request P b url (put_init b snapshot body) True t = (Inr r, s')" "rp_ok r" "n = byteLength body"
    by (auto simp: putGraph_def bindA_Inr refused_def split: if_splits)
  from request_answer [OF r(1)] obtain i w where i: "hp_fetch P url i w = (Inr r, fst s')"
    "hi_method i = ''PUT''" "hi_body i = Some body"
    by (auto simp: put_init_def)
  then have "view (fst s') url = Some body"
    using assms(1) r(2) unfolding graph_store_protocol_def by metis
  with f m r(3) show ?thesis by (auto simp: on_fst_eq)
qed

text \<open>C12: A replaced graph is exactly the file, and nothing else moves.  Against a store that keeps the
  graph store protocol, whatever it answers first, with or without a Digest challenge, replacing a
  named graph never touches another graph and never changes the instance of the backend, failed or
  not; and when it succeeds the graph at the address of the name holds the text of the file, of the
  length that is reported.\<close>

theorem graph_replaced_exactly:
  assumes "graph_store_protocol P view" "replaceNamedGraph P b snapshot graphIri s = (r, s')"
    "graphUrl (hp_parse P) (sb_graphStoreUrl b) (Some graphIri) = Inr url"
  shows "only_at view url (fst s) (fst s') \<and> snd s' = snd s \<and>
    (\<forall>n. r = Inr n \<longrightarrow> (\<exists>body w. hp_readFile P (sf_source snapshot) (fst s) = (Inr body, w) \<and>
       view (fst s') url = Some body \<and> n = byteLength body))"
proof -
  have "writes_at view url (replaceNamedGraph P b snapshot graphIri)"
    unfolding replaceNamedGraph_def by (intro writes_intros putGraph_writes [OF assms(1,3)])
  then have "only_at view url (fst s) (fst s') \<and> snd s' = snd s"
    using assms(2) unfolding writes_at_def by (rule movesD)
  moreover have "\<exists>body w. hp_readFile P (sf_source snapshot) (fst s) = (Inr body, w) \<and>
       view (fst s') url = Some body \<and> n = byteLength body" if "r = Inr n" for n
  proof -
    from assms(2) that have "putGraph P b snapshot (Some graphIri) s = (Inr n, s')"
      by (auto simp: replaceNamedGraph_def bindA_Inr)
    from putGraph_ok [OF assms(1,3) this] show ?thesis by blast
  qed
  ultimately show ?thesis by blast
qed

text \<open>A deletion touches its graph only, and after it there is no such graph.\<close>

lemma graph_deleted:
  assumes "graph_store_protocol P view" "deleteNamedGraph P b graphIri s = (r, s')"
    "graphUrl (hp_parse P) (sb_graphStoreUrl b) (Some graphIri) = Inr url"
  shows "only_at view url (fst s) (fst s') \<and> snd s' = snd s \<and> (is_ok r \<longrightarrow> view (fst s') url = None)"
proof -
  have "writes_at view url (deleteNamedGraph P b graphIri)"
    unfolding deleteNamedGraph_def assms(3) liftA_bind
    by (intro writes_intros assms(1)) simp
  then have "only_at view url (fst s) (fst s') \<and> snd s' = snd s"
    using assms(2) unfolding writes_at_def by (rule movesD)
  moreover have "view (fst s') url = None" if "is_ok r"
  proof -
    from that obtain u where "r = Inr u" by (auto simp: is_ok_iff)
    with assms(2,3) obtain i t a where "request P b url i True t = (Inr a, s')" "hi_method i = ''DELETE''"
      "rp_ok a \<or> rp_status a = 404"
      by (fastforce simp: deleteNamedGraph_def bindA_Inr split: if_splits)
    then show ?thesis
      using request_answer [of P b url i True t a s'] assms(1)
      unfolding graph_store_protocol_def by metis
  qed
  ultimately show ?thesis by blast
qed

section \<open>Credentials\<close>

text \<open>Only a 401 answer with a Digest challenge makes the backend send a second request: every other
  exchange is the plain one, without its credentials.\<close>

lemma plain_exchange:
  assumes "hp_fetch P url init (fst s) = (Inr r, w)"
    "\<not> authenticate \<or> sb_digestAuth b = None \<or> rp_status r \<noteq> 401 \<or> digest_challenge r = None"
  shows "request P b url init authenticate s = (Inr r, (w, snd s))"
proof -
  have f: "boundedFetch P url init s = (Inr r, (w, snd s))"
    using assms(1) by (simp add: boundedFetch_def on_fst_eq)
  then show ?thesis using assms(2)
    by (cases "sb_digestAuth b"; cases authenticate)
      (auto simp: request_def bindA_def returnA_def split: option.splits)
qed

section \<open>A snapshot that is refused after the reset\<close>

text \<open>A refused snapshot costs the dataset.  \<open>replaceDataset\<close> empties the dataset before it looks at
  the snapshot: whenever the reset succeeds and the snapshot has another media type, the call fails
  and the world is left as the reset left it.\<close>

theorem refused_snapshot_after_reset:
  assumes "replaceDataset P b snapshot s = (r, s')" "sf_mediaType snapshot \<noteq> N_TRIPLES"
    "map_of (bm_capabilities (sb_metadata b)) ''graphStoreProtocol'' = Some True"
    "nonempty_text (snd s) = Some i" "reset P b (''reset:'' @ i) s = (Inr (), s1)"
  shows "\<not> is_ok r \<and> s' = s1"
proof -
  have "putGraph P b snapshot (sb_datasetGraphIri b) s1 = (r, s')"
    using assms by (simp add: replaceDataset_def requireCapability_def resetToken_def bindA_def liftA_def)
  then show ?thesis using assms(2) by (auto simp: putGraph_def split: if_splits)
qed

section \<open>A store with Digest authentication\<close>

text \<open>The world of the samples: the graphs and the number of requests.\<close>

type_synonym demo_world = "(string \<rightharpoonup> string) \<times> nat"

definition demo_answer :: "int \<Rightarrow> http_response" where
  "demo_answer status = \<lparr>rp_status = status,
     rp_headers = (\<lambda>n. if n = ''www-authenticate''
       then Some (''Digest realm='' @ [CHR 0x22] @ ''SPARQL'' @ [CHR 0x22] @ '', nonce=n1, qop=auth'') else None),
     rp_text = Inr ''answer'', rp_json = Inr (JObj [(''boolean'', JBool True)])\<rparr>"

definition demo_fetch :: "string \<Rightarrow> http_init \<Rightarrow> (demo_world, http_response) action" where
  "demo_fetch url init w =
     (let w1 = (fst w, Suc (snd w)) in
      if hi_method init = ''POST'' then (Inr (demo_answer 200), w1)
      else if map_of (hi_headers init) ''authorization'' = None then (Inr (demo_answer 401), w1)
      else if hi_method init = ''PUT'' then (Inr (demo_answer 201), ((fst w)(url := hi_body init), Suc (snd w)))
      else if hi_method init = ''DELETE'' then (Inr (demo_answer 200), ((fst w)(url := None), Suc (snd w)))
      else (Inr (demo_answer 405), w1))"

definition store_parse :: url_parser where
  "store_parse s =
     (if starts_with ''urn:'' s then Some \<lparr>ul_protocol = ''urn:'', ul_username = [], ul_password = [], ul_hostname = [],
        ul_pathname = drop 4 s, ul_search = [], ul_hash = [], ul_href = s\<rparr>
      else if starts_with ''http://store/'' s then Some \<lparr>ul_protocol = ''http:'', ul_username = [], ul_password = [],
        ul_hostname = ''store'', ul_pathname = href_base (drop 12 s),
        ul_search = (if href_query s = [] then [] else ''?'' @ href_query s), ul_hash = [], ul_href = s\<rparr>
      else None)"

definition demo_platform :: "demo_world http_platform" where
  "demo_platform = \<lparr>hp_parse = store_parse, hp_fetch = demo_fetch,
     hp_readFile = (\<lambda>f. returnA (''<a> <b> '' @ f @ '' .'')),
     hp_writeFile = (\<lambda>f t. returnA ()), hp_randomHex = returnA ''c1'',
     hp_md5 = (\<lambda>s. ''md5('' @ s @ '')''), hp_sha256 = (\<lambda>s. s)\<rparr>"

definition demo_backend :: sparql_backend where
  "demo_backend = \<lparr>sb_metadata = \<lparr>bm_backendType = ''virtuoso'', bm_capabilities = profile_base\<rparr>,
     sb_queryUrl = ''http://store/sparql'', sb_updateUrl = None, sb_graphStoreUrl = Some ''http://store/data'',
     sb_datasetGraphIri = Some ''urn:jwb:global'', sb_headers = [],
     sb_digestAuth = Some \<lparr>da_username = ''dba'', da_password = ''secret''\<rparr>\<rparr>"

lemma demo_store: "graph_store_protocol demo_platform fst"
  unfolding graph_store_protocol_def
  by (auto simp: demo_platform_def demo_fetch_def demo_answer_def rp_ok_def only_at_def Let_def
      intro!: keeps_intros split: if_splits)

definition demo_graph :: string where
  "demo_graph = ''http://store/data?graph=urn%3Ajwb%3Aentity%3AQ1''"

theorem graph_replaced_exactly_witness:
  "\<exists>s'. replaceNamedGraph demo_platform demo_backend \<lparr>sf_source = ''<f>'', sf_mediaType = N_TRIPLES\<rparr>
      ''urn:jwb:entity:Q1'' ((Map.empty, 0), Some ''i1'') = (Inr 13, s') \<and> fst (fst s') demo_graph = Some ''<a> <b> <f> .'' \<and>
    snd (fst s') = 2 \<and> only_at fst demo_graph (Map.empty, 0) (fst s')"
proof -
  let ?b = "\<lparr>sf_source = ''<f>'', sf_mediaType = N_TRIPLES\<rparr>"
  obtain r s' where c: "replaceNamedGraph demo_platform demo_backend ?b ''urn:jwb:entity:Q1'' ((Map.empty, 0), Some ''i1'') = (r, s')"
    by (cases "replaceNamedGraph demo_platform demo_backend ?b ''urn:jwb:entity:Q1'' ((Map.empty, 0), Some ''i1'')")
  have u: "graphUrl (hp_parse demo_platform) (sb_graphStoreUrl demo_backend) (Some ''urn:jwb:entity:Q1'') = Inr demo_graph"
    by code_simp
  have x: "fst (replaceNamedGraph demo_platform demo_backend ?b ''urn:jwb:entity:Q1'' ((Map.empty, 0), Some ''i1'')) = Inr 13"
    "snd (fst (snd (replaceNamedGraph demo_platform demo_backend ?b ''urn:jwb:entity:Q1'' ((Map.empty, 0), Some ''i1'')))) = 2"
    by code_simp+
  from graph_replaced_exactly [OF demo_store c u] x c show ?thesis
    by (auto simp: demo_platform_def returnA_def)
qed

theorem refused_snapshot_after_reset_witness:
  "\<exists>s'. replaceDataset demo_platform demo_backend \<lparr>sf_source = ''f'', sf_mediaType = ''text/turtle''\<rparr>
      (([''http://store/data?graph=urn%3Ajwb%3Aglobal'' \<mapsto> ''<a> <b> <c> .''], 0), Some ''i1'') =
      (Inl ''M2 snapshot must use application/n-triples'', s') \<and>
    fst (fst s') ''http://store/data?graph=urn%3Ajwb%3Aglobal'' = None"
proof -
  let ?b = "\<lparr>sf_source = ''f'', sf_mediaType = ''text/turtle''\<rparr>"
  let ?u = "''http://store/data?graph=urn%3Ajwb%3Aglobal''"
  let ?s = "(([?u \<mapsto> ''<a> <b> <c> .''], 0), Some ''i1'') :: demo_world sparql_state"
  obtain r s' where c: "replaceDataset demo_platform demo_backend ?b ?s = (r, s')"
    by (cases "replaceDataset demo_platform demo_backend ?b ?s")
  obtain r1 s1 where d: "reset demo_platform demo_backend ''reset:i1'' ?s = (r1, s1)"
    by (cases "reset demo_platform demo_backend ''reset:i1'' ?s")
  have x: "fst (reset demo_platform demo_backend ''reset:i1'' ?s) = Inr ()"
    "fst (fst (snd (reset demo_platform demo_backend ''reset:i1'' ?s))) ?u = None"
    "fst (replaceDataset demo_platform demo_backend ?b ?s) = Inl ''M2 snapshot must use application/n-triples''"
    by code_simp+
  have "\<not> is_ok r \<and> s' = s1"
    using d x(1) by (intro refused_snapshot_after_reset [OF c, where i = "''i1''"]) (simp_all add: N_TRIPLES_def
      demo_backend_def profile_base_def nonempty_text_def)
  with c d x show ?thesis by simp
qed

end
