(* ===== verification/QueryRouter.thy ===== *)
theory QueryRouter
  imports QueryPolicy GenerationResolver SparqlBackend Metrics
begin

text \<open>
  \<open>apps/query-router/src/router.js\<close>: the public query path.  A query is checked against the policy,
  sent to the data plane of the generation the serving pointer names, and answered with the
  generation and the pointer version it came from.  The clock counts whole milliseconds; the deadline
  of a request is an error of the network.
\<close>

section \<open>The platform of the router\<close>

record router_answer = http_response +
  ra_bytes :: "string result"

record 'w router_env =
  re_parse :: url_parser
  re_pointer :: "('w, pointer_value \<times> string list) action"
  re_fetch :: "string \<Rightarrow> http_init \<Rightarrow> ('w, router_answer) action"
  re_now :: "('w, int) action"
  re_maxRequestBytes :: int
  re_maxResponseBytes :: int

text \<open>The trusted resolver with its repository and runtime, or the fixed table of the qualification runs\<close>

datatype 'w resolver = Trusted "'w descriptor_lookup" string | Static "(string \<times> string \<times> string) list"

definition new_router :: "'w resolver option \<Rightarrow> (string \<times> string \<times> string) list option \<Rightarrow> 'w resolver result" where
  "new_router generationResolver targetRegistry =
     (case generationResolver of
        Some r \<Rightarrow> Inr r
      | None \<Rightarrow> (case targetRegistry of
          None \<Rightarrow> Inl ''generation resolver is required''
        | Some entries \<Rightarrow> Inr (Static entries)))"

record 'w router_state =
  rs_world :: 'w
  rs_metrics :: router_metrics
  rs_lastPointer :: "pointer_value option"
  rs_cache :: "resolver_cache option"

definition on_world :: "('w, 'a) action \<Rightarrow> ('w router_state, 'a) action" where
  "on_world m = (\<lambda>s. case m (rs_world s) of (r, w) \<Rightarrow> (r, s\<lparr>rs_world := w\<rparr>))"

definition on_router_metrics :: "(router_metrics, 'a) action \<Rightarrow> ('w router_state, 'a) action" where
  "on_router_metrics m = (\<lambda>s. case m (rs_metrics s) of (r, x) \<Rightarrow> (r, s\<lparr>rs_metrics := x\<rparr>))"

definition on_resolver :: "('w \<times> resolver_cache option, 'a) action \<Rightarrow> ('w router_state, 'a) action" where
  "on_resolver m = (\<lambda>s. case m (rs_world s, rs_cache s) of (r, w, c) \<Rightarrow> (r, s\<lparr>rs_world := w, rs_cache := c\<rparr>))"

section \<open>Its steps\<close>

definition allowedAccept :: "string \<Rightarrow> string" where
  "allowedAccept v = (if List.member [''application/sparql-results+json'', ''application/n-triples''] v
     then v else ''application/sparql-results+json'')"

definition router_code :: "string \<Rightarrow> string" where
  "router_code message = (case rx_find ERROR_CODE message of Some (w, _) \<Rightarrow> w | None \<Rightarrow> ''ROUTER_FAILURE'')"

text \<open>\<open>/^urn:jwb:(?:entity:[QP][1-9][0-9]*|schema:P[1-9][0-9]*|global)$/u\<close>\<close>

definition SERVING_GRAPH :: rx where
  "SERVING_GRAPH = Cat (Lit ''urn:jwb:'') (Alts [Cat (Lit ''entity:'') ENTITY_ID, Cat (Lit ''schema:'') PROPERTY_ID, Lit ''global''])"

fun append_serving_graphs :: "string list \<Rightarrow> string \<Rightarrow> string result" where
  "append_serving_graphs [] href = Inr href"
| "append_serving_graphs (g # gs) href =
     (if \<not> rx_test SERVING_GRAPH g then Inl ''SERVING_GRAPH_INVALID''
      else append_serving_graphs gs (append_param ''default-graph-uri'' g href))"

definition router_datasetUrl :: "url_parser \<Rightarrow> string \<Rightarrow> string list \<Rightarrow> string result" where
  "router_datasetUrl parse v graphIris = bindR (new_URL parse v) (\<lambda>u. append_serving_graphs graphIris (ul_href u))"

definition static_resolve :: "url_parser \<Rightarrow> (string \<times> string \<times> string) list \<Rightarrow> pointer_value \<Rightarrow> data_plane result" where
  "static_resolve parse entries p = (case map_of (rev entries) (pv_generationId p) of
     None \<Rightarrow> Inl UNRESOLVABLE
   | Some (queryUrl, healthUrl) \<Rightarrow> bindR (new_URL parse queryUrl) (\<lambda>u.
       Inr \<lparr>dp_queryUrl = queryUrl, dp_healthUrl = healthUrl, dp_allowedHostname = ul_hostname u\<rparr>))"

definition router_resolve :: "'w router_env \<Rightarrow> 'w resolver \<Rightarrow> pointer_value \<Rightarrow> ('w router_state, data_plane) action" where
  "router_resolve E rv p = (case rv of
     Trusted lookup runtimeType \<Rightarrow> on_resolver (resolve lookup runtimeType p)
   | Static entries \<Rightarrow> liftA (static_resolve (re_parse E) entries p))"

definition router_pointer :: "'w router_env \<Rightarrow> ('w router_state, pointer_value \<times> string list) action" where
  "router_pointer E =
     bindA (on_world (re_pointer E)) (\<lambda>p.
     bindA (readA rs_lastPointer) (\<lambda>last.
     thenA (whenA (case last of None \<Rightarrow> True | Some q \<Rightarrow> pv_version (fst p) \<noteq> pv_version q)
         (on_router_metrics (rm_increment ''serving_pointer_reload_total'')))
     (thenA (modifyA (rs_lastPointer_update (\<lambda>_. Some (fst p)))) (returnA p))))"

definition router_fetch :: "'w router_env \<Rightarrow> string \<Rightarrow> string \<Rightarrow> http_init \<Rightarrow> ('w router_state, router_answer) action" where
  "router_fetch E url allowedHostname init =
     bindA (liftA (new_URL (re_parse E) url)) (\<lambda>target.
     if ul_protocol target \<noteq> ''http:'' \<or> ul_hostname target \<noteq> allowedHostname then raiseA UNRESOLVABLE
     else on_world (re_fetch E (ul_href target) init))"

definition sparql_post :: "string \<Rightarrow> string \<Rightarrow> http_init" where
  "sparql_post accept body = \<lparr>hi_method = ''POST'',
     hi_headers = [(''accept'', accept), (''content-type'', ''application/sparql-query'')], hi_body = Some body\<rparr>"

definition router_ready :: "'w router_env \<Rightarrow> 'w resolver \<Rightarrow> ('w router_state, bool) action" where
  "router_ready E rv =
     catchA
       (bindA (router_pointer E) (\<lambda>p.
        bindA (router_resolve E rv (fst p)) (\<lambda>target.
        bindA (router_fetch E (dp_healthUrl target) (dp_allowedHostname target)
          (sparql_post ''application/sparql-results+json'' ''ASK { ?s ?p ?o }'')) (\<lambda>health.
        returnA (200 \<le> rp_status health \<and> rp_status health \<le> 299)))))
       (\<lambda>_. returnA False)"

record query_answer =
  qa_status :: int
  qa_body :: string
  qa_contentType :: string
  qa_generationId :: string
  qa_pointerVersion :: int

text \<open>\<open>Number(response.headers.get('content-length') ?? 0) > this.maxResponseBytes\<close>\<close>

definition too_large :: "int \<Rightarrow> router_answer \<Rightarrow> bool" where
  "too_large limit a = (case rp_headers a ''content-length'' of None \<Rightarrow> 0 > limit | Some t \<Rightarrow> number_above limit t)"

text \<open>The part of a query that follows the reading of the pointer\<close>

definition route_at :: "'w router_env \<Rightarrow> 'w resolver \<Rightarrow> string \<Rightarrow> string \<Rightarrow> pointer_value \<times> string list \<Rightarrow>
    ('w router_state, query_answer) action" where
  "route_at E rv sparql accept p =
     bindA (router_resolve E rv (fst p)) (\<lambda>target.
     bindA (liftA (router_datasetUrl (re_parse E) (dp_queryUrl target) (snd p))) (\<lambda>queryUrl.
     bindA (on_world (re_now E)) (\<lambda>upstreamStarted.
     bindA (router_fetch E queryUrl (dp_allowedHostname target) (sparql_post (allowedAccept accept) sparql)) (\<lambda>response.
     bindA (on_world (re_now E)) (\<lambda>now.
     thenA (on_router_metrics (rm_set ''upstream_latency_ms'' (now - upstreamStarted)))
     (if \<not> (200 \<le> rp_status response \<and> rp_status response \<le> 299) then raiseA ''UPSTREAM_QUERY_FAILED''
      else if too_large (re_maxResponseBytes E) response then raiseA ''UPSTREAM_RESPONSE_TOO_LARGE''
      else bindA (liftA (ra_bytes response)) (\<lambda>bytes.
        if int (length bytes) > re_maxResponseBytes E then raiseA ''UPSTREAM_RESPONSE_TOO_LARGE''
        else thenA (on_router_metrics (modifyA (rm_activeGeneration_update (\<lambda>_. pv_generationId (fst p)))))
          (thenA (on_router_metrics (rm_set ''pointer_version'' (pv_version (fst p))))
          (returnA \<lparr>qa_status = 200, qa_body = bytes,
             qa_contentType = or_else (rp_headers response ''content-type'') (allowedAccept accept),
             qa_generationId = pv_generationId (fst p), qa_pointerVersion = pv_version (fst p)\<rparr>)))))))))"

definition route :: "'w router_env \<Rightarrow> 'w resolver \<Rightarrow> string \<Rightarrow> string \<Rightarrow> ('w router_state, query_answer) action" where
  "route E rv sparql accept =
     bindA (liftA (validateReadOnlySparql sparql (re_maxRequestBytes E))) (\<lambda>_.
     bindA (router_pointer E) (route_at E rv sparql accept))"

definition router_query :: "'w router_env \<Rightarrow> 'w resolver \<Rightarrow> string \<Rightarrow> string \<Rightarrow> ('w router_state, query_answer) action" where
  "router_query E rv sparql accept =
     bindA (on_world (re_now E)) (\<lambda>started.
     thenA (on_router_metrics (rm_increment ''queries_total''))
     (finallyA
       (catchA (route E rv sparql accept)
         (\<lambda>e. thenA (on_router_metrics (rm_increment ''query_failures_total'')) (raiseA (router_code e))))
       (bindA (on_world (re_now E)) (\<lambda>now.
        on_router_metrics (rm_set ''router_latency_ms'' (now - started))))))"

section \<open>An answer comes from the generation it names\<close>

lemma on_world_eq: "on_world m s = (r, s') \<longleftrightarrow> (\<exists>w. m (rs_world s) = (r, w) \<and> s' = s\<lparr>rs_world := w\<rparr>)"
  by (auto simp: on_world_def split: prod.splits)

text \<open>What the cache may hold: a target that was derived for the generation and version it is filed under\<close>

definition cache_sound :: "'w resolver \<Rightarrow> resolver_cache option \<Rightarrow> bool" where
  "cache_sound rv c \<longleftrightarrow> (\<forall>e lookup runtimeType. c = Some e \<longrightarrow> rv = Trusted lookup runtimeType \<longrightarrow>
     (\<exists>w d w' source. lookup source (rc_generationId e) w = (Inr d, w') \<and>
       deriveTarget d source runtimeType = Inr (rc_target e)))"

lemma resolve_sound:
  assumes "cache_sound (Trusted lookup runtimeType) c" "resolve lookup runtimeType p (w, c) = (r, (w', c'))"
  shows "cache_sound (Trusted lookup runtimeType) c' \<and> (\<forall>t. r = Inr t \<longrightarrow>
    (\<exists>v d v' source. lookup source (pv_generationId p) v = (Inr d, v') \<and> deriveTarget d source runtimeType = Inr t))"
proof (cases "resolver_hit p c")
  case (Some t)
  then have "c' = c \<and> (\<forall>u. r = Inr u \<longrightarrow> u = t)"
    using assms(2) by (auto simp: resolve_def bindA_def liftA_def readA_def split: sum.splits)
  moreover from Some obtain e where "c = Some e" "rc_generationId e = pv_generationId p" "rc_target e = t"
    by (auto simp: resolver_hit_def split: option.splits if_splits)
  ultimately show ?thesis using assms(1) by (fastforce simp: cache_sound_def)
next
  case None
  obtain x v where l: "lookup (pv_sourceIdentity p) (pv_generationId p) w = (x, v)"
    by (cases "lookup (pv_sourceIdentity p) (pv_generationId p) w")
  from None assms(2) l show ?thesis
    using assms(1)
    by (cases x; cases "validatePointer p"; cases "deriveTarget (projr x) (pv_sourceIdentity p) runtimeType";
      auto simp: resolve_def bindA_def liftA_def readA_def on_fst_def thenA_def modifyA_def returnA_def cache_sound_def;
      metis)
qed


definition keeps_cache :: "'w resolver \<Rightarrow> ('w router_state, 'a) action \<Rightarrow> bool" where
  "keeps_cache rv m \<longleftrightarrow> moves (\<lambda>s s'. cache_sound rv (rs_cache s) \<longrightarrow> cache_sound rv (rs_cache s')) m"

lemma cache_rel [simp, intro]:
  "reflp (\<lambda>s s'. cache_sound rv (rs_cache s) \<longrightarrow> cache_sound rv (rs_cache s'))"
  "transp (\<lambda>s s'. cache_sound rv (rs_cache s) \<longrightarrow> cache_sound rv (rs_cache s'))"
  by (auto simp: reflp_def transp_def)

named_theorems cache_intros \<open>actions that keep the cache sound\<close>

lemma cache_combinators [cache_intros]:
  "keeps_cache rv m1 \<Longrightarrow> (\<And>x. keeps_cache rv (f1 x)) \<Longrightarrow> keeps_cache rv (bindA m1 f1)"
  "keeps_cache rv m2 \<Longrightarrow> keeps_cache rv n2 \<Longrightarrow> keeps_cache rv (thenA m2 n2)"
  "keeps_cache rv m3 \<Longrightarrow> keeps_cache rv n3 \<Longrightarrow> keeps_cache rv (if c then m3 else n3)"
  "keeps_cache rv m4 \<Longrightarrow> keeps_cache rv (whenA c m4)"
  "keeps_cache rv m5 \<Longrightarrow> (\<And>e. keeps_cache rv (h5 e)) \<Longrightarrow> keeps_cache rv (catchA m5 h5)"
  "keeps_cache rv m6 \<Longrightarrow> keeps_cache rv n6 \<Longrightarrow> keeps_cache rv (finallyA m6 n6)"
  "keeps_cache rv (returnA y7)" "keeps_cache rv (raiseA e8)" "keeps_cache rv (liftA q9)" "keeps_cache rv (readA g0)"
  by (auto simp: keeps_cache_def intro: moves_intros)

lemma cache_case_prod [cache_intros]: "(\<And>a b. keeps_cache rv (f a b)) \<Longrightarrow> keeps_cache rv (case p of (a, b) \<Rightarrow> f a b)"
  by (cases p) simp

lemma cache_world [cache_intros]: "keeps_cache rv (on_world m)"
  unfolding keeps_cache_def by (rule movesI) (auto simp: on_world_eq)

lemma cache_metrics [cache_intros]: "keeps_cache rv (on_router_metrics m)"
  unfolding keeps_cache_def by (rule movesI) (auto simp: on_router_metrics_def split: prod.splits)

lemma cache_last [cache_intros]: "keeps_cache rv (modifyA (rs_lastPointer_update f))"
  unfolding keeps_cache_def by (rule movesI) auto

lemma cache_resolve [cache_intros]: "keeps_cache (Trusted lookup runtimeType) (router_resolve E (Trusted lookup runtimeType) p)"
  unfolding keeps_cache_def router_resolve_def
  by (rule movesI) (auto simp: on_resolver_def split: prod.splits dest: resolve_sound)

lemma cache_pointer: "keeps_cache rv (router_pointer E)"
  unfolding router_pointer_def by (intro cache_intros)

lemma cache_query: "keeps_cache (Trusted lookup runtimeType) (router_query E (Trusted lookup runtimeType) sparql accept)"
  unfolding router_query_def route_def route_at_def router_pointer_def router_fetch_def by (intro cache_intros)

lemma router_query_Inr:
  assumes "router_query E rv sparql accept s = (Inr a, s')"
  shows "\<exists>s1 s2. rs_cache s1 = rs_cache s \<and> route E rv sparql accept s1 = (Inr a, s2)"
proof -
  from assms obtain n s1 x s2 s3 where n: "on_world (re_now E) s = (Inr n, s1)"
    and i: "on_router_metrics (rm_increment ''queries_total'') s1 = (x, s2)"
    and c: "catchA (route E rv sparql accept)
         (\<lambda>e. thenA (on_router_metrics (rm_increment ''query_failures_total'')) (raiseA (router_code e))) s2 = (Inr a, s3)"
    by (auto simp: router_query_def bindA_Inr thenA_Inr finallyA_Inr)
  have "rs_cache s2 = rs_cache s"
    using n i by (auto simp: on_world_eq on_router_metrics_def split: prod.splits)
  moreover from c have "route E rv sparql accept s2 = (Inr a, s3)"
    by (auto simp: catchA_def thenA_def bindA_def raiseA_def split: prod.splits sum.splits)
  ultimately show ?thesis by blast
qed

text \<open>C13: An answer comes from the generation it names.  As long as the cache of the router is sound, every
  query leaves it sound, and a query that is answered has passed the policy and was sent, unchanged, over
  plain HTTP to the host that the registry's descriptor of the generation of the serving pointer leads
  to; the answer carries the bytes that came back, within the limit, with the generation and the version
  of that pointer.\<close>

theorem answer_from_named_generation:
  assumes "cache_sound (Trusted lookup runtimeType) (rs_cache s)"
    "router_query E (Trusted lookup runtimeType) sparql accept s = (r, s')"
  shows "cache_sound (Trusted lookup runtimeType) (rs_cache s') \<and> (\<forall>a. r = Inr a \<longrightarrow>
    is_ok (validateReadOnlySparql sparql (re_maxRequestBytes E)) \<and>
    (\<exists>p gs v v' d w w' source t url u x x' response.
       re_pointer E v = (Inr (p, gs), v') \<and> lookup source (pv_generationId p) w = (Inr d, w') \<and>
       deriveTarget d source runtimeType = Inr t \<and> router_datasetUrl (re_parse E) (dp_queryUrl t) gs = Inr url \<and>
       re_parse E url = Some u \<and> ul_protocol u = ''http:'' \<and> ul_hostname u = dp_allowedHostname t \<and>
       re_fetch E (ul_href u) (sparql_post (allowedAccept accept) sparql) x = (Inr response, x') \<and>
       ra_bytes response = Inr (qa_body a) \<and> int (length (qa_body a)) \<le> re_maxResponseBytes E \<and>
       qa_generationId a = pv_generationId p \<and> qa_pointerVersion a = pv_version p))"
proof (intro conjI allI impI)
  show "cache_sound (Trusted lookup runtimeType) (rs_cache s')"
    using movesD [OF cache_query [unfolded keeps_cache_def] assms(2)] assms(1) by blast
next
  fix a assume "r = Inr a"
  with assms obtain s1 s2 where s1: "cache_sound (Trusted lookup runtimeType) (rs_cache s1)"
    and route: "route E (Trusted lookup runtimeType) sparql accept s1 = (Inr a, s2)"
    by (metis router_query_Inr)
  then show "is_ok (validateReadOnlySparql sparql (re_maxRequestBytes E))"
    by (auto simp: route_def bindA_Inr)
  from route obtain p gs s3 where p: "router_pointer E s1 = (Inr (p, gs), s3)"
    and rest: "route_at E (Trusted lookup runtimeType) sparql accept (p, gs) s3 = (Inr a, s2)"
    by (auto simp: route_def bindA_Inr)
  have s3: "cache_sound (Trusted lookup runtimeType) (rs_cache s3)"
    using movesD [OF cache_pointer [unfolded keeps_cache_def] p] s1 by blast
  from p have pointer: "\<exists>v v'. re_pointer E v = (Inr (p, gs), v')"
    by (auto simp: router_pointer_def bindA_Inr thenA_Inr on_world_eq)
  from rest obtain t s4 url s5 response s6 where t: "router_resolve E (Trusted lookup runtimeType) p s3 = (Inr t, s4)"
    and url: "router_datasetUrl (re_parse E) (dp_queryUrl t) gs = Inr url"
    and fetch: "router_fetch E url (dp_allowedHostname t) (sparql_post (allowedAccept accept) sparql) s5 = (Inr response, s6)"
    and answer: "ra_bytes response = Inr (qa_body a)" "int (length (qa_body a)) \<le> re_maxResponseBytes E"
      "qa_generationId a = pv_generationId p" "qa_pointerVersion a = pv_version p"
    by (auto simp: route_at_def bindA_Inr thenA_Inr split: if_splits)
  from t have "resolve lookup runtimeType p (rs_world s3, rs_cache s3) = (Inr t, (rs_world s4, rs_cache s4))"
    by (auto simp: router_resolve_def on_resolver_def split: prod.splits)
  from resolve_sound [OF s3 this] obtain w d w' source where
    "lookup source (pv_generationId p) w = (Inr d, w')" "deriveTarget d source runtimeType = Inr t" by blast
  moreover from fetch obtain u x x' where "re_parse E url = Some u" "ul_protocol u = ''http:''"
    "ul_hostname u = dp_allowedHostname t" "re_fetch E (ul_href u) (sparql_post (allowedAccept accept) sparql) x = (Inr response, x')"
    by (auto simp: router_fetch_def bindA_Inr new_URL_def on_world_eq split: option.splits if_splits)
  ultimately show "\<exists>p gs v v' d w w' source t url u x x' response.
       re_pointer E v = (Inr (p, gs), v') \<and> lookup source (pv_generationId p) w = (Inr d, w') \<and>
       deriveTarget d source runtimeType = Inr t \<and> router_datasetUrl (re_parse E) (dp_queryUrl t) gs = Inr url \<and>
       re_parse E url = Some u \<and> ul_protocol u = ''http:'' \<and> ul_hostname u = dp_allowedHostname t \<and>
       re_fetch E (ul_href u) (sparql_post (allowedAccept accept) sparql) x = (Inr response, x') \<and>
       ra_bytes response = Inr (qa_body a) \<and> int (length (qa_body a)) \<le> re_maxResponseBytes E \<and>
       qa_generationId a = pv_generationId p \<and> qa_pointerVersion a = pv_version p"
    using pointer url answer by blast
qed

section \<open>A query through a cluster's data plane\<close>

definition router_demo_parse :: url_parser where
  "router_demo_parse s = Some \<lparr>ul_protocol = ''http:'', ul_username = [], ul_password = [],
     ul_hostname = takeWhile (\<lambda>c. c \<noteq> CHR '':'') (drop 7 s), ul_pathname = [], ul_search = [], ul_hash = [], ul_href = s\<rparr>"

definition router_demo_env :: "unit router_env" where
  "router_demo_env = \<lparr>re_parse = router_demo_parse,
     re_pointer = returnA (\<lparr>pv_queryServiceId = ''q'', pv_sourceIdentity = ''jwb-local'', pv_generationId = ''gen-a'',
       pv_previousGenerationId = None, pv_version = 4, pv_updatedAt = 0\<rparr>, [''urn:jwb:global'']),
     re_fetch = (\<lambda>url init. returnA \<lparr>rp_status = 200, rp_headers = Map.empty, rp_text = Inr url, rp_json = Inr JNull, ra_bytes = Inr url\<rparr>),
     re_now = returnA 7, re_maxRequestBytes = 65536, re_maxResponseBytes = 5000000\<rparr>"

definition router_demo_resolver :: "unit resolver" where
  "router_demo_resolver = Trusted (\<lambda>source g. returnA (demo_descriptor g ''virtuoso'')) ''kubernetes''"

definition router_demo_state :: "unit router_state" where
  "router_demo_state = \<lparr>rs_world = (), rs_metrics = new_router_metrics, rs_lastPointer = None, rs_cache = None\<rparr>"

theorem answer_from_named_generation_witness:
  "\<exists>a s'. router_query router_demo_env router_demo_resolver ''ASK { ?s ?p ?o }'' ''*'' router_demo_state = (Inr a, s') \<and>
    qa_body a = ''http://rdf-virtuoso-gen-a.jwb-query-local.svc.cluster.local:8890/sparql?default-graph-uri=urn%3Ajwb%3Aglobal'' \<and>
    qa_generationId a = ''gen-a'' \<and> qa_pointerVersion a = 4 \<and> int (length (qa_body a)) \<le> 5000000 \<and>
    is_ok (validateReadOnlySparql ''ASK { ?s ?p ?o }'' 65536)"
proof -
  let ?c = "router_query router_demo_env router_demo_resolver ''ASK { ?s ?p ?o }'' ''*'' router_demo_state"
  obtain r s' where c: "?c = (r, s')" by (cases ?c)
  have x: "(case fst ?c of Inl _ \<Rightarrow> None | Inr a \<Rightarrow> Some (qa_body a, qa_generationId a, qa_pointerVersion a)) =
    Some (''http://rdf-virtuoso-gen-a.jwb-query-local.svc.cluster.local:8890/sparql?default-graph-uri=urn%3Ajwb%3Aglobal'', ''gen-a'', 4)"
    by code_simp
  from x c obtain a where a: "r = Inr a" "qa_body a = ''http://rdf-virtuoso-gen-a.jwb-query-local.svc.cluster.local:8890/sparql?default-graph-uri=urn%3Ajwb%3Aglobal''"
    "qa_generationId a = ''gen-a''" "qa_pointerVersion a = 4" by (auto split: sum.splits)
  have "cache_sound router_demo_resolver (rs_cache router_demo_state)"
    by (simp add: cache_sound_def router_demo_state_def)
  from answer_from_named_generation [OF this [unfolded router_demo_resolver_def] c [unfolded router_demo_resolver_def]] a(1)
  have "is_ok (validateReadOnlySparql ''ASK { ?s ?p ?o }'' (re_maxRequestBytes router_demo_env)) \<and>
    int (length (qa_body a)) \<le> re_maxResponseBytes router_demo_env" by blast
  then have "is_ok (validateReadOnlySparql ''ASK { ?s ?p ?o }'' 65536)" "int (length (qa_body a)) \<le> 5000000"
    by (simp_all add: router_demo_env_def)
  with a c show ?thesis by blast
qed

end
