(* ===== verification/MigrationRunner.thy ===== *)
theory MigrationRunner
  imports RuntimeConfig
begin

text \<open>
  \<open>packages/jwb-database/src/migration-runner.js\<close>, \<open>jwb-migrations.js\<close> and \<open>migration-error.js\<close>: the
  numbered SQL files of a directory are applied once each, in order, each in a transaction together
  with the row that records it, under an advisory lock.  The directory, the hash and the execution of
  a file's SQL are parameters; a file's SQL acts on the data and not on the runner's own table.  So is
  the answer of the database to the queries of the runner itself: the connection, the lock, the two
  queries on its table and the release of the lock can each fail.
\<close>

section \<open>Files\<close>

record 'd migration_platform =
  mp_names :: "string list"
  mp_read :: "string \<Rightarrow> string result"
  mp_sha256 :: "string \<Rightarrow> string"
  mp_run :: "string \<Rightarrow> ('d, unit) action"
  mp_connect :: "unit result"
  mp_lock :: "unit result"
  mp_table :: "unit result"
  mp_unlock :: "unit result"

record migration_file =
  mf_version :: string
  mf_sql :: string
  mf_checksum :: string

text \<open>\<open>/^\d{3}_[a-z0-9_]+\.sql$/u\<close>\<close>

definition MIGRATION_NAME :: rx where
  "MIGRATION_NAME = Cats [Times 3 (Cls is_digit), Chr (CHR ''_''),
     Plus1 (Cls (\<lambda>c. is_lower_digit c \<or> c = CHR ''_'')), Lit ''.sql'']"

definition loadMigration :: "'d migration_platform \<Rightarrow> string \<Rightarrow> migration_file result" where
  "loadMigration P version = bindR (mp_read P version) (\<lambda>sql.
     Inr \<lparr>mf_version = version, mf_sql = sql, mf_checksum = mp_sha256 P sql\<rparr>)"

definition migrationFiles :: "'d migration_platform \<Rightarrow> string list option \<Rightarrow> string list result" where
  "migrationFiles P allowlist =
     (let files = sort (filter (rx_test MIGRATION_NAME) (mp_names P)) in
      case allowlist of
        None \<Rightarrow> Inr files
      | Some names \<Rightarrow>
          if length (uniq names) \<noteq> length names \<or> \<not> list_all (List.member files) names
          then Inl ''INVALID_MIGRATION_ALLOWLIST''
          else Inr (filter (List.member names) files))"

section \<open>The database of the runner\<close>

text \<open>
  The data the migrations change, the table \<open>schema_migrations\<close>, the advisory lock of this session, and
  the number of clients taken out of the pool
\<close>

record 'd migration_db =
  mw_data :: 'd
  mw_migrations :: "(string \<times> string) list"
  mw_locked :: bool
  mw_clients :: nat

definition LOCK_ID :: int where
  "LOCK_ID = 0x4a574231"

text \<open>The checksum of an applied version; an empty one counts as none.\<close>

definition applied_checksum :: "(string \<times> string) list \<Rightarrow> string \<Rightarrow> string option" where
  "applied_checksum rows version = nonempty (map_of rows version)"

record migration_state =
  ms_version :: string
  ms_checksum :: string
  ms_state :: string

fun status_of :: "'d migration_platform \<Rightarrow> (string \<times> string) list \<Rightarrow> string list \<Rightarrow> migration_state list result" where
  "status_of P rows [] = Inr []"
| "status_of P rows (v # vs) =
     bindR (loadMigration P v) (\<lambda>f.
     bindR (status_of P rows vs) (\<lambda>rest.
     Inr (\<lparr>ms_version = v, ms_checksum = mf_checksum f,
       ms_state = (case applied_checksum rows v of
          Some c \<Rightarrow> if c = mf_checksum f then ''applied'' else ''checksum_mismatch''
        | None \<Rightarrow> ''pending'')\<rparr> # rest)))"

text \<open>
  \<open>const client = await pool.connect(); try { ... } finally { client.release(); }\<close>
\<close>

definition release_client :: "('d migration_db, unit) action" where
  "release_client = modifyA (mw_clients_update (\<lambda>n. n - 1))"

definition with_client :: "'d migration_platform \<Rightarrow> ('d migration_db, 'a) action \<Rightarrow> ('d migration_db, 'a) action" where
  "with_client P m = thenA (liftA (mp_connect P)) (thenA (modifyA (mw_clients_update Suc)) (finallyA m release_client))"

text \<open>The table is created when it is missing, and read.\<close>

definition read_table :: "'d migration_platform \<Rightarrow> ('d migration_db, (string \<times> string) list) action" where
  "read_table P = thenA (liftA (mp_table P)) (readA mw_migrations)"

definition migrationStatus :: "'d migration_platform \<Rightarrow> string list option \<Rightarrow> ('d migration_db, migration_state list) action" where
  "migrationStatus P allowlist = with_client P
     (bindA (read_table P) (\<lambda>rows.
     bindA (liftA (migrationFiles P allowlist)) (\<lambda>versions.
     liftA (status_of P rows versions))))"

fun pending_of :: "'d migration_platform \<Rightarrow> (string \<times> string) list \<Rightarrow> string list \<Rightarrow> migration_file list result" where
  "pending_of P rows [] = Inr []"
| "pending_of P rows (v # vs) =
     bindR (loadMigration P v) (\<lambda>f.
     case applied_checksum rows v of
       Some c \<Rightarrow> if c \<noteq> mf_checksum f then Inl (''MIGRATION_CHECKSUM_MISMATCH:'' @ v) else pending_of P rows vs
     | None \<Rightarrow> bindR (pending_of P rows vs) (\<lambda>rest. Inr (f # rest)))"

definition on_data :: "('d, 'a) action \<Rightarrow> ('d migration_db, 'a) action" where
  "on_data m = (\<lambda>s. case m (mw_data s) of (r, d) \<Rightarrow> (r, s\<lparr>mw_data := d\<rparr>))"

text \<open>\<open>version\<close> is the primary key of the table.\<close>

definition record_migration :: "migration_file \<Rightarrow> ('d migration_db, unit) action" where
  "record_migration f =
     bindA (readA mw_migrations) (\<lambda>rows.
     if map_of rows (mf_version f) \<noteq> None then raiseA ''duplicate key value violates unique constraint''
     else modifyA (mw_migrations_update (\<lambda>rows. rows @ [(mf_version f, mf_checksum f)])))"

definition apply_migration :: "'d migration_platform \<Rightarrow> migration_file \<Rightarrow> ('d migration_db, unit) action" where
  "apply_migration P f = transactionA (thenA (on_data (mp_run P (mf_sql f))) (record_migration f))"

definition listed :: "migration_file list \<Rightarrow> (string \<times> string) list" where
  "listed fs = map (\<lambda>f. (mf_version f, mf_checksum f)) fs"

definition take_lock :: "'d migration_platform \<Rightarrow> ('d migration_db, unit) action" where
  "take_lock P = thenA (liftA (mp_lock P)) (modifyA (mw_locked_update (\<lambda>_. True)))"

definition release_lock :: "'d migration_platform \<Rightarrow> ('d migration_db, unit) action" where
  "release_lock P = thenA (liftA (mp_unlock P)) (modifyA (mw_locked_update (\<lambda>_. False)))"

definition migrate :: "'d migration_platform \<Rightarrow> bool \<Rightarrow> string list option \<Rightarrow> ('d migration_db, (string \<times> string) list) action" where
  "migrate P dryRun allowlist = with_client P
     (finallyA
       (thenA (take_lock P)
       (bindA (read_table P) (\<lambda>rows.
        bindA (liftA (migrationFiles P allowlist)) (\<lambda>versions.
        bindA (liftA (pending_of P rows versions)) (\<lambda>pending.
        if dryRun then returnA (listed pending)
        else thenA (forA pending (apply_migration P)) (returnA (listed pending)))))))
       (release_lock P))"

definition JWB_MIGRATIONS :: "string list" where
  "JWB_MIGRATIONS = [''005_rdf_sync_runtime.sql'', ''006_rdf_generation_lifecycle.sql'', ''007_query_serving_pointer.sql'',
     ''008_generation_scoped_sync.sql'', ''009_rdf_normalization_manifest.sql'', ''010_generation_coordinator.sql'',
     ''011_retirement_safety_contract.sql'', ''012_retirement_delete_evidence.sql'',
     ''013_generation_control_plane_contract.sql'']"

definition migrateJwb :: "'d migration_platform \<Rightarrow> bool \<Rightarrow> ('d migration_db, (string \<times> string) list) action" where
  "migrateJwb P dryRun = migrate P dryRun (Some JWB_MIGRATIONS)"

definition jwbMigrationStatus :: "'d migration_platform \<Rightarrow> ('d migration_db, migration_state list) action" where
  "jwbMigrationStatus P = migrationStatus P (Some JWB_MIGRATIONS)"

section \<open>Evidence of an error\<close>

definition CONNECTION_CODES :: "string list" where
  "CONNECTION_CODES = [''08001'', ''08003'', ''08006'', ''57P01'', ''57P02'', ''57P03'', ''ECONNREFUSED'', ''ECONNRESET'']"

definition SQLSTATE :: rx where
  "SQLSTATE = Times 5 (Cls (\<lambda>c. is_digit c \<or> is_upper c))"

text \<open>\<open>error.code\<close> when it is a text, and the message\<close>

definition migrationErrorEvidence :: "string option \<Rightarrow> string \<Rightarrow> string \<times> string option" where
  "migrationErrorEvidence code message =
     ((if List.member CONNECTION_CODES (or_else code []) then ''JWB_DB_CONNECTION_FAILED''
       else if starts_with ''MIGRATION_CHECKSUM_MISMATCH:'' message then ''JWB_MIGRATION_CHECKSUM_MISMATCH''
       else if code = Some ''55P03'' then ''JWB_MIGRATION_LOCK_FAILED''
       else if (case nonempty code of Some c \<Rightarrow> rx_test SQLSTATE c | None \<Rightarrow> False) then ''JWB_MIGRATION_APPLY_FAILED''
       else ''JWB_MIGRATION_UNKNOWN_FAILED''), code)"

section \<open>What a run leaves\<close>

text \<open>The data after the SQL of some files, each of which succeeded\<close>

inductive ran :: "'d migration_platform \<Rightarrow> migration_file list \<Rightarrow> 'd \<Rightarrow> 'd \<Rightarrow> bool" for P where
  ran_none: "ran P [] d d"
| ran_more: "mp_run P (mf_sql f) d = (Inr (), e) \<Longrightarrow> ran P fs e e' \<Longrightarrow> ran P (f # fs) d e'"

lemma apply_migration_cases:
  assumes "apply_migration P f s = (r, s')"
  shows "(\<not> is_ok r \<and> s' = s) \<or> (r = Inr () \<and> (\<exists>e. mp_run P (mf_sql f) (mw_data s) = (Inr (), e) \<and>
    s' = s\<lparr>mw_data := e, mw_migrations := mw_migrations s @ [(mf_version f, mf_checksum f)]\<rparr>))"
proof (cases r)
  case (Inl e)
  with assms show ?thesis by (auto simp: apply_migration_def dest: transactionA_error)
next
  case (Inr u)
  with assms show ?thesis
    by (auto simp: apply_migration_def transactionA_ok thenA_Inr on_data_def record_migration_def bindA_Inr
        split: prod.splits if_splits)
qed

lemma apply_migrations_clients:
  "forA fs (apply_migration P) s = (r, s') \<Longrightarrow> mw_clients s' = mw_clients s"
proof (induction fs arbitrary: s)
  case (Cons f fs)
  obtain r1 s1 where 1: "apply_migration P f s = (r1, s1)" by (cases "apply_migration P f s")
  from apply_migration_cases [OF 1] Cons.IH [of s1] Cons.prems 1 show ?case
    by (cases r1) (auto simp: thenA_def bindA_def)
qed auto

lemma apply_migrations:
  assumes "forA fs (apply_migration P) s = (r, s')"
  shows "\<exists>run rest. fs = run @ rest \<and> ran P run (mw_data s) (mw_data s') \<and>
    mw_migrations s' = mw_migrations s @ listed run \<and> (is_ok r \<longleftrightarrow> rest = []) \<and> mw_locked s' = mw_locked s"
  using assms
proof (induction fs arbitrary: s)
  case Nil
  then show ?case by (auto simp: listed_def intro: ran_none)
next
  case (Cons f fs)
  obtain r1 s1 where 1: "apply_migration P f s = (r1, s1)" by (cases "apply_migration P f s")
  from apply_migration_cases [OF 1] show ?case
  proof (elim disjE conjE exE)
    assume "\<not> is_ok r1" "s1 = s"
    then have "\<not> is_ok r \<and> s' = s" using Cons.prems 1 by (cases r1) (auto simp: thenA_def bindA_def)
    then show ?thesis by (intro exI [of _ "[]"] exI [of _ "f # fs"]) (auto simp: listed_def intro: ran_none)
  next
    fix e assume r1: "r1 = Inr ()" and e: "mp_run P (mf_sql f) (mw_data s) = (Inr (), e)"
      and s1: "s1 = s\<lparr>mw_data := e, mw_migrations := mw_migrations s @ [(mf_version f, mf_checksum f)]\<rparr>"
    then have "forA fs (apply_migration P) s1 = (r, s')" using Cons.prems 1 by (simp add: thenA_def bindA_def)
    from Cons.IH [OF this] obtain run rest where "fs = run @ rest" "ran P run (mw_data s1) (mw_data s')"
      "mw_migrations s' = mw_migrations s1 @ listed run" "is_ok r \<longleftrightarrow> rest = []" "mw_locked s' = mw_locked s1" by blast
    with e s1 show ?thesis
      by (intro exI [of _ "f # run"] exI [of _ rest]) (auto simp: listed_def intro: ran_more)
  qed
qed

text \<open>What a run has to apply, or why it applies nothing\<close>

definition pending_files :: "'d migration_platform \<Rightarrow> string list option \<Rightarrow> (string \<times> string) list \<Rightarrow> migration_file list result" where
  "pending_files P allowlist rows =
     bindR (mp_connect P) (\<lambda>_. bindR (mp_lock P) (\<lambda>_. bindR (mp_table P) (\<lambda>_.
     bindR (migrationFiles P allowlist) (pending_of P rows))))"

definition run_left :: "'d migration_platform \<Rightarrow> string list option \<Rightarrow> 'd migration_db \<Rightarrow> (string \<times> string) list result \<Rightarrow> 'd migration_db \<Rightarrow> bool" where
  "run_left P allowlist s r s' \<longleftrightarrow>
     (case pending_files P allowlist (mw_migrations s) of
        Inl e \<Rightarrow> \<not> is_ok r \<and> mw_data s' = mw_data s \<and> mw_migrations s' = mw_migrations s \<and> (is_ok (mp_unlock P) \<longrightarrow> r = Inl e)
      | Inr pending \<Rightarrow> \<exists>run rest. pending = run @ rest \<and> ran P run (mw_data s) (mw_data s') \<and>
          mw_migrations s' = mw_migrations s @ listed run \<and> (is_ok r \<longleftrightarrow> rest = [] \<and> is_ok (mp_unlock P)) \<and>
          (is_ok r \<longrightarrow> r = Inr (listed pending)))"

lemmas run_steps = with_client_def release_client_def release_lock_def take_lock_def read_table_def finallyA_def
  thenA_def bindA_def readA_def modifyA_def liftA_def returnA_def

lemma stopped_run:
  assumes "migrate P False allowlist s = (r, s')" "pending_files P allowlist (mw_migrations s) = Inl e"
  shows "mw_clients s' = mw_clients s \<and> (is_ok (mp_connect P) \<and> is_ok (mp_unlock P) \<longrightarrow> \<not> mw_locked s') \<and>
    run_left P allowlist s r s'"
  using assms
  by (cases "mp_connect P"; cases "mp_lock P"; cases "mp_table P"; cases "mp_unlock P")
    (auto simp: migrate_def run_steps run_left_def pending_files_def bindR_eq_Inl)

lemma started_run:
  assumes "migrate P False allowlist s = (r, s')" "pending_files P allowlist (mw_migrations s) = Inr pending"
  shows "mw_clients s' = mw_clients s \<and> (is_ok (mp_connect P) \<and> is_ok (mp_unlock P) \<longrightarrow> \<not> mw_locked s') \<and>
    run_left P allowlist s r s'"
proof -
  let ?s = "mw_clients_update Suc s\<lparr>mw_locked := True\<rparr>"
  obtain r1 s1 where f: "forA pending (apply_migration P) ?s = (r1, s1)"
    by (cases "forA pending (apply_migration P) ?s")
  from assms(2) obtain versions where v: "migrationFiles P allowlist = Inr versions"
    "pending_of P (mw_migrations s) versions = Inr pending"
    and c: "mp_connect P = Inr ()" "mp_lock P = Inr ()" "mp_table P = Inr ()"
    by (auto simp: pending_files_def bindR_eq_Inr)
  note a = apply_migrations [OF f] and n = apply_migrations_clients [OF f]
  show ?thesis
  proof (cases "mp_unlock P")
    case (Inl e)
    with assms(1) f v c have "s' = mw_clients_update (\<lambda>n. n - 1) s1 \<and> r = Inl e"
      by (cases r1) (auto simp: migrate_def run_steps)
    with a n assms(2) Inl show ?thesis by (auto simp: run_left_def)
  next
    case (Inr u)
    with assms(1) f v c have "s' = mw_clients_update (\<lambda>n. n - 1) (s1\<lparr>mw_locked := False\<rparr>) \<and>
        r = (case r1 of Inl e \<Rightarrow> Inl e | Inr _ \<Rightarrow> Inr (listed pending))"
      by (cases r1) (auto simp: migrate_def run_steps)
    with a n assms(2) Inr show ?thesis by (cases r1) (auto simp: run_left_def)
  qed
qed

text \<open>C29: However a run of the migrations ends, it gives back its client and its lock, and what it leaves
  is settled.  The client goes back to the pool in every case, and the lock is released whenever the
  database answers the unlock query: also when a file cannot be read, when the list of files is
  refused and when a file was changed after it was applied.  If the run stops before it applies
  anything, nothing has changed and it fails with that reason.  Otherwise it has executed the SQL
  of the first so many pending files, in order, with one row for each of them and none for another
  file; it succeeds only when they are all applied, and then it reports them.\<close>

theorem migrations_applied_in_order:
  assumes "migrate P False allowlist s = (r, s')"
  shows "mw_clients s' = mw_clients s \<and> (is_ok (mp_connect P) \<and> is_ok (mp_unlock P) \<longrightarrow> \<not> mw_locked s') \<and>
    (case pending_files P allowlist (mw_migrations s) of
       Inl e \<Rightarrow> \<not> is_ok r \<and> mw_data s' = mw_data s \<and> mw_migrations s' = mw_migrations s \<and> (is_ok (mp_unlock P) \<longrightarrow> r = Inl e)
     | Inr pending \<Rightarrow> \<exists>run rest. pending = run @ rest \<and> ran P run (mw_data s) (mw_data s') \<and>
         mw_migrations s' = mw_migrations s @ listed run \<and> (is_ok r \<longleftrightarrow> rest = [] \<and> is_ok (mp_unlock P)) \<and>
         (is_ok r \<longrightarrow> r = Inr (listed pending)))"
  using stopped_run [OF assms] started_run [OF assms]
  unfolding run_left_def by (cases "pending_files P allowlist (mw_migrations s)") simp_all

section \<open>Running twice\<close>

lemma pending_load:
  "pending_of P rows vs = Inr fs \<Longrightarrow> f \<in> set fs \<Longrightarrow> loadMigration P (mf_version f) = Inr f"
  by (induction vs arbitrary: fs)
    (auto simp: bindR_eq_Inr loadMigration_def split: option.splits if_splits)

lemma listed_value: "map_of (listed fs) v = Some c \<Longrightarrow> \<exists>f \<in> set fs. mf_version f = v \<and> mf_checksum f = c"
  by (auto simp: listed_def dest!: map_of_SomeD)

lemma recorded_pending:
  assumes "\<And>t. mp_sha256 P t \<noteq> []"
    "pending_of P rows vs = Inr fs" "list_all (\<lambda>(v, c). c \<noteq> []) rows"
    "set fs \<subseteq> set all" "\<And>f. f \<in> set all \<Longrightarrow> loadMigration P (mf_version f) = Inr f"
  shows "pending_of P (rows @ listed all) vs = Inr []"
  using assms(2,4)
proof (induction vs arbitrary: fs)
  case (Cons v vs)
  from Cons.prems obtain f where f: "loadMigration P v = Inr f" by (auto simp: bindR_eq_Inr)
  have nf: "mf_checksum f \<noteq> []" "mf_version f = v" using f assms(1) by (auto simp: loadMigration_def bindR_eq_Inr)
  show ?case
  proof (cases "map_of rows v")
    case None
    with Cons.prems f obtain rest where rest: "pending_of P rows vs = Inr rest" "fs = f # rest"
      by (auto simp: applied_checksum_def nonempty_def bindR_eq_Inr)
    then have "f \<in> set all" using Cons.prems by auto
    then have "v \<in> fst ` set (listed all)" using nf(2) by (force simp: listed_def)
    then have "map_of (listed all) v \<noteq> None" by (simp add: map_of_eq_None_iff)
    then obtain c where c: "map_of (listed all) v = Some c" by auto
    then obtain g where "g \<in> set all" "mf_version g = v" "mf_checksum g = c" by (auto dest: listed_value)
    with assms(5) f have "c = mf_checksum f" by fastforce
    with c None have "applied_checksum (rows @ listed all) v = Some (mf_checksum f)"
      using nf by (cases "mf_checksum f") (auto simp: applied_checksum_def map_add_def nonempty_def)
    with f Cons.IH [OF rest(1)] rest(2) Cons.prems show ?thesis by simp
  next
    case (Some c)
    then have "c \<noteq> []" using assms(3) by (auto simp: list_all_iff dest: map_of_SomeD)
    with Some have a: "applied_checksum rows v = Some c" "applied_checksum (rows @ listed all) v = Some c"
      by (cases c; auto simp: applied_checksum_def map_add_def nonempty_def)+
    with Cons.prems f have "pending_of P rows vs = Inr fs" "c = mf_checksum f" by (auto split: if_splits)
    with a f Cons show ?thesis by simp
  qed
qed simp

lemma migrate_ok:
  assumes "migrate P False allowlist s = (Inr l, s')"
  shows "\<exists>pending. mp_connect P = Inr () \<and> mp_lock P = Inr () \<and> mp_table P = Inr () \<and> mp_unlock P = Inr () \<and>
    pending_files P allowlist (mw_migrations s) = Inr pending"
proof (cases "pending_files P allowlist (mw_migrations s)")
  case (Inl e)
  with stopped_run [OF assms Inl] show ?thesis by (simp add: run_left_def)
next
  case (Inr pending)
  with started_run [OF assms Inr] show ?thesis
    by (cases "mp_unlock P") (auto simp: run_left_def pending_files_def bindR_eq_Inr)
qed

text \<open>Migrating is idempotent.  With checksums that are never empty, a run that succeeded can be
  repeated: the second run finds nothing to do, succeeds and changes nothing.\<close>

theorem migrate_twice:
  assumes "\<And>t. mp_sha256 P t \<noteq> []" "list_all (\<lambda>(v, c). c \<noteq> []) (mw_migrations s)"
    "migrate P False allowlist s = (Inr l, s')"
  shows "migrate P False allowlist s' = (Inr [], s')"
proof -
  from migrate_ok [OF assms(3)] obtain pending where c: "mp_connect P = Inr ()" "mp_lock P = Inr ()" "mp_table P = Inr ()"
    "mp_unlock P = Inr ()" and p: "pending_files P allowlist (mw_migrations s) = Inr pending" by blast
  then obtain versions where v: "migrationFiles P allowlist = Inr versions"
    "pending_of P (mw_migrations s) versions = Inr pending" by (auto simp: pending_files_def bindR_eq_Inr)
  from started_run [OF assms(3) p] c p have m: "mw_migrations s' = mw_migrations s @ listed pending"
    and unlocked: "\<not> mw_locked s'" by (auto simp: run_left_def)
  have "pending_of P (mw_migrations s') versions = Inr []"
    unfolding m by (rule recorded_pending [OF assms(1) v(2) assms(2) subset_refl pending_load [OF v(2)]])
  with v(1) unlocked c show ?thesis by (simp add: migrate_def run_steps listed_def)
qed


section \<open>Two migrations\<close>

text \<open>The data is the list of the statements that were executed; one statement is refused.\<close>

definition demo_migrations :: "string list migration_platform" where
  "demo_migrations = \<lparr>mp_names = [''README.md'', ''006_b.sql'', ''005_a.sql'', ''007_bad.sql''],
     mp_read = (\<lambda>v. Inr (''CREATE '' @ v)), mp_sha256 = (\<lambda>t. ''h:'' @ t),
     mp_run = (\<lambda>sql d. if sql = ''CREATE 007_bad.sql'' then (Inl ''syntax error'', d) else (Inr (), d @ [sql])),
     mp_connect = Inr (), mp_lock = Inr (), mp_table = Inr (), mp_unlock = Inr ()\<rparr>"

definition fresh_migrations :: "string list migration_db" where
  "fresh_migrations = \<lparr>mw_data = [], mw_migrations = [], mw_locked = False, mw_clients = 0\<rparr>"

lemma demo_pending:
  "pending_files demo_migrations None (mw_migrations fresh_migrations) =
    Inr [\<lparr>mf_version = ''005_a.sql'', mf_sql = ''CREATE 005_a.sql'', mf_checksum = ''h:CREATE 005_a.sql''\<rparr>,
      \<lparr>mf_version = ''006_b.sql'', mf_sql = ''CREATE 006_b.sql'', mf_checksum = ''h:CREATE 006_b.sql''\<rparr>,
      \<lparr>mf_version = ''007_bad.sql'', mf_sql = ''CREATE 007_bad.sql'', mf_checksum = ''h:CREATE 007_bad.sql''\<rparr>]"
  by code_simp

theorem migrations_applied_in_order_witness:
  "\<exists>r s'. migrate demo_migrations False None fresh_migrations = (r, s') \<and> \<not> is_ok r \<and> \<not> mw_locked s' \<and> mw_clients s' = 0 \<and>
    mw_data s' = [''CREATE 005_a.sql'', ''CREATE 006_b.sql''] \<and> length (mw_migrations s') < 3"
proof -
  obtain r s' where c: "migrate demo_migrations False None fresh_migrations = (r, s')"
    by (cases "migrate demo_migrations False None fresh_migrations")
  have x: "fst (migrate demo_migrations False None fresh_migrations) = Inl ''syntax error''"
    "mw_data (snd (migrate demo_migrations False None fresh_migrations)) = [''CREATE 005_a.sql'', ''CREATE 006_b.sql'']"
    by code_simp+
  have ok: "is_ok (mp_connect demo_migrations)" "is_ok (mp_unlock demo_migrations)" by (simp_all add: demo_migrations_def)
  note left = migrations_applied_in_order [OF c]
  from left c x ok have "length (mw_migrations s') < 3"
    unfolding demo_pending
    by (auto simp: listed_def fresh_migrations_def append_eq_Cons_conv Cons_eq_append_conv)
  moreover from left ok have "\<not> mw_locked s'" "mw_clients s' = 0" by (simp_all add: fresh_migrations_def)
  ultimately show ?thesis using c x by simp
qed

text \<open>A file that was changed after it was applied: nothing happens, and the lock is free again.\<close>

lemma changed_file_releases_lock:
  "(case migrate demo_migrations False None (fresh_migrations\<lparr>mw_migrations := [(''006_b.sql'', ''h:other'')]\<rparr>) of
      (r, s') \<Rightarrow> r = Inl ''MIGRATION_CHECKSUM_MISMATCH:006_b.sql'' \<and> \<not> mw_locked s' \<and> mw_data s' = [])"
  by code_simp

definition demo_pair :: "string list option" where
  "demo_pair = Some [''006_b.sql'', ''005_a.sql'']"

theorem migrate_twice_witness:
  "\<exists>s'. migrate demo_migrations False demo_pair fresh_migrations =
      (Inr [(''005_a.sql'', ''h:CREATE 005_a.sql''), (''006_b.sql'', ''h:CREATE 006_b.sql'')], s') \<and>
    mw_data s' = [''CREATE 005_a.sql'', ''CREATE 006_b.sql''] \<and>
    migrate demo_migrations False demo_pair s' = (Inr [], s')"
proof -
  let ?l = "[(''005_a.sql'', ''h:CREATE 005_a.sql''), (''006_b.sql'', ''h:CREATE 006_b.sql'')]"
  obtain r s' where c: "migrate demo_migrations False demo_pair fresh_migrations = (r, s')"
    by (cases "migrate demo_migrations False demo_pair fresh_migrations")
  have x: "fst (migrate demo_migrations False demo_pair fresh_migrations) = Inr ?l"
    "mw_data (snd (migrate demo_migrations False demo_pair fresh_migrations)) = [''CREATE 005_a.sql'', ''CREATE 006_b.sql'']"
    by code_simp+
  with c have c': "migrate demo_migrations False demo_pair fresh_migrations = (Inr ?l, s')" by simp
  have "migrate demo_migrations False demo_pair s' = (Inr [], s')"
    by (rule migrate_twice [OF _ _ c']) (simp_all add: demo_migrations_def fresh_migrations_def)
  with c' x c show ?thesis by auto
qed

end
