(* ===== verification/LocalComposeDriver.thy ===== *)
theory LocalComposeDriver
  imports SparqlBackend Generation
begin

text \<open>
  \<open>services/rdf-sync/src/local-compose-generation-driver.js\<close>: generations as Compose projects of the
  local Docker.  Running a command and drawing a random password are parameters, and so are the
  directory of the program and the environment of its process.  The backend type is not the name of a
  property that every JavaScript object inherits.
\<close>

record compose_profile =
  cf_key :: string
  cf_ports :: "(string \<times> string) list"

definition COMPOSE_PROFILES :: "(string \<times> compose_profile) list" where
  "COMPOSE_PROFILES =
     [(''virtuoso'', \<lparr>cf_key = ''virtuoso'', cf_ports = [(''gen-a'', ''19190''), (''gen-b'', ''19191''), (''gen-c'', ''19192'')]\<rparr>),
      (''oxigraph'', \<lparr>cf_key = ''oxigraph'', cf_ports = [(''gen-a'', ''18178''), (''gen-b'', ''18179''), (''gen-c'', ''18180'')]\<rparr>),
      (''fuseki-tdb2'', \<lparr>cf_key = ''fuseki'', cf_ports = [(''gen-a'', ''13330''), (''gen-b'', ''13331''), (''gen-c'', ''13332'')]\<rparr>)]"

text \<open>\<open>execFile(command, args, {cwd, env})\<close>\<close>

record 'w compose_platform =
  cp_exec :: "string \<Rightarrow> string list \<Rightarrow> string \<Rightarrow> (string \<times> string) list \<Rightarrow> ('w, unit) action"
  cp_randomPassword :: "('w, string) action"
  cp_root :: string
  cp_environment :: "(string \<times> string) list"

record compose_driver =
  cd_backendType :: string
  cd_profile :: compose_profile
  cd_dockerContext :: string
  cd_adminPassword :: "string option"

definition new_compose_driver :: "string \<Rightarrow> string option \<Rightarrow> string option \<Rightarrow> compose_driver result" where
  "new_compose_driver backendType dockerContext adminPassword =
     (case map_of COMPOSE_PROFILES backendType of
        None \<Rightarrow> Inl ''unsupported local generation backend''
      | Some profile \<Rightarrow>
          if or_else dockerContext ''desktop-linux'' \<noteq> ''desktop-linux'' then Inl ''local generation driver requires Docker Desktop''
          else if (case adminPassword of None \<Rightarrow> False | Some p \<Rightarrow> length p < 16) then Inl ''invalid local backend credential''
          else Inr \<lparr>cd_backendType = backendType, cd_profile = profile,
            cd_dockerContext = or_else dockerContext ''desktop-linux'', cd_adminPassword = adminPassword\<rparr>)"

text \<open>The state of the actions: the world and the passwords by generation\<close>

type_synonym 'w compose_state = "'w \<times> (string \<rightharpoonup> string)"

record compose_endpoints =
  ce_queryUrl :: string
  ce_updateUrl :: string
  ce_graphStoreUrl :: string
  ce_digestAuth :: "digest_auth option"

record compose_descriptor =
  co_generationId :: string
  co_backendType :: string
  co_project :: string
  co_root :: string
  co_file :: string
  co_port :: string
  co_env :: "(string \<times> string) list"
  co_endpoints :: compose_endpoints

definition compose_endpoints_of :: "string \<Rightarrow> string \<Rightarrow> string \<Rightarrow> compose_endpoints" where
  "compose_endpoints_of backendType port password =
     (let base = ''http://127.0.0.1:'' @ port in
      if backendType = ''fuseki-tdb2'' then
        \<lparr>ce_queryUrl = base @ ''/jwb/query'', ce_updateUrl = base @ ''/jwb/update'', ce_graphStoreUrl = base @ ''/jwb/data'',
         ce_digestAuth = None\<rparr>
      else if backendType = ''oxigraph'' then
        \<lparr>ce_queryUrl = base @ ''/query'', ce_updateUrl = base @ ''/update'', ce_graphStoreUrl = base @ ''/store'',
         ce_digestAuth = None\<rparr>
      else
        \<lparr>ce_queryUrl = base @ ''/sparql'', ce_updateUrl = base @ ''/sparql-auth'',
         ce_graphStoreUrl = base @ ''/sparql-graph-crud-auth'',
         ce_digestAuth = Some \<lparr>da_username = ''dba'', da_password = password\<rparr>\<rparr>)"

definition compose_password :: "'w compose_platform \<Rightarrow> compose_driver \<Rightarrow> string \<Rightarrow> ('w compose_state, string) action" where
  "compose_password P c g =
     bindA (readA snd) (\<lambda>passwords.
     bindA (case passwords g of
              Some p \<Rightarrow> returnA p
            | None \<Rightarrow> (case cd_adminPassword c of Some p \<Rightarrow> returnA p | None \<Rightarrow> on_fst (cp_randomPassword P))) (\<lambda>password.
     thenA (modifyA (\<lambda>s. (fst s, (snd s)(g \<mapsto> password)))) (returnA password)))"

definition compose_descriptor_of :: "'w compose_platform \<Rightarrow> compose_driver \<Rightarrow> string \<Rightarrow> string \<Rightarrow> string \<Rightarrow> compose_descriptor" where
  "compose_descriptor_of P c g port password =
     \<lparr>co_generationId = g, co_backendType = cd_backendType c,
      co_project = ''wfp-jwb-m9-'' @ cf_key (cd_profile c) @ ''-'' @ g, co_root = cp_root P,
      co_file = cp_root P @ ''compose.rdf-'' @ cf_key (cd_profile c) @ ''.yaml'', co_port = port,
      co_env = [(''DOCKER_CONTEXT'', cd_dockerContext c), (''JWB_RDF_HOST_PORT'', port), (''JWB_RDF_ADMIN_PASSWORD'', password)],
      co_endpoints = compose_endpoints_of (cd_backendType c) port password\<rparr>"

definition compose_describe :: "'w compose_platform \<Rightarrow> compose_driver \<Rightarrow> string \<Rightarrow> ('w compose_state, compose_descriptor) action" where
  "compose_describe P c g =
     bindA (liftA (validateGenerationId g)) (\<lambda>_.
     case map_of (cf_ports (cd_profile c)) g of
       None \<Rightarrow> raiseA ''generation ID is not allocated by local profile''
     | Some port \<Rightarrow> bindA (compose_password P c g) (\<lambda>password. returnA (compose_descriptor_of P c g port password)))"

record public_descriptor =
  pb_generationId :: string
  pb_backendType :: string
  pb_queryUrl :: string
  pb_healthUrl :: string
  pb_storageIdentity :: string

definition publicDescriptor :: "compose_descriptor \<Rightarrow> public_descriptor" where
  "publicDescriptor v = \<lparr>pb_generationId = co_generationId v, pb_backendType = co_backendType v,
     pb_queryUrl = ce_queryUrl (co_endpoints v), pb_healthUrl = ce_queryUrl (co_endpoints v),
     pb_storageIdentity = co_project v @ ''_data''\<rparr>"

definition compose_run :: "'w compose_platform \<Rightarrow> compose_descriptor \<Rightarrow> string list \<Rightarrow> ('w compose_state, unit) action" where
  "compose_run P v args = on_fst (cp_exec P ''docker''
     ([''compose'', ''--project-name'', co_project v, ''--file'', co_file v] @ args) (co_root v)
     (spread (cp_environment P) (co_env v)))"

definition compose_create :: "'w compose_platform \<Rightarrow> compose_driver \<Rightarrow> string \<Rightarrow> ('w compose_state, public_descriptor) action" where
  "compose_create P c g = bindA (compose_describe P c g) (\<lambda>v.
     thenA (compose_run P v [''up'', ''--detach'', ''--build'']) (returnA (publicDescriptor v)))"

definition compose_start :: "'w compose_platform \<Rightarrow> compose_driver \<Rightarrow> string \<Rightarrow> ('w compose_state, public_descriptor) action" where
  "compose_start P c g = bindA (compose_describe P c g) (\<lambda>v.
     thenA (compose_run P v [''start'', ''rdf-backend'']) (returnA (publicDescriptor v)))"

definition compose_restart :: "'w compose_platform \<Rightarrow> compose_driver \<Rightarrow> string \<Rightarrow> ('w compose_state, public_descriptor) action" where
  "compose_restart P c g = bindA (compose_describe P c g) (\<lambda>v.
     thenA (compose_run P v [''restart'', ''rdf-backend'']) (returnA (publicDescriptor v)))"

definition compose_stop :: "'w compose_platform \<Rightarrow> compose_driver \<Rightarrow> string \<Rightarrow> ('w compose_state, unit) action" where
  "compose_stop P c g = bindA (compose_describe P c g) (\<lambda>v. compose_run P v [''stop'', ''rdf-backend''])"

definition compose_retire :: "'w compose_platform \<Rightarrow> compose_driver \<Rightarrow> string \<Rightarrow> ('w compose_state, unit) action" where
  "compose_retire P c g = compose_stop P c g"

definition compose_delete :: "'w compose_platform \<Rightarrow> compose_driver \<Rightarrow> string \<Rightarrow> ('w compose_state, unit) action" where
  "compose_delete P c g = bindA (compose_describe P c g) (\<lambda>v.
     thenA (compose_run P v [''down'', ''--volumes'', ''--remove-orphans''])
       (modifyA (\<lambda>s. (fst s, (snd s)(g := None)))))"

text \<open>The metadata of a profile as the object that the constructor of the backend validates\<close>

definition metadata_value :: "backend_metadata \<Rightarrow> jsval" where
  "metadata_value m = JObj [(''backendType'', JStr (bm_backendType m)),
     (''capabilities'', JObj (map (\<lambda>(k, v). (k, JBool v)) (bm_capabilities m)))]"

definition compose_options :: "compose_endpoints \<Rightarrow> jsval \<Rightarrow> sparql_options" where
  "compose_options e metadata = \<lparr>so_metadata = metadata, so_queryUrl = ce_queryUrl e, so_updateUrl = Some (ce_updateUrl e),
     so_graphStoreUrl = Some (ce_graphStoreUrl e), so_datasetGraphIri = None, so_headers = [], so_digestAuth = ce_digestAuth e\<rparr>"

definition compose_backend :: "url_parser \<Rightarrow> 'w compose_platform \<Rightarrow> compose_driver \<Rightarrow> string \<Rightarrow> ('w compose_state, sparql_backend) action" where
  "compose_backend parse P c g = bindA (compose_describe P c g) (\<lambda>v.
     liftA (new_sparql_backend parse (compose_options (co_endpoints v)
       (case map_of RDF_BACKEND_PROFILES (cd_backendType c) of Some m \<Rightarrow> metadata_value m | None \<Rightarrow> JUndefined))))"

section \<open>One password per generation\<close>

text \<open>A driver that was created has one of the profiles, under the name of its backend type.\<close>

lemma compose_driver_profile:
  "new_compose_driver b context p = Inr c \<Longrightarrow> map_of COMPOSE_PROFILES (cd_backendType c) = Some (cd_profile c) \<and>
     (\<forall>q. cd_adminPassword c = Some q \<longrightarrow> 16 \<le> length q)"
  by (auto simp: new_compose_driver_def split: option.splits if_splits)

text \<open>Describing a generation again draws no new password: the answer is the same and the state stays.\<close>

lemma described_again:
  assumes "compose_describe P c g s = (Inr v, s')"
  shows "compose_describe P c g s' = (Inr v, s')"
proof -
  from assms obtain port password where port: "map_of (cf_ports (cd_profile c)) g = Some port"
    and g: "validateGenerationId g = Inr g" and v: "v = compose_descriptor_of P c g port password"
    and p: "compose_password P c g s = (Inr password, s')"
    by (auto simp: compose_describe_def bindA_Inr validateGenerationId_def bindR_eq_Inr split: option.splits)
  from p have "snd s' g = Some password"
    by (auto simp: compose_password_def bindA_Inr thenA_Inr)
  then have "compose_password P c g s' = (Inr password, s')"
    by (cases s') (simp add: compose_password_def bindA_def readA_def returnA_def thenA_def modifyA_def fun_upd_idem)
  with port g v show ?thesis
    by (simp add: compose_describe_def bindA_def liftA_def returnA_def validateGenerationId_def)
qed

text \<open>The ports of all local generations are different, so two of them never share an address.\<close>

lemma compose_ports_distinct:
  "distinct (concat (map (\<lambda>(_, p). map snd (cf_ports p)) COMPOSE_PROFILES))"
  by code_simp

text \<open>The password lives in the driver only: a new driver of the same generation, without an
  administrator password, draws another one, although the store keeps the first.\<close>

definition demo_compose :: "nat compose_platform" where
  "demo_compose = \<lparr>cp_exec = (\<lambda>command args cwd env. returnA ()),
     cp_randomPassword = (\<lambda>n. (Inr (if n = 0 then ''first-password-1'' else ''other-password-2''), Suc n)),
     cp_root = ''/rdf/'', cp_environment = []\<rparr>"

lemma password_lost_with_driver:
  "\<exists>c. new_compose_driver ''virtuoso'' None None = Inr c \<and>
     (let (_, s) = compose_create demo_compose c ''gen-a'' (0, Map.empty) in
      (case fst (compose_describe demo_compose c ''gen-a'' s) of
         Inr v \<Rightarrow> map_of (co_env v) ''JWB_RDF_ADMIN_PASSWORD'' = Some ''first-password-1'' | Inl _ \<Rightarrow> False) \<and>
      (case fst (compose_describe demo_compose c ''gen-a'' (fst s, Map.empty)) of
         Inr v \<Rightarrow> map_of (co_env v) ''JWB_RDF_ADMIN_PASSWORD'' = Some ''other-password-2'' | Inl _ \<Rightarrow> False))"
proof -
  let ?c = "\<lparr>cd_backendType = ''virtuoso'', cd_profile = \<lparr>cf_key = ''virtuoso'',
      cf_ports = [(''gen-a'', ''19190''), (''gen-b'', ''19191''), (''gen-c'', ''19192'')]\<rparr>,
      cd_dockerContext = ''desktop-linux'', cd_adminPassword = None\<rparr>"
  have c: "new_compose_driver ''virtuoso'' None None = Inr ?c" by code_simp
  let ?s = "snd (compose_create demo_compose ?c ''gen-a'' (0, Map.empty))"
  have "(case fst (compose_describe demo_compose ?c ''gen-a'' ?s) of
         Inr v \<Rightarrow> map_of (co_env v) ''JWB_RDF_ADMIN_PASSWORD'' = Some ''first-password-1'' | Inl _ \<Rightarrow> False)" by code_simp
  moreover have "(case fst (compose_describe demo_compose ?c ''gen-a'' (fst ?s, Map.empty)) of
         Inr v \<Rightarrow> map_of (co_env v) ''JWB_RDF_ADMIN_PASSWORD'' = Some ''other-password-2'' | Inl _ \<Rightarrow> False)" by code_simp
  ultimately show ?thesis using c by (auto simp: Let_def split: prod.splits)
qed

end
