(* ===== verification/ControlPlane.thy ===== *)
theory ControlPlane
  imports CoordinatorRepository GenerationSync StandalonePromotion RuntimeConfig "HOL-Library.AList"
begin

text \<open>
  Small parts around the control database: \<open>services/rdf-sync/src/control-plane-errors.js\<close>, the check
  of the coordinator's schema in \<open>coordinator-schema-readiness.js\<close>, and the promotion command of
  \<open>packages/jwb-database/src/jwb-promote-cli.js\<close>.
\<close>

section \<open>Errors of the control plane\<close>

definition CONTROL_PLANE_ERROR_CODES :: "string list" where
  "CONTROL_PLANE_ERROR_CODES =
     [''SERVING_GENERATION_PROTECTED'', ''ROLLBACK_GENERATION_PROTECTED'', ''RETIREMENT_WAITING_ELIGIBILITY'',
      ''INCOMPLETE_PROMOTION'', ''STALE_POINTER_VERSION'', ''STALE_GENERATION_VERSION'', ''STALE_COORDINATOR_FENCE'',
      ''OPERATION_LEASE_LOST'', ''RESOURCE_IDENTITY_MISMATCH'', ''RESOURCE_UID_MISMATCH'',
      ''RESOURCE_VERSION_MISMATCH'', ''RESOURCE_MISSING_UNEXPECTED'', ''RESOURCE_ALREADY_DELETED_BY_OPERATION'',
      ''PHYSICAL_DELETE_PARTIAL'', ''ROUTER_TARGET_UNRESOLVABLE'', ''ROUTER_NOT_CONVERGED'', ''SCHEMA_MIGRATION_REQUIRED'']"

fun is_text :: "jsval \<Rightarrow> bool" where
  "is_text (JStr _) = True"
| "is_text _ = False"

fun safe_detail :: "jsval \<Rightarrow> bool" where
  "safe_detail JNull = True"
| "safe_detail (JStr _) = True"
| "safe_detail (JInt _) = True"
| "safe_detail (JFloat _) = True"
| "safe_detail (JBool _) = True"
| "safe_detail (JArr xs) = list_all is_text xs"
| "safe_detail _ = False"

definition safeDetails :: "jsval \<Rightarrow> bool" where
  "safeDetails v = (case v of JObj ps \<Rightarrow> list_all (\<lambda>(_, x). safe_detail x) ps | _ \<Rightarrow> False)"

record control_plane_error =
  ce_code :: string
  ce_details :: "(string \<times> jsval) list"

definition object_properties :: "jsval \<Rightarrow> (string \<times> jsval) list" where
  "object_properties v = (case v of JObj ps \<Rightarrow> ps | _ \<Rightarrow> [])"

definition new_ControlPlaneError :: "string \<Rightarrow> jsval \<Rightarrow> control_plane_error result" where
  "new_ControlPlaneError code details =
     (if \<not> List.member CONTROL_PLANE_ERROR_CODES code \<or> \<not> safeDetails details then Inl ''invalid control-plane error''
      else Inr \<lparr>ce_code = code, ce_details = object_properties details\<rparr>)"

definition eligibility_code :: "string list \<Rightarrow> string" where
  "eligibility_code reasons =
     (if List.member reasons ''PROMOTION_INCOMPLETE'' then ''INCOMPLETE_PROMOTION''
      else if list_ex (List.member [''GENERATION_SERVING'', ''SERVING_PROTECTED'', ''SERVING_POINTER_CURRENT'']) reasons
      then ''SERVING_GENERATION_PROTECTED''
      else if list_ex (List.member [''ROLLBACK_PROTECTED'', ''SERVING_POINTER_PREVIOUS'', ''ROLLBACK_INCOMPLETE'']) reasons
      then ''ROLLBACK_GENERATION_PROTECTED''
      else ''RETIREMENT_WAITING_ELIGIBILITY'')"

definition with_reasons :: "(string \<times> jsval) list \<Rightarrow> string list \<Rightarrow> (string \<times> jsval) list" where
  "with_reasons details reasons = AList.update ''reasons'' (JArr (map JStr reasons)) details"

definition eligibilityError :: "string list \<Rightarrow> (string \<times> jsval) list \<Rightarrow> control_plane_error result" where
  "eligibilityError reasons details =
     new_ControlPlaneError (eligibility_code reasons) (JObj (with_reasons details reasons))"

text \<open>Reasons always make a proper error: with details that may be shown it is never the internal one, and it
  carries the reasons.\<close>

lemma safe_update: "list_all (\<lambda>(_, x). safe_detail x) ps \<Longrightarrow> safe_detail v \<Longrightarrow> list_all (\<lambda>(_, x). safe_detail x) (AList.update k v ps)"
  by (induction ps) auto

lemma eligibility_error_proper:
  assumes "safeDetails (JObj details)"
  shows "\<exists>e. eligibilityError reasons details = Inr e \<and> ce_code e = eligibility_code reasons \<and>
    map_of (ce_details e) ''reasons'' = Some (JArr (map JStr reasons))"
proof -
  have "List.member CONTROL_PLANE_ERROR_CODES (eligibility_code reasons)"
    by (simp add: eligibility_code_def CONTROL_PLANE_ERROR_CODES_def)
  moreover have "safeDetails (JObj (with_reasons details reasons))"
    using assms by (auto simp: safeDetails_def with_reasons_def list.pred_map comp_def list.pred_True intro!: safe_update)
  ultimately show ?thesis
    by (simp add: eligibilityError_def new_ControlPlaneError_def object_properties_def with_reasons_def update_conv)
qed

text \<open>Exactly the reasons that speak of serving or of an open promotion name the generation as in use.\<close>

lemma eligibility_code_waiting:
  "eligibility_code reasons = ''RETIREMENT_WAITING_ELIGIBILITY'' \<longleftrightarrow>
     set reasons \<inter> {''PROMOTION_INCOMPLETE'', ''GENERATION_SERVING'', ''SERVING_PROTECTED'', ''SERVING_POINTER_CURRENT'',
       ''ROLLBACK_PROTECTED'', ''SERVING_POINTER_PREVIOUS'', ''ROLLBACK_INCOMPLETE''} = {}"
  by (auto simp: eligibility_code_def list_ex_iff split: if_splits)

section \<open>The schema of the coordinator\<close>

text \<open>What the catalog queries answer; each of them may fail, and then the schema is not ready.\<close>

record schema_catalog =
  sg_file :: "string result"
  sg_checksums :: "string \<Rightarrow> string list result"
  sg_relations :: "string list result"
  sg_columns :: "(string \<times> string) list result"

definition COORDINATOR_MIGRATION :: string where
  "COORDINATOR_MIGRATION = ''013_generation_control_plane_contract.sql''"

definition verifyCoordinatorSchema :: "(string \<Rightarrow> string) \<Rightarrow> schema_catalog \<Rightarrow> bool" where
  "verifyCoordinatorSchema sha256 k =
     (case bindR (sg_file k) (\<lambda>text.
        bindR (sg_checksums k COORDINATOR_MIGRATION) (\<lambda>rows.
        if rows \<noteq> [sha256 text] then Inr False
        else bindR (sg_relations k) (\<lambda>relations.
          if \<not> List.member relations ''rdf_generation_delete_attempt'' \<or> \<not> List.member relations ''rdf_generation_protection_audit''
          then Inr False
          else bindR (sg_columns k) (\<lambda>columns.
            Inr (length (filter (\<lambda>(t, c). t = ''rdf_coordinator_operation'' \<and> List.member [''operation_type'', ''owner_pod_uid''] c)
              columns) = 2))))) of
        Inl _ \<Rightarrow> False | Inr b \<Rightarrow> b)"

section \<open>The promotion command\<close>

record cli_promotion =
  cl_generationId :: string
  cl_previous :: "string option"
  cl_version :: int
  cl_idempotent :: bool

definition cli_candidate_current :: "generation_sync_row list \<Rightarrow> bool" where
  "cli_candidate_current rows = (case rows of [r] \<Rightarrow> gs_state r = ''CURRENT'' \<and> gs_schema r = ''CURRENT'' | _ \<Rightarrow> False)"

text \<open>\<open>target\<close> is the argument of the command line; the environment has the identities and the URL.\<close>

definition cli_identities :: "environment \<Rightarrow> identities result" where
  "cli_identities env = legacyOrInstanceIdentities (env ''JWB_INSTANCE_ID'') (env ''JWB_SOURCE_IDENTITY'') (env ''JWB_QUERY_SERVICE_ID'')"

definition cli_promote_at :: "identities \<Rightarrow> cli_promotion db" where
  "cli_promote_at ids =
     bindA (select_rows db_syncs (\<lambda>r. gs_source r = id_source ids \<and> gs_generation r = ''gen-b'')) (\<lambda>sync.
     thenA (ensureA (cli_candidate_current sync) ''candidate synchronization is not current'')
     (bindA (sp_get (id_query ids)) (\<lambda>(current, graphs).
      if pv_generationId current = ''gen-b''
      then returnA \<lparr>cl_generationId = ''gen-b'', cl_previous = None, cl_version = pv_version current, cl_idempotent = True\<rparr>
      else thenA (ensureA (pv_generationId current = ''gen-a'') ''unexpected serving generation'')
        (bindA randomUUID (\<lambda>promotionId.
         bindA (sp_promote (id_query ids) ''gen-b'' (Some ''gen-a'') (pv_version current) promotionId) (\<lambda>promoted.
         returnA \<lparr>cl_generationId = pv_generationId promoted, cl_previous = pv_previousGenerationId promoted,
           cl_version = pv_version promoted, cl_idempotent = False\<rparr>))))))"

definition cli_promote :: "environment \<Rightarrow> string option \<Rightarrow> cli_promotion db" where
  "cli_promote env target =
     bindA (liftA (cli_identities env)) (\<lambda>ids.
     thenA (ensureA (rx_test STANDALONE_DATABASE (or_else (env ''JWB_ROUTER_DATABASE_URL'') [])) ''fixed standalone JWB PostgreSQL URL is required'')
     (thenA (ensureA (target = Some ''gen-b'') ''only fixed gen-b promotion is supported'')
     (cli_promote_at ids)))"


text \<open>The command changes nothing when the candidate has not caught up, and nothing when it already serves.\<close>

lemma cli_waits_for_candidate:
  assumes "\<not> cli_candidate_current (filter (\<lambda>r. gs_source r = id_source ids \<and> gs_generation r = ''gen-b'') (db_syncs d))"
  shows "cli_promote_at ids d = (Inl ''candidate synchronization is not current'', d)"
  using assms by (simp add: cli_promote_at_def select_rows_def bindA_def readA_def thenA_def liftA_def)

lemma sp_get_keeps: "keeps (\<lambda>d. d) (sp_get q)"
  unfolding sp_get_def select_rows_def one_row_def
  by (intro keeps_intros) (auto intro!: keeps_intros split: list.splits)

lemma cli_idempotent:
  assumes "cli_candidate_current (filter (\<lambda>r. gs_source r = id_source ids \<and> gs_generation r = ''gen-b'') (db_syncs d))"
    "fst (sp_get (id_query ids) d) = Inr (p, graphs)" "pv_generationId p = ''gen-b''"
  shows "cli_promote_at ids d =
    (Inr \<lparr>cl_generationId = ''gen-b'', cl_previous = None, cl_version = pv_version p, cl_idempotent = True\<rparr>, d)"
proof -
  have "sp_get (id_query ids) d = (Inr (p, graphs), d)"
    using assms(2) keepsD [OF sp_get_keeps] by (metis prod.collapse)
  with assms(1,3) show ?thesis
    by (simp add: cli_promote_at_def select_rows_def bindA_def readA_def thenA_def liftA_def returnA_def)
qed

end
