(* ===== verification/EntitySource.thy ===== *)
theory EntitySource
  imports SparqlBackend SyncEngine
begin

text \<open>
  How the program reads the wiki: \<open>services/rdf-sync/src/trusted-mediawiki-url.js\<close>,
  \<open>entity-rdf-fetcher.js\<close>, \<open>mediawiki-change-source.js\<close> and \<open>mediawiki-lifecycle-resolver.js\<close>.  The
  network is a parameter; URLs are parsed by the platform, and a path is resolved against the origin
  of a base.  A request is recorded with its address and its redirect mode: under \<open>follow\<close> the platform
  goes wherever the answers send it, which the record does not show.
\<close>

section \<open>Trusted addresses\<close>

definition MEDIAWIKI_HOSTS :: "string list" where
  "MEDIAWIKI_HOSTS = [''127.0.0.1'', ''wikibase'', ''japan-wikibase.jwb-instance-local-01.svc.cluster.local'']"

text \<open>\<open>/^wikibase(?:\.[a-z0-9](?:[-a-z0-9]*[a-z0-9])?\.svc\.cluster\.local)$/u\<close>\<close>

definition STANDALONE_KUBERNETES :: rx where
  "STANDALONE_KUBERNETES = Cats [Lit ''wikibase.'', Cls is_lower_digit,
     Opt (Cat (Star (Cls is_id_char)) (Cls is_lower_digit)), Lit ''.svc.cluster.local'']"

definition trustedMediaWikiUrl :: "url_parser \<Rightarrow> string \<Rightarrow> bool \<Rightarrow> url result" where
  "trustedMediaWikiUrl parse v api = bindR (new_URL parse v) (\<lambda>u.
     if ul_protocol u \<noteq> ''http:'' \<or>
        (\<not> List.member MEDIAWIKI_HOSTS (ul_hostname u) \<and> \<not> rx_test STANDALONE_KUBERNETES (ul_hostname u)) \<or>
        ul_username u \<noteq> [] \<or> ul_password u \<noteq> [] \<or> (api \<and> ul_pathname u \<noteq> ''/api.php'')
     then Inl ''MediaWiki URL is not in the fixed local runtime allowlist'' else Inr u)"

text \<open>\<open>url.origin\<close> of a URL without credentials\<close>

definition origin_of :: "url \<Rightarrow> string" where
  "origin_of u = ul_protocol u @ ''//'' @
     takeWhile (\<lambda>c. c \<noteq> CHR ''/'' \<and> c \<noteq> CHR ''?'' \<and> c \<noteq> CHR ''#'') (drop (length (ul_protocol u) + 2) (ul_href u))"

definition publicOrigin :: "url_parser \<Rightarrow> string \<Rightarrow> url result" where
  "publicOrigin parse v = bindR (new_URL parse v) (\<lambda>u.
     if \<not> List.member [''http:'', ''https:''] (ul_protocol u) \<or> ul_username u \<noteq> [] \<or> ul_password u \<noteq> [] \<or>
        ul_pathname u \<noteq> ''/'' \<or> ul_search u \<noteq> [] \<or> ul_hash u \<noteq> []
     then Inl ''canonical public URL must be an HTTP origin'' else Inr u)"

section \<open>Entities at a revision\<close>

text \<open>\<open>fetchImpl(url, {redirect})\<close>; \<open>new URL(location, base)\<close> is \<open>es_resolve\<close>.\<close>

record 'w wiki_platform =
  es_fetch :: "string \<Rightarrow> string \<Rightarrow> ('w, http_response) action"
  es_resolve :: "string \<Rightarrow> string \<Rightarrow> url option"

record entity_fetcher =
  ef_baseUrl :: url
  ef_canonical :: url
  ef_maxBytes :: int

definition new_entity_fetcher :: "url_parser \<Rightarrow> string \<Rightarrow> string \<Rightarrow> int \<Rightarrow> entity_fetcher result" where
  "new_entity_fetcher parse baseUrl canonicalPublicUrl maxBytes =
     bindR (trustedMediaWikiUrl parse baseUrl False) (\<lambda>base.
     bindR (publicOrigin parse canonicalPublicUrl) (\<lambda>canonical.
     Inr \<lparr>ef_baseUrl = base, ef_canonical = canonical, ef_maxBytes = maxBytes\<rparr>))"

definition set_params :: "(string \<times> string) list \<Rightarrow> string \<Rightarrow> string" where
  "set_params ps href = fold (\<lambda>(k, v). set_param k v) ps href"

definition url_params :: "url \<Rightarrow> (string \<times> string) list" where
  "url_params u = read_params (drop 1 (ul_search u))"

definition entity_path :: "string \<Rightarrow> string" where
  "entity_path entityId = ''/wiki/Special:EntityData/'' @ entityId @ ''.nt''"

text \<open>\<open>^[^/]+/<id>\.nt$\<close>\<close>

definition REDIRECT_TITLE :: "string \<Rightarrow> rx" where
  "REDIRECT_TITLE entityId = Cats [Plus1 (NoneOf ''/''), Chr (CHR ''/''), Lit (entityId @ ''.nt'')]"

definition trustedEntityRedirect :: "url \<Rightarrow> url \<Rightarrow> string \<Rightarrow> int \<Rightarrow> bool" where
  "trustedEntityRedirect location canonical entityId expectedRevision =
     (if origin_of location \<noteq> origin_of canonical \<or> ul_username location \<noteq> [] \<or> ul_password location \<noteq> [] \<or> ul_hash location \<noteq> []
      then False
      else if ul_pathname location = entity_path entityId then ul_search location = ''?revision='' @ show_int expectedRevision
      else if ul_pathname location \<noteq> ''/index.php'' \<or> length (url_params location) \<noteq> 2 \<or>
        map_of (url_params location) ''revision'' \<noteq> Some (show_int expectedRevision) then False
      else rx_test (REDIRECT_TITLE entityId) (or_else (map_of (url_params location) ''title'') []))"

text \<open>\<open>Object.values(v)[0]\<close>\<close>

definition first_value :: "jsval \<Rightarrow> jsval" where
  "first_value v = (case v of
     JArr (x # _) \<Rightarrow> x | JObj ((_, x) # _) \<Rightarrow> x | _ \<Rightarrow> JUndefined)"

text \<open>\<open>v < n\<close>: what is no number, as a missing property, is not less.\<close>

definition js_less :: "jsval \<Rightarrow> int \<Rightarrow> bool" where
  "js_less v n = (case v of
     JInt i \<Rightarrow> i < n | JNull \<Rightarrow> 0 < n | JBool b \<Rightarrow> (if b then 1 else 0) < n
   | JStr s \<Rightarrow> (case number_integer s of Some i \<Rightarrow> i < n | None \<Rightarrow> False) | _ \<Rightarrow> False)"

definition entity_title :: "string \<Rightarrow> string" where
  "entity_title entityId = (if starts_with ''Q'' entityId then ''Item'' else ''Property'') @ '':'' @ entityId"

definition evidence_url :: "entity_fetcher \<Rightarrow> int \<Rightarrow> string" where
  "evidence_url f expectedRevision = set_params [(''action'', ''query''), (''revids'', show_int expectedRevision), (''prop'', ''info''),
     (''format'', ''json''), (''formatversion'', ''2'')] (origin_of (ef_baseUrl f) @ ''/api.php'')"

definition evidence_ok :: "string \<Rightarrow> int \<Rightarrow> jsval \<Rightarrow> bool result" where
  "evidence_ok entityId expectedRevision json = bindR (js_get json ''query'') (\<lambda>q.
     let page = first_value (js_prop q ''pages'') in
     Inr (js_truthy page \<and> js_prop page ''title'' = JStr (entity_title entityId) \<and>
       \<not> js_less (js_prop page ''lastrevid'') expectedRevision))"

record fetched_rdf =
  fr_entityId :: string
  fr_revision :: int
  fr_rdf :: string

definition REDIRECTS :: "int list" where
  "REDIRECTS = [301, 302, 303, 307, 308]"

definition follow_redirect :: "'w wiki_platform \<Rightarrow> entity_fetcher \<Rightarrow> string \<Rightarrow> int \<Rightarrow> string \<Rightarrow> http_response \<Rightarrow> ('w, http_response) action" where
  "follow_redirect P f entityId expectedRevision rdfUrl response =
     (if \<not> List.member REDIRECTS (rp_status response) then returnA response
      else (case es_resolve P (or_else (rp_headers response ''location'') []) rdfUrl of
        None \<Rightarrow> raiseA ''Invalid URL''
      | Some location \<Rightarrow>
          if \<not> trustedEntityRedirect location (ef_canonical f) entityId expectedRevision
          then raiseA ''ENTITY_RDF_REDIRECT_UNTRUSTED''
          else es_fetch P (origin_of (ef_baseUrl f) @ ul_pathname location @ ul_search location) ''error''))"

text \<open>\<open>Number(response.headers.get('content-length') ?? 0) > this.maxBytes\<close>\<close>

definition above_limit :: "int \<Rightarrow> http_response \<Rightarrow> bool" where
  "above_limit limit a = (case rp_headers a ''content-length'' of None \<Rightarrow> 0 > limit | Some t \<Rightarrow> number_above limit t)"

definition revision_marks :: "string \<Rightarrow> int \<Rightarrow> string \<Rightarrow> bool" where
  "revision_marks entityId expectedRevision rdf \<longleftrightarrow> contains (''/entity/'' @ entityId @ ''>'') rdf \<and>
     contains (''<http://schema.org/version> '' @ [CHR 0x22] @ show_int expectedRevision @ [CHR 0x22]) rdf"

text \<open>What follows the first request of \<open>fetch\<close>\<close>

definition fetch_after :: "'w wiki_platform \<Rightarrow> entity_fetcher \<Rightarrow> string \<Rightarrow> int \<Rightarrow> http_response \<Rightarrow> ('w, fetched_rdf) action" where
  "fetch_after P f entityId expectedRevision evidence =
     (if \<not> rp_ok evidence then raiseA (''revision evidence HTTP '' @ show_int (rp_status evidence))
      else
      bindA (liftA (rp_json evidence)) (\<lambda>json.
      bindA (liftA (evidence_ok entityId expectedRevision json)) (\<lambda>ok.
      if \<not> ok then raiseA ''REVISION_MISMATCH''
      else
      let rdfUrl = set_param ''revision'' (show_int expectedRevision) (origin_of (ef_baseUrl f) @ entity_path entityId) in
      bindA (es_fetch P rdfUrl ''manual'') (\<lambda>first.
      bindA (follow_redirect P f entityId expectedRevision rdfUrl first) (\<lambda>response.
      if \<not> rp_ok response
      then raiseA (if rp_status response = 404 then ''ENTITY_MISSING'' else ''EntityData HTTP '' @ show_int (rp_status response))
      else if above_limit (ef_maxBytes f) response then raiseA ''ENTITY_RDF_TOO_LARGE''
      else
      bindA (liftA (rp_text response)) (\<lambda>rdf.
      if int (byteLength rdf) > ef_maxBytes f then raiseA ''ENTITY_RDF_TOO_LARGE''
      else if \<not> revision_marks entityId expectedRevision rdf then raiseA ''REVISION_EVIDENCE_MISSING''
      else returnA \<lparr>fr_entityId = entityId, fr_revision = expectedRevision, fr_rdf = rdf\<rparr>))))))"

definition fetch_entity :: "'w wiki_platform \<Rightarrow> entity_fetcher \<Rightarrow> string \<Rightarrow> int \<Rightarrow> ('w, fetched_rdf) action" where
  "fetch_entity P f entityId expectedRevision =
     (if \<not> entity_id entityId \<or> expectedRevision < 1 then raiseA ''invalid entity fetch input''
      else bindA (es_fetch P (evidence_url f expectedRevision) ''follow'') (fetch_after P f entityId expectedRevision))"

section \<open>The change log\<close>

text \<open>A row of the log as the interface of the wiki documents it, and an answer of the interface\<close>

record raw_change =
  rw_rcid :: int
  rw_timestamp :: string
  rw_type :: "string option"
  rw_title :: "string option"
  rw_revid :: "int option"
  rw_oldRevid :: "int option"
  rw_logtype :: "string option"
  rw_logaction :: "string option"
  rw_comment :: "string option"
  rw_tags :: "string list option"
  rw_redirect :: bool

record changes_page =
  ch_rows :: "raw_change list"
  ch_continue :: "string option"

definition normalizeEvent :: "raw_change \<Rightarrow> change_event" where
  "normalizeEvent e = \<lparr>ev_rcid = rw_rcid e, ev_timestamp = rw_timestamp e, ev_type = rw_type e, ev_title = rw_title e,
     ev_revid = rw_revid e, ev_oldRevid = rw_oldRevid e, ev_logtype = rw_logtype e, ev_logaction = rw_logaction e,
     ev_comment = Some (or_else (rw_comment e) []), ev_tags = Some (or_else (rw_tags e) []), ev_redirect = rw_redirect e\<rparr>"

definition after_cursor :: "cursor option \<Rightarrow> string \<Rightarrow> int \<Rightarrow> bool" where
  "after_cursor c timestamp rcid = (case c of None \<Rightarrow> True
   | Some k \<Rightarrow> timestamp > cur_timestamp k \<or> timestamp = cur_timestamp k \<and> rcid > cur_rcid k)"

text \<open>\<open>changes\<close> reads the rows and the continuation out of the JSON of an answer.\<close>

record change_source =
  cs_apiUrl :: string
  cs_sourceIdentity :: string
  cs_changes :: "jsval \<Rightarrow> changes_page result"

definition new_change_source :: "url_parser \<Rightarrow> string \<Rightarrow> string \<Rightarrow> (jsval \<Rightarrow> changes_page result) \<Rightarrow> change_source result" where
  "new_change_source parse apiUrl sourceIdentity changes = bindR (trustedMediaWikiUrl parse apiUrl True) (\<lambda>u.
     Inr \<lparr>cs_apiUrl = ul_href u, cs_sourceIdentity = sourceIdentity, cs_changes = changes\<rparr>)"

definition changes_url :: "change_source \<Rightarrow> cursor option \<Rightarrow> int \<Rightarrow> string option \<Rightarrow> string" where
  "changes_url S c limit continuation =
     set_params ([(''action'', ''query''), (''list'', ''recentchanges''), (''rcdir'', ''newer''), (''rclimit'', show_int limit),
       (''rcnamespace'', ''120|122''), (''rcprop'', ''title|ids|timestamp|flags|loginfo|comment|redirect|tags''),
       (''format'', ''json''), (''formatversion'', ''2'')] @
      (case c of None \<Rightarrow> [] | Some k \<Rightarrow> [(''rcstart'', cur_timestamp k)]) @
      (case nonempty continuation of None \<Rightarrow> [] | Some t \<Rightarrow> [(''rccontinue'', t)])) (cs_apiUrl S)"

record changes_batch =
  cb_events :: "change_event list"
  cb_cursor :: "cursor option"
  cb_continuation :: "string option"

definition batch_of :: "change_source \<Rightarrow> cursor option \<Rightarrow> changes_page \<Rightarrow> changes_batch" where
  "batch_of S c page =
     (let events = map normalizeEvent (filter (\<lambda>e. after_cursor c (rw_timestamp e) (rw_rcid e)) (ch_rows page)) in
      \<lparr>cb_events = events,
       cb_cursor = (if events = [] then c
         else Some \<lparr>cur_source = cs_sourceIdentity S, cur_timestamp = ev_timestamp (last events), cur_rcid = ev_rcid (last events)\<rparr>),
       cb_continuation = ch_continue page\<rparr>)"

text \<open>The loop over at most so many answers\<close>

fun read_pages :: "nat \<Rightarrow> 'w wiki_platform \<Rightarrow> change_source \<Rightarrow> cursor option \<Rightarrow> int \<Rightarrow> string option \<Rightarrow> ('w, changes_batch) action" where
  "read_pages 0 P S c limit continuation = raiseA ''RECENT_CHANGES_SAME_SECOND_SCAN_LIMIT''"
| "read_pages (Suc n) P S c limit continuation =
     bindA (es_fetch P (changes_url S c limit continuation) ''follow'') (\<lambda>response.
     if \<not> rp_ok response then raiseA (''RecentChanges HTTP '' @ show_int (rp_status response))
     else bindA (liftA (rp_json response)) (\<lambda>json.
       bindA (liftA (cs_changes S json)) (\<lambda>page.
       let b = batch_of S c page in
       if cb_events b \<noteq> [] \<or> nonempty (cb_continuation b) = None then returnA b
       else read_pages n P S c limit (cb_continuation b))))"

definition SCAN_PAGES :: nat where
  "SCAN_PAGES = 10"

definition read_changes :: "'w wiki_platform \<Rightarrow> change_source \<Rightarrow> cursor option \<Rightarrow> int \<Rightarrow> ('w, changes_batch) action" where
  "read_changes P S c limit =
     (if limit < 1 \<or> limit > 100 then raiseA ''invalid RecentChanges limit''
      else read_pages SCAN_PAGES P S c limit None)"

section \<open>Lifecycle events\<close>

record current_entity =
  cy_id :: string
  cy_canonicalId :: string
  cy_revision :: int
  cy_redirect :: bool

record current_entities =
  cx_unambiguous :: bool
  cx_entities :: "current_entity list"

definition AMBIGUOUS :: current_entities where
  "AMBIGUOUS = \<lparr>cx_unambiguous = False, cx_entities = []\<rparr>"

definition js_elements_of :: "jsval \<Rightarrow> jsval list" where
  "js_elements_of v = (case v of JArr vs \<Rightarrow> vs | _ \<Rightarrow> [])"

definition canonical_of :: "jsval \<Rightarrow> string \<Rightarrow> string" where
  "canonical_of body i =
     (let redirects = map (\<lambda>v. (js_string (js_prop v ''from''), js_string (js_prop v ''to''))) (js_elements_of (js_prop body ''redirects''))
      in or_else (map_of (rev redirects) i) i)"

fun current_of :: "jsval \<Rightarrow> string list \<Rightarrow> current_entity list option" where
  "current_of body [] = Some []"
| "current_of body (i # is) =
     (let canonical = canonical_of body i; entity = js_prop (js_prop body ''entities'') canonical in
      if \<not> js_truthy entity \<or> js_prop entity ''missing'' \<noteq> JUndefined then None
      else (case (js_integer (js_prop entity ''lastrevid''), current_of body is) of
          (Some r, Some rest) \<Rightarrow> Some (\<lparr>cy_id = i, cy_canonicalId = canonical, cy_revision = r, cy_redirect = (canonical \<noteq> i)\<rparr> # rest)
        | _ \<Rightarrow> None))"

definition current_url :: "url \<Rightarrow> string list \<Rightarrow> string" where
  "current_url base ids = set_params [(''action'', ''wbgetentities''), (''ids'', join ''|'' ids), (''redirects'', ''yes''), (''props'', ''info''),
     (''format'', ''json''), (''formatversion'', ''2'')] (origin_of base @ ''/api.php'')"

definition resolve_current :: "'w wiki_platform \<Rightarrow> url \<Rightarrow> string list \<Rightarrow> ('w, current_entities) action" where
  "resolve_current P base ids =
     bindA (es_fetch P (current_url base ids) ''follow'') (\<lambda>response.
     if \<not> rp_ok response then returnA AMBIGUOUS
     else bindA (liftA (rp_json response)) (\<lambda>body.
       bindA (liftA (js_get body ''entities'')) (\<lambda>_.
       returnA (case current_of body ids of None \<Rightarrow> AMBIGUOUS | Some es \<Rightarrow> \<lparr>cx_unambiguous = True, cx_entities = es\<rparr>))))"

definition resolve_lifecycle :: "'w wiki_platform \<Rightarrow> url \<Rightarrow> classified \<Rightarrow> change_event \<Rightarrow> ('w, current_entities) action" where
  "resolve_lifecycle P base c event =
     (let i = text_of (cl_entity c) in
      if cl_action c = ENTITY_UNDELETE then resolve_current P base [i]
      else if cl_action c = ENTITY_REDIRECT \<or> cl_action c = ENTITY_REDIRECT_REMOVED then resolve_current P base [i]
      else if cl_action c = ENTITY_MERGE then
        (let ids = uniq (i # rx_find_all ENTITY_ID (text_of (ev_comment event))) in
         if length ids \<noteq> 2 then returnA AMBIGUOUS else resolve_current P base ids)
      else returnA AMBIGUOUS)"

text \<open>What the engine reads of the answer: the entities with their revisions, none of them marked as deleted\<close>

definition resolution_of :: "current_entities \<Rightarrow> resolution" where
  "resolution_of r = \<lparr>rz_unambiguous = cx_unambiguous r,
     rz_entities = map (\<lambda>e. \<lparr>rz_id = cy_id e, rz_revision = cy_revision e, rz_deleted = False\<rparr>) (cx_entities r)\<rparr>"


section \<open>Only the trusted origin is asked\<close>

text \<open>
  \<open>log\<close> is the list of the requests that were issued so far, each with its redirect mode.  What happens
  to a request is up to the platform: in the mode \<open>follow\<close> it follows redirects to other addresses by
  itself, in the other two modes it does not.
\<close>

type_synonym request_log = "(string \<times> string) list"

definition traced :: "'w wiki_platform \<Rightarrow> ('w \<Rightarrow> request_log) \<Rightarrow> bool" where
  "traced P log \<longleftrightarrow> (\<forall>url mode w r w'. es_fetch P url mode w = (r, w') \<longrightarrow> log w' = log w @ [(url, mode)])"

text \<open>A request to an address below an origin that does not leave it by itself\<close>

definition within_origin :: "string \<Rightarrow> string \<times> string \<Rightarrow> bool" where
  "within_origin origin q \<longleftrightarrow> starts_with (origin @ ''/'') (fst q) \<and> snd q \<noteq> ''follow''"

definition asks_only :: "('w \<Rightarrow> request_log) \<Rightarrow> string \<Rightarrow> ('w, 'a) action \<Rightarrow> bool" where
  "asks_only log origin m \<longleftrightarrow> moves (\<lambda>w w'. \<exists>qs. log w' = log w @ qs \<and> list_all (within_origin origin) qs) m"

named_theorems asks_intros \<open>actions that ask one origin only\<close>

lemma asks_rel [simp, intro]:
  "reflp (\<lambda>w w'. \<exists>qs. log w' = log w @ qs \<and> list_all (within_origin origin) qs)"
  "transp (\<lambda>w w'. \<exists>qs. log w' = log w @ qs \<and> list_all (within_origin origin) qs)"
  by (auto simp: reflp_def transp_def intro: exI [of _ "[]"])

lemma asks_combinators [asks_intros]:
  "asks_only log origin m1 \<Longrightarrow> (\<And>x. asks_only log origin (f1 x)) \<Longrightarrow> asks_only log origin (bindA m1 f1)"
  "asks_only log origin m2 \<Longrightarrow> asks_only log origin n2 \<Longrightarrow> asks_only log origin (if c then m2 else n2)"
  "asks_only log origin (returnA y3)" "asks_only log origin (raiseA e4)" "asks_only log origin (liftA q5)"
  by (auto simp: asks_only_def intro: moves_intros)

lemma asks_fetch:
  "traced P log \<Longrightarrow> starts_with (origin @ ''/'') url \<Longrightarrow> mode \<noteq> ''follow'' \<Longrightarrow> asks_only log origin (es_fetch P url mode)"
  unfolding asks_only_def by (rule movesI) (auto simp: traced_def within_origin_def)

lemma starts_with_append [simp]: "starts_with p (p @ s)"
  by (simp add: starts_with_def)

text \<open>Setting parameters leaves what comes before the query.\<close>

lemma with_params_prefix:
  assumes "\<forall>c \<in> set og. c \<noteq> CHR ''?'' \<and> c \<noteq> CHR ''#''" "starts_with og href"
  shows "starts_with og (with_params href ps)"
proof -
  from assms(2) obtain t where "href = og @ t" by (auto simp: starts_with_iff)
  with assms(1) have "href_base href = og @ href_base t"
    by (simp add: href_base_def takeWhile_append2)
  then show ?thesis by (simp add: with_params_def)
qed

lemma set_params_prefix:
  "\<forall>c \<in> set og. c \<noteq> CHR ''?'' \<and> c \<noteq> CHR ''#'' \<Longrightarrow> starts_with og href \<Longrightarrow> starts_with og (set_params ps href)"
proof (induction ps arbitrary: href)
  case (Cons p ps)
  have "starts_with og (set_param (fst p) (snd p) href)"
    unfolding set_param_def by (rule with_params_prefix [OF Cons.prems])
  from Cons.IH [OF Cons.prems(1) this] show ?case by (simp add: set_params_def split_def)
qed (simp add: set_params_def)

lemma origin_plain: "ul_protocol u = ''http:'' \<Longrightarrow> \<forall>c \<in> set (origin_of u). c \<noteq> CHR ''?'' \<and> c \<noteq> CHR ''#''"
  by (auto simp: origin_of_def dest: set_takeWhileD)

lemma fetcher_base:
  "new_entity_fetcher parse base canonical limit = Inr f \<Longrightarrow> ul_protocol (ef_baseUrl f) = ''http:'' \<and>
     (List.member MEDIAWIKI_HOSTS (ul_hostname (ef_baseUrl f)) \<or> rx_test STANDALONE_KUBERNETES (ul_hostname (ef_baseUrl f))) \<and>
     ef_maxBytes f = limit"
  by (auto simp: new_entity_fetcher_def bindR_eq_Inr trustedMediaWikiUrl_def split: if_splits)

lemma trusted_path:
  "trustedEntityRedirect location canonical i n \<Longrightarrow> starts_with ''/'' (ul_pathname location)"
  by (auto simp: trustedEntityRedirect_def entity_path_def starts_with_def split: if_splits)

lemma below_origin: "starts_with ''/'' path \<Longrightarrow> starts_with (og @ ''/'') (og @ path @ rest)"
  by (cases path) (auto simp: starts_with_def)

lemma follow_asks:
  assumes "traced P log"
  shows "asks_only log (origin_of (ef_baseUrl f)) (follow_redirect P f i n rdfUrl response)"
  unfolding follow_redirect_def
  by (cases "es_resolve P (or_else (rp_headers response ''location'') []) rdfUrl")
    (auto intro!: asks_intros asks_fetch assms below_origin simp: trusted_path)

lemma plain_path:
  assumes "ul_protocol u = ''http:''"
  shows "\<forall>c \<in> set (origin_of u @ ''/''). c \<noteq> CHR ''?'' \<and> c \<noteq> CHR ''#''"
  using origin_plain [OF assms] by auto

text \<open>What follows the request for the evidence asks the origin of the wiki only, and follows no redirect unseen.\<close>

lemma fetch_asks:
  assumes "traced P log" "ul_protocol (ef_baseUrl f) = ''http:''" "fetch_entity P f i n w = (r, w')"
  shows "log w' = log w \<or> (\<exists>qs. log w' = log w @ (evidence_url f n, ''follow'') # qs \<and>
    list_all (within_origin (origin_of (ef_baseUrl f))) qs)"
proof (cases "\<not> entity_id i \<or> n < 1")
  case True
  with assms(3) show ?thesis by (simp add: fetch_entity_def)
next
  case False
  let ?origin = "origin_of (ef_baseUrl f)"
  have "starts_with (?origin @ ''/'') (set_param ''revision'' (show_int n) (?origin @ entity_path i))"
    unfolding set_param_def
    by (rule with_params_prefix [OF plain_path [OF assms(2)]]) (simp add: entity_path_def starts_with_def)
  note rest = asks_intros asks_fetch [OF assms(1) this] follow_asks [OF assms(1)]
  obtain e w1 where e: "es_fetch P (evidence_url f n) ''follow'' w = (e, w1)" by fastforce
  with assms(1) have w1: "log w1 = log w @ [(evidence_url f n, ''follow'')]" by (simp add: traced_def)
  from False have split: "fetch_entity P f i n = bindA (es_fetch P (evidence_url f n) ''follow'') (fetch_after P f i n)"
    unfolding fetch_entity_def fetch_after_def by simp
  have "asks_only log ?origin (fetch_after P f i n x)" for x
    unfolding fetch_after_def Let_def by (intro rest) simp_all
  note after = this [unfolded asks_only_def, THEN movesD]
  show ?thesis
  proof (cases e)
    case (Inl err)
    with assms(3) e w1 split show ?thesis by (simp add: bindA_def)
  next
    case (Inr x)
    with assms(3) e split have "fetch_after P f i n x w1 = (r, w')" by (simp add: bindA_def)
    from after [OF this] w1 show ?thesis by auto
  qed
qed

lemma evidence_below: "ul_protocol (ef_baseUrl f) = ''http:'' \<Longrightarrow> starts_with (origin_of (ef_baseUrl f) @ ''/'') (evidence_url f n)"
  unfolding evidence_url_def by (rule set_params_prefix [OF plain_path]) (simp_all add: starts_with_def)

text \<open>C14: An entity is asked of the trusted wiki only, and returned only at the revision that was asked for.
  Every request of a fetcher that could be created is addressed below the origin of its wiki.  The first
  one, for the evidence of the revision, is made with the platform's default, which follows
  redirects wherever they lead; every later one, which gets the text, is made so that the platform follows no
  redirect, and the code itself follows one only back to the same origin.  What is returned is the
  entity and the revision of the request, in a text within the limit that names both.\<close>

theorem fetched_from_trusted_wiki:
  assumes "traced P log" "new_entity_fetcher parse base canonical limit = Inr f" "fetch_entity P f i n w = (r, w')"
  shows "(log w' = log w \<or> (\<exists>qs. log w' = log w @ (evidence_url f n, ''follow'') # qs \<and>
      starts_with (origin_of (ef_baseUrl f) @ ''/'') (evidence_url f n) \<and>
      list_all (\<lambda>(url, mode). starts_with (origin_of (ef_baseUrl f) @ ''/'') url \<and> mode \<noteq> ''follow'') qs)) \<and>
    (\<forall>x. r = Inr x \<longrightarrow> fr_entityId x = i \<and> fr_revision x = n \<and> entity_id i \<and> 1 \<le> n \<and>
      int (byteLength (fr_rdf x)) \<le> limit \<and> revision_marks i n (fr_rdf x))"
proof -
  have http: "ul_protocol (ef_baseUrl f) = ''http:''" using fetcher_base [OF assms(2)] by blast
  note asked = fetch_asks [OF assms(1) http assms(3)]
  have same: "within_origin og = (\<lambda>(url, mode). starts_with (og @ ''/'') url \<and> mode \<noteq> ''follow'')" for og
    by (auto simp: within_origin_def)
  have "fr_entityId x = i \<and> fr_revision x = n \<and> entity_id i \<and> 1 \<le> n \<and>
      int (byteLength (fr_rdf x)) \<le> limit \<and> revision_marks i n (fr_rdf x)" if "r = Inr x" for x
    using assms(3) that fetcher_base [OF assms(2)]
    by (auto simp: fetch_entity_def fetch_after_def Let_def bindA_Inr split: if_splits)
  with asked evidence_below [OF http, of n] show ?thesis unfolding same by blast
qed

section \<open>The change log is read without a gap\<close>

abbreviation row_after :: "cursor option \<Rightarrow> raw_change \<Rightarrow> bool" where
  "row_after c e \<equiv> after_cursor c (rw_timestamp e) (rw_rcid e)"

text \<open>The order of the log: by time, and by number within a second\<close>

definition row_before :: "raw_change \<Rightarrow> raw_change \<Rightarrow> bool" where
  "row_before a b \<longleftrightarrow> rw_timestamp a < rw_timestamp b \<or> rw_timestamp a = rw_timestamp b \<and> rw_rcid a < rw_rcid b"

text \<open>
  What the interface documents of the listing: the answer to a continuation is one fixed page, the first
  page belongs to no continuation, and each page names the continuation of the next one until the last.
\<close>

definition answers :: "'w wiki_platform \<Rightarrow> change_source \<Rightarrow> string \<Rightarrow> changes_page \<Rightarrow> bool" where
  "answers P S url page \<longleftrightarrow> (\<forall>w response json q w'. es_fetch P url ''follow'' w = (Inr response, w') \<and> rp_ok response \<and>
     rp_json response = Inr json \<and> cs_changes S json = Inr q \<longrightarrow> q = page)"

fun lists_pages :: "'w wiki_platform \<Rightarrow> change_source \<Rightarrow> cursor option \<Rightarrow> int \<Rightarrow> string option \<Rightarrow> changes_page list \<Rightarrow> bool" where
  "lists_pages P S c limit continuation [] = False"
| "lists_pages P S c limit continuation (p # ps) =
     (answers P S (changes_url S c limit continuation) p \<and>
      (if nonempty (ch_continue p) = None then ps = [] else lists_pages P S c limit (ch_continue p) ps))"

text \<open>The pages list the log from the second of the cursor on, which is the \<open>rcstart\<close> of the request.\<close>

definition lists_log :: "'w wiki_platform \<Rightarrow> change_source \<Rightarrow> cursor option \<Rightarrow> int \<Rightarrow> changes_page list \<Rightarrow> raw_change list \<Rightarrow> bool" where
  "lists_log P S c limit pages rows \<longleftrightarrow> lists_pages P S c limit None pages \<and> sorted_wrt row_before rows \<and>
     concat (map ch_rows pages) = filter (\<lambda>e. case c of None \<Rightarrow> True | Some k \<Rightarrow> cur_timestamp k \<le> rw_timestamp e) rows"

lemma row_before_after: "row_before a b \<Longrightarrow> after_cursor (Some \<lparr>cur_source = i, cur_timestamp = rw_timestamp a, cur_rcid = rw_rcid a\<rparr>) (rw_timestamp b) (rw_rcid b)"
  by (auto simp: row_before_def after_cursor_def)

lemma row_not_after: "a = b \<or> row_before b a \<Longrightarrow> \<not> after_cursor (Some \<lparr>cur_source = i, cur_timestamp = rw_timestamp a, cur_rcid = rw_rcid a\<rparr>) (rw_timestamp b) (rw_rcid b)"
  by (auto simp: row_before_def after_cursor_def)

lemma sorted_wrt_last: "sorted_wrt R l \<Longrightarrow> e \<in> set l \<Longrightarrow> e = last l \<or> R e (last l)"
  by (induction l) auto

text \<open>Up to the last element of a part of a sorted list, and not beyond it\<close>

lemma filter_up_to_last:
  assumes "sorted_wrt row_before (xs @ ys)" "filter Q xs \<noteq> []"
    "up_to = (\<lambda>e. \<not> after_cursor (Some \<lparr>cur_source = i, cur_timestamp = rw_timestamp (last (filter Q xs)),
        cur_rcid = rw_rcid (last (filter Q xs))\<rparr>) (rw_timestamp e) (rw_rcid e))"
  shows "filter (\<lambda>e. Q e \<and> up_to e) (xs @ ys) = filter Q xs"
proof -
  let ?l = "last (filter Q xs)"
  have l: "?l \<in> set xs" "Q ?l" using last_in_set [OF assms(2)] by auto
  have "up_to e" if "e \<in> set xs" "Q e" for e
  proof -
    have "sorted_wrt row_before (filter Q xs)" using assms(1) by (simp add: sorted_wrt_append sorted_wrt_filter)
    then have "e = ?l \<or> row_before e ?l" by (rule sorted_wrt_last) (simp add: that)
    then show ?thesis unfolding assms(3) by (intro row_not_after) auto
  qed
  then have "filter (\<lambda>e. Q e \<and> up_to e) xs = filter Q xs" by (intro filter_cong) auto
  moreover have "\<not> up_to e" if "e \<in> set ys" for e
    using assms(1) l(1) that unfolding assms(3) by (auto simp: sorted_wrt_append intro: row_before_after)
  then have "filter (\<lambda>e. Q e \<and> up_to e) ys = []" by (simp add: filter_empty_conv)
  ultimately show ?thesis by simp
qed

lemma batch_events: "cb_events (batch_of S c page) = map normalizeEvent (filter (row_after c) (ch_rows page))"
  by (simp add: batch_of_def Let_def)

lemma batch_cursor:
  "cb_cursor (batch_of S c page) = (if filter (row_after c) (ch_rows page) = [] then c
     else Some \<lparr>cur_source = cs_sourceIdentity S, cur_timestamp = rw_timestamp (last (filter (row_after c) (ch_rows page))),
       cur_rcid = rw_rcid (last (filter (row_after c) (ch_rows page)))\<rparr>)"
  by (simp add: batch_of_def Let_def last_map normalizeEvent_def)

text \<open>What a batch is of the listed rows: exactly those between the old cursor and the new one\<close>

definition exact_batch :: "change_source \<Rightarrow> cursor option \<Rightarrow> raw_change list \<Rightarrow> changes_batch \<Rightarrow> bool" where
  "exact_batch S c rows b \<longleftrightarrow>
     cb_events b = map normalizeEvent (filter (\<lambda>e. row_after c e \<and> \<not> row_after (cb_cursor b) e) rows) \<and>
     (if cb_events b = [] then cb_cursor b = c \<and> list_all (\<lambda>e. \<not> row_after c e) rows
      else \<exists>k. cb_cursor b = Some k \<and> cur_source k = cs_sourceIdentity S \<and> after_cursor c (cur_timestamp k) (cur_rcid k))"

lemma batch_exact:
  assumes "sorted_wrt row_before (ch_rows p @ ys)" "cb_events (batch_of S c p) \<noteq> [] \<or> ys = []"
  shows "exact_batch S c (ch_rows p @ ys) (batch_of S c p)"
proof (cases "filter (row_after c) (ch_rows p) = []")
  case True
  with assms(2) show ?thesis
    by (auto simp: exact_batch_def batch_events batch_cursor list_all_iff filter_empty_conv)
next
  case False
  from last_in_set [OF False] have "row_after c (last (filter (row_after c) (ch_rows p)))" by auto
  with False filter_up_to_last [OF assms(1) False refl] show ?thesis
    by (simp add: exact_batch_def batch_events batch_cursor)
qed

lemma exact_skip:
  assumes "filter (row_after c) xs = []" "exact_batch S c ys b"
  shows "exact_batch S c (xs @ ys) b"
proof -
  from assms(1) have none: "e \<in> set xs \<Longrightarrow> \<not> row_after c e" for e by (simp add: filter_empty_conv)
  then have f: "filter (\<lambda>e. row_after c e \<and> \<not> row_after (cb_cursor b) e) xs = []" unfolding filter_empty_conv by blast
  have l: "list_all (\<lambda>e. \<not> row_after c e) xs" unfolding list_all_iff using none by blast
  show ?thesis using assms(2) l unfolding exact_batch_def filter_append list_all_append f append_Nil by argo
qed

lemma pages_exact:
  assumes "read_pages k P S c limit continuation w = (Inr b, w')" "lists_pages P S c limit continuation pages"
    "sorted_wrt row_before (concat (map ch_rows pages))"
  shows "exact_batch S c (concat (map ch_rows pages)) b"
  using assms
proof (induction k arbitrary: continuation w pages)
  case (Suc k)
  then obtain p ps where pages: "pages = p # ps" by (cases pages) auto
  from Suc.prems(1) obtain response json page w1 where a: "es_fetch P (changes_url S c limit continuation) ''follow'' w = (Inr response, w1)"
    "rp_ok response" "rp_json response = Inr json" "cs_changes S json = Inr page"
    and next_page: "(if cb_events (batch_of S c page) \<noteq> [] \<or> nonempty (cb_continuation (batch_of S c page)) = None
      then returnA (batch_of S c page) else read_pages k P S c limit (cb_continuation (batch_of S c page))) w1 = (Inr b, w')"
    by (auto simp: bindA_Inr Let_def split: if_splits)
  from Suc.prems(2) have "answers P S (changes_url S c limit continuation) p" unfolding pages by simp
  with a have p: "page = p" unfolding answers_def by blast
  have continue: "cb_continuation (batch_of S c p) = ch_continue p" by (simp add: batch_of_def Let_def)
  show ?case
  proof (cases "cb_events (batch_of S c p) \<noteq> [] \<or> nonempty (ch_continue p) = None")
    case True
    with next_page p continue have "b = batch_of S c p" by simp
    moreover have "cb_events (batch_of S c p) \<noteq> [] \<or> concat (map ch_rows ps) = []"
      using True Suc.prems(2) pages by auto
    ultimately show ?thesis using batch_exact Suc.prems(3) pages by simp
  next
    case False
    with next_page p continue have r: "read_pages k P S c limit (ch_continue p) w1 = (Inr b, w')" by (auto split: if_splits)
    from False Suc.prems(2) have l: "lists_pages P S c limit (ch_continue p) ps" unfolding pages by simp
    have "exact_batch S c (concat (map ch_rows ps)) b"
      using Suc.IH [OF r l] Suc.prems(3) pages by (simp add: sorted_wrt_append)
    moreover have "filter (row_after c) (ch_rows p) = []" using False by (simp add: batch_events)
    ultimately show ?thesis using exact_skip pages by simp
  qed
qed simp

lemma exact_from_start:
  assumes "exact_batch S c (filter (\<lambda>e. case c of None \<Rightarrow> True | Some k \<Rightarrow> cur_timestamp k \<le> rw_timestamp e) rows) b"
  shows "exact_batch S c rows b"
proof -
  have r: "row_after c e \<Longrightarrow> (case c of None \<Rightarrow> True | Some k \<Rightarrow> cur_timestamp k \<le> rw_timestamp e)" for e
    by (auto simp: after_cursor_def split: option.splits)
  have same: "filter (\<lambda>e. row_after c e \<and> Q e) (filter (\<lambda>e. case c of None \<Rightarrow> True | Some k \<Rightarrow> cur_timestamp k \<le> rw_timestamp e) rows)
      = filter (\<lambda>e. row_after c e \<and> Q e) rows" for Q
    unfolding filter_filter by (rule filter_cong [OF refl]) (use r in blast)
  have none: "list_all (\<lambda>e. \<not> row_after c e) (filter (\<lambda>e. case c of None \<Rightarrow> True | Some k \<Rightarrow> cur_timestamp k \<le> rw_timestamp e) rows)
      \<longleftrightarrow> list_all (\<lambda>e. \<not> row_after c e) rows"
    using r by (simp add: list_all_iff) blast
  from assms show ?thesis unfolding exact_batch_def same none .
qed

text \<open>C15: Reading the change log skips no change and repeats none.  When the interface lists a log that is ordered
  by time and number, from the second of the cursor on and over as many pages as it likes, the
  events of a batch are exactly the changes of that log after the cursor it was read with and not after
  the cursor it returns, in the order of the log; so the next read goes on with the first change that
  was not returned.  A batch without events means that the log has no change after the cursor, which stays.\<close>

theorem changes_read_forward:
  assumes "read_changes P S c limit w = (Inr b, w')" "lists_log P S c limit pages rows"
  shows "cb_events b = map normalizeEvent (filter (\<lambda>e. after_cursor c (rw_timestamp e) (rw_rcid e) \<and>
      \<not> after_cursor (cb_cursor b) (rw_timestamp e) (rw_rcid e)) rows) \<and>
    (if cb_events b = [] then cb_cursor b = c \<and> list_all (\<lambda>e. \<not> after_cursor c (rw_timestamp e) (rw_rcid e)) rows
     else \<exists>k. cb_cursor b = Some k \<and> cur_source k = cs_sourceIdentity S \<and> after_cursor c (cur_timestamp k) (cur_rcid k))"
proof -
  from assms(1) have r: "read_pages SCAN_PAGES P S c limit None w = (Inr b, w')"
    by (auto simp: read_changes_def split: if_splits)
  from assms(2) have l: "lists_pages P S c limit None pages" "sorted_wrt row_before (concat (map ch_rows pages))"
    "concat (map ch_rows pages) = filter (\<lambda>e. case c of None \<Rightarrow> True | Some k \<Rightarrow> cur_timestamp k \<le> rw_timestamp e) rows"
    by (auto simp: lists_log_def sorted_wrt_filter)
  show ?thesis
    using exact_from_start [OF pages_exact [OF r l(1,2), unfolded l(3)]] unfolding exact_batch_def .
qed

section \<open>A wiki with a redirect\<close>

text \<open>In the wiki of the samples Q1 redirects to Q2, whose last revision is 9.  The requests are recorded.\<close>

definition wiki_answer :: "jsval \<Rightarrow> string \<Rightarrow> http_response" where
  "wiki_answer json text = \<lparr>rp_status = 200, rp_headers = Map.empty, rp_text = Inr text, rp_json = Inr json\<rparr>"

definition wiki_pages :: jsval where
  "wiki_pages = JObj [(''query'', JObj [(''pages'', JArr [JObj [(''title'', JStr ''Item:Q2''), (''lastrevid'', JInt 9)]])]),
     (''redirects'', JArr [JObj [(''from'', JStr ''Q1''), (''to'', JStr ''Q2'')]]),
     (''entities'', JObj [(''Q2'', JObj [(''lastrevid'', JInt 9)])])]"

definition wiki_rdf :: string where
  "wiki_rdf = ''<http://w/entity/Q2> <http://schema.org/version> '' @ [CHR 0x22] @ ''9'' @ [CHR 0x22] @ '' .''"

definition demo_wiki :: "request_log wiki_platform" where
  "demo_wiki = \<lparr>es_fetch = (\<lambda>url mode w. (Inr (wiki_answer wiki_pages wiki_rdf), w @ [(url, mode)])), es_resolve = (\<lambda>l b. None)\<rparr>"

definition wiki_parse :: url_parser where
  "wiki_parse s = Some \<lparr>ul_protocol = ''http:'', ul_username = [], ul_password = [], ul_hostname = ''wikibase'',
     ul_pathname = ''/'', ul_search = [], ul_hash = [], ul_href = s\<rparr>"

lemma demo_traced: "traced demo_wiki (\<lambda>w. w)"
  by (simp add: traced_def demo_wiki_def)

theorem fetched_from_trusted_wiki_witness:
  "\<exists>f x us. new_entity_fetcher wiki_parse ''http://wikibase/'' ''http://wikibase/'' 1000 = Inr f \<and>
    fetch_entity demo_wiki f ''Q2'' 9 [] = (Inr x, us) \<and> map snd us = [''follow'', ''manual''] \<and>
    list_all (starts_with ''http://wikibase/'') (map fst us) \<and>
    fr_rdf x = wiki_rdf \<and> fr_revision x = 9"
proof -
  let ?u = "\<lparr>ul_protocol = ''http:'', ul_username = [], ul_password = [], ul_hostname = ''wikibase'',
     ul_pathname = ''/'', ul_search = [], ul_hash = [], ul_href = ''http://wikibase/''\<rparr>"
  let ?f = "\<lparr>ef_baseUrl = ?u, ef_canonical = ?u, ef_maxBytes = 1000\<rparr>"
  have f: "new_entity_fetcher wiki_parse ''http://wikibase/'' ''http://wikibase/'' 1000 = Inr ?f" by code_simp
  obtain r us where c: "fetch_entity demo_wiki ?f ''Q2'' 9 [] = (r, us)" by (cases "fetch_entity demo_wiki ?f ''Q2'' 9 []")
  have x: "(case fst (fetch_entity demo_wiki ?f ''Q2'' 9 []) of Inr x \<Rightarrow> fr_rdf x = wiki_rdf | Inl _ \<Rightarrow> False)"
    "map snd (snd (fetch_entity demo_wiki ?f ''Q2'' 9 [])) = [''follow'', ''manual'']" by code_simp+
  have origin: "origin_of (ef_baseUrl ?f) = ''http://wikibase''" by code_simp
  from fetched_from_trusted_wiki [OF demo_traced f c] have "list_all (starts_with ''http://wikibase/'') (map fst us) \<and>
      (\<forall>x. r = Inr x \<longrightarrow> fr_revision x = 9)" unfolding origin by (auto simp: list_all_iff)
  with x c f show ?thesis by (auto split: sum.splits)
qed

text \<open>The answer of the lifecycle resolver for the redirected Q1 carries the revision of Q2; reading Q1 at that
  revision is refused, because the revision belongs to the page of Q2.\<close>

lemma redirected_entity_refused:
  "(case fst (resolve_lifecycle demo_wiki (the (wiki_parse ''http://wikibase/'')) (classified_as ENTITY_REDIRECT (Some ''Q1'') True)
       \<lparr>ev_rcid = 1, ev_timestamp = [], ev_type = None, ev_title = None, ev_revid = None, ev_oldRevid = None, ev_logtype = None,
        ev_logaction = None, ev_comment = None, ev_tags = None, ev_redirect = True\<rparr> []) of
     Inr x \<Rightarrow> cx_unambiguous x \<and> map cy_revision (cx_entities x) = [9] \<and> map cy_redirect (cx_entities x) = [True] | Inl _ \<Rightarrow> False)"
  "(case new_entity_fetcher wiki_parse ''http://wikibase/'' ''http://wikibase/'' 1000 of
     Inr f \<Rightarrow> fst (fetch_entity demo_wiki f ''Q1'' 9 []) = Inl ''REVISION_MISMATCH'' | Inl _ \<Rightarrow> False)"
  by code_simp+

definition demo_row :: "int \<Rightarrow> raw_change" where
  "demo_row n = \<lparr>rw_rcid = n, rw_timestamp = ''2026-08-20T00:00:00Z'', rw_type = Some ''edit'',
     rw_title = Some ''Item:Q1'', rw_revid = Some n, rw_oldRevid = None, rw_logtype = None, rw_logaction = None,
     rw_comment = None, rw_tags = None, rw_redirect = False\<rparr>"

definition demo_page :: changes_page where
  "demo_page = \<lparr>ch_rows = map demo_row [4, 5, 6], ch_continue = None\<rparr>"

definition demo_source :: change_source where
  "demo_source = \<lparr>cs_apiUrl = ''http://wikibase/api.php'', cs_sourceIdentity = ''jwb-local'', cs_changes = (\<lambda>json. Inr demo_page)\<rparr>"

definition demo_cursor :: cursor where
  "demo_cursor = \<lparr>cur_source = ''jwb-local'', cur_timestamp = ''2026-08-20T00:00:00Z'', cur_rcid = 4\<rparr>"

text \<open>The log has an older change, of another second, which the interface does not list.\<close>

definition demo_log :: "raw_change list" where
  "demo_log = (demo_row 3)\<lparr>rw_timestamp := ''2026-08-19T00:00:00Z''\<rparr> # ch_rows demo_page"

lemma demo_listed: "lists_log demo_wiki demo_source (Some demo_cursor) 50 [demo_page] demo_log"
proof -
  have t: "''2026-08-19T00:00:00Z'' < (''2026-08-20T00:00:00Z'' :: string)"
    by simp
  have "answers demo_wiki demo_source url demo_page" for url by (simp add: answers_def demo_source_def)
  with t show ?thesis
    by (simp add: lists_log_def demo_log_def demo_page_def demo_row_def demo_cursor_def row_before_def nonempty_def)
qed

theorem changes_read_forward_witness:
  "\<exists>b w'. read_changes demo_wiki demo_source (Some demo_cursor) 50 [] = (Inr b, w') \<and> map ev_rcid (cb_events b) = [5, 6] \<and>
    (\<exists>k. cb_cursor b = Some k \<and> cur_rcid k = 6) \<and>
    cb_events b = map normalizeEvent (filter (\<lambda>e. after_cursor (Some demo_cursor) (rw_timestamp e) (rw_rcid e) \<and>
      \<not> after_cursor (cb_cursor b) (rw_timestamp e) (rw_rcid e)) demo_log)"
proof -
  let ?m = "read_changes demo_wiki demo_source (Some demo_cursor) 50 []"
  have n: "SCAN_PAGES = Suc 9" by (simp add: SCAN_PAGES_def)
  have x: "(case fst ?m of Inr b \<Rightarrow> map ev_rcid (cb_events b) = [5, 6] \<and> map_option cur_rcid (cb_cursor b) = Some 6 | Inl _ \<Rightarrow> False)"
    unfolding read_changes_def n read_pages.simps(2)
    by (simp add: demo_wiki_def wiki_answer_def rp_ok_def bindA_def liftA_def returnA_def demo_source_def batch_of_def Let_def
        after_cursor_def normalizeEvent_def nonempty_def demo_page_def demo_row_def demo_cursor_def)
  then obtain b w' where c: "?m = (Inr b, w')" by (cases ?m) (auto split: sum.splits)
  from changes_read_forward [OF c demo_listed] have
    "cb_events b = map normalizeEvent (filter (\<lambda>e. after_cursor (Some demo_cursor) (rw_timestamp e) (rw_rcid e) \<and>
      \<not> after_cursor (cb_cursor b) (rw_timestamp e) (rw_rcid e)) demo_log)" by blast
  with c x show ?thesis by auto
qed

end
