(* ===== verification/DifferenceInventory.thy ===== *)
theory DifferenceInventory
  imports RdfCanonical SparqlBackend
begin

text \<open>
  The comparison of the wiki's exports: \<open>scripts/jwb-lib.mjs\<close> with the local environment it is run
  against, \<open>scripts/jwb-m9c-inventory.mjs\<close>, which compares two dumps and the exports of the single
  entities and classifies what differs, and \<open>scripts/jwb-m3-lib.mjs\<close> with the comparison of two
  texts of triples.  Commands, network, clock, files and hashes are parameters.
\<close>

section \<open>The local environment\<close>

definition JWB_PROJECT :: string where
  "JWB_PROJECT = ''wfp-jwb-m1''"

definition JWB_DOCKER_CONTEXT :: string where
  "JWB_DOCKER_CONTEXT = ''desktop-linux''"

definition JWB_BASE_URL :: string where
  "JWB_BASE_URL = ''http://127.0.0.1:8180''"

text \<open>The second test of the code, for words such as prod, never decides: the context is compared first.\<close>

definition assertJwbDockerTarget :: "string \<Rightarrow> string \<Rightarrow> string option \<Rightarrow> unit result" where
  "assertJwbDockerTarget context operatingSystem architecture =
     (if context \<noteq> JWB_DOCKER_CONTEXT then Inl (''refusing Docker context: '' @ context)
      else if operatingSystem \<noteq> ''linux'' \<or> architecture \<noteq> Some ''aarch64''
      then Inl (''M1 requires native Docker Desktop linux/aarch64, found '' @ operatingSystem @ ''/'' @ or_else architecture ''undefined'')
      else Inr ())"

text \<open>\<open>randomText n\<close> is the base64url text of so many random bytes; the draws are made in order.\<close>

definition createJwbState :: "(nat \<Rightarrow> ('w, string) action) \<Rightarrow> ('w, jsval) action" where
  "createJwbState randomText =
     bindA (randomText 36) (\<lambda>databasePassword.
     bindA (randomText 36) (\<lambda>databaseRootPassword.
     bindA (randomText 36) (\<lambda>adminPassword.
     bindA (randomText 48) (\<lambda>secretKey.
     bindA (randomText 24) (\<lambda>upgradeKey.
     returnA (JObj [(''version'', JInt 1), (''project'', JStr JWB_PROJECT), (''databaseName'', JStr ''japan_wikibase''),
       (''databaseUser'', JStr ''jwb_app''), (''databasePassword'', JStr databasePassword),
       (''databaseRootPassword'', JStr databaseRootPassword), (''adminUser'', JStr ''JwbAdmin''),
       (''adminPassword'', JStr adminPassword), (''secretKey'', JStr secretKey), (''upgradeKey'', JStr upgradeKey),
       (''persistentEntityId'', JNull)]))))))"

definition stateEnvironment :: "jsval \<Rightarrow> (string \<times> jsval) list result" where
  "stateEnvironment state =
     (if js_prop state ''project'' \<noteq> JStr JWB_PROJECT \<or> js_prop state ''version'' \<noteq> JInt 1 then Inl ''invalid M1 state identity''
      else Inr [(''JWB_DB_NAME'', js_prop state ''databaseName''), (''JWB_DB_USER'', js_prop state ''databaseUser''),
        (''JWB_DB_PASSWORD'', js_prop state ''databasePassword''), (''JWB_DB_ROOT_PASSWORD'', js_prop state ''databaseRootPassword''),
        (''JWB_ADMIN_USER'', js_prop state ''adminUser''), (''JWB_ADMIN_PASSWORD'', js_prop state ''adminPassword''),
        (''JWB_SECRET_KEY'', js_prop state ''secretKey''), (''JWB_UPGRADE_KEY'', js_prop state ''upgradeKey'')])"

section \<open>Classification of differences\<close>

text \<open>\<open>/^(<[^>]+>|_:[^ ]+)\s+(<[^>]+>)\s+(.+)\s+(<urn:jwb:[^>]+>)\s+\.$/u\<close>\<close>

definition IRI_TERM :: rx where
  "IRI_TERM = Cats [Chr (CHR ''<''), Plus1 (NoneOf ''>''), Chr (CHR ''>'')]"

definition SPACES :: rx where
  "SPACES = Plus1 (Cls is_space)"

definition INVENTORY_LINE :: rx where
  "INVENTORY_LINE = Cats [Grp 1 (Alt IRI_TERM (Cat (Lit ''_:'') (Plus1 (NoneOf '' '')))), SPACES, Grp 2 IRI_TERM, SPACES,
     Plus1 (Cls (\<lambda>c. c \<noteq> LF \<and> c \<noteq> CHR 0x0D)), SPACES,
     Cats [Lit ''<urn:jwb:'', Plus1 (NoneOf ''>''), Chr (CHR ''>'')], SPACES, Chr (CHR ''.'')]"

record difference =
  di_predicate :: string
  di_subjectType :: string
  di_source :: string
  di_stability :: string
  di_semantic :: string
  di_treatment :: string
  di_evidence :: string

definition DUMP_SUBJECT :: string where
  "DUMP_SUBJECT = ''<http://wikiba.se/ontology#Dump>''"

text \<open>What is proposed for a difference: its meaning and its treatment\<close>

definition proposed :: "string \<Rightarrow> string \<Rightarrow> string \<times> string" where
  "proposed predicate subject =
     (if subject = DUMP_SUBJECT then (''export-provenance'', ''MOVE_TO_GENERATION_MANIFEST'')
      else if contains ''/wiki/Special:EntityData/'' subject \<and>
        List.member [''http://creativecommons.org/ns#license'', ''http://schema.org/softwareVersion''] predicate
      then (''entity-export-provenance'', ''MOVE_TO_GENERATION_MANIFEST'')
      else (''unclassified'', ''REJECT_UNKNOWN''))"

definition subject_type :: "string \<Rightarrow> string" where
  "subject_type subject =
     (if contains ''/wiki/Special:EntityData/'' subject then ''entity-export''
      else if subject = DUMP_SUBJECT then ''dump-export''
      else if contains ''/entity/'' subject then ''wikibase-entity''
      else ''other'')"

definition classify_line :: "string \<Rightarrow> string \<Rightarrow> string \<Rightarrow> difference result" where
  "classify_line source stability line =
     (case rx_exec INVENTORY_LINE line of
        None \<Rightarrow> Inl ''unexpected N-Quads inventory line''
      | Some m \<Rightarrow>
          let subject = or_else (group m 1) []; predicate = butlast (tl (or_else (group m 2) []))
          in Inr \<lparr>di_predicate = predicate, di_subjectType = subject_type subject, di_source = source,
            di_stability = stability, di_semantic = fst (proposed predicate subject),
            di_treatment = snd (proposed predicate subject), di_evidence = line\<rparr>)"

fun classify :: "string list \<Rightarrow> string \<Rightarrow> string \<Rightarrow> difference list result" where
  "classify [] source stability = Inr []"
| "classify (l # ls) source stability =
     bindR (classify_line source stability l) (\<lambda>d.
     bindR (classify ls source stability) (\<lambda>rest. Inr (d # rest)))"

text \<open>The categories in the order of their first difference, each with its number; the JSON text of the
  six fields is a key that tells them apart.\<close>

type_synonym category = "string list"

definition category_of :: "difference \<Rightarrow> category" where
  "category_of d = [di_predicate d, di_subjectType d, di_source d, di_stability d, di_semantic d, di_treatment d]"

definition count_category :: "category \<Rightarrow> (category \<times> nat) list \<Rightarrow> (category \<times> nat) list" where
  "count_category k counts = AList.update k (Suc (or_else (map_of counts k) 0)) counts"

definition summarize :: "difference list \<Rightarrow> (category \<times> nat) list" where
  "summarize ds = fold (\<lambda>d. count_category (category_of d)) ds []"

section \<open>Entities of a dump\<close>

text \<open>\<open>/^<http:\/\/127\.0\.0\.1:8180\/entity\/([QP][1-9][0-9]*)>\s/u\<close>, at the start of a line\<close>

definition DUMP_ENTITY :: rx where
  "DUMP_ENTITY = Cats [Lit ''<http://127.0.0.1:8180/entity/'', Grp 1 ENTITY_ID, Chr (CHR ''>''), Cls is_space]"

definition line_entity :: "string \<Rightarrow> string option" where
  "line_entity line = (case runs DUMP_ENTITY line [] of [] \<Rightarrow> None | (_, c) # _ \<Rightarrow> group c 1)"

text \<open>Sorted by letter, then by number; the numbers are below \<open>2^53\<close>.\<close>

definition entity_number :: "string \<Rightarrow> int" where
  "entity_number i = from_base 10 (tl i)"

definition dump_entities :: "string \<Rightarrow> string list" where
  "dump_entities rdf =
     sort_key hd (sort_key entity_number (uniq (List.map_filter line_entity (split_on LF rdf))))"

section \<open>The inventory\<close>

text \<open>The bound of the search of the canonicalization when none is given\<close>

definition DEFAULT_BOUND :: int where
  "DEFAULT_BOUND = 100000"

record 'w inventory_platform =
  iv_exec :: "string \<Rightarrow> string list \<Rightarrow> (string \<times> jsval) list \<Rightarrow> ('w, string) action"
  iv_readState :: "('w, jsval) action"
  iv_sleep :: "int \<Rightarrow> ('w, unit) action"
  iv_fetch :: "string \<Rightarrow> ('w, http_response) action"
  iv_sha256 :: "string \<Rightarrow> string"
  iv_fromCodePoint :: "nat \<Rightarrow> string"
  iv_compose :: string

definition lower_text :: "string \<Rightarrow> string" where
  "lower_text s = map (\<lambda>c. let n = of_char c :: nat in
     if 65 \<le> n \<and> n \<le> 90 \<or> 192 \<le> n \<and> n \<le> 222 \<and> n \<noteq> 215 then char_of (n + 32) else c) s"

definition assertLocal :: "'w inventory_platform \<Rightarrow> ('w, unit) action" where
  "assertLocal P =
     bindA (iv_exec P ''docker'' [''context'', ''show''] []) (\<lambda>context.
     bindA (iv_exec P ''docker'' [''info'', ''--format'', ''{{.OperatingSystem}}'' @ [LF] @ ''{{.Architecture}}''] []) (\<lambda>info.
     let parts = split_on LF (trim info); os = hd parts; architecture = (case parts of _ # a # _ \<Rightarrow> Some a | _ \<Rightarrow> None)
     in liftA (assertJwbDockerTarget (trim context) (if contains ''Docker Desktop'' os then ''linux'' else lower_text os) architecture)))"

definition dump :: "'w inventory_platform \<Rightarrow> jsval \<Rightarrow> ('w, string) action" where
  "dump P state = bindA (liftA (stateEnvironment state)) (\<lambda>env.
     iv_exec P ''docker'' [''compose'', ''--project-name'', JWB_PROJECT, ''--file'', iv_compose P, ''exec'', ''--no-TTY'', ''wikibase'',
       ''php'', ''extensions/Wikibase/repo/maintenance/dumpRdf.php'', ''--format'', ''nt'', ''--flavor'', ''full-dump'']
       (spread [(''DOCKER_CONTEXT'', JStr JWB_DOCKER_CONTEXT)] env))"

definition set_graphs :: "entity_partition \<Rightarrow> graphs \<Rightarrow> graphs" where
  "set_graphs p graphs =
     (let own = AList.update (ep_entityGraphIri p) (ep_entityRdf p) graphs in
      case ep_schemaGraphIri p of None \<Rightarrow> own | Some iri \<Rightarrow> AList.update iri (ep_schemaRdf p) own)"

text \<open>The loop over the entities: the graphs of the exports as they are, and of their normal forms\<close>

fun entity_graphs :: "'w inventory_platform \<Rightarrow> string list \<Rightarrow> graphs \<times> graphs \<Rightarrow> ('w, graphs \<times> graphs) action" where
  "entity_graphs P [] g = returnA g"
| "entity_graphs P (i # is) (raw, normal) =
     bindA (iv_fetch P (JWB_BASE_URL @ ''/wiki/Special:EntityData/'' @ i @ ''.nt'')) (\<lambda>response.
     if \<not> rp_ok response then raiseA (''EntityData '' @ i @ '' HTTP '' @ show_int (rp_status response))
     else
     bindA (liftA (rp_text response)) (\<lambda>body.
     bindA (liftA (partitionWikibaseEntity i body)) (\<lambda>p.
     bindA (liftA (normalizeWikibaseRdf (iv_sha256 P) body ''ENTITY_DATA'')) (\<lambda>n.
     bindA (liftA (partitionWikibaseEntity i (nz_rdf n))) (\<lambda>q.
     entity_graphs P is (set_graphs p raw, set_graphs q normal))))))"

record inventory =
  in_entities :: "string list"
  in_dumpComparison :: "nat \<times> nat"
  in_sourceComparison :: "nat \<times> nat"
  in_normalizedRepeated :: "nat \<times> nat"
  in_normalizedConvergence :: "nat \<times> nat"
  in_categories :: "(category \<times> nat) list"
  in_differences :: "difference list"

definition diff_counts :: "rdf_diff \<Rightarrow> nat \<times> nat" where
  "diff_counts d = (length (df_canonicalOnly d), length (df_generationOnly d))"

definition classify_diffs :: "rdf_diff \<Rightarrow> rdf_diff \<Rightarrow> difference list result" where
  "classify_diffs repeated sources =
     bindR (classify (df_canonicalOnly repeated) ''FULL_D1_ONLY'' ''volatile-between-dumps'') (\<lambda>a.
     bindR (classify (df_generationOnly repeated) ''FULL_D2_ONLY'' ''volatile-between-dumps'') (\<lambda>b.
     bindR (classify (df_canonicalOnly sources) ''FULL_DUMP_ONLY'' ''source-difference'') (\<lambda>c.
     bindR (classify (df_generationOnly sources) ''ENTITY_DATA_ONLY'' ''source-difference'') (\<lambda>d.
     Inr (a @ b @ c @ d)))))"

text \<open>What is computed from the two dumps and the graphs of the entities\<close>

definition compare_exports :: "'w inventory_platform \<Rightarrow> string \<Rightarrow> string \<Rightarrow> string list \<Rightarrow> graphs \<Rightarrow> graphs \<Rightarrow> inventory result" where
  "compare_exports P d1 d2 ids raw normal =
     (let diff = diffCanonicalRdfDatasets (iv_sha256 P) (iv_fromCodePoint P) DEFAULT_BOUND in
      bindR (partitionWikibaseSnapshot d1) (\<lambda>p1.
      bindR (partitionWikibaseSnapshot d2) (\<lambda>p2.
      bindR (diff (datasetToNQuads (ds_graphs p1)) (datasetToNQuads (ds_graphs p2))) (\<lambda>repeated.
      bindR (diff (datasetToNQuads (ds_graphs p2)) (datasetToNQuads raw)) (\<lambda>sources.
      bindR (classify_diffs repeated sources) (\<lambda>differences.
      bindR (normalizeWikibaseRdf (iv_sha256 P) d1 ''FULL_DUMP'') (\<lambda>n1.
      bindR (partitionWikibaseSnapshot (nz_rdf n1)) (\<lambda>q1.
      bindR (normalizeWikibaseRdf (iv_sha256 P) d2 ''FULL_DUMP'') (\<lambda>n2.
      bindR (partitionWikibaseSnapshot (nz_rdf n2)) (\<lambda>q2.
      let complete = AList.update GLOBAL_GRAPH_IRI (or_else (map_of (ds_graphs q2) GLOBAL_GRAPH_IRI) []) normal in
      bindR (diff (datasetToNQuads (ds_graphs q1)) (datasetToNQuads (ds_graphs q2))) (\<lambda>normalizedRepeated.
      bindR (diff (datasetToNQuads (ds_graphs q2)) (datasetToNQuads complete)) (\<lambda>normalizedConvergence.
      Inr \<lparr>in_entities = ids, in_dumpComparison = diff_counts repeated, in_sourceComparison = diff_counts sources,
        in_normalizedRepeated = diff_counts normalizedRepeated, in_normalizedConvergence = diff_counts normalizedConvergence,
        in_categories = summarize differences, in_differences = differences\<rparr>))))))))))))"

definition take_inventory :: "'w inventory_platform \<Rightarrow> ('w, inventory) action" where
  "take_inventory P =
     thenA (assertLocal P)
     (bindA (iv_readState P) (\<lambda>state.
      bindA (liftA (stateEnvironment state)) (\<lambda>_.
      bindA (dump P state) (\<lambda>d1.
      thenA (iv_sleep P 1200)
      (bindA (dump P state) (\<lambda>d2.
       let ids = dump_entities d1 in
       bindA (entity_graphs P ids ([], [])) (\<lambda>(raw, normal).
       liftA (compare_exports P d1 d2 ids raw normal))))))))"


section \<open>Two texts of triples\<close>

text \<open>\<open>normalizeLexicalForm\<close>: runs of tabs, the two kinds of escapes one after the other, decimal literals\<close>

definition LONG_ESCAPE :: rx where
  "LONG_ESCAPE = Cats [Chr (CHR 0x5C), Chr (CHR ''U''), Grp 1 (Times 8 (Cls is_hex))]"

definition SHORT_ESCAPE :: rx where
  "SHORT_ESCAPE = Cats [Chr (CHR 0x5C), Chr (CHR ''u''), Grp 1 (Times 4 (Cls is_hex))]"

definition SIGNED_DECIMAL :: rx where
  "SIGNED_DECIMAL = Cats [Chr (CHR 0x22),
     Grp 1 (Cats [Opt (Chr (CHR ''+'')), Opt (Chr (CHR ''-'')), Plus1 (Cls is_digit), Opt (Cat (Chr (CHR ''.'')) (Plus1 (Cls is_digit)))]),
     Chr (CHR 0x22), Lit ''^^<http://www.w3.org/2001/XMLSchema#decimal>'']"

definition trimmed_decimal :: "string \<Rightarrow> string" where
  "trimmed_decimal lexical =
     (let unsigned = (if starts_with ''+'' lexical then tl lexical else lexical) in
      if contains ''.'' unsigned
      then (let kept = rev (dropWhile (\<lambda>c. c = CHR ''0'') (rev unsigned)) in if ends_with ''.'' kept then butlast kept else kept)
      else unsigned)"

definition normalizeLexicalForm :: "(nat \<Rightarrow> string) \<Rightarrow> string \<Rightarrow> string" where
  "normalizeLexicalForm fromCodePoint line =
     rx_replace_all SIGNED_DECIMAL (\<lambda>m _. [CHR 0x22] @ trimmed_decimal (or_else (group m 1) []) @ [CHR 0x22] @
         ''^^<http://www.w3.org/2001/XMLSchema#decimal>'')
       (rx_replace_all SHORT_ESCAPE (\<lambda>m _. fromCodePoint (hex_val (or_else (group m 1) [])))
         (rx_replace_all LONG_ESCAPE (\<lambda>m _. fromCodePoint (hex_val (or_else (group m 1) [])))
           (rx_replace_all (Plus1 (Cls (\<lambda>c. c = CHR 0x09))) (\<lambda>_ _. '' '') line)))"

definition ntriple_lines :: "(nat \<Rightarrow> string) \<Rightarrow> string \<Rightarrow> string list" where
  "ntriple_lines fromCodePoint text =
     filter (\<lambda>l. l \<noteq> [] \<and> \<not> starts_with ''#'' l) (map (\<lambda>l. normalizeLexicalForm fromCodePoint (trim l)) (split_on LF text))"

definition canonicalizeNTriples :: "(nat \<Rightarrow> string) \<Rightarrow> string \<Rightarrow> string" where
  "canonicalizeNTriples fromCodePoint text = join [LF] (sort (uniq (ntriple_lines fromCodePoint text))) @ [LF]"

definition canonical_lines :: "(nat \<Rightarrow> string) \<Rightarrow> string \<Rightarrow> string list" where
  "canonical_lines fromCodePoint text = split_on LF (trim (canonicalizeNTriples fromCodePoint text))"

text \<open>\<open>/^<([^>]+)>\s+<[^>]+>\s+<([^>]+)>/u\<close> and \<open>/^<([^>]+)>/u\<close>, at the start of a line\<close>

definition IRI_GROUP :: "nat \<Rightarrow> rx" where
  "IRI_GROUP n = Cats [Chr (CHR ''<''), Grp n (Plus1 (NoneOf ''>'')), Chr (CHR ''>'')]"

definition LINK_LINE :: rx where
  "LINK_LINE = Cats [IRI_GROUP 1, SPACES, IRI_TERM, SPACES, IRI_GROUP 2]"

definition link_of :: "string \<Rightarrow> triple option" where
  "link_of line = (case runs LINK_LINE line [] of
     [] \<Rightarrow> None
   | (_, c) # _ \<Rightarrow> Some \<lparr>t_line = line, t_subject = or_else (group c 1) [], t_object = or_else (group c 2) [], t_objectType = Iri\<rparr>)"

definition subject_of :: "string \<Rightarrow> string option" where
  "subject_of line = (case runs (IRI_GROUP 1) line [] of [] \<Rightarrow> None | (_, c) # _ \<Rightarrow> group c 1)"

text \<open>The loop that follows the links is that of the partition, on the lines that link two nodes.\<close>

definition entityClosure :: "(nat \<Rightarrow> string) \<Rightarrow> string \<Rightarrow> string list \<Rightarrow> string \<Rightarrow> string" where
  "entityClosure fromCodePoint text entityIds baseUrl =
     (let lines = canonical_lines fromCodePoint text;
          roots = concat (map (\<lambda>i. [baseUrl @ ''/entity/'' @ i, baseUrl @ ''/wiki/Special:EntityData/'' @ i]) entityIds);
          subjects = closure_loop is_node_iri (List.map_filter link_of lines) (uniq roots)
      in join [LF] (filter (\<lambda>l. case subject_of l of None \<Rightarrow> False | Some s \<Rightarrow> s \<noteq> [] \<and> List.member subjects s) lines) @ [LF])"

record triple_diff =
  td_removed :: "string list"
  td_added :: "string list"

definition diffNTriples :: "(nat \<Rightarrow> string) \<Rightarrow> string \<Rightarrow> string \<Rightarrow> triple_diff" where
  "diffNTriples fromCodePoint before after =
     (let old = uniq (filter (\<lambda>l. l \<noteq> []) (canonical_lines fromCodePoint before));
          new = uniq (filter (\<lambda>l. l \<noteq> []) (canonical_lines fromCodePoint after))
      in \<lparr>td_removed = filter (\<lambda>l. \<not> List.member new l) old, td_added = filter (\<lambda>l. \<not> List.member old l) new\<rparr>)"

definition TRIPLE_CLASSES :: "(string \<times> string) list" where
  "TRIPLE_CLASSES = [(''/entity/statement/'', ''statement''), (''/reference/'', ''reference''), (''/value/'', ''value''),
     (''/prop/qualifier/'', ''qualifier''), (''/prop/direct/'', ''direct-claim''), (''rdf-schema#label'', ''label''),
     (''schema.org/description'', ''description''), (''skos/core#altLabel'', ''alias''), (''Special:EntityData'', ''entity-metadata'')]"

definition classifyTriple :: "string \<Rightarrow> string" where
  "classifyTriple line = (case List.find (\<lambda>(part, _). contains part line) TRIPLE_CLASSES of
     Some (_, name) \<Rightarrow> name | None \<Rightarrow> ''other'')"

record diff_summary =
  su_added :: nat
  su_removed :: nat
  su_classes :: "(string \<times> nat) list"

definition count_class :: "string \<Rightarrow> string \<Rightarrow> (string \<times> nat) list \<Rightarrow> (string \<times> nat) list" where
  "count_class direction line counts =
     (let key = direction @ '':'' @ classifyTriple line in AList.update key (Suc (or_else (map_of counts key) 0)) counts)"

definition summarizeDiff :: "triple_diff \<Rightarrow> diff_summary" where
  "summarizeDiff d = \<lparr>su_added = length (td_added d), su_removed = length (td_removed d),
     su_classes = fold (count_class ''added'') (td_added d) (fold (count_class ''removed'') (td_removed d) [])\<rparr>"

text \<open>\<open>matchAll(/^<([^>]+)>/gmu)\<close>: a match starts where a line does, and may run over its end.\<close>

fun line_subjects :: "nat \<Rightarrow> bool \<Rightarrow> string \<Rightarrow> string list" where
  "line_subjects 0 start s = []"
| "line_subjects (Suc n) start s = (case s of
     [] \<Rightarrow> []
   | c # cs \<Rightarrow> (case (if start then runs (IRI_GROUP 1) s [] else []) of
       (rest, m) # _ \<Rightarrow> or_else (group m 1) [] # line_subjects n False rest
     | [] \<Rightarrow> line_subjects n (c = LF \<or> c = CHR 0x0D) cs))"

definition nodeSubjects :: "string \<Rightarrow> string list" where
  "nodeSubjects text = uniq (line_subjects (length text) True text)"

section \<open>Nothing is lost in a summary\<close>

lemma category_counted:
  "map_of (fold (\<lambda>d. count_category (category_of d)) ds counts) k =
     (if \<exists>d \<in> set ds. category_of d = k
      then Some (or_else (map_of counts k) 0 + length (filter (\<lambda>d. category_of d = k) ds)) else map_of counts k)"
proof (induction ds arbitrary: counts)
  case (Cons d ds)
  have "map_of (count_category (category_of d) counts) k =
      (if category_of d = k then Some (Suc (or_else (map_of counts k) 0)) else map_of counts k)"
    by (simp add: count_category_def update_conv)
  then show ?case by (auto simp: Cons.IH or_else_def)
qed simp

text \<open>The summary of an inventory counts every difference once.  A category is listed exactly when a
  difference has it, no category is listed twice, and its number is the number of its differences.\<close>

theorem summary_counts:
  "distinct (map fst (summarize ds)) \<and>
   map_of (summarize ds) k = (if k \<in> category_of ` set ds then Some (length (filter (\<lambda>d. category_of d = k) ds)) else None)"
proof -
  have "distinct (map fst counts) \<Longrightarrow> distinct (map fst (fold (\<lambda>d. count_category (category_of d)) ds counts))" for counts :: "(category \<times> nat) list"
    by (induction ds arbitrary: counts) (auto simp: count_category_def distinct_update)
  then have "distinct (map fst (summarize ds))" by (simp add: summarize_def)
  moreover have "(\<exists>d \<in> set ds. category_of d = k) \<longleftrightarrow> k \<in> category_of ` set ds" by auto
  ultimately show ?thesis by (simp add: summarize_def category_counted or_else_def)
qed

lemma classified_lines: "classify ls source stability = Inr ds \<Longrightarrow> map di_evidence ds = ls"
  by (induction ls arbitrary: ds) (auto simp: bindR_eq_Inr classify_line_def Let_def split: option.splits)

text \<open>Every difference is kept as evidence: the lines of the inventory are those of the four comparisons.\<close>

lemma inventory_evidence:
  "classify_diffs a b = Inr ds \<Longrightarrow>
     map di_evidence ds = df_canonicalOnly a @ df_generationOnly a @ df_canonicalOnly b @ df_generationOnly b"
  by (auto simp: classify_diffs_def bindR_eq_Inr dest!: classified_lines)

lemma dump_entities_props: "distinct (dump_entities rdf) \<and> set (dump_entities rdf) = set (List.map_filter line_entity (split_on LF rdf))"
  by (simp add: dump_entities_def)

lemma diff_sides:
  "td_removed (diffNTriples f a b) = td_added (diffNTriples f b a)"
  "set (td_removed (diffNTriples f a b)) \<inter> set (td_added (diffNTriples f a b)) = {}"
  by (auto simp: diffNTriples_def Let_def)

text \<open>Nothing is executed but the two questions about Docker when the environment is not the local one.\<close>

lemma foreign_environment_untouched:
  assumes "fst (assertLocal P w) = Inl e"
  shows "take_inventory P w = (Inl e, snd (assertLocal P w))"
  using assms by (cases "assertLocal P w") (simp add: take_inventory_def thenA_def bindA_def)

section \<open>Escapes are decoded twice\<close>

text \<open>An escaped backslash followed by the text of another escape is decoded into that escape and then
  decoded again, so two different literals become one line and their difference is not seen.\<close>

definition escaped_triple :: string where
  "escaped_triple = ''<a> <b> '' @ [CHR 0x22, CHR 0x5C] @ ''U0000005Cu0041'' @ [CHR 0x22] @ '' .''"

definition plain_triple :: string where
  "plain_triple = ''<a> <b> '' @ [CHR 0x22] @ ''A'' @ [CHR 0x22] @ '' .''"

lemma escapes_decoded_twice:
  "escaped_triple \<noteq> plain_triple"
  "diffNTriples (\<lambda>n. [char_of n]) escaped_triple plain_triple = \<lparr>td_removed = [], td_added = []\<rparr>"
  by code_simp+

end
