(* ===== verification/StandaloneRuntime.thy ===== *)
theory StandaloneRuntime
  imports GenerationSync LocalComposeDriver
begin

text \<open>
  The runtime of the standalone deployment: \<open>services/rdf-sync/src/standalone-snapshot-manifest.js\<close>,
  \<open>standalone-runtime-provider.js\<close>, \<open>standalone-compose-generation-backend.js\<close>, the contract of
  \<open>packages/runtime-contract/src/validate.js\<close>, and what \<open>apps/query-router/src/main.js\<close> publishes
  under it.  Dates are the texts in the ISO form that \<open>date_parse\<close> of \<open>JsDate\<close> reads.
\<close>

section \<open>Objects with fixed properties\<close>

definition is_object :: "jsval \<Rightarrow> bool" where
  "is_object v \<longleftrightarrow> (case v of JObj _ \<Rightarrow> True | _ \<Rightarrow> False)"

text \<open>\<open>Object.keys\<close> of an object has every name once.\<close>

definition exact_keys :: "jsval \<Rightarrow> string list \<Rightarrow> bool" where
  "exact_keys v keys \<longleftrightarrow> (case v of
     JObj ps \<Rightarrow> length ps = length keys \<and> list_all (\<lambda>p. List.member keys (fst p)) ps | _ \<Rightarrow> False)"

text \<open>\<open>/r/u.test(value ?? '')\<close>, and \<open>/r/u.test(value)\<close>, which reads any value as a text\<close>

definition js_test_or_empty :: "rx \<Rightarrow> jsval \<Rightarrow> bool" where
  "js_test_or_empty r v = rx_test r (if is_nullish v then [] else js_string v)"

definition js_test :: "rx \<Rightarrow> jsval \<Rightarrow> bool" where
  "js_test r v = rx_test r (js_string v)"

text \<open>\<open>Date.parse(value)\<close>\<close>

definition js_date :: "jsval \<Rightarrow> int option" where
  "js_date v = date_parse (js_string v)"

definition is_integer_from :: "int \<Rightarrow> jsval \<Rightarrow> bool" where
  "is_integer_from low v \<longleftrightarrow> (case js_integer v of None \<Rightarrow> False | Some i \<Rightarrow> low \<le> i)"

section \<open>The manifest of a snapshot\<close>

definition MANIFEST_KEYS :: "string list" where
  "MANIFEST_KEYS = [''manifestVersion'', ''snapshotId'', ''sourceIdentity'', ''createdAt'', ''cursor'', ''normalizationModel'',
     ''partitionModel'', ''artifact'']"

text \<open>\<open>uuid\<close> ignores the case of letters, \<open>source\<close> does not.\<close>

definition manifest_uuid :: "jsval \<Rightarrow> bool" where
  "manifest_uuid v = js_test_or_empty UUID_I v"

definition manifest_source :: "jsval \<Rightarrow> bool" where
  "manifest_source v \<longleftrightarrow> v = JStr ''jwb-standalone'' \<or> js_test_or_empty (Cat (Lit ''custom-wikibase.'') UUID) v"

definition manifest_cursor :: "jsval \<Rightarrow> bool" where
  "manifest_cursor c \<longleftrightarrow> is_object c \<and> exact_keys c [''timestamp'', ''rcid''] \<and> js_date (js_prop c ''timestamp'') \<noteq> None \<and>
     is_integer_from 0 (js_prop c ''rcid'')"

definition manifest_artifact :: "jsval \<Rightarrow> bool" where
  "manifest_artifact a \<longleftrightarrow> is_object a \<and> exact_keys a [''format'', ''sha256'', ''bytes'', ''graphCount''] \<and>
     js_prop a ''format'' = JStr ''application/n-triples'' \<and> js_test SHA256_HEX (js_prop a ''sha256'') \<and>
     is_integer_from 0 (js_prop a ''bytes'') \<and> is_integer_from 1 (js_prop a ''graphCount'')"

definition validateStandaloneSnapshotManifest :: "jsval \<Rightarrow> jsval result" where
  "validateStandaloneSnapshotManifest v =
     (if is_object v \<and> exact_keys v MANIFEST_KEYS \<and> js_prop v ''manifestVersion'' = JStr ''jwb-snapshot-v1'' \<and>
         manifest_uuid (js_prop v ''snapshotId'') \<and> manifest_source (js_prop v ''sourceIdentity'') \<and>
         js_date (js_prop v ''createdAt'') \<noteq> None \<and> manifest_cursor (js_prop v ''cursor'') \<and>
         js_prop v ''normalizationModel'' = JStr ''jwb-rdf-normalization-v1'' \<and>
         js_prop v ''partitionModel'' = JStr ''jwb-partition-v1'' \<and> manifest_artifact (js_prop v ''artifact'')
      then Inr v else Inl ''INVALID_STANDALONE_SNAPSHOT_MANIFEST'')"

text \<open>The file names of the artifact and of its manifest\<close>

definition snapshotArtifactNames :: "jsval \<Rightarrow> (string \<times> string) result" where
  "snapshotArtifactNames snapshotId =
     (if manifest_uuid snapshotId then Inr (js_string snapshotId @ ''.nt'', js_string snapshotId @ ''.manifest.json'')
      else Inl ''INVALID_SNAPSHOT_ID'')"

section \<open>What the database says of the served generation\<close>

text \<open>The row of the three tables; instants are milliseconds, a cursor without an instant is \<open>None\<close>\<close>

record runtime_row =
  rr_generation :: string
  rr_state :: string
  rr_schema :: string
  rr_catchup :: "(int \<times> int) option"
  rr_ingestion :: "(int \<times> int) option"
  rr_sourceStatus :: string

text \<open>\<open>freshness\<close> has the lag twice, as \<open>lagSeconds\<close> and as \<open>syncLagSeconds\<close>.\<close>

record runtime_observation =
  ro_syncState :: string
  ro_schemaState :: string
  ro_sourceStatus :: string
  ro_servingGeneration :: string
  ro_cursorTimestamp :: "string option"
  ro_sourceHeadTimestamp :: "string option"
  ro_syncLagSeconds :: int
  ro_sourceIdleSeconds :: "int option"

definition PROVIDER_BACKENDS :: "string list" where
  "PROVIDER_BACKENDS = [''virtuoso'', ''fuseki-tdb2'', ''oxigraph'']"

definition PROVIDER_QUERY :: rx where
  "PROVIDER_QUERY = Alt (Lit ''jwb-standalone-query'') INSTANCE_QUERY"

definition new_runtime_provider :: "string \<Rightarrow> string \<Rightarrow> unit result" where
  "new_runtime_provider backendType queryServiceId =
     requireR (List.member PROVIDER_BACKENDS backendType \<and> rx_test PROVIDER_QUERY queryServiceId) ''INVALID_RUNTIME_PROVIDER''"

text \<open>\<open>compare\<close>: a negative number, zero or a positive number\<close>

definition compare_observed :: "(int \<times> int) option \<Rightarrow> int \<times> int \<Rightarrow> int" where
  "compare_observed a b = (case a of None \<Rightarrow> -1
     | Some x \<Rightarrow> if fst x \<noteq> fst b then fst x - fst b else snd x - snd b)"

definition whole_seconds :: "int \<Rightarrow> int" where
  "whole_seconds ms = max 0 (ms div 1000)"

definition caught_up :: "runtime_row \<Rightarrow> bool" where
  "caught_up row \<longleftrightarrow> (case rr_ingestion row of None \<Rightarrow> True | Some head \<Rightarrow> 0 \<le> compare_observed (rr_catchup row) head)"

definition sync_lag :: "runtime_row \<Rightarrow> int \<Rightarrow> int" where
  "sync_lag row now = (case rr_ingestion row of None \<Rightarrow> 0
     | Some head \<Rightarrow>
         if caught_up row then 0
         else (case rr_catchup row of Some indexed \<Rightarrow> whole_seconds (fst head - fst indexed)
               | None \<Rightarrow> whole_seconds (now - fst head)))"

definition runtimeObservation :: "runtime_row \<Rightarrow> int \<Rightarrow> runtime_observation" where
  "runtimeObservation row now =
     \<lparr>ro_syncState =
        (if rr_state row = ''CURRENT'' \<and> rr_schema row = ''CURRENT'' \<and> caught_up row then ''CURRENT''
         else if rr_state row = ''ERROR'' \<or> rr_state row = ''GAP_DETECTED'' then rr_state row else ''STALE''),
      ro_schemaState = rr_schema row, ro_sourceStatus = rr_sourceStatus row, ro_servingGeneration = rr_generation row,
      ro_cursorTimestamp = map_option (\<lambda>c. toISOString (fst c)) (rr_catchup row),
      ro_sourceHeadTimestamp = map_option (\<lambda>c. toISOString (fst c)) (rr_ingestion row),
      ro_syncLagSeconds = sync_lag row now,
      ro_sourceIdleSeconds = map_option (\<lambda>head. whole_seconds (now - fst head)) (rr_ingestion row)\<rparr>"

text \<open>\<open>rows\<close> is the answer of the query, \<open>now\<close> the clock.\<close>

definition provider_observe :: "runtime_row list \<Rightarrow> int \<Rightarrow> runtime_observation result" where
  "provider_observe rows now = (case rows of
     [row] \<Rightarrow> Inr (runtimeObservation row now) | _ \<Rightarrow> Inl ''STANDALONE_RUNTIME_STATE_MISSING'')"

section \<open>The two generations of a standalone deployment\<close>

definition SLOT_HOSTS :: "(string \<times> string) list" where
  "SLOT_HOSTS = [(''gen-a'', ''backend-a''), (''gen-b'', ''backend-b'')]"

definition SLOT_PORTS :: "(string \<times> string) list" where
  "SLOT_PORTS = [(''virtuoso'', ''8890''), (''fuseki-tdb2'', ''3030''), (''oxigraph'', ''7878'')]"

record slot_backend =
  sk_backendType :: string
  sk_port :: string
  sk_adminPassword :: "string option"

definition new_slot_backend :: "string \<Rightarrow> string option \<Rightarrow> slot_backend result" where
  "new_slot_backend backendType adminPassword = (case map_of SLOT_PORTS backendType of
     None \<Rightarrow> Inl ''STANDALONE_BACKEND_NOT_ALLOWLISTED''
   | Some port \<Rightarrow>
       if backendType = ''virtuoso'' \<and> length (or_else adminPassword []) < 16 then Inl ''STANDALONE_BACKEND_CREDENTIAL_REQUIRED''
       else Inr \<lparr>sk_backendType = backendType, sk_port = port, sk_adminPassword = adminPassword\<rparr>)"

record slot_descriptor =
  sd_generationId :: string
  sd_backendType :: string
  sd_service :: string
  sd_endpoints :: compose_endpoints

definition slot_endpoints :: "slot_backend \<Rightarrow> string \<Rightarrow> compose_endpoints" where
  "slot_endpoints b host =
     (let base = ''http://'' @ host @ '':'' @ sk_port b in
      if sk_backendType b = ''virtuoso'' then
        \<lparr>ce_queryUrl = base @ ''/sparql'', ce_updateUrl = base @ ''/sparql-auth'',
         ce_graphStoreUrl = base @ ''/sparql-graph-crud-auth'',
         ce_digestAuth = Some \<lparr>da_username = ''dba'', da_password = or_else (sk_adminPassword b) []\<rparr>\<rparr>
      else if sk_backendType b = ''fuseki-tdb2'' then
        \<lparr>ce_queryUrl = base @ ''/jwb/query'', ce_updateUrl = base @ ''/jwb/update'', ce_graphStoreUrl = base @ ''/jwb/data'',
         ce_digestAuth = None\<rparr>
      else
        \<lparr>ce_queryUrl = base @ ''/query'', ce_updateUrl = base @ ''/update'', ce_graphStoreUrl = base @ ''/store'',
         ce_digestAuth = None\<rparr>)"

definition slot_describe :: "slot_backend \<Rightarrow> string \<Rightarrow> slot_descriptor result" where
  "slot_describe b g =
     bindR (validateGenerationId g) (\<lambda>_.
     case map_of SLOT_HOSTS g of
       None \<Rightarrow> Inl ''STANDALONE_GENERATION_SLOT_NOT_ALLOWLISTED''
     | Some host \<Rightarrow> Inr \<lparr>sd_generationId = g, sd_backendType = sk_backendType b, sd_service = host,
         sd_endpoints = slot_endpoints b host\<rparr>)"

definition slot_sparql :: "url_parser \<Rightarrow> slot_backend \<Rightarrow> string \<Rightarrow> sparql_backend result" where
  "slot_sparql parse b g =
     bindR (slot_describe b g) (\<lambda>v. new_sparql_backend parse (compose_options (sd_endpoints v)
       (case map_of RDF_BACKEND_PROFILES (sk_backendType b) of Some m \<Rightarrow> metadata_value m | None \<Rightarrow> JUndefined)))"

section \<open>The contract of a runtime\<close>

definition CONTRACT_KEYS :: "string list" where
  "CONTRACT_KEYS = [''contractVersion'', ''distribution'', ''instance'', ''endpoints'', ''health'', ''queryService'', ''capabilities'']"

definition CONTRACT_BACKENDS :: "string list" where
  "CONTRACT_BACKENDS = [''virtuoso'', ''fuseki-tdb2'', ''oxigraph'']"

definition CONTRACT_SYNC_STATES :: "string list" where
  "CONTRACT_SYNC_STATES = [''BOOTSTRAPPING'', ''CATCHING_UP'', ''CURRENT'', ''STALE'', ''GAP_DETECTED'', ''ERROR'']"

definition CONTRACT_HEALTH :: "string list" where
  "CONTRACT_HEALTH = [''healthy'', ''degraded'', ''unhealthy'', ''unknown'']"

text \<open>\<open>/^(0|[1-9][0-9]*)\.(0|[1-9][0-9]*)\.(0|[1-9][0-9]*)(?:-[0-9A-Za-z.-]+)?$/u\<close>\<close>

definition VERSION_NUMBER :: rx where
  "VERSION_NUMBER = Alt (Chr (CHR ''0'')) (Cat (Cls is_digit19) (Star (Cls is_digit)))"

definition is_version_char :: "char \<Rightarrow> bool" where
  "is_version_char x \<longleftrightarrow> is_digit x \<or> is_upper x \<or> between (CHR ''a'') (CHR ''z'') x \<or> x = CHR ''.'' \<or> x = CHR ''-''"

definition DISTRIBUTION_VERSION :: rx where
  "DISTRIBUTION_VERSION = Cats [VERSION_NUMBER, Chr (CHR ''.''), VERSION_NUMBER, Chr (CHR ''.''), VERSION_NUMBER,
     Opt (Cat (Chr (CHR ''-'')) (Plus1 (Cls is_version_char)))]"

definition contract_fail :: "string \<Rightarrow> unit result" where
  "contract_fail path = Inl (''JWB_RUNTIME_V1_INVALID:'' @ path)"

definition contract_check :: "bool \<Rightarrow> string \<Rightarrow> unit result" where
  "contract_check b path = (if b then Inr () else contract_fail path)"

definition contract_object :: "jsval \<Rightarrow> string list \<Rightarrow> string \<Rightarrow> unit result" where
  "contract_object v keys path =
     bindR (contract_check (is_object v) path) (\<lambda>_. contract_check (exact_keys v keys) (path @ ''.unexpected-or-missing-field''))"

definition has_value :: "string list \<Rightarrow> jsval \<Rightarrow> bool" where
  "has_value vs v \<longleftrightarrow> (case v of JStr s \<Rightarrow> List.member vs s | _ \<Rightarrow> False)"

definition contract_endpoint :: "url_parser \<Rightarrow> jsval \<Rightarrow> string \<Rightarrow> unit result" where
  "contract_endpoint parse v path = (case parse (js_string v) of
     None \<Rightarrow> contract_fail path
   | Some u \<Rightarrow> contract_check (List.member [''http:'', ''https:''] (ul_protocol u) \<and> ul_username u = [] \<and> ul_password u = []) path)"

definition nullable :: "(jsval \<Rightarrow> bool) \<Rightarrow> jsval \<Rightarrow> bool" where
  "nullable P v \<longleftrightarrow> v = JNull \<or> P v"

definition contract_freshness :: "jsval \<Rightarrow> bool" where
  "contract_freshness f \<longleftrightarrow> is_integer_from 0 (js_prop f ''lagSeconds'') \<and>
     js_same (js_prop f ''lagSeconds'') (js_prop f ''syncLagSeconds'') \<and> is_integer_from 0 (js_prop f ''syncLagSeconds'') \<and>
     nullable (is_integer_from 0) (js_prop f ''sourceIdleSeconds'') \<and>
     nullable (\<lambda>v. js_date v \<noteq> None) (js_prop f ''cursorTimestamp'') \<and>
     nullable (\<lambda>v. js_date v \<noteq> None) (js_prop f ''sourceHeadTimestamp'')"

definition contract_query :: "url_parser \<Rightarrow> jsval \<Rightarrow> unit result" where
  "contract_query parse q =
     bindR (contract_check (is_object q) ''queryService'') (\<lambda>_.
     if js_prop q ''enabled'' = JBool False
     then contract_check (exact_keys q [''enabled'']) ''queryService.unexpected-or-missing-field''
     else
     bindR (contract_check (js_prop q ''enabled'' = JBool True) ''queryService.enabled'') (\<lambda>_.
     bindR (contract_check (exact_keys q [''enabled'', ''backendType'', ''logicalEndpoint'', ''syncState'', ''freshness'',
         ''servingGeneration'']) ''queryService.unexpected-or-missing-field'') (\<lambda>_.
     bindR (contract_check (has_value CONTRACT_BACKENDS (js_prop q ''backendType'')) ''queryService.backendType'') (\<lambda>_.
     bindR (contract_endpoint parse (js_prop q ''logicalEndpoint'') ''queryService.logicalEndpoint'') (\<lambda>_.
     bindR (contract_check (has_value CONTRACT_SYNC_STATES (js_prop q ''syncState'')) ''queryService.syncState'') (\<lambda>_.
     bindR (contract_object (js_prop q ''freshness'') [''cursorTimestamp'', ''sourceHeadTimestamp'', ''lagSeconds'',
         ''syncLagSeconds'', ''sourceIdleSeconds''] ''queryService.freshness'') (\<lambda>_.
     bindR (contract_check (contract_freshness (js_prop q ''freshness'')) ''queryService.freshness'') (\<lambda>_.
     contract_check (js_test GENERATION_ID (js_prop q ''servingGeneration'')) ''queryService.servingGeneration''))))))))"

definition validateJwbRuntimeV1 :: "url_parser \<Rightarrow> jsval \<Rightarrow> jsval result" where
  "validateJwbRuntimeV1 parse v =
     (let distribution = js_prop v ''distribution''; instance' = js_prop v ''instance''; endpoints = js_prop v ''endpoints'';
          health = js_prop v ''health''; capabilities = js_prop v ''capabilities'' in
     bindR (contract_object v CONTRACT_KEYS ''contract'') (\<lambda>_.
     bindR (contract_check (js_prop v ''contractVersion'' = JStr ''jwb-runtime-v1'') ''contractVersion'') (\<lambda>_.
     bindR (contract_object distribution [''type'', ''version''] ''distribution'') (\<lambda>_.
     bindR (contract_check (js_prop distribution ''type'' = JStr ''japan-wikibase'' \<and>
         js_test DISTRIBUTION_VERSION (js_prop distribution ''version'')) ''distribution'') (\<lambda>_.
     bindR (contract_object instance' [''id''] ''instance'') (\<lambda>_.
     bindR (contract_check (manifest_uuid (js_prop instance' ''id'')) ''instance.id'') (\<lambda>_.
     bindR (contract_object endpoints [''mediawiki'', ''actionApi''] ''endpoints'') (\<lambda>_.
     bindR (contract_endpoint parse (js_prop endpoints ''mediawiki'') ''endpoints.mediawiki'') (\<lambda>_.
     bindR (contract_endpoint parse (js_prop endpoints ''actionApi'') ''endpoints.actionApi'') (\<lambda>_.
     bindR (contract_object health [''state''] ''health'') (\<lambda>_.
     bindR (contract_check (has_value CONTRACT_HEALTH (js_prop health ''state'')) ''health.state'') (\<lambda>_.
     bindR (contract_query parse (js_prop v ''queryService'')) (\<lambda>_.
     bindR (contract_object capabilities [''queryOptional'', ''instanceStopPreservesData''] ''capabilities'') (\<lambda>_.
     bindR (contract_check (js_prop capabilities ''queryOptional'' = JBool True \<and>
         js_bool (js_prop capabilities ''instanceStopPreservesData'') \<noteq> None) ''capabilities'') (\<lambda>_.
     Inr v)))))))))))))))"

section \<open>What the router publishes\<close>

definition js_nullable :: "('a \<Rightarrow> jsval) \<Rightarrow> 'a option \<Rightarrow> jsval" where
  "js_nullable f v = (case v of None \<Rightarrow> JNull | Some x \<Rightarrow> f x)"

definition freshness_value :: "runtime_observation \<Rightarrow> jsval" where
  "freshness_value o1 = JObj [(''cursorTimestamp'', js_nullable JStr (ro_cursorTimestamp o1)),
     (''sourceHeadTimestamp'', js_nullable JStr (ro_sourceHeadTimestamp o1)), (''lagSeconds'', JInt (ro_syncLagSeconds o1)),
     (''syncLagSeconds'', JInt (ro_syncLagSeconds o1)), (''sourceIdleSeconds'', js_nullable JInt (ro_sourceIdleSeconds o1))]"

definition health_state :: "string \<Rightarrow> string" where
  "health_state syncState = (if syncState = ''CURRENT'' then ''healthy''
     else if syncState = ''ERROR'' \<or> syncState = ''GAP_DETECTED'' then ''unhealthy'' else ''degraded'')"

text \<open>\<open>runtimeProvider\<close> of the router, with the instance identifier of its environment\<close>

definition runtime_contract :: "router_config \<Rightarrow> string \<Rightarrow> runtime_observation \<Rightarrow> jsval" where
  "runtime_contract c instanceId o1 = JObj
     [(''contractVersion'', JStr ''jwb-runtime-v1''),
      (''distribution'', JObj [(''type'', JStr ''japan-wikibase''), (''version'', JStr ''0.1.0-rc.1'')]),
      (''instance'', JObj [(''id'', JStr instanceId)]),
      (''endpoints'', JObj [(''mediawiki'', JStr (rc_canonicalPublicUrl c @ ''/wiki/'')),
         (''actionApi'', JStr (rc_canonicalPublicUrl c @ ''/api.php''))]),
      (''health'', JObj [(''state'', JStr (health_state (ro_syncState o1)))]),
      (''queryService'', JObj [(''enabled'', JBool True),
         (''backendType'', case rc_backendType c of None \<Rightarrow> JUndefined | Some b \<Rightarrow> JStr b),
         (''logicalEndpoint'', JStr (rc_publicQueryUrl c)), (''syncState'', JStr (ro_syncState o1)),
         (''freshness'', freshness_value o1), (''servingGeneration'', JStr (ro_servingGeneration o1))]),
      (''capabilities'', JObj [(''queryOptional'', JBool True), (''instanceStopPreservesData'', JBool True)])]"

definition instance_allowed :: "string option \<Rightarrow> string result" where
  "instance_allowed instanceId =
     (if rx_test UUID (or_else instanceId []) then Inr (or_else instanceId []) else Inl ''invalid standalone instance identity'')"

section \<open>Current means caught up\<close>

lemma whole_seconds_nonneg [simp]: "0 \<le> whole_seconds t"
  by (simp add: whole_seconds_def)

lemma sync_lag_nonneg [simp]: "0 \<le> sync_lag row now"
  by (simp add: sync_lag_def split: option.splits)

text \<open>
  A generation is published as current exactly when its row and its schema are and its cursor is not
  before that of the source; then no lag is reported.
\<close>

lemma observed_current:
  "ro_syncState (runtimeObservation row now) = ''CURRENT'' \<longleftrightarrow>
     rr_state row = ''CURRENT'' \<and> rr_schema row = ''CURRENT'' \<and> caught_up row"
  "ro_syncState (runtimeObservation row now) = ''CURRENT'' \<Longrightarrow> ro_syncLagSeconds (runtimeObservation row now) = 0"
  by (auto simp: runtimeObservation_def sync_lag_def split: option.splits if_splits)

lemma observed_states: "ro_syncState (runtimeObservation row now) \<in> {''CURRENT'', ''ERROR'', ''GAP_DETECTED'', ''STALE''}"
  by (simp add: runtimeObservation_def)

section \<open>What is published satisfies the contract\<close>

definition plain_endpoint :: "url_parser \<Rightarrow> string \<Rightarrow> bool" where
  "plain_endpoint parse s \<longleftrightarrow> contract_endpoint parse (JStr s) [] = Inr ()"

lemma contract_simps [simp]:
  "contract_check True path = Inr ()"
  "contract_endpoint parse (JStr s) path = Inr () \<longleftrightarrow> plain_endpoint parse s"
  "plain_endpoint parse s \<Longrightarrow> contract_endpoint parse (JStr s) path = Inr ()"
  by (auto simp: contract_check_def plain_endpoint_def contract_endpoint_def contract_fail_def split: option.splits)

lemma Cat_mono: "rx_lang a \<subseteq> rx_lang b \<Longrightarrow> rx_lang c \<subseteq> rx_lang d \<Longrightarrow> rx_lang (Cat a c) \<subseteq> rx_lang (Cat b d)"
  by auto

lemma UUID_either_case: "rx_test UUID s \<Longrightarrow> rx_test UUID_I s"
proof -
  have "rx_lang UUID \<subseteq> rx_lang UUID_I"
    unfolding UUID_def UUID_I_def Cats.simps by (intro Cat_mono) (auto simp: is_hex_def OneOf_def)
  then show "rx_test UUID s \<Longrightarrow> rx_test UUID_I s" by (auto simp: rx_test_lang)
qed

definition printable_row :: "runtime_row \<Rightarrow> bool" where
  "printable_row row \<longleftrightarrow> generation_id (rr_generation row) \<and>
     list_all (\<lambda>c. case c of None \<Rightarrow> True | Some x \<Rightarrow> date_parse (toISOString (fst x)) \<noteq> None) [rr_catchup row, rr_ingestion row]"

lemma published_freshness:
  "printable_row row \<Longrightarrow> contract_freshness (freshness_value (runtimeObservation row now))"
  by (auto simp: contract_freshness_def freshness_value_def runtimeObservation_def printable_row_def js_nullable_def nullable_def
      is_integer_from_def js_date_def split: option.splits)

lemma published_query:
  assumes "printable_row row" "List.member PROVIDER_BACKENDS b" "rc_backendType c = Some b" "plain_endpoint parse (rc_publicQueryUrl c)"
  shows "contract_query parse (js_prop (runtime_contract c i (runtimeObservation row now)) ''queryService'') = Inr ()"
  using assms published_freshness [OF assms(1), of now] observed_states [of row now]
  by (auto simp: contract_query_def runtime_contract_def contract_object_def is_object_def exact_keys_def has_value_def
      CONTRACT_BACKENDS_def PROVIDER_BACKENDS_def CONTRACT_SYNC_STATES_def freshness_value_def js_test_def
      printable_row_def generation_id_def runtimeObservation_def)

text \<open>C28: Whatever the database says of the served generation, what the router publishes under
  \<open>/runtime\<close> is accepted by the validator of the runtime contract.
\<close>

theorem published_runtime_accepted:
  assumes "instance_allowed instance' = Inr i" "new_runtime_provider b q = Inr ()" "rc_backendType c = Some b"
    "provider_observe rows now = Inr ob" "list_all printable_row rows"
    "plain_endpoint parse (rc_publicQueryUrl c)" "plain_endpoint parse (rc_canonicalPublicUrl c @ ''/wiki/'')"
    "plain_endpoint parse (rc_canonicalPublicUrl c @ ''/api.php'')"
  shows "validateJwbRuntimeV1 parse (runtime_contract c i ob) = Inr (runtime_contract c i ob)"
proof -
  from assms(4,5) obtain row where row: "printable_row row" "ob = runtimeObservation row now"
    by (auto simp: provider_observe_def split: list.splits)
  have b: "List.member PROVIDER_BACKENDS b" using assms(2) by (simp add: new_runtime_provider_def requireR_def split: if_splits)
  have v: "rx_test DISTRIBUTION_VERSION ''0.1.0-rc.1''" by code_simp
  have i: "rx_test UUID_I i" using assms(1) UUID_either_case by (auto simp: instance_allowed_def split: if_splits)
  have q: "contract_query parse (js_prop (runtime_contract c i ob) ''queryService'') = Inr ()"
    unfolding row(2) by (rule published_query [OF row(1) b assms(3,6)])
  show ?thesis
    unfolding validateJwbRuntimeV1_def Let_def q using v i assms(7,8)
    by (auto simp: runtime_contract_def contract_object_def is_object_def exact_keys_def CONTRACT_KEYS_def has_value_def
        CONTRACT_HEALTH_def health_state_def manifest_uuid_def js_test_or_empty_def js_test_def)
qed

text \<open>A deployment whose generation is ten seconds behind the wiki\<close>

definition demo_row :: runtime_row where
  "demo_row = \<lparr>rr_generation = ''gen-a'', rr_state = ''CURRENT'', rr_schema = ''CURRENT'', rr_catchup = Some (1721908789000, 7),
     rr_ingestion = Some (1721908799000, 9), rr_sourceStatus = ''CURRENT''\<rparr>"

definition demo_router :: router_config where
  "demo_router = \<lparr>rc_runtimeType = ''standalone'', rc_backendType = Some ''oxigraph'', rc_backendA = ''oxigraph'', rc_backendB = ''oxigraph'',
     rc_queryServiceId = ''jwb-standalone-query'', rc_databaseUrl = [], rc_port = 19200,
     rc_canonicalPublicUrl = ''http://wiki.example'', rc_publicQueryUrl = ''http://wiki.example/sparql''\<rparr>"

definition demo_uuid :: string where
  "demo_uuid = ''00000000-0000-4000-8000-000000000001''"

definition http_parse :: url_parser where
  "http_parse s = (if starts_with ''http://'' s then Some \<lparr>ul_protocol = ''http:'', ul_username = [], ul_password = [],
     ul_hostname = [], ul_pathname = [], ul_search = [], ul_hash = [], ul_href = s\<rparr> else None)"

lemma demo_endpoints:
  "plain_endpoint http_parse (rc_publicQueryUrl demo_router)"
  "plain_endpoint http_parse (rc_canonicalPublicUrl demo_router @ ''/wiki/'')"
  "plain_endpoint http_parse (rc_canonicalPublicUrl demo_router @ ''/api.php'')"
  by code_simp+

theorem published_runtime_accepted_witness:
  "ro_syncState (runtimeObservation demo_row 1721908800000) = ''STALE'' \<and>
   ro_syncLagSeconds (runtimeObservation demo_row 1721908800000) = 10 \<and>
   validateJwbRuntimeV1 http_parse (runtime_contract demo_router demo_uuid (runtimeObservation demo_row 1721908800000)) =
     Inr (runtime_contract demo_router demo_uuid (runtimeObservation demo_row 1721908800000))"
proof -
  have i: "instance_allowed (Some demo_uuid) = Inr demo_uuid" by code_simp
  have p: "new_runtime_provider ''oxigraph'' ''jwb-standalone-query'' = Inr ()" by code_simp
  have b: "rc_backendType demo_router = Some ''oxigraph''" by (simp add: demo_router_def)
  have o1: "provider_observe [demo_row] 1721908800000 = Inr (runtimeObservation demo_row 1721908800000)"
    by (simp add: provider_observe_def)
  have g: "generation_id ''gen-a''" by code_simp
  have t: "date_parse (toISOString 1721908789000) \<noteq> None" "date_parse (toISOString 1721908799000) \<noteq> None" by code_simp+
  have r: "list_all printable_row [demo_row]" using g t by (simp add: printable_row_def demo_row_def)
  have s: "ro_syncState (runtimeObservation demo_row 1721908800000) = ''STALE''"
    by (simp add: runtimeObservation_def demo_row_def caught_up_def compare_observed_def)
  have l: "ro_syncLagSeconds (runtimeObservation demo_row 1721908800000) = 10"
    by (simp add: runtimeObservation_def demo_row_def caught_up_def compare_observed_def sync_lag_def whole_seconds_def)
  from s l published_runtime_accepted [OF i p b o1 r demo_endpoints] show ?thesis by simp
qed

text \<open>The two slots have separate stores.\<close>

lemma slots_separate:
  assumes "slot_describe b g = Inr v" "slot_describe b h = Inr w" "g \<noteq> h"
  shows "ce_queryUrl (sd_endpoints v) \<noteq> ce_queryUrl (sd_endpoints w)" "sd_service v \<noteq> sd_service w"
  using assms by (auto simp: slot_describe_def SLOT_HOSTS_def slot_endpoints_def bindR_eq_Inr Let_def split: if_splits)

end
