(* ===== verification/StandaloneRebuild.thy ===== *)
theory StandaloneRebuild
  imports StandaloneRuntime SnapshotLoader DifferenceInventory
begin

text \<open>
  \<open>services/rdf-sync/src/standalone-rebuild-coordinator.js\<close> and \<open>standalone-bootstrap.js\<close>: the first
  rows of a standalone deployment, and the rebuild of the slot that is not served from a snapshot: its
  rows are reset, the snapshot is loaded into its store, and once the worker has caught up its graphs
  are exported and compared with the snapshot.  The stores, files and the clock are parameters acting
  on a world of their own.  The columns \<open>catchup_timestamp\<close> and \<open>catchup_rcid\<close> of a generation, which
  no code reads, and \<open>updated_at\<close> are left out.
\<close>

section \<open>Which slot is served, and which is rebuilt\<close>

record slot_selection =
  sn_serving :: string
  sn_candidate :: string
  sn_version :: int
  sn_state :: string
  sn_validation :: string

definition serves_row :: "generation_row \<Rightarrow> bool" where
  "serves_row g \<longleftrightarrow> gr_state g = ''SERVING'' \<and> gr_protection g = ''SERVING''"

definition rebuildable :: "string \<Rightarrow> generation_row \<Rightarrow> bool" where
  "rebuildable backendType g \<longleftrightarrow> gr_backend g = backendType \<and> gr_state g \<noteq> ''SERVING'' \<and> gr_protection g \<noteq> ''SERVING''"

definition rb_inspect :: "identities \<Rightarrow> string \<Rightarrow> slot_selection db" where
  "rb_inspect ids backendType =
     bindA (select_rows db_pointers (\<lambda>p. pt_query p = id_query ids)) (\<lambda>pointer.
     bindA (select_rows db_generations (\<lambda>g. gr_source g = id_source ids)) (\<lambda>generations.
     bindA (one_row ''STANDALONE_SERVING_POINTER_INVALID'' pointer) (\<lambda>p.
     thenA (ensureA (pt_source p = id_source ids) ''STANDALONE_SERVING_POINTER_INVALID'')
     (let serving = pt_generation p; candidate = other_slot serving in
     thenA (ensureA (List.member SLOTS serving \<and> map gr_id (filter serves_row generations) = [serving])
        ''STANDALONE_SERVING_INVARIANT_VIOLATION'')
     (case List.find (\<lambda>g. gr_id g = candidate) generations of
        None \<Rightarrow> raiseA ''STANDALONE_CANDIDATE_INVALID''
      | Some c \<Rightarrow>
          thenA (ensureA (rebuildable backendType c) ''STANDALONE_CANDIDATE_INVALID'')
          (returnA \<lparr>sn_serving = serving, sn_candidate = candidate, sn_version = pt_version p,
             sn_state = gr_state c, sn_validation = gr_validation c\<rparr>))))))"

section \<open>Loading a snapshot\<close>

definition owned_graph :: "string \<Rightarrow> string \<Rightarrow> graph_row \<Rightarrow> bool" where
  "owned_graph source g r \<longleftrightarrow> gg_source r = source \<and> gg_generation r = g"

text \<open>The instant of the snapshot in the database: the cursor of a valid manifest\<close>

definition manifest_instant :: "jsval \<Rightarrow> int \<times> int" where
  "manifest_instant m = (let c = js_prop m ''cursor'' in
     (or_else (js_date (js_prop c ''timestamp'')) 0, or_else (js_integer (js_prop c ''rcid'')) 0))"

definition reset_sync :: "int \<times> int \<Rightarrow> generation_sync_row \<Rightarrow> generation_sync_row" where
  "reset_sync c r = r\<lparr>gs_snapshot := c, gs_catchup := Some c, gs_state := ''BOOTSTRAPPING'', gs_schema := ''PENDING'',
     gs_lastSuccess := None, gs_error := None\<rparr>"

definition reset_generation :: "int \<times> int \<Rightarrow> generation_row \<Rightarrow> generation_row" where
  "reset_generation c g = g\<lparr>gr_state := ''LOADING'', gr_snapshot := c, gr_validation := ''PENDING'', gr_checksum := None,
     gr_manifest := None, gr_error := None, gr_protection := ''NONE'', gr_version := gr_version g + 1\<rparr>"

text \<open>The transaction: the lock on the pointer row, and the rows of the candidate\<close>

definition rb_reset :: "identities \<Rightarrow> slot_selection \<Rightarrow> int \<times> int \<Rightarrow> unit db" where
  "rb_reset ids sel c =
     (let source = id_source ids; i = sn_candidate sel in
      transactionA (
       bindA (select_rows db_pointers (\<lambda>p. pt_query p = id_query ids)) (\<lambda>locked.
       thenA (ensureA (case locked of [] \<Rightarrow> False
           | p # _ \<Rightarrow> pt_generation p = sn_serving sel \<and> pt_version p = sn_version sel) ''STANDALONE_REBUILD_POINTER_CONFLICT'')
       (thenA (modifyA (\<lambda>d. d\<lparr>db_revisions := filter (\<lambda>r. \<not> is_revision source i r) (db_revisions d)\<rparr>))
       (thenA (modifyA (\<lambda>d. d\<lparr>db_graphs := filter (\<lambda>r. \<not> owned_graph source i r) (db_graphs d)\<rparr>))
       (thenA (update_syncs (is_sync source i) (reset_sync c))
       (thenA (update_generations (\<lambda>g. is_generation source i g \<and> gr_state g \<noteq> ''SERVING'') (reset_generation c))
       (returnA ()))))))))"

text \<open>
  The stores of the generations, a fetch of their endpoints, the clock, and the JSON texts that are
  stored as manifests
\<close>

record 'w rebuild_env =
  rb_backendType :: string
  rb_initialize :: "string \<Rightarrow> string \<Rightarrow> ('w, unit) action"
  rb_effects :: "string \<Rightarrow> 'w loader_effects"
  rb_queryUrl :: "string \<Rightarrow> string"
  rb_fetch :: "string \<Rightarrow> http_init \<Rightarrow> ('w, http_response) action"
  rb_clock :: "('w, int) action"
  rb_sha256 :: "string \<Rightarrow> string"
  rb_fromCodePoint :: "nat \<Rightarrow> string"
  rb_loaderText :: "snapshot_manifest \<Rightarrow> string"
  rb_manifestText :: "jsval \<Rightarrow> nat \<Rightarrow> string"

text \<open>The loader on the repository of the generation in the database\<close>

definition stored_manifest :: "(snapshot_manifest \<Rightarrow> string) \<Rightarrow> snapshot_manifest \<Rightarrow> sync_manifest" where
  "stored_manifest text m = sync_manifest.make (int (SnapshotLoader.sm_version m)) (SnapshotLoader.sm_normalizationModel m)
     (SnapshotLoader.sm_partitionModel m) (text m)"

definition generation_loader ::
  "string \<Rightarrow> string \<Rightarrow> (snapshot_manifest \<Rightarrow> string) \<Rightarrow> 'w loader_effects \<Rightarrow> (control_db \<times> 'w) dataset_loader" where
  "generation_loader source g text X =
     \<lparr>ld_resetToken = on_snd (lx_resetToken X), ld_reset = (\<lambda>t. on_snd (lx_reset X t)),
      ld_replaceNamedGraph = (\<lambda>iri p t. on_snd (lx_replaceNamedGraph X iri p t)),
      ld_registerGraph = (\<lambda>iri k e. on_fst (gs_registerGraph source g iri k e)),
      ld_saveEntity = (\<lambda>r. on_fst (gs_saveEntity source g r)),
      ld_setSchemaState = (\<lambda>s. on_fst (gs_setSchemaState source g s None)),
      ld_saveGenerationManifest = Some (\<lambda>m. on_fst (gs_saveGenerationManifest source g (Some (stored_manifest text m)))),
      ld_writeFile = (\<lambda>p b. on_snd (lx_writeFile X p b)), ld_chmod = (\<lambda>p. on_snd (lx_chmod X p)),
      ld_unlink = (\<lambda>p. on_snd (lx_unlink X p)), ld_now = on_snd (lx_now X), ld_sha256 = lx_sha256 X\<rparr>"

definition artifact_matches :: "(string \<Rightarrow> string) \<Rightarrow> jsval \<Rightarrow> string \<Rightarrow> bool" where
  "artifact_matches hash m rdf \<longleftrightarrow> js_prop (js_prop m ''artifact'') ''sha256'' = JStr (hash rdf) \<and>
     js_prop (js_prop m ''artifact'') ''bytes'' = JInt (int (byteLength rdf))"

text \<open>
  From the reset on, for the candidate that was selected.  The answer has the selection and the number
  of graphs; its state is always \<open>CATCHING_UP\<close>.
\<close>

definition rb_replace :: "identities \<Rightarrow> 'w rebuild_env \<Rightarrow> jsval \<Rightarrow> string \<Rightarrow> slot_selection \<Rightarrow> (control_db \<times> 'w, slot_selection \<times> nat) action" where
  "rb_replace ids E m rdf sel =
     (let source = id_source ids; i = sn_candidate sel in
      thenA (on_fst (rb_reset ids sel (manifest_instant m)))
      (thenA (on_snd (rb_initialize E i (''jwb-'' @ i)))
      (thenA (liftA (new_generation_repository source i))
      (bindA (SnapshotLoader.loadSnapshot (generation_loader source i (rb_loaderText E) (rb_effects E i)) rdf) (\<lambda>loaded.
       thenA (on_fst (update_generations (is_generation source i)
         (\<lambda>g. g\<lparr>gr_state := ''CATCHING_UP'', gr_manifest := Some (rb_manifestText E m (lr_graphCount loaded))\<rparr>)))
       (returnA (sel, lr_graphCount loaded)))))))"

definition rb_load :: "identities \<Rightarrow> 'w rebuild_env \<Rightarrow> jsval \<Rightarrow> string \<Rightarrow> (control_db \<times> 'w, slot_selection \<times> nat) action" where
  "rb_load ids E manifest rdf =
     bindA (liftA (validateStandaloneSnapshotManifest manifest)) (\<lambda>m.
     thenA (ensureA (artifact_matches (rb_sha256 E) m rdf) ''SNAPSHOT_ARTIFACT_CHECKSUM_MISMATCH'')
     (bindA (on_fst (rb_inspect ids (rb_backendType E))) (rb_replace ids E m rdf)))"

section \<open>Observing the candidate\<close>

record candidate_view =
  cv_selection :: slot_selection
  cv_syncState :: string
  cv_schemaState :: string
  cv_cursor :: "string \<times> int"
  cv_sourceHead :: string
  cv_syncLagSeconds :: int
  cv_sourceIdleSeconds :: int
  cv_caughtUp :: bool
  cv_ready :: bool
  cv_active :: bool
  cv_partitionCounts :: "(string \<times> nat) list"

text \<open>\<open>compare\<close>: \<open>Date.parse\<close> of a \<open>Date\<close> loses the milliseconds\<close>

definition compare_times :: "(int \<times> int) option \<Rightarrow> (int \<times> int) option \<Rightarrow> int" where
  "compare_times a b = (case (a, b) of
       (_, None) \<Rightarrow> 0
     | (None, Some _) \<Rightarrow> -1
     | (Some x, Some y) \<Rightarrow> if reparsed (fst x) = reparsed (fst y) then snd x - snd y else reparsed (fst x) - reparsed (fst y))"

definition sync_with_source :: "identities \<Rightarrow> string \<Rightarrow> (generation_sync_row \<times> source_row) list db" where
  "sync_with_source ids g = readA (\<lambda>d. filter (\<lambda>(s, src). is_sync (id_source ids) g s \<and> sr_source src = gs_source s)
     (List.product (db_syncs d) (db_sources d)))"

text \<open>\<open>new Date(null)\<close> is the epoch and \<open>Number(null)\<close> is 0\<close>

definition instant_or_epoch :: "(int \<times> int) option \<Rightarrow> int \<times> int" where
  "instant_or_epoch c = or_else c (0, 0)"

definition count_partitions :: "identities \<Rightarrow> string \<Rightarrow> control_db \<Rightarrow> (string \<times> nat) list" where
  "count_partitions ids g d =
     (let kinds = map gg_kind (filter (owned_graph (id_source ids) g) (db_graphs d)) in
      spread [(''ENTITY'', 0), (''PROPERTY_SCHEMA'', 0), (''GLOBAL'', 0)]
        (map (\<lambda>k. (k, length (filter (\<lambda>x. x = k) kinds))) (sort (uniq kinds))))"

definition rb_observe :: "identities \<Rightarrow> 'w rebuild_env \<Rightarrow> (control_db \<times> 'w, candidate_view) action" where
  "rb_observe ids E =
     bindA (on_fst (rb_inspect ids (rb_backendType E))) (\<lambda>sel.
     bindA (on_fst (sync_with_source ids (sn_candidate sel))) (\<lambda>rows.
     bindA (on_fst (readA (count_partitions ids (sn_candidate sel)))) (\<lambda>counts.
     bindA (on_fst (one_row ''STANDALONE_CANDIDATE_SYNC_MISSING'' rows)) (\<lambda>(s, src).
     bindA (on_snd (rb_clock E)) (\<lambda>now.
     let caughtUp = (0 \<le> compare_times (gs_catchup s) (sr_ingestion src)); cursor = instant_or_epoch (gs_catchup s);
         head = fst (instant_or_epoch (sr_ingestion src)) in
     returnA \<lparr>cv_selection = sel, cv_syncState = gs_state s, cv_schemaState = gs_schema s,
       cv_cursor = (second_text (fst cursor), snd cursor), cv_sourceHead = toISOString head,
       cv_syncLagSeconds = whole_seconds (head - fst cursor), cv_sourceIdleSeconds = whole_seconds (now - head),
       cv_caughtUp = caughtUp, cv_ready = (caughtUp \<and> gs_state s = ''CURRENT'' \<and> gs_schema s = ''CURRENT''),
       cv_active = List.member [''LOADING'', ''CATCHING_UP'', ''VALIDATING''] (sn_state sel),
       cv_partitionCounts = counts\<rparr>)))))"

section \<open>Validating\<close>

record graph_difference =
  gd_graph :: string
  gd_source :: string
  gd_subject :: string
  gd_predicate :: string
  gd_object :: string
  gd_line :: string

text \<open>\<open>/^(<[^>]+>|_:[^ ]+) <([^>]+)> (.+) \.$/u\<close>\<close>

definition DIFFERENCE_LINE :: rx where
  "DIFFERENCE_LINE = Cats [Grp 1 (Alt IRI_TERM (Cat (Lit ''_:'') (Plus1 (NoneOf '' '')))), Lit '' <'', Grp 2 (Plus1 (NoneOf ''>'')),
     Lit ''> '', Grp 3 (Plus1 (Cls (\<lambda>c. c \<noteq> LF \<and> c \<noteq> CHR 0x0D))), Lit '' .'']"

definition subject_category :: "string \<Rightarrow> string" where
  "subject_category s =
     (if contains ''/entity/Q'' s then ''ENTITY''
      else if contains ''/wiki/Special:EntityData/'' s then ''ENTITY_DOCUMENT''
      else if starts_with ''_:'' s then ''BLANK_NODE''
      else if contains ''/value/'' s then ''VALUE''
      else if contains ''/reference/'' s then ''REFERENCE''
      else if contains ''/entity/statement/'' s then ''STATEMENT'' else ''OTHER'')"

definition object_category :: "string \<Rightarrow> string" where
  "object_category s = (if starts_with ''_:'' s then ''BLANK_NODE'' else if starts_with ''<'' s then ''IRI'' else ''LITERAL'')"

definition graph_difference_of :: "string \<Rightarrow> string \<Rightarrow> string \<Rightarrow> graph_difference" where
  "graph_difference_of graph source line =
     (let m = or_else (rx_exec DIFFERENCE_LINE line) [] in
      \<lparr>gd_graph = graph, gd_source = source, gd_subject = subject_category (or_else (group m 1) []),
       gd_predicate = or_else (group m 2) ''UNPARSED'', gd_object = object_category (or_else (group m 3) []), gd_line = line\<rparr>)"

definition export_init :: "string \<Rightarrow> http_init" where
  "export_init graph = \<lparr>hi_method = ''POST'',
     hi_headers = [(''accept'', ''application/n-triples''), (''content-type'', ''application/sparql-query'')],
     hi_body = Some (''CONSTRUCT { ?s ?p ?o } WHERE { GRAPH <'' @ graph @ ''> { ?s ?p ?o } }'')\<rparr>"

text \<open>One round of the loop over the registered graphs: what is missing from and extra in the export\<close>

definition compare_graph :: "'w rebuild_env \<Rightarrow> string \<Rightarrow> string \<Rightarrow> graphs \<Rightarrow> string \<Rightarrow> ('w, rdf_diff) action" where
  "compare_graph E what g expected graph =
     bindA (rb_fetch E (rb_queryUrl E g) (export_init graph)) (\<lambda>response.
     if \<not> rp_ok response then raiseA (what @ ''_EXPORT_HTTP_'' @ show_int (rp_status response))
     else bindA (liftA (rp_text response)) (\<lambda>body.
       liftA (diffCanonicalRdfGraphs (rb_sha256 E) (rb_fromCodePoint E) DEFAULT_BOUND (or_else (map_of expected graph) []) body)))"

fun compare_exports_of :: "'w rebuild_env \<Rightarrow> string \<Rightarrow> string \<Rightarrow> graphs \<Rightarrow> string list \<Rightarrow> ('w, (string \<times> rdf_diff) list) action" where
  "compare_exports_of E what g expected [] = returnA []"
| "compare_exports_of E what g expected (graph # graphs) =
     bindA (compare_graph E what g expected graph) (\<lambda>diff.
     bindA (compare_exports_of E what g expected graphs) (\<lambda>rest. returnA ((graph, diff) # rest)))"

text \<open>The lines of the graphs that were expected and are not registered\<close>

definition missing_graphs :: "graphs \<Rightarrow> string list \<Rightarrow> (string \<times> string list) list" where
  "missing_graphs expected graphs =
     map (\<lambda>(iri, body). (iri, filter (\<lambda>l. l \<noteq> []) (split_on LF (trim body)))) (filter (\<lambda>(iri, _). \<not> List.member graphs iri) expected)"

definition diff_inventory :: "(string \<times> rdf_diff) list \<Rightarrow> (string \<times> string list) list \<Rightarrow> graph_difference list" where
  "diff_inventory diffs missing =
     concat (map (\<lambda>(graph, d). map (graph_difference_of graph ''FULL_DUMP_ONLY'') (df_canonicalOnly d) @
       map (graph_difference_of graph ''ENTITY_DATA_ONLY'') (df_generationOnly d)) diffs) @
     concat (map (\<lambda>(graph, ls). map (graph_difference_of graph ''FULL_DUMP_ONLY'') ls) missing)"

definition count_missing :: "(string \<times> rdf_diff) list \<Rightarrow> (string \<times> string list) list \<Rightarrow> nat" where
  "count_missing diffs missing = sum_list (map (\<lambda>(_, d). length (df_canonicalOnly d)) diffs) + sum_list (map (\<lambda>(_, ls). length ls) missing)"

definition count_extra :: "(string \<times> rdf_diff) list \<Rightarrow> nat" where
  "count_extra diffs = sum_list (map (\<lambda>(_, d). length (df_generationOnly d)) diffs)"

record validation_report =
  vr_observed :: candidate_view
  vr_missing :: nat
  vr_extra :: nat
  vr_differences :: "graph_difference list"
  vr_valid :: bool

definition expected_dataset :: "(string \<Rightarrow> string) \<Rightarrow> string \<Rightarrow> dataset result" where
  "expected_dataset hash rdf = bindR (normalizeWikibaseRdf hash rdf ''FULL_DUMP'') (\<lambda>n. partitionWikibaseSnapshot (nz_rdf n))"

definition mark_invalid :: "generation_row \<Rightarrow> generation_row" where
  "mark_invalid g = g\<lparr>gr_state := ''FAILED'', gr_validation := ''INVALID'', gr_error := Some ''CANONICAL_EQUALITY_FAILED''\<rparr>"

definition mark_ready :: "string \<Rightarrow> generation_row \<Rightarrow> generation_row" where
  "mark_ready checksum g = g\<lparr>gr_state := ''READY'', gr_validation := ''VALID'', gr_checksum := Some checksum, gr_error := None\<rparr>"

text \<open>What the differences decide\<close>

definition rb_judge :: "identities \<Rightarrow> (string \<Rightarrow> string) \<Rightarrow> candidate_view \<Rightarrow> dataset \<Rightarrow> (string \<times> rdf_diff) list \<Rightarrow>
    (string \<times> string list) list \<Rightarrow> validation_report db" where
  "rb_judge ids hash observed expected diffs absent =
     (let i = sn_candidate (cv_selection observed); missing = count_missing diffs absent; extra = count_extra diffs in
      if missing \<noteq> 0 \<or> extra \<noteq> 0
      then thenA (update_generations (is_generation (id_source ids) i) mark_invalid)
        (returnA \<lparr>vr_observed = observed, vr_missing = missing, vr_extra = extra, vr_differences = diff_inventory diffs absent,
           vr_valid = False\<rparr>)
      else thenA (update_generations (is_generation (id_source ids) i) (mark_ready (hash (datasetToNQuads (ds_graphs expected)))))
        (returnA \<lparr>vr_observed = observed, vr_missing = 0, vr_extra = 0, vr_differences = [], vr_valid = True\<rparr>))"

definition rb_validate :: "identities \<Rightarrow> 'w rebuild_env \<Rightarrow> jsval \<Rightarrow> string \<Rightarrow> (control_db \<times> 'w, validation_report) action" where
  "rb_validate ids E manifest rdf =
     bindA (liftA (validateStandaloneSnapshotManifest manifest)) (\<lambda>_.
     bindA (rb_observe ids E) (\<lambda>observed.
     thenA (ensureA (cv_ready observed) ''CANDIDATE_NOT_CURRENT'')
     (bindA (liftA (expected_dataset (rb_sha256 E) rdf)) (\<lambda>expected.
      let i = sn_candidate (cv_selection observed) in
      bindA (on_fst (gs_listGraphIris (id_source ids) i)) (\<lambda>graphs.
      thenA (on_snd (rb_initialize E i (''jwb-'' @ i)))
      (bindA (on_snd (compare_exports_of E ''CANDIDATE'' i (ds_graphs expected) graphs)) (\<lambda>diffs.
       on_fst (rb_judge ids (rb_sha256 E) observed expected diffs (missing_graphs (ds_graphs expected) graphs)))))))))"

record serving_report =
  vs_generation :: string
  vs_state :: string
  vs_schema :: string
  vs_missing :: nat
  vs_extra :: nat

definition rb_validateServing :: "identities \<Rightarrow> 'w rebuild_env \<Rightarrow> jsval \<Rightarrow> string \<Rightarrow> (control_db \<times> 'w, serving_report) action" where
  "rb_validateServing ids E manifest rdf =
     bindA (liftA (validateStandaloneSnapshotManifest manifest)) (\<lambda>_.
     bindA (on_fst (rb_inspect ids (rb_backendType E))) (\<lambda>sel.
     let i = sn_serving sel in
     bindA (on_fst (sync_with_source ids i)) (\<lambda>rows.
     bindA (on_fst (one_row ''SERVING_NOT_CURRENT'' rows)) (\<lambda>(s, src).
     thenA (ensureA (gs_state s = ''CURRENT'' \<and> gs_schema s = ''CURRENT'' \<and> 0 \<le> compare_times (gs_catchup s) (sr_ingestion src))
       ''SERVING_NOT_CURRENT'')
     (bindA (liftA (expected_dataset (rb_sha256 E) rdf)) (\<lambda>expected.
      bindA (on_fst (gs_listGraphIris (id_source ids) i)) (\<lambda>graphs.
      thenA (on_snd (rb_initialize E i (''jwb-'' @ i)))
      (bindA (on_snd (compare_exports_of E ''SERVING'' i (ds_graphs expected) graphs)) (\<lambda>diffs.
       returnA \<lparr>vs_generation = i, vs_state = gs_state s, vs_schema = gs_schema s,
         vs_missing = count_missing diffs (missing_graphs (ds_graphs expected) graphs), vs_extra = count_extra diffs\<rparr>)))))))))"

section \<open>The first rows of a deployment\<close>

definition absent_or_insert :: "(control_db \<Rightarrow> 'r list) \<Rightarrow> ('r \<Rightarrow> bool) \<Rightarrow> 'r db \<Rightarrow> unit db" where
  "absent_or_insert get' P insert' = bindA (select_rows get' P) (\<lambda>there. whenA (there = []) (thenA insert' (returnA ())))"

definition bootstrap_row :: "string \<Rightarrow> string \<Rightarrow> int \<Rightarrow> string \<Rightarrow> string \<Rightarrow> generation_row" where
  "bootstrap_row source backendType now i state =
     \<lparr>gr_source = source, gr_id = i, gr_backend = backendType, gr_state = state, gr_validation = ''VALID'',
      gr_checksum = Some (replicate 64 (CHR ''0'')), gr_normalization = Some ''jwb-rdf-normalization-v1'',
      gr_partition = ''jwb-partition-v1'', gr_manifest = Some ''{}'',
      gr_protection = (if state = ''SERVING'' then ''SERVING'' else ''NONE''), gr_version = 1, gr_snapshot = (0, 0),
      gr_promotedAt = (if state = ''SERVING'' then Some now else None), gr_retiredAt = None, gr_error = None,
      gr_runtime = Some ''compose'', gr_namespace = None\<rparr>"

definition bootstrap_sync :: "string \<Rightarrow> string \<Rightarrow> generation_sync_row" where
  "bootstrap_sync source i = \<lparr>gs_source = source, gs_generation = i, gs_state = ''BOOTSTRAPPING'', gs_schema = ''PENDING'',
     gs_snapshot = (0, 0), gs_catchup = Some (0, 0), gs_lastSuccess = None, gs_error = None\<rparr>"

definition bootstrap_pointer :: "identities \<Rightarrow> int \<Rightarrow> pointer_row" where
  "bootstrap_pointer ids now = \<lparr>pt_query = id_query ids, pt_source = id_source ids, pt_generation = ''gen-a'',
     pt_previous = None, pt_version = 1, pt_updatedAt = now\<rparr>"

text \<open>
  A row that is there stays as it is, also when it names another backend type.  The table of the query
  services, which only the foreign keys use, is left out.
\<close>

definition bootstrapStandaloneJwb :: "string \<Rightarrow> string option \<Rightarrow> string option \<Rightarrow> string option \<Rightarrow> identities db" where
  "bootstrapStandaloneJwb backendType instanceId sourceIdentity queryServiceId =
     thenA (ensureA (List.member PROVIDER_BACKENDS backendType) ''INVALID_STANDALONE_BOOTSTRAP'')
     (transactionA (
      bindA (liftA (legacyOrInstanceIdentities instanceId sourceIdentity queryServiceId)) (\<lambda>ids.
      let source = id_source ids in
      bindA now_db (\<lambda>now.
      thenA (absent_or_insert db_sources (\<lambda>r. sr_source r = source)
        (insert_row db_sources db_sources_update (\<lambda>_. True) \<lparr>sr_source = source, sr_ingestion = None, sr_legacy = ''EMPTY_CONFIRMED''\<rparr>))
      (thenA (forA [(''gen-a'', ''SERVING''), (''gen-b'', ''READY'')] (\<lambda>(i, state).
        absent_or_insert db_generations (is_generation source i) (insert_generation (bootstrap_row source backendType now i state))))
      (thenA (absent_or_insert db_pointers (\<lambda>p. pt_query p = id_query ids)
        (insert_row db_pointers db_pointers_update pointers_ok (bootstrap_pointer ids now)))
      (thenA (forA [''gen-a'', ''gen-b''] (\<lambda>i. absent_or_insert db_syncs (is_sync source i)
        (insert_row db_syncs db_syncs_update (\<lambda>_. True) (bootstrap_sync source i))))
      (returnA ids))))))))"

section \<open>A rebuild stays beside what is served\<close>

text \<open>The database without the rows of one generation\<close>

definition beside :: "string \<Rightarrow> string \<Rightarrow> control_db \<Rightarrow> control_db" where
  "beside source g d = d\<lparr>
     db_generations := filter (\<lambda>r. \<not> is_generation source g r) (db_generations d),
     db_syncs := filter (\<lambda>r. \<not> is_sync source g r) (db_syncs d),
     db_graphs := filter (\<lambda>r. \<not> owned_graph source g r) (db_graphs d),
     db_revisions := filter (\<lambda>r. \<not> is_revision source g r) (db_revisions d)\<rparr>"

named_theorems beside_intros \<open>what only touches the rows of one generation\<close>

lemma filter_update_out:
  "(\<And>r. P r \<Longrightarrow> Q r \<and> Q (f r)) \<Longrightarrow> filter (\<lambda>r. \<not> Q r) (update_rows P f rs) = filter (\<lambda>r. \<not> Q r) rs"
  by (induction rs) auto

lemma beside_generations [beside_intros]:
  "(\<And>r. P r \<Longrightarrow> is_generation source g r \<and> is_generation source g (f r)) \<Longrightarrow> keeps (beside source g) (update_generations P f)"
  by (rule keepsI) (auto simp: update_table_def beside_def filter_update_out split: if_splits)

lemma beside_syncs [beside_intros]:
  "(\<And>r. P r \<Longrightarrow> is_sync source g r \<and> is_sync source g (f r)) \<Longrightarrow> keeps (beside source g) (update_syncs P f)"
  by (rule keepsI) (auto simp: update_table_def beside_def filter_update_out split: if_splits)

lemma beside_graphs [beside_intros]:
  "(\<And>r. P r \<Longrightarrow> owned_graph source g r \<and> owned_graph source g (f r)) \<Longrightarrow>
     keeps (beside source g) (update_table db_graphs db_graphs_update (\<lambda>_. True) P f)"
  by (rule keepsI) (auto simp: update_table_def beside_def filter_update_out split: if_splits)

lemma beside_revisions [beside_intros]:
  "(\<And>r. P r \<Longrightarrow> is_revision source g r \<and> is_revision source g (f r)) \<Longrightarrow>
     keeps (beside source g) (update_table db_revisions db_revisions_update revisions_ok P f)"
  by (rule keepsI) (auto simp: update_table_def beside_def filter_update_out split: if_splits)

lemma beside_insert_revision [beside_intros]:
  "is_revision source g r \<Longrightarrow> keeps (beside source g) (insert_row db_revisions db_revisions_update revisions_ok r)"
  by (rule keepsI) (auto simp: insert_row_def beside_def split: if_splits)

lemma beside_select [beside_intros]: "keeps h (select_rows get' P)" "keeps h now_db" "keeps h (one_row e rs)"
  by (auto simp: select_rows_def now_db_def one_row_def intro!: keeps_intros split: list.splits)

lemma beside_modify [beside_intros]: "(\<And>d. h (f d) = h d) \<Longrightarrow> keeps h (modifyA f)"
  by (rule keepsI) auto

lemma beside_transaction [beside_intros]: "keeps h m \<Longrightarrow> keeps h (transactionA m)"
  by (simp add: keeps_moves moves_transactionA)

lemma beside_repository [beside_intros]:
  "keeps (beside source g) (gs_registerGraph source g iri k e)"
  "keeps (beside source g) (gs_saveEntity source g v)"
  "keeps (beside source g) (gs_setSchemaState source g state err)"
  "keeps (beside source g) (gs_saveGenerationManifest source g m)"
  unfolding gs_registerGraph_def gs_saveEntity_def gs_setSchemaState_def gs_saveGenerationManifest_def
  by (intro keeps_intros beside_intros; auto simp: beside_def is_graph_def owned_graph_def is_sync_def is_generation_def)+

lemma kept_on_fst [beside_intros]: "keeps h m \<Longrightarrow> keeps (\<lambda>s. h (fst s)) (on_fst m)"
  unfolding keeps_def on_fst_def by (clarsimp split: prod.splits) (metis snd_conv)

lemma kept_on_snd [beside_intros]: "keeps (\<lambda>s. h (fst s)) (on_snd m)"
  by (simp add: keeps_def on_snd_def split: prod.splits)

lemma generation_loader_fields:
  "ld_resetToken (generation_loader source g text X) = on_snd (lx_resetToken X)"
  "ld_reset (generation_loader source g text X) t = on_snd (lx_reset X t)"
  "ld_replaceNamedGraph (generation_loader source g text X) iri p t = on_snd (lx_replaceNamedGraph X iri p t)"
  "ld_registerGraph (generation_loader source g text X) iri k e = on_fst (gs_registerGraph source g iri k e)"
  "ld_saveEntity (generation_loader source g text X) r = on_fst (gs_saveEntity source g r)"
  "ld_setSchemaState (generation_loader source g text X) state = on_fst (gs_setSchemaState source g state None)"
  "ld_saveGenerationManifest (generation_loader source g text X) =
     Some (\<lambda>m. on_fst (gs_saveGenerationManifest source g (Some (stored_manifest text m))))"
  "ld_writeFile (generation_loader source g text X) p t = on_snd (lx_writeFile X p t)"
  "ld_chmod (generation_loader source g text X) p = on_snd (lx_chmod X p)"
  "ld_unlink (generation_loader source g text X) p = on_snd (lx_unlink X p)"
  "ld_now (generation_loader source g text X) = on_snd (lx_now X)"
  by (simp_all add: generation_loader_def)

lemma beside_load_graph: "keeps (\<lambda>s. beside source g (fst s)) (load_graph (generation_loader source g text X) p)"
  unfolding load_graph_def loader_materialize_def generation_loader_fields Let_def case_prod_beta
  by (intro keeps_intros beside_intros)

lemma beside_loader:
  "keeps (\<lambda>s. beside source g (fst s)) (SnapshotLoader.loadSnapshot (generation_loader source g text X) rdf)"
  unfolding SnapshotLoader.loadSnapshot_def generation_loader_fields option.case
  by (intro keeps_intros beside_intros beside_load_graph)

lemma beside_reset: "keeps (beside (id_source ids) (sn_candidate sel)) (rb_reset ids sel c)"
  unfolding rb_reset_def Let_def
  by (intro keeps_intros beside_intros) (auto simp: beside_def reset_sync_def reset_generation_def is_sync_def is_generation_def)

lemma inspect_state: "rb_inspect ids b d = (r, d') \<Longrightarrow> d' = d"
  by (erule keepsD [where f = "\<lambda>d. d", rotated])
    (auto simp: rb_inspect_def Let_def intro!: keeps_intros beside_intros split: option.splits)

lemma inspected:
  assumes "rb_inspect ids b d = (Inr sel, d')"
  shows "sn_candidate sel = other_slot (sn_serving sel)" "sn_serving sel \<in> set SLOTS"
    "\<exists>p. filter (\<lambda>p. pt_query p = id_query ids) (db_pointers d) = [p] \<and> pt_generation p = sn_serving sel"
    "map gr_id (filter (\<lambda>g. gr_source g = id_source ids \<and> serves_row g) (db_generations d)) = [sn_serving sel]"
  using assms
  by (auto simp: rb_inspect_def Let_def db_Inr requireR_def conj_commute split: option.splits if_splits)

lemma beside_replace: "keeps (\<lambda>s. beside (id_source ids) (sn_candidate sel) (fst s)) (rb_replace ids E m rdf sel)"
proof -
  have g: "is_generation (id_source ids) i (x\<lparr>gr_state := u, gr_manifest := v\<rparr>) = is_generation (id_source ids) i x" for x u v i
    by (simp add: is_generation_def)
  show ?thesis unfolding rb_replace_def Let_def
    by (intro keeps_intros beside_intros beside_loader beside_reset) (simp add: g)
qed

lemma load_replaces:
  assumes "rb_load ids E manifest rdf (d, w) = (r, s)" "rb_inspect ids (rb_backendType E) d = (Inr sel, d)"
  shows "s = (d, w) \<or> rb_replace ids E manifest rdf sel (d, w) = (r, s)"
  using assms
  by (auto simp: rb_load_def bindA_def thenA_def liftA_def on_fst_def requireR_def validateStandaloneSnapshotManifest_def
      split: if_splits)

text \<open>C6: However a rebuild ends, with the snapshot loaded or with an error at any point, it changed no row
  but those of the slot that is not served: the served generation keeps its state, its cursor, its
  graphs and its entities, and the serving pointer stays.
\<close>

theorem standalone_rebuild_isolated:
  assumes "rb_load ids E manifest rdf (d, w) = (r, (d', w'))" "rb_inspect ids (rb_backendType E) d = (Inr sel, d)"
  shows "beside (id_source ids) (sn_candidate sel) d' = beside (id_source ids) (sn_candidate sel) d \<and>
    db_pointers d' = db_pointers d \<and>
    (\<exists>p. filter (\<lambda>p. pt_query p = id_query ids) (db_pointers d') = [p] \<and> pt_generation p = sn_serving sel) \<and>
    sn_serving sel \<noteq> sn_candidate sel"
proof -
  let ?b = "beside (id_source ids) (sn_candidate sel)"
  have b: "?b d' = ?b d" using load_replaces [OF assms] keepsD [OF beside_replace] by fastforce
  have "db_pointers (?b x) = db_pointers x" for x by (simp add: beside_def)
  with b have "db_pointers d' = db_pointers d" by metis
  with b inspected [OF assms(2)] show ?thesis by (auto simp: other_slot_def SLOTS_def)
qed

section \<open>A candidate is ready exactly when its exports equal the snapshot\<close>

text \<open>A store whose successful answers are the graphs \<open>content\<close>\<close>

definition exports :: "'w rebuild_env \<Rightarrow> string \<Rightarrow> (string \<Rightarrow> string) \<Rightarrow> bool" where
  "exports E g content \<longleftrightarrow> (\<forall>graph w r w'. rb_fetch E (rb_queryUrl E g) (export_init graph) w = (Inr r, w') \<and> rp_ok r \<longrightarrow>
     rp_text r = Inr (content graph))"

definition registered_graphs :: "string \<Rightarrow> string \<Rightarrow> control_db \<Rightarrow> string list" where
  "registered_graphs source g d = map gg_iri (filter (owned_graph source g) (db_graphs d))"

definition same_graph :: "'w rebuild_env \<Rightarrow> string \<Rightarrow> string \<Rightarrow> bool" where
  "same_graph E a b \<longleftrightarrow> diffCanonicalRdfGraphs (rb_sha256 E) (rb_fromCodePoint E) DEFAULT_BOUND a b =
     Inr \<lparr>df_canonicalOnly = [], df_generationOnly = []\<rparr>"

definition without_lines :: "string \<Rightarrow> bool" where
  "without_lines body \<longleftrightarrow> list_all (\<lambda>l. l = []) (split_on LF (trim body))"

definition exports_equal :: "'w rebuild_env \<Rightarrow> (string \<Rightarrow> string) \<Rightarrow> graphs \<Rightarrow> string list \<Rightarrow> bool" where
  "exports_equal E content expected graphs \<longleftrightarrow>
     (\<forall>iri \<in> set graphs. same_graph E (or_else (map_of expected iri) []) (content iri)) \<and>
     (\<forall>(iri, body) \<in> set expected. iri \<in> set graphs \<or> without_lines body)"

lemma compared_exports:
  assumes "exports E g content" "compare_exports_of E what g expected graphs w = (Inr diffs, w')"
  shows "map fst diffs = graphs \<and> (\<forall>(iri, d) \<in> set diffs.
    diffCanonicalRdfGraphs (rb_sha256 E) (rb_fromCodePoint E) DEFAULT_BOUND (or_else (map_of expected iri) []) (content iri) = Inr d)"
  using assms(2)
proof (induction graphs arbitrary: diffs w)
  case (Cons graph graphs)
  then obtain d w1 rest where d: "compare_graph E what g expected graph w = (Inr d, w1)"
    "compare_exports_of E what g expected graphs w1 = (Inr rest, w')" "diffs = (graph, d) # rest"
    by (auto simp: bindA_Inr)
  from d(1) obtain r w2 where r: "rb_fetch E (rb_queryUrl E g) (export_init graph) w = (Inr r, w2)" "rp_ok r"
    "diffCanonicalRdfGraphs (rb_sha256 E) (rb_fromCodePoint E) DEFAULT_BOUND (or_else (map_of expected graph) []) (projr (rp_text r)) = Inr d"
    by (auto simp: compare_graph_def bindA_Inr split: if_splits)
  with assms(1) have "rp_text r = Inr (content graph)" by (auto simp: exports_def)
  with r(3) d(3) Cons.IH [OF d(2)] show ?case by simp
qed simp

lemma no_counts:
  "count_missing diffs missing = 0 \<and> count_extra diffs = 0 \<longleftrightarrow>
     (\<forall>p \<in> set diffs. snd p = \<lparr>df_canonicalOnly = [], df_generationOnly = []\<rparr>) \<and> (\<forall>p \<in> set missing. snd p = [])"
proof -
  have e: "d = \<lparr>df_canonicalOnly = [], df_generationOnly = []\<rparr> \<longleftrightarrow> df_canonicalOnly d = [] \<and> df_generationOnly d = []"
    for d :: rdf_diff by (cases d) simp
  show ?thesis unfolding e by (auto simp: count_missing_def count_extra_def case_prod_beta)
qed

lemma no_missing:
  "(\<forall>p \<in> set (missing_graphs expected graphs). snd p = []) \<longleftrightarrow>
     (\<forall>(iri, body) \<in> set expected. iri \<in> set graphs \<or> without_lines body)"
  by (auto simp: missing_graphs_def without_lines_def filter_empty_conv list_all_iff case_prod_beta)

lemma no_difference:
  assumes "map fst diffs = graphs" "\<forall>(iri, d) \<in> set diffs.
    diffCanonicalRdfGraphs (rb_sha256 E) (rb_fromCodePoint E) DEFAULT_BOUND (or_else (map_of expected iri) []) (content iri) = Inr d"
  shows "count_missing diffs (missing_graphs expected graphs) = 0 \<and> count_extra diffs = 0 \<longleftrightarrow>
    exports_equal E content expected graphs"
proof -
  have "snd p = \<lparr>df_canonicalOnly = [], df_generationOnly = []\<rparr> \<longleftrightarrow>
      same_graph E (or_else (map_of expected (fst p)) []) (content (fst p))" if "p \<in> set diffs" for p
    using assms(2) that by (auto simp: same_graph_def)
  then have "(\<forall>p \<in> set diffs. snd p = \<lparr>df_canonicalOnly = [], df_generationOnly = []\<rparr>) \<longleftrightarrow>
      (\<forall>iri \<in> fst ` set diffs. same_graph E (or_else (map_of expected iri) []) (content iri))" by simp
  moreover have "fst ` set diffs = set graphs" using assms(1) by (metis list.set_map)
  ultimately show ?thesis unfolding no_counts no_missing exports_equal_def by simp
qed

lemma observed_state: "rb_observe ids E s = (r, s') \<Longrightarrow> fst s' = fst s"
proof -
  have i: "keeps (\<lambda>d. d) (rb_inspect ids b)" for b by (rule keepsI) (rule inspect_state)
  have "keeps fst (rb_observe ids E)"
    unfolding rb_observe_def sync_with_source_def Let_def case_prod_beta
    by (intro keeps_intros beside_intros kept_on_fst [where h = "\<lambda>d. d"] i)
  then show "rb_observe ids E s = (r, s') \<Longrightarrow> fst s' = fst s" by (rule keepsD)
qed

lemma judged:
  assumes "rb_judge ids hash observed expected diffs absent d = (Inr v, d')"
  shows "vr_observed v = observed" "vr_valid v \<longleftrightarrow> count_missing diffs absent = 0 \<and> count_extra diffs = 0"
    "db_generations d' = update_rows (is_generation (id_source ids) (sn_candidate (cv_selection observed)))
      (if vr_valid v then mark_ready (hash (datasetToNQuads (ds_graphs expected))) else mark_invalid) (db_generations d)"
  using assms by (auto simp: rb_judge_def Let_def thenA_Inr update_table_Inr split: if_splits)

lemma equal_isomorphic:
  assumes "exports_equal E content expected graphs" "iri \<in> set graphs"
    "plain_graph (graph_lines (rb_fromCodePoint E) (or_else (map_of expected iri) []))"
    "plain_graph (graph_lines (rb_fromCodePoint E) (content iri))"
  shows "isomorphic_lines (graph_lines (rb_fromCodePoint E) (or_else (map_of expected iri) [])) (graph_lines (rb_fromCodePoint E) (content iri))"
proof -
  have "same_graph E (or_else (map_of expected iri) []) (content iri)" using assms(1,2) by (simp add: exports_equal_def)
  from no_difference_isomorphic [OF this [unfolded same_graph_def] _ _ assms(3,4)] show ?thesis by simp
qed

text \<open>An action that leaves the database as it was whenever it fails\<close>

definition undone_by_error :: "('d \<times> 'w, 'a) action \<Rightarrow> bool" where
  "undone_by_error m \<longleftrightarrow> (\<forall>s e s'. m s = (Inl e, s') \<longrightarrow> fst s' = fst s)"

lemma undone_bind: "keeps fst m \<Longrightarrow> (\<And>x. undone_by_error (k x)) \<Longrightarrow> undone_by_error (bindA m k)"
  unfolding undone_by_error_def bindA_def by (fastforce dest: keepsD split: prod.splits sum.splits)

lemma undone_then: "keeps fst m \<Longrightarrow> undone_by_error n \<Longrightarrow> undone_by_error (thenA m n)"
  unfolding thenA_def by (rule undone_bind)

lemma undone_judge: "undone_by_error (on_fst (rb_judge ids hash observed expected diffs absent))"
  by (auto simp: undone_by_error_def on_fst_eq rb_judge_def Let_def thenA_def bindA_def update_table_def returnA_def
      split: if_splits)

lemma validate_error: "rb_validate ids E manifest rdf s = (Inl e, s') \<Longrightarrow> fst s' = fst s"
proof -
  have o: "keeps fst (rb_observe ids E)" by (rule keepsI) (rule observed_state)
  have "undone_by_error (rb_validate ids E manifest rdf)"
    unfolding rb_validate_def Let_def
    by (intro undone_bind undone_then undone_judge o keeps_intros beside_intros kept_on_fst [where h = "\<lambda>d. d"])
      (auto simp: gs_listGraphIris_def intro!: keeps_intros)
  then show "rb_validate ids E manifest rdf s = (Inl e, s') \<Longrightarrow> fst s' = fst s" unfolding undone_by_error_def by blast
qed

lemma validated:
  assumes "rb_validate ids E manifest rdf (d, w) = (Inr v, (d', w'))"
    "exports E (sn_candidate (cv_selection (vr_observed v))) content"
  shows "cv_ready (vr_observed v) \<and>
    (\<exists>expected. expected_dataset (rb_sha256 E) rdf = Inr expected \<and>
      vr_valid v = exports_equal E content (ds_graphs expected)
        (registered_graphs (id_source ids) (sn_candidate (cv_selection (vr_observed v))) d) \<and>
      db_generations d' = update_rows (is_generation (id_source ids) (sn_candidate (cv_selection (vr_observed v))))
        (if vr_valid v then mark_ready (rb_sha256 E (datasetToNQuads (ds_graphs expected))) else mark_invalid) (db_generations d))"
proof -
  from assms(1) obtain ob s1 expected graphs diffs w2 w3 where
    ob: "rb_observe ids E (d, w) = (Inr ob, s1)" "cv_ready ob"
    and ex: "expected_dataset (rb_sha256 E) rdf = Inr expected"
    and gs: "gs_listGraphIris (id_source ids) (sn_candidate (cv_selection ob)) (fst s1) = (Inr graphs, fst s1)"
    and df: "compare_exports_of E ''CANDIDATE'' (sn_candidate (cv_selection ob)) (ds_graphs expected) graphs w2 = (Inr diffs, w3)"
    and out: "rb_judge ids (rb_sha256 E) ob expected diffs (missing_graphs (ds_graphs expected) graphs) (fst s1) = (Inr v, d')"
    by (auto simp: rb_validate_def bindA_Inr thenA_Inr Let_def requireR_def gs_listGraphIris_def on_fst_eq on_snd_eq split: if_splits)
  note j = judged [OF out]
  have d: "fst s1 = d" using observed_state [OF ob(1)] by simp
  define i where "i = sn_candidate (cv_selection ob)"
  have "set graphs = set (registered_graphs (id_source ids) i d)"
    using gs unfolding d i_def [symmetric] by (auto simp: gs_listGraphIris_def registered_graphs_def owned_graph_def)
  then have "exports_equal E content (ds_graphs expected) graphs =
      exports_equal E content (ds_graphs expected) (registered_graphs (id_source ids) i d)"
    by (simp add: exports_equal_def)
  with no_difference [of diffs graphs E "ds_graphs expected" content] j(2)
    compared_exports [OF assms(2) [unfolded j(1)] df] have
    "vr_valid v = exports_equal E content (ds_graphs expected) (registered_graphs (id_source ids) i d)" by simp
  with ob(2) ex j(3) show ?thesis unfolding j(1) d i_def [symmetric] by blast
qed

text \<open>C7: The rebuilt slot is marked ready exactly when the comparison finds no difference.  A validation that ends
  in an error leaves the database as it was.  One that completes had found the slot caught up; it marks the
  slot ready and valid when the code's comparison of canonical forms finds no difference between the
  export of any registered graph and that graph of the snapshot and no graph of the snapshot is missing, and
  marks it failed otherwise.  For graphs whose lines the comparison reads right, no difference means that
  they are equal up to the names of their blank nodes; the converse fails, the comparison can find
  differences between isomorphic graphs (\<open>canonical_form_depends_on_labels\<close>).
\<close>

theorem ready_exactly_when_equal:
  assumes "rb_validate ids E manifest rdf (d, w) = (r, (d', w'))" "\<And>g. exports E g (content g)"
  shows "case r of
      Inl e \<Rightarrow> d' = d
    | Inr v \<Rightarrow> cv_ready (vr_observed v) \<and>
        (\<exists>expected. expected_dataset (rb_sha256 E) rdf = Inr expected \<and>
          vr_valid v = exports_equal E (content (sn_candidate (cv_selection (vr_observed v)))) (ds_graphs expected)
            (registered_graphs (id_source ids) (sn_candidate (cv_selection (vr_observed v))) d) \<and>
          db_generations d' = update_rows (is_generation (id_source ids) (sn_candidate (cv_selection (vr_observed v))))
            (if vr_valid v then mark_ready (rb_sha256 E (datasetToNQuads (ds_graphs expected))) else mark_invalid) (db_generations d) \<and>
          (vr_valid v \<longrightarrow> (\<forall>iri \<in> set (registered_graphs (id_source ids) (sn_candidate (cv_selection (vr_observed v))) d).
            plain_graph (graph_lines (rb_fromCodePoint E) (or_else (map_of (ds_graphs expected) iri) [])) \<and>
            plain_graph (graph_lines (rb_fromCodePoint E) (content (sn_candidate (cv_selection (vr_observed v))) iri)) \<longrightarrow>
            isomorphic_lines (graph_lines (rb_fromCodePoint E) (or_else (map_of (ds_graphs expected) iri) []))
              (graph_lines (rb_fromCodePoint E) (content (sn_candidate (cv_selection (vr_observed v))) iri)))))"
proof (cases r)
  case (Inl e)
  with assms(1) validate_error [of ids E manifest rdf "(d, w)"] show ?thesis by simp
next
  case (Inr v)
  define i where "i = sn_candidate (cv_selection (vr_observed v))"
  from validated [OF assms(1) [unfolded Inr] assms(2)] obtain expected where
    v: "cv_ready (vr_observed v)" "expected_dataset (rb_sha256 E) rdf = Inr expected"
    "vr_valid v = exports_equal E (content i) (ds_graphs expected) (registered_graphs (id_source ids) i d)"
    "db_generations d' = update_rows (is_generation (id_source ids) i)
      (if vr_valid v then mark_ready (rb_sha256 E (datasetToNQuads (ds_graphs expected))) else mark_invalid) (db_generations d)"
    unfolding i_def by blast
  have iso: "isomorphic_lines (graph_lines (rb_fromCodePoint E) (or_else (map_of (ds_graphs expected) iri) []))
      (graph_lines (rb_fromCodePoint E) (content i iri))"
    if "vr_valid v" "iri \<in> set (registered_graphs (id_source ids) i d)"
      "plain_graph (graph_lines (rb_fromCodePoint E) (or_else (map_of (ds_graphs expected) iri) []))"
      "plain_graph (graph_lines (rb_fromCodePoint E) (content i iri))" for iri
    using equal_isomorphic [of E "content i"] that v(3) by blast
  show ?thesis unfolding Inr sum.case i_def [symmetric]
    using v iso by (intro conjI exI [of _ expected]) blast+
qed

section \<open>Bootstrapping\<close>

text \<open>What a database without any row of the deployment looks like\<close>

definition unused_identities :: "identities \<Rightarrow> control_db \<Rightarrow> bool" where
  "unused_identities ids d \<longleftrightarrow> generations_ok (db_generations d) \<and> pointers_ok (db_pointers d) \<and> promotions_ok (db_promotions d) \<and>
     list_all (\<lambda>g. gr_source g \<noteq> id_source ids) (db_generations d) \<and>
     list_all (\<lambda>p. pt_query p \<noteq> id_query ids) (db_pointers d) \<and>
     list_all (\<lambda>p. pm_source p \<noteq> id_source ids) (db_promotions d)"

lemma absent_insert:
  "absent_or_insert get' P (insert_row get' put ok r) d =
     (if filter P (get' d) \<noteq> [] then (Inr (), d)
      else if ok (get' d @ [r]) then (Inr (), put (\<lambda>_. get' d @ [r]) d) else (Inl CONSTRAINT_VIOLATION, d))"
  by (simp add: absent_or_insert_def bindA_def thenA_def whenA_def select_rows_def readA_def returnA_def insert_row_def)

definition bootstrap_generations :: "string \<Rightarrow> string \<Rightarrow> int \<Rightarrow> generation_row list" where
  "bootstrap_generations source b now = [bootstrap_row source b now ''gen-a'' ''SERVING'', bootstrap_row source b now ''gen-b'' ''READY'']"

lemma bootstrap_row_fields [simp]:
  "gr_source (bootstrap_row source b now i state) = source" "gr_id (bootstrap_row source b now i state) = i"
  "gr_state (bootstrap_row source b now i state) = state" "gr_validation (bootstrap_row source b now i state) = ''VALID''"
  "gr_checksum (bootstrap_row source b now i state) = Some (replicate 64 (CHR ''0''))"
  "gr_protection (bootstrap_row source b now i state) = (if state = ''SERVING'' then ''SERVING'' else ''NONE'')"
  "gr_promotedAt (bootstrap_row source b now i state) = (if state = ''SERVING'' then Some now else None)"
  by (simp_all add: bootstrap_row_def)

lemma generations_ok_append:
  "generations_ok gs \<Longrightarrow> generations_ok hs \<Longrightarrow> gr_source ` set gs \<inter> gr_source ` set hs = {} \<Longrightarrow> generations_ok (gs @ hs)"
  by (simp add: generations_ok_def disjoint_iff generation_key_def) blast

lemma bootstrap_rows_ok:
  assumes "generations_ok gs" "list_all (\<lambda>g. gr_source g \<noteq> source) gs"
  shows "generations_ok (gs @ [bootstrap_row source b now ''gen-a'' ''SERVING''])"
    "generations_ok (gs @ bootstrap_generations source b now)"
proof -
  have "source \<notin> gr_source ` set gs" using assms(2) by (auto simp: list_all_iff)
  then show "generations_ok (gs @ [bootstrap_row source b now ''gen-a'' ''SERVING''])"
    "generations_ok (gs @ bootstrap_generations source b now)"
    using assms(1) by (auto intro!: generations_ok_append simp: bootstrap_generations_def generations_ok_def generation_key_def)
qed

lemma bootstrap_serves:
  "list_all (\<lambda>g. gr_source g \<noteq> source) gs \<Longrightarrow> registry_serves source ''gen-a'' (gs @ bootstrap_generations source b now)"
  by (auto simp: registry_serves_def bootstrap_generations_def is_generation_def list_all_iff)

text \<open>C8: Bootstrapping a deployment on a database without rows of it succeeds and leaves it settled on the
  first slot, in the invariant from which promotions are proved safe; bootstrapping again changes nothing.
\<close>

theorem bootstrap_settles:
  assumes "unused_identities ids d" "legacyOrInstanceIdentities i s q = Inr ids" "List.member PROVIDER_BACKENDS b"
  shows "\<exists>d'. bootstrapStandaloneJwb b i s q d = (Inr ids, d') \<and> settled_on ids ''gen-a'' d' \<and>
    bootstrapStandaloneJwb b i s q d' = (Inr ids, d')"
proof -
  let ?s = "id_source ids" and ?now = "db_now d"
  let ?gs = "db_generations d @ bootstrap_generations ?s b ?now" and ?p = "bootstrap_pointer ids ?now"
  from assms(1) have u: "generations_ok (db_generations d)" "pointers_ok (db_pointers d)" "promotions_ok (db_promotions d)"
    "list_all (\<lambda>g. gr_source g \<noteq> ?s) (db_generations d)" "list_all (\<lambda>p. pt_query p \<noteq> id_query ids) (db_pointers d)"
    "list_all (\<lambda>p. pm_source p \<noteq> ?s) (db_promotions d)"
    by (simp_all add: unused_identities_def)
  define ss where "ss = (if filter (\<lambda>r. sr_source r = ?s) (db_sources d) \<noteq> [] then db_sources d
    else db_sources d @ [\<lparr>sr_source = ?s, sr_ingestion = None, sr_legacy = ''EMPTY_CONFIRMED''\<rparr>])"
  define ya where "ya = (if filter (is_sync ?s ''gen-a'') (db_syncs d) \<noteq> [] then db_syncs d else db_syncs d @ [bootstrap_sync ?s ''gen-a''])"
  define yb where "yb = (if filter (is_sync ?s ''gen-b'') ya \<noteq> [] then ya else ya @ [bootstrap_sync ?s ''gen-b''])"
  define d' where "d' = d\<lparr>db_sources := ss, db_generations := ?gs, db_pointers := db_pointers d @ [?p], db_syncs := yb\<rparr>"
  have none: "filter (is_generation ?s i) (db_generations d) = []" "filter (\<lambda>p. pt_query p = id_query ids) (db_pointers d) = []" for i
    using u(4,5) by (auto simp: filter_empty_conv list_all_iff is_generation_def)
  have pok: "pointers_ok (db_pointers d @ [?p])" using u(2,5) by (auto simp: pointers_ok_def bootstrap_pointer_def list_all_iff)
  have rows: "is_generation ?s i (bootstrap_row ?s b ?now j state) = (i = j)" for i j state
    by (auto simp: is_generation_def)
  have gok: "generations_ok (db_generations d @ [bootstrap_row ?s b ?now ''gen-a'' ''SERVING''])"
    "generations_ok ?gs" using bootstrap_rows_ok [OF u(1,4)] by blast+
  let ?d1 = "d\<lparr>db_sources := ss\<rparr>" and ?d2 = "d\<lparr>db_sources := ss, db_generations := ?gs\<rparr>"
  let ?d3 = "d\<lparr>db_sources := ss, db_generations := ?gs, db_pointers := db_pointers d @ [?p]\<rparr>"
  have s1: "absent_or_insert db_sources (\<lambda>r. sr_source r = ?s) (insert_row db_sources db_sources_update (\<lambda>_. True)
      \<lparr>sr_source = ?s, sr_ingestion = None, sr_legacy = ''EMPTY_CONFIRMED''\<rparr>) d = (Inr (), ?d1)"
    by (simp add: absent_insert ss_def)
  have s2: "forA [(''gen-a'', ''SERVING''), (''gen-b'', ''READY'')] (\<lambda>(i, state). absent_or_insert db_generations (is_generation ?s i)
      (insert_generation (bootstrap_row ?s b ?now i state))) ?d1 = (Inr (), ?d2)"
    using gok by (simp add: absent_insert thenA_def bindA_def returnA_def none rows bootstrap_generations_def)
  have s3: "absent_or_insert db_pointers (\<lambda>p. pt_query p = id_query ids) (insert_row db_pointers db_pointers_update pointers_ok ?p) ?d2 =
      (Inr (), ?d3)"
    using pok by (simp add: absent_insert none)
  have s4: "forA [''gen-a'', ''gen-b''] (\<lambda>i. absent_or_insert db_syncs (is_sync ?s i)
      (insert_row db_syncs db_syncs_update (\<lambda>_. True) (bootstrap_sync ?s i))) ?d3 = (Inr (), d')"
    by (simp add: absent_insert thenA_def bindA_def returnA_def ya_def yb_def d'_def)
  have run: "bootstrapStandaloneJwb b i s q d = (Inr ids, d')"
    using assms(2,3) s1 s2 s3 s4
    by (simp add: bootstrapStandaloneJwb_def transactionA_def bindA_def thenA_def liftA_def now_db_def readA_def returnA_def
        requireR_def Let_def del: forA.simps)
  have there: "filter (\<lambda>r. sr_source r = ?s) ss \<noteq> []" "filter (is_sync ?s ''gen-a'') yb \<noteq> []" "filter (is_sync ?s ''gen-b'') yb \<noteq> []"
    by (auto simp: ss_def ya_def yb_def bootstrap_sync_def is_sync_def filter_empty_conv)
  have "filter (is_generation ?s ''gen-a'') ?gs \<noteq> []" "filter (is_generation ?s ''gen-b'') ?gs \<noteq> []"
    "filter (\<lambda>p. pt_query p = id_query ids) (db_pointers d @ [?p]) \<noteq> []"
    by (simp_all add: bootstrap_generations_def rows bootstrap_pointer_def)
  with there have again: "bootstrapStandaloneJwb b i s q d' = (Inr ids, d')"
    using assms(2,3)
    by (simp add: bootstrapStandaloneJwb_def transactionA_def bindA_def thenA_def liftA_def now_db_def readA_def returnA_def
        requireR_def absent_insert d'_def Let_def)
  have "filter (\<lambda>p. pt_query p = id_query ids \<and> pt_source p = ?s) (db_pointers d) = []" "filter (is_pending ids) (db_promotions d) = []"
    using u(5,6) by (auto simp: filter_empty_conv list_all_iff is_pending_def)
  then have "slot_pointers ids d' = [?p]" "pending_rows ids d' = []"
    by (simp_all add: slot_pointers_def pending_rows_def d'_def bootstrap_pointer_def)
  moreover have "generations_ok (db_generations d')" "pointers_ok (db_pointers d')" "promotions_ok (db_promotions d')"
    "registry_serves ?s ''gen-a'' (db_generations d')"
    using gok(2) pok u(3) bootstrap_serves [OF u(4)] by (simp_all add: d'_def)
  moreover have "pt_generation ?p = ''gen-a''" by (simp add: bootstrap_pointer_def)
  ultimately have "settled_on ids ''gen-a'' d'" by (simp add: settled_on_def standalone_inv_def)
  with run again show ?thesis by blast
qed

section \<open>A deployment\<close>

definition snapshot_manifest_value :: "string \<Rightarrow> nat \<Rightarrow> jsval" where
  "snapshot_manifest_value source bytes = JObj [(''manifestVersion'', JStr ''jwb-snapshot-v1''), (''snapshotId'', JStr demo_uuid),
     (''sourceIdentity'', JStr source), (''createdAt'', JStr ''2024-07-25T12:00:00Z''),
     (''cursor'', JObj [(''timestamp'', JStr ''1970-01-01T00:00:01Z''), (''rcid'', JInt 1)]),
     (''normalizationModel'', JStr ''jwb-rdf-normalization-v1''), (''partitionModel'', JStr ''jwb-partition-v1''),
     (''artifact'', JObj [(''format'', JStr ''application/n-triples''), (''sha256'', JStr (replicate 64 (CHR ''a''))),
        (''bytes'', JInt (int bytes)), (''graphCount'', JInt 1)])]"

definition store_line :: string where
  "store_line = ''<urn:a> <urn:b> <urn:c> .''"

text \<open>A store that starts when \<open>up\<close>, and exports one line for every graph\<close>

definition demo_env_of :: "bool \<Rightarrow> unit rebuild_env" where
  "demo_env_of up = \<lparr>rb_backendType = ''virtuoso'', rb_initialize = (\<lambda>_ _. if up then returnA () else raiseA ''store is down''),
     rb_effects = (\<lambda>_. demo_effects), rb_queryUrl = (\<lambda>g. g),
     rb_fetch = (\<lambda>_ _. returnA \<lparr>rp_status = 200, rp_headers = (\<lambda>_. None), rp_text = Inr store_line, rp_json = Inl ''no JSON''\<rparr>),
     rb_clock = returnA 2000, rb_sha256 = (\<lambda>_. replicate 64 (CHR ''a'')), rb_fromCodePoint = (\<lambda>n. [char_of n]),
     rb_loaderText = (\<lambda>_. ''loaded''), rb_manifestText = (\<lambda>_ _. ''manifest'')\<rparr>"

abbreviation slots :: control_db where
  "slots \<equiv> slots_db (Some (1000, 1))"

lemma slots_selected:
  "rb_inspect LEGACY_IDENTITIES ''virtuoso'' slots =
     (Inr \<lparr>sn_serving = ''gen-a'', sn_candidate = ''gen-b'', sn_version = 1, sn_state = ''READY'', sn_validation = ''VALID''\<rparr>, slots)"
proof -
  have "fst (rb_inspect LEGACY_IDENTITIES ''virtuoso'' slots) =
      Inr \<lparr>sn_serving = ''gen-a'', sn_candidate = ''gen-b'', sn_version = 1, sn_state = ''READY'', sn_validation = ''VALID''\<rparr>"
    by code_simp
  then show ?thesis using inspect_state by (metis prod.collapse)
qed

text \<open>The store fails after the reset: the slot is left loading, and nothing else has changed.\<close>

definition failed_load :: "(slot_selection \<times> nat) result \<times> control_db \<times> unit" where
  "failed_load = rb_load LEGACY_IDENTITIES (demo_env_of False) (snapshot_manifest_value ''jwb-standalone'' 0) [] (slots, ())"

theorem standalone_rebuild_isolated_witness:
  "fst failed_load = Inl ''store is down'' \<and>
   map gr_state (db_generations (fst (snd failed_load))) = [''SERVING'', ''LOADING''] \<and>
   beside ''jwb-standalone'' ''gen-b'' (fst (snd failed_load)) = beside ''jwb-standalone'' ''gen-b'' slots"
proof -
  have e: "fst failed_load = Inl ''store is down''" by code_simp
  have g: "map gr_state (db_generations (fst (snd failed_load))) = [''SERVING'', ''LOADING'']" by code_simp
  obtain r d' w' where run: "failed_load = (r, (d', w'))" by (metis prod.collapse)
  have b: "rb_backendType (demo_env_of False) = ''virtuoso''" "id_source LEGACY_IDENTITIES = ''jwb-standalone''"
    by (simp_all add: demo_env_of_def LEGACY_IDENTITIES_def)
  have "fst (snd failed_load) = d'" by (subst run) simp
  with standalone_rebuild_isolated [OF run [unfolded failed_load_def], unfolded b, OF slots_selected] e g show ?thesis by simp
qed

definition loaded_slots :: control_db where
  "loaded_slots = slots\<lparr>db_graphs := [\<lparr>gg_source = ''jwb-standalone'', gg_generation = ''gen-b'', gg_iri = GLOBAL_GRAPH_IRI,
     gg_kind = ''GLOBAL'', gg_entity = None\<rparr>]\<rparr>"

lemma loaded_slots_rows:
  "fst (rb_inspect LEGACY_IDENTITIES ''virtuoso'' loaded_slots) =
     Inr \<lparr>sn_serving = ''gen-a'', sn_candidate = ''gen-b'', sn_version = 1, sn_state = ''READY'', sn_validation = ''VALID''\<rparr>"
  "sync_with_source LEGACY_IDENTITIES ''gen-b'' loaded_slots =
     (Inr [(slot_sync ''gen-b'' (Some (1000, 1)), \<lparr>sr_source = ''jwb-standalone'', sr_ingestion = Some (1000, 1), sr_legacy = ''MIGRATED''\<rparr>)],
      loaded_slots)"
  "fst (gs_listGraphIris ''jwb-standalone'' ''gen-b'' loaded_slots) = Inr [GLOBAL_GRAPH_IRI]"
  subgoal by code_simp
  subgoal by (simp add: sync_with_source_def loaded_slots_def slots_db_def slot_sync_def is_sync_def LEGACY_IDENTITIES_def readA_def)
  subgoal by code_simp
  done

lemma store_compared:
  "expected_dataset (rb_sha256 (demo_env_of True)) store_line =
     Inr \<lparr>ds_partitionModel = JWB_PARTITION_MODEL, ds_graphs = [(GLOBAL_GRAPH_IRI, store_line @ [LF])]\<rparr>"
  "compare_exports_of (demo_env_of True) ''CANDIDATE'' ''gen-b'' [(GLOBAL_GRAPH_IRI, store_line @ [LF])] [GLOBAL_GRAPH_IRI] () =
     (Inr [(GLOBAL_GRAPH_IRI, \<lparr>df_canonicalOnly = [], df_generationOnly = []\<rparr>)], ())"
  "is_ok (validateStandaloneSnapshotManifest (snapshot_manifest_value ''jwb-standalone'' 0))"
  by code_simp+

lemma observe_run:
  assumes "fst (rb_inspect ids (rb_backendType E) d) = Inr sel" "sync_with_source ids (sn_candidate sel) d = (Inr [(s, src)], d)"
    "rb_clock E w = (Inr now, w)"
  shows "\<exists>ob. rb_observe ids E (d, w) = (Inr ob, (d, w)) \<and> cv_selection ob = sel \<and>
    cv_ready ob = (0 \<le> compare_times (gs_catchup s) (sr_ingestion src) \<and> gs_state s = ''CURRENT'' \<and> gs_schema s = ''CURRENT'')"
proof -
  have "rb_inspect ids (rb_backendType E) d = (Inr sel, d)" using assms(1) inspect_state by (metis prod.collapse)
  with assms(2,3) show ?thesis
    by (simp add: rb_observe_def bindA_def on_fst_def on_snd_def readA_def one_row_def returnA_def Let_def)
qed

theorem ready_exactly_when_equal_witness:
  "\<exists>v d'. rb_validate LEGACY_IDENTITIES (demo_env_of True) (snapshot_manifest_value ''jwb-standalone'' 0) store_line
       (loaded_slots, ()) = (Inr v, (d', ())) \<and> vr_valid v \<and>
     db_generations d' = update_rows (is_generation ''jwb-standalone'' ''gen-b'') (mark_ready (replicate 64 (CHR ''a''))) (db_generations slots)"
proof -
  let ?E = "demo_env_of True" and ?m = "snapshot_manifest_value ''jwb-standalone'' 0"
  have b: "rb_backendType ?E = ''virtuoso''" "id_source LEGACY_IDENTITIES = ''jwb-standalone''" "rb_initialize ?E g n () = (Inr (), ())"
    "rb_sha256 ?E x = replicate 64 (CHR ''a'')" "rb_clock ?E () = (Inr 2000, ())" "db_generations loaded_slots = db_generations slots" for g n x
    by (simp_all add: demo_env_of_def LEGACY_IDENTITIES_def loaded_slots_def returnA_def)
  from observe_run [of LEGACY_IDENTITIES ?E, unfolded b(1), OF loaded_slots_rows(1) _ b(5)] loaded_slots_rows(2)
  obtain ob where ob: "rb_observe LEGACY_IDENTITIES ?E (loaded_slots, ()) = (Inr ob, (loaded_slots, ()))" "cv_ready ob"
    "sn_candidate (cv_selection ob) = ''gen-b''"
    by (auto simp: slot_sync_def compare_times_def)
  have iris: "gs_listGraphIris ''jwb-standalone'' ''gen-b'' loaded_slots = (Inr [GLOBAL_GRAPH_IRI], loaded_slots)"
    using loaded_slots_rows(3) by (simp add: gs_listGraphIris_def readA_def)
  have same: "count_missing [(GLOBAL_GRAPH_IRI, \<lparr>df_canonicalOnly = [], df_generationOnly = []\<rparr>)]
      (missing_graphs [(GLOBAL_GRAPH_IRI, store_line @ [LF])] [GLOBAL_GRAPH_IRI]) = 0"
    "count_extra [(GLOBAL_GRAPH_IRI, \<lparr>df_canonicalOnly = [], df_generationOnly = []\<rparr>)] = 0"
    by (simp_all add: count_missing_def count_extra_def missing_graphs_def)
  have ok: "generations_ok (update_rows (is_generation ''jwb-standalone'' ''gen-b'') (mark_ready (replicate 64 (CHR ''a''))) (db_generations slots))"
    by code_simp
  obtain m where m: "validateStandaloneSnapshotManifest ?m = Inr m" using store_compared(3) by (auto simp: is_ok_iff)
  obtain v d' where run: "rb_validate LEGACY_IDENTITIES ?E ?m store_line (loaded_slots, ()) = (Inr v, (d', ()))" "vr_observed v = ob" "vr_valid v"
    using m ob iris store_compared same ok
    by (auto simp: rb_validate_def bindA_def thenA_def liftA_def requireR_def on_fst_def on_snd_def b returnA_def rb_judge_def
        update_table_def Let_def)
  have "exports ?E g (\<lambda>_. store_line)" for g
    by (auto simp: exports_def demo_env_of_def)
  from ready_exactly_when_equal [OF run(1), of "\<lambda>_ _. store_line", OF this]
  have "db_generations d' = update_rows (is_generation ''jwb-standalone'' ''gen-b'') (mark_ready (replicate 64 (CHR ''a''))) (db_generations slots)"
    by (auto simp: run(2,3) ob(3) b)
  with run(1,3) show ?thesis by blast
qed

theorem bootstrap_settles_witness:
  "\<exists>d'. bootstrapStandaloneJwb ''oxigraph'' None None None empty_db = (Inr LEGACY_IDENTITIES, d') \<and>
     settled_on LEGACY_IDENTITIES ''gen-a'' d' \<and> map gr_id (db_generations d') = [''gen-a'', ''gen-b'']"
proof -
  have "unused_identities LEGACY_IDENTITIES empty_db" "legacyOrInstanceIdentities None None None = Inr LEGACY_IDENTITIES"
    "List.member PROVIDER_BACKENDS ''oxigraph''" by code_simp+
  from bootstrap_settles [OF this] obtain d' where
    d: "bootstrapStandaloneJwb ''oxigraph'' None None None empty_db = (Inr LEGACY_IDENTITIES, d')" "settled_on LEGACY_IDENTITIES ''gen-a'' d'"
    by blast
  have "map gr_id (db_generations (snd (bootstrapStandaloneJwb ''oxigraph'' None None None empty_db))) = [''gen-a'', ''gen-b'']"
    by code_simp
  with d show ?thesis by simp
qed

section \<open>What a rebuild does not check\<close>

text \<open>
  A rebuild does not look for a pending promotion.  When one was interrupted before it moved the pointer,
  the rebuild resets the slot the promotion is about to switch to; resumed, the promotion moves the
  pointer to the emptied slot, and then cannot be completed.
\<close>

definition interrupted_promotion :: control_db where
  "interrupted_promotion = fst (snd (sc_promote LEGACY_IDENTITIES sees_all ''PROMOTE'' (Some ''BEFORE_POINTER_CAS'') (slots, ())))"

definition rebuilt_meanwhile :: control_db where
  "rebuilt_meanwhile = fst (snd (rb_load LEGACY_IDENTITIES (demo_env_of False) (snapshot_manifest_value ''jwb-standalone'' 0) []
     (interrupted_promotion, ())))"

definition resumed_promotion :: "(journal \<times> bool) result \<times> control_db \<times> unit" where
  "resumed_promotion = sc_promote LEGACY_IDENTITIES sees_all ''PROMOTE'' None (rebuilt_meanwhile, ())"

lemma rebuild_breaks_promotion:
  "fst resumed_promotion = Inl ''PROMOTION_GENERATION_CONFLICT''"
  "map pt_generation (db_pointers (fst (snd resumed_promotion))) = [''gen-b'']"
  "map gr_state (db_generations (fst (snd resumed_promotion))) = [''SERVING'', ''LOADING'']"
  by code_simp+

text \<open>The source that a manifest names is not compared with the source that is rebuilt.\<close>

lemma foreign_snapshot_loaded:
  "is_ok (fst (rb_load LEGACY_IDENTITIES (demo_env_of True)
     (snapshot_manifest_value ''custom-wikibase.00000000-0000-4000-8000-000000000002'' (length demo_revision_rdf)) demo_revision_rdf (slots, ())))"
  by code_simp

end
