(* ===== verification/Spec2Isabelle.thy ===== *)
theory Spec2Isabelle
  imports SyncRebuild GenerationRebuild RdfBackendContract RdfPartition RdfCanonical SnapshotLoader Metrics
    CoordinatorDeletion CoordinatorRecovery ServingReconciler StandalonePromotion RuntimeConfig GenerationSync
    QueryRouter MigrationRunner LocalComposeDriver ControlPlane EntitySource DifferenceInventory StandaloneRebuild
begin

text \<open>
  A verification library for custom-wikibase, the synchronization of a Wikibase with RDF query services
  and the control of the generations of their data.  Paths are those of the repository.

  \<^bold>\<open>The program.\<close>  A worker (\<open>apps/rdf-sync-worker\<close>) reads the change log of the wiki, fetches the RDF of
  each changed entity at its revision, writes it to the entity's named graph in a triple store and moves a
  cursor.  The data exist in generations: one serves, others are staged from a snapshot, caught up and
  promoted.  A PostgreSQL database holds the registry of the generations, the serving pointer of each query
  service, the state of synchronization and the journals.  Two deployments use it: a standalone one with two
  slots, and one on Kubernetes in which a coordinator (\<open>apps/rdf-generation-coordinator\<close>) creates,
  promotes and deletes generations.  A router (\<open>apps/query-router\<close>) answers public queries from the
  generation that the pointer names.

  \<^bold>\<open>How it is modelled.\<close>  Every function is translated with its guards, early returns and errors.  A thrown
  error is \<open>Inl\<close> of its message; a method with effects is an \<open>action\<close>, which returns its result and the
  state it leaves, so that the writes before an exception stay (\<open>Prelude\<close>).  Code outside the repository
  (network, triple stores, Kubernetes and Docker, file system, clocks, random numbers, hashes, URL parsing)
  is a parameter, usually a record of actions on an arbitrary world \<open>'w\<close>, each of which may fail at
  any call.  Where a property relies on documented behaviour of such code, a predicate states it as a
  hypothesis and a witness gives an instance: \<open>exports\<close> of a store, \<open>lists_pages\<close> of the change
  log of MediaWiki, \<open>reads_log\<close> of a change source, \<open>traced\<close> of the platform's \<open>fetch\<close>.

  \<^bold>\<open>The language.\<close>
  \<^item> \<open>Prelude\<close>: results, actions and their combinators (\<open>bindA\<close>, \<open>catchA\<close>, \<open>finallyA\<close>,
    \<open>transactionA\<close>), weakest preconditions (\<open>wp_simps\<close>) and the frame rules (\<open>keeps_intros\<close>,
    \<open>moves_intros\<close>, \<open>atomic_intros\<close>) that carry the component proofs.
  \<^item> \<open>JsRegex\<close>: regular expressions as terms, the backtracking matcher of the language, and the proof that
    it accepts exactly the language of the expression.  \<open>Identifiers\<close>: the expressions that the
    components share, each with the plain description of what it accepts.
  \<^item> \<open>JsValue\<close>, \<open>JsNumber\<close>, \<open>JsDate\<close>, \<open>DateText\<close>: untyped values, \<open>Number\<close>, \<open>Date.parse\<close> and
    \<open>toISOString\<close>.  \<open>UrlParams\<close>: search parameters and headers of the platform.

  \<^bold>\<open>Synchronization.\<close>
  \<^item> \<open>Protocol\<close> (\<open>packages/rdf-sync/src/protocol.js\<close>): cursors, event classes, the revision fence and the
    update protocol, which moves the fence last.
  \<^item> \<open>SyncInterface\<close>: the repository contract, locale \<open>sync_repository\<close>.  \<open>SyncState\<close>
    (\<open>packages/rdf-sync/src/state.js\<close>) interprets it as \<open>memory\<close>, \<open>GenerationSync\<close>
    (\<open>services/rdf-sync/src/postgres-generation-sync-repository.js\<close>) as \<open>postgres\<close>.
  \<^item> \<open>SyncEngine\<close> (\<open>services/rdf-sync/src/sync-engine.js\<close>): the engine.  \<open>SyncSafety\<close>: what it promises over
    any repository of the contract, in locale \<open>sync_environment\<close>.  \<open>SyncWorld\<close>: the engine with its
    repository, the metrics and an arbitrary environment, interpreted as \<open>on_memory\<close>.
    \<open>SyncRebuild\<close>: the rebuild of a source.
  \<^item> \<open>EntitySource\<close> (\<open>trusted-mediawiki-url.js\<close>, \<open>entity-rdf-fetcher.js\<close>,
    \<open>mediawiki-change-source.js\<close>, \<open>mediawiki-lifecycle-resolver.js\<close> of \<open>services/rdf-sync/src\<close>): reading
    the wiki, with the record of every request and its redirect mode.
  \<^item> \<open>SparqlBackend\<close> (\<open>services/rdf-backends/src/sparql-http-backend.js\<close>) and \<open>RdfBackendContract\<close>
    (\<open>packages/rdf-domain/src/\<close>, \<open>services/rdf-backends/src/profiles.js\<close>): the triple store.
  \<^item> \<open>Metrics\<close>: the counters of the three processes.

  \<^bold>\<open>RDF.\<close>
  \<^item> \<open>RdfLines\<close>, \<open>Normalizer\<close> (\<open>canonical-rdf-normalizer.js\<close>), \<open>RdfPartition\<close>
    (\<open>dataset-partition.js\<close>, \<open>entity-partitioner.js\<close>), \<open>RdfCanonical\<close> (\<open>rdf-canonicalization.js\<close>):
    normal form, division into graphs, and comparison up to the names of blank nodes.  The blank nodes of the
    comparison are what its expression finds in the text; \<open>plain_graph\<close> says when this is right.
  \<^item> \<open>SnapshotLoader\<close> (\<open>generation-dataset-loader.js\<close>): loading a dump into an empty backend.
  \<^item> \<open>DifferenceInventory\<close> (\<open>scripts/jwb-lib.mjs\<close>, \<open>jwb-m9c-inventory.mjs\<close>, \<open>jwb-m3-lib.mjs\<close>):
    the comparison of the exports of the wiki.

  \<^bold>\<open>Generations and the control database.\<close>
  \<^item> \<open>Generation\<close> (\<open>packages/rdf-sync/src/generation.js\<close>), \<open>GenerationBackend\<close> and \<open>GenerationRebuild\<close>
    (\<open>generation-rebuild-coordinator.js\<close>): the blue/green backend in memory, and staging, catch-up and
    cutover on it.
  \<^item> \<open>ControlDb\<close> (\<open>packages/jwb-database/migrations\<close>): the tables and constraints that the lifecycle uses,
    and the statements on them.
  \<^item> \<open>ServingPointer\<close> (\<open>postgres-serving-pointer-repository.js\<close>): promotion and rollback of the pointer.
    \<open>StandalonePromotion\<close> (\<open>standalone-promotion-coordinator.js\<close>, \<open>instance-identities.js\<close>):
    the journalled promotion between two slots, its abstract switch, and the states that a killed process
    can leave (\<open>run_lives\<close>).  \<open>StandaloneRebuild\<close> (\<open>standalone-rebuild-coordinator.js\<close>,
    \<open>standalone-bootstrap.js\<close>), \<open>StandaloneRuntime\<close> (manifest, provider, backend, runtime contract).
  \<^item> \<open>CoordinatorRepository\<close> (\<open>postgres-generation-coordinator-repository.js\<close>), \<open>CoordinatorSafety\<close> and
    \<open>CoordinatorDeletion\<close>: leases, fences, retirement and deletion.  Locale \<open>repository_frame\<close>
    lifts a relation that every operation keeps to all sequences of them; it is interpreted as \<open>fences\<close>,
    \<open>attempts\<close> and \<open>retirement\<close>.
  \<^item> \<open>GenerationDriver\<close>: what the coordinator asks of a driver, locale \<open>driver_contract\<close>;
    \<open>KubernetesDriver\<close> (\<open>kubernetes-generation-driver.js\<close>) interprets it as \<open>kubernetes\<close>;
    \<open>LocalComposeDriver\<close> (\<open>local-compose-generation-driver.js\<close>).
  \<^item> \<open>CoordinatorRuntime\<close> (\<open>generation-coordinator-runtime.js\<close>): the state machine of rebuild and retirement,
    with the edges \<open>coordinator_edge\<close>.  \<open>CoordinatorRecovery\<close>: it together with the Kubernetes driver.
  \<^item> \<open>ServingReconciler\<close> (\<open>serving-reconciler.js\<close>, \<open>generation-retirement-coordinator.js\<close>), \<open>ControlPlane\<close>
    (errors, schema readiness, the promotion command), \<open>MigrationRunner\<close> (\<open>packages/jwb-database/src\<close>),
    \<open>RuntimeConfig\<close> (the four \<open>config.js\<close>).
  \<^item> \<open>QueryPolicy\<close>, \<open>GenerationResolver\<close>, \<open>QueryRouter\<close> (\<open>apps/query-router/src\<close>): the public query path.

  \<^bold>\<open>What is proved.\<close>  C1 to C5, C9 and C10: the cursor and the rows of the engine under failures, crashes and
  gaps, in any environment.  C11: the same step in the database.  C6 to C8 and C17 to C20: the two slots
  and their pointer through rebuilds, promotions, rollbacks and deaths of the process.  C16, C26, C27 and
  C34: the blue/green backend.  C21 to C25, C30 and C40: the coordinator, its fences and its deletions.
  C12 to C15, C28, C29 and C31 to C33: the store, the router, the wiki, the published contract, migrations,
  protocol, configuration and cleanup.  C35 to C39: normal form, partition and comparison of RDF.  Lemmas and
  theorems without a number record behaviour of single operations, among them where the code does not do
  what it means to (for instance \<open>rollback_after_delete_breaks_serving\<close>,
  \<open>canonical_form_depends_on_labels\<close>, \<open>second_service_left_behind\<close>, \<open>comparison_hides_service\<close>).

  \<^bold>\<open>Bounds and fuel.\<close>  Loops of the code that end are recursive functions with their termination proved.  The
  loops that need not end have fuel: the catch-up of \<open>GenerationRebuild\<close> runs as long as the source
  delivers events, and C34 says how much fuel suffices over a finite log; the loop of the coordinator is
  taken for any number of rounds (\<open>operations_round\<close>).  \<open>rx_find_all\<close> gets one unit of fuel more than the
  text is long, and every match it continues after consumes a character.  \<open>refine\<close> makes at
  most the rounds of the code's own bound, one more than there are nodes; \<open>SCAN_PAGES\<close> is the
  code's bound of ten pages.

  \<^bold>\<open>Assumptions.\<close>  Numbers of revisions, changes and versions are unbounded integers; JavaScript is exact on
  them below \<open>2^53\<close>.  Characters are the codes 0 to 255, ordered as code units.  Dates are read in the ISO
  forms that the system exchanges.  A transaction is atomic and locks the row it decides on, so transactions
  are steps; single statements between them are steps of their own.

  \<^bold>\<open>Not modelled.\<close>  The main programs, servers, health endpoints and loggers, which connect the parts (of
  the router's main program the published contract is modelled); the command line programs besides the
  promotion command; the repository \<open>postgres-sync-repository.js\<close> of the older schema, which only its test
  uses; the snapshot producer and the scripts for qualification, release and capture, which run other
  programs; and the deployment files.
\<close>

end
